(* ===== verification/Prelude.thy ===== *)
theory Prelude
  imports Main "HOL-Library.Word"
begin

unbundle bit_operations_syntax

text \<open>
  Shared vocabulary of the development: the machine integers of the Rust sources, the
  result-carrying state steps that model functions using the \<^verbatim>\<open>?\<close> operator on a mutable
  receiver, little- and big-endian octet encodings of words, slice updates, and the lookup and
  update patterns of the bounded \<^verbatim>\<open>heapless\<close> tables.
\<close>

section \<open>Machine integers\<close>

text \<open>
  \<^verbatim>\<open>u8\<close>, \<^verbatim>\<open>u16\<close>, \<^verbatim>\<open>u32\<close> and \<^verbatim>\<open>u64\<close> are words of their width. \<^verbatim>\<open>usize\<close> values (slice
  lengths and cursor positions) are natural numbers: a Rust slice never holds more than
  \<^verbatim>\<open>isize::MAX\<close> octets, so sums of positions and lengths inside a buffer do not overflow.
\<close>

type_synonym u8 = "8 word"
type_synonym u16 = "16 word"
type_synonym u32 = "32 word"
type_synonym u64 = "64 word"
type_synonym bytes = "u8 list"

definition saturating_add :: "'a::len word \<Rightarrow> 'a word \<Rightarrow> 'a word" where
  "saturating_add a b = (if unat a + unat b < 2 ^ LENGTH('a) then a + b else - 1)"

definition saturating_sub :: "'a::len word \<Rightarrow> 'a word \<Rightarrow> 'a word" where
  "saturating_sub a b = (if b \<le> a then a - b else 0)"

definition saturating_mul :: "'a::len word \<Rightarrow> 'a word \<Rightarrow> 'a word" where
  "saturating_mul a b = (if unat a * unat b < 2 ^ LENGTH('a) then a * b else - 1)"

named_theorems unat_simps \<open>reading saturating word arithmetic as natural numbers\<close>

lemma unat_max_word [unat_simps]: "unat (- 1 :: 'a::len word) = 2 ^ LENGTH('a) - 1"
  by transfer (simp add: mask_eq_exp_minus_1 nat_diff_distrib nat_power_eq)

lemma unat_saturating_add [unat_simps]:
  "unat (saturating_add a b :: 'a::len word) = min (unat a + unat b) (2 ^ LENGTH('a) - 1)"
proof (cases "unat a + unat b < 2 ^ LENGTH('a)")
  case True
  then show ?thesis by (auto simp: saturating_add_def unat_word_ariths min_def)
next
  case False
  then show ?thesis by (auto simp: saturating_add_def unat_max_word min_def)
qed

lemma unat_saturating_sub [unat_simps]:
  "unat (saturating_sub a b) = unat a - unat b"
  by (auto simp: saturating_sub_def word_le_nat_alt unat_sub_if_size)

lemma unat_saturating_mul [unat_simps]:
  "unat (saturating_mul a b :: 'a::len word) = min (unat a * unat b) (2 ^ LENGTH('a) - 1)"
proof (cases "unat a * unat b < 2 ^ LENGTH('a)")
  case True
  then show ?thesis by (auto simp: saturating_mul_def unat_word_ariths min_def)
next
  case False
  then have "2 ^ LENGTH('a) - 1 < unat a * unat b"
    using nat_neq_iff by fastforce
  with False show ?thesis by (simp add: saturating_mul_def unat_max_word min_def)
qed

section \<open>Little-endian octets\<close>

definition le_bytes :: "nat \<Rightarrow> 'a::len word \<Rightarrow> bytes" where
  "le_bytes n w = map (\<lambda>i. ucast (drop_bit (8 * i) w)) [0..<n]"

definition le_word :: "bytes \<Rightarrow> 'a::len word" where
  "le_word bs = foldr (\<lambda>b acc. push_bit 8 acc OR ucast b) bs 0"

lemma length_le_bytes [simp]: "length (le_bytes n w) = n"
  by (simp add: le_bytes_def)

lemma le_word_Nil [simp]: "le_word [] = 0"
  by (simp add: le_word_def)

lemma le_word_Cons: "le_word (b # bs) = push_bit 8 (le_word bs) OR ucast b"
  by (simp add: le_word_def)

lemma bit_le_word:
  "bit (le_word bs :: 'a::len word) k \<longleftrightarrow>
     k < LENGTH('a) \<and> k div 8 < length bs \<and> bit (bs ! (k div 8)) (k mod 8)"
proof (induction bs arbitrary: k)
  case Nil
  then show ?case by simp
next
  case (Cons b bs)
  show ?case
  proof (cases "k < 8")
    case True
    then show ?thesis by (auto simp: le_word_Cons bit_simps)
  next
    case False
    then obtain j where k: "k = 8 + j" by (metis le_Suc_ex not_less)
    have "(8 + j) div 8 = Suc (j div 8)" by simp
    moreover have "\<not> bit b k" using False by (auto dest: bit_imp_le_length)
    ultimately show ?thesis using Cons.IH [of j] by (auto simp: k le_word_Cons bit_simps)
  qed
qed

lemma le_word_le_bytes:
  assumes "LENGTH('a::len) \<le> 8 * n"
  shows "le_word (le_bytes n (w :: 'a word)) = w"
proof (rule bit_word_eqI)
  fix k assume k: "k < LENGTH('a)"
  then have "k div 8 < n" using assms by auto
  moreover have "8 * (k div 8) + k mod 8 = k" by simp
  ultimately show "bit (le_word (le_bytes n w) :: 'a word) k = bit w k"
    using k by (auto simp: bit_le_word le_bytes_def bit_simps)
qed

lemma le_bytes_le_word:
  assumes "8 * length bs \<le> LENGTH('a::len)"
  shows "le_bytes (length bs) (le_word bs :: 'a word) = bs"
proof (rule nth_equalityI)
  show "length (le_bytes (length bs) (le_word bs :: 'a word)) = length bs" by simp
next
  fix i assume "i < length (le_bytes (length bs) (le_word bs :: 'a word))"
  then have i: "i < length bs" by simp
  show "le_bytes (length bs) (le_word bs :: 'a word) ! i = bs ! i"
  proof (rule bit_word_eqI)
    fix k assume k: "k < LENGTH(8)"
    then have "(8 * i + k) div 8 = i" "(8 * i + k) mod 8 = k" "8 * i + k < LENGTH('a)"
      using i assms by auto
    with i k show "bit (le_bytes (length bs) (le_word bs :: 'a word) ! i) k = bit (bs ! i) k"
      by (auto simp: le_bytes_def bit_simps bit_le_word)
  qed
qed

definition be_bytes :: "nat \<Rightarrow> 'a::len word \<Rightarrow> bytes" where
  "be_bytes n w = rev (le_bytes n w)"

lemma length_be_bytes [simp]: "length (be_bytes n w) = n"
  by (simp add: be_bytes_def)

text \<open>Evaluation of the list primitives on concrete arguments, for worked examples.\<close>

named_theorems eval_simps \<open>evaluation on concrete arguments\<close>

lemma replicate_eval [eval_simps]: "replicate (numeral k) x = x # replicate (pred_numeral k) x"
  by (simp add: numeral_eq_Suc)

lemma le_bytes_eval [eval_simps]:
  "le_bytes (Suc 0) w = [ucast w]"
  "le_bytes 2 w = [ucast w, ucast (drop_bit 8 w)]"
  "le_bytes 4 w = [ucast w, ucast (drop_bit 8 w), ucast (drop_bit 16 w), ucast (drop_bit 24 w)]"
  "le_bytes 8 w = [ucast w, ucast (drop_bit 8 w), ucast (drop_bit 16 w), ucast (drop_bit 24 w),
     ucast (drop_bit 32 w), ucast (drop_bit 40 w), ucast (drop_bit 48 w), ucast (drop_bit 56 w)]"
  by (simp_all add: le_bytes_def upt_rec)

declare be_bytes_def [eval_simps]

section \<open>Registers that absorb octets\<close>

text \<open>
  A checksum register that is advanced octet by octet by a step injective in the register and in
  the octet: no two inputs that differ in one place leave the same register.
\<close>

lemma foldl_register_inj:
  assumes "\<And>x c d. step c x = step d x \<Longrightarrow> c = d"
  shows "foldl step c xs = foldl step d xs \<Longrightarrow> c = d"
proof (induction xs arbitrary: c d)
  case (Cons x xs)
  then have "step c x = step d x" by simp
  then show ?case by (rule assms)
qed simp

lemma foldl_single_change:
  assumes reg: "\<And>x c d. step c x = step d x \<Longrightarrow> c = d"
    and octet: "\<And>c x y. step c x = step c y \<Longrightarrow> x = y"
    and i: "i < length xs"
    and eq: "foldl step c (xs[i := b]) = foldl step c xs"
  shows "b = xs ! i"
proof -
  define k where "k = foldl step c (take i xs)"
  have "foldl step c (take i xs @ b # drop (Suc i) xs) =
        foldl step c (take i xs @ xs ! i # drop (Suc i) xs)"
    using eq unfolding id_take_nth_drop [OF i, symmetric] upd_conv_take_nth_drop [OF i] .
  then have "foldl step (step k b) (drop (Suc i) xs) = foldl step (step k (xs ! i)) (drop (Suc i) xs)"
    by (simp add: k_def)
  then have "step k b = step k (xs ! i)" 
    by (rule foldl_register_inj [of step, rotated]) (rule reg)
  then show ?thesis by (rule octet)
qed

lemma ucast_xor_cancel:
  assumes "LENGTH('a::len) \<le> LENGTH('b::len)"
    and "c XOR (ucast (x :: 'a word) :: 'b word) = c XOR ucast y"
  shows "x = y"
proof (rule bit_word_eqI)
  fix n assume n: "n < LENGTH('a)"
  have "bit (c XOR (ucast x :: 'b word)) n = bit (c XOR (ucast y :: 'b word)) n"
    using assms(2) by simp
  with n assms(1) show "bit x n = bit y n" by (auto simp: bit_simps)
qed

lemma xor_right_cancel: "a XOR c = b XOR c \<longleftrightarrow> a = (b :: 'a::len word)"
proof
  assume "a XOR c = b XOR c"
  then have "(a XOR c) XOR c = (b XOR c) XOR c" by simp
  then show "a = b" by (simp add: xor.assoc)
qed simp

section \<open>Results and steps on a mutable receiver\<close>

text \<open>
  A Rust function returning \<^verbatim>\<open>Result<T, E>\<close> is a value of the sum type, \<^term>\<open>Inl\<close> the error.
  A method on \<^verbatim>\<open>&mut self\<close> that returns a result is a step: it also yields the receiver it
  leaves behind, on the error path too. \<open>step_try\<close> and \<open>res_try\<close> are the \<^verbatim>\<open>?\<close> operator.
\<close>

type_synonym ('s, 'e, 'a) step = "'s \<Rightarrow> ('e + 'a) \<times> 's"

definition step_ok :: "'a \<Rightarrow> ('s, 'e, 'a) step" where
  "step_ok a = (\<lambda>s. (Inr a, s))"

definition step_err :: "'e \<Rightarrow> ('s, 'e, 'a) step" where
  "step_err e = (\<lambda>s. (Inl e, s))"

definition step_try :: "('s, 'e, 'a) step \<Rightarrow> ('a \<Rightarrow> ('s, 'e, 'b) step) \<Rightarrow> ('s, 'e, 'b) step" where
  "step_try m f = (\<lambda>s. case m s of (Inl e, s') \<Rightarrow> (Inl e, s') | (Inr a, s') \<Rightarrow> f a s')"

definition step_map :: "('a \<Rightarrow> 'b) \<Rightarrow> ('s, 'e, 'a) step \<Rightarrow> ('s, 'e, 'b) step" where
  "step_map f m = step_try m (\<lambda>a. step_ok (f a))"

definition res_try :: "'e + 'a \<Rightarrow> ('a \<Rightarrow> 'e + 'b) \<Rightarrow> 'e + 'b" where
  "res_try r f = (case r of Inl e \<Rightarrow> Inl e | Inr a \<Rightarrow> f a)"

definition ok_or :: "'a option \<Rightarrow> 'e \<Rightarrow> 'e + 'a" where
  "ok_or x e = (case x of None \<Rightarrow> Inl e | Some a \<Rightarrow> Inr a)"

definition map_err :: "('e \<Rightarrow> 'f) \<Rightarrow> 'e + 'a \<Rightarrow> 'f + 'a" where
  "map_err g r = (case r of Inl e \<Rightarrow> Inl (g e) | Inr a \<Rightarrow> Inr a)"

lemma step_ok_apply [simp]: "step_ok a s = (Inr a, s)"
  by (simp add: step_ok_def)

lemma step_err_apply [simp]: "step_err e s = (Inl e, s)"
  by (simp add: step_err_def)

lemma step_try_Inl [simp]: "m s = (Inl e, s') \<Longrightarrow> step_try m f s = (Inl e, s')"
  by (simp add: step_try_def)

lemma step_try_Inr [simp]: "m s = (Inr a, s') \<Longrightarrow> step_try m f s = f a s'"
  by (simp add: step_try_def)

lemma step_try_ok [simp]: "step_try (step_ok a) f = f a"
  by (simp add: step_try_def step_ok_def)

lemma step_try_step_ok [simp]: "step_try m step_ok = m"
  by (rule ext) (auto simp: step_try_def split: prod.splits sum.splits)

lemma step_try_assoc: "step_try (step_try m f) g = step_try m (\<lambda>a. step_try (f a) g)"
  by (rule ext) (auto simp: step_try_def split: prod.splits sum.splits)

lemma step_try_cases:
  obtains (Err) e s' where "m s = (Inl e, s')" "step_try m f s = (Inl e, s')"
        | (Ok) a s' where "m s = (Inr a, s')" "step_try m f s = f a s'"
  by (cases "m s"; cases "fst (m s)") auto

lemma step_map_Inr [simp]: "m s = (Inr a, s') \<Longrightarrow> step_map f m s = (Inr (f a), s')"
  by (simp add: step_map_def)

lemma step_map_Inl [simp]: "m s = (Inl e, s') \<Longrightarrow> step_map f m s = (Inl e, s')"
  by (simp add: step_map_def)

lemma res_try_simps [simp]: "res_try (Inl e) f = Inl e" "res_try (Inr a) f = f a"
  by (simp_all add: res_try_def)

lemma ok_or_simps [simp]: "ok_or None e = Inl e" "ok_or (Some a) e = Inr a"
  by (simp_all add: ok_or_def)

lemma map_err_simps [simp]: "map_err g (Inl e) = Inl (g e)" "map_err g (Inr a) = Inr a"
  by (simp_all add: map_err_def)

lemma res_try_eq_Inr: "res_try r f = Inr b \<longleftrightarrow> (\<exists>a. r = Inr a \<and> f a = Inr b)"
  by (cases r) auto

section \<open>Slices\<close>

text \<open>\<^verbatim>\<open>buf.get(a..b)\<close> and \<^verbatim>\<open>buf.get_mut(a..b)\<close> followed by \<^verbatim>\<open>copy_from_slice\<close>.\<close>

definition slice :: "'a list \<Rightarrow> nat \<Rightarrow> nat \<Rightarrow> 'a list option" where
  "slice xs a b = (if a \<le> b \<and> b \<le> length xs then Some (take (b - a) (drop a xs)) else None)"

definition overwrite :: "'a list \<Rightarrow> nat \<Rightarrow> 'a list \<Rightarrow> 'a list" where
  "overwrite xs a ys = take a xs @ ys @ drop (a + length ys) xs"

lemma slice_eq_Some:
  "slice xs a b = Some ys \<longleftrightarrow> a \<le> b \<and> b \<le> length xs \<and> ys = take (b - a) (drop a xs)"
  by (auto simp: slice_def)

lemma length_overwrite [simp]:
  "a + length ys \<le> length xs \<Longrightarrow> length (overwrite xs a ys) = length xs"
  by (simp add: overwrite_def)

lemma take_overwrite: "b \<le> a \<Longrightarrow> a \<le> length xs \<Longrightarrow> take b (overwrite xs a ys) = take b xs"
  by (simp add: overwrite_def)

lemma take_overwrite_end:
  "a \<le> length xs \<Longrightarrow> take (a + length ys) (overwrite xs a ys) = take a xs @ ys"
  by (simp add: overwrite_def)

lemma drop_overwrite:
  "a + length ys \<le> length xs \<Longrightarrow> drop (a + length ys) (overwrite xs a ys) = drop (a + length ys) xs"
  by (simp add: overwrite_def)

lemma slice_overwrite:
  "a + length ys \<le> length xs \<Longrightarrow> slice (overwrite xs a ys) a (a + length ys) = Some ys"
  by (simp add: overwrite_def slice_def)

lemma overwrite_overwrite:
  assumes "a + length ys \<le> length xs"
  shows "overwrite (overwrite xs a ys) (a + length ys) zs = overwrite xs a (ys @ zs)"
  using assms by (simp add: overwrite_def ac_simps)

lemma overwrite_Nil [simp]: "overwrite xs a [] = xs"
  by (simp add: overwrite_def)

section \<open>Bounded tables\<close>

text \<open>
  The \<^verbatim>\<open>heapless\<close> vectors of the sources: a push into a full vector hands the element back,
  \<^verbatim>\<open>iter_mut().find(..)\<close> followed by an assignment changes the first match only, and
  \<^verbatim>\<open>swap_remove\<close> moves the last element into the hole.
\<close>

definition vec_push :: "nat \<Rightarrow> 'a list \<Rightarrow> 'a \<Rightarrow> 'a + 'a list" where
  "vec_push n xs x = (if length xs < n then Inr (xs @ [x]) else Inl x)"

fun update_first :: "('a \<Rightarrow> bool) \<Rightarrow> ('a \<Rightarrow> 'a) \<Rightarrow> 'a list \<Rightarrow> 'a list" where
  "update_first P f [] = []"
| "update_first P f (x # xs) = (if P x then f x # xs else x # update_first P f xs)"

fun position :: "('a \<Rightarrow> bool) \<Rightarrow> 'a list \<Rightarrow> nat option" where
  "position P [] = None"
| "position P (x # xs) = (if P x then Some 0 else map_option Suc (position P xs))"

definition swap_remove :: "nat \<Rightarrow> 'a list \<Rightarrow> 'a list" where
  "swap_remove i xs = butlast (xs[i := last xs])"

lemma length_update_first [simp]: "length (update_first P f xs) = length xs"
  by (induction xs) auto

lemma map_update_first:
  "(\<And>x. P x \<Longrightarrow> k (f x) = k x) \<Longrightarrow> map k (update_first P f xs) = map k xs"
  by (induction xs) auto

lemma find_update_first:
  "(\<And>x. P x \<Longrightarrow> P (f x)) \<Longrightarrow> List.find P (update_first P f xs) = map_option f (List.find P xs)"
  by (induction xs) auto

lemma find_update_first_other:
  "(\<And>x. P x \<Longrightarrow> \<not> Q x) \<Longrightarrow> (\<And>x. P x \<Longrightarrow> \<not> Q (f x)) \<Longrightarrow>
     List.find Q (update_first P f xs) = List.find Q xs"
  by (induction xs) auto

lemma update_first_none: "List.find P xs = None \<Longrightarrow> update_first P f xs = xs"
  by (induction xs) (auto split: if_splits)

lemma find_append:
  "List.find P (xs @ ys) = (case List.find P xs of None \<Rightarrow> List.find P ys | Some x \<Rightarrow> Some x)"
  by (induction xs) auto

lemma find_filter_neg: "List.find P (filter (\<lambda>x. \<not> P x) xs) = None"
  by (induction xs) auto

lemma find_filter_other:
  "(\<And>x. Q x \<Longrightarrow> R x) \<Longrightarrow> List.find Q (filter R xs) = List.find Q xs"
  by (induction xs) auto

lemma find_None_keys: "List.find (\<lambda>x. k x = a) xs = None \<longleftrightarrow> a \<notin> k ` set xs"
  by (induction xs) auto

lemma find_SomeD: "List.find P xs = Some x \<Longrightarrow> P x \<and> x \<in> set xs"
  by (induction xs) (auto split: if_splits)

lemma find_distinct_keys:
  "distinct (map k xs) \<Longrightarrow> x \<in> set xs \<Longrightarrow> List.find (\<lambda>y. k y = k x) xs = Some x"
  by (induction xs) auto

lemma set_update_first: "set (update_first P f xs) \<subseteq> set xs \<union> f ` {x \<in> set xs. P x}"
  by (induction xs) auto

lemma position_Some: "position P xs = Some i \<Longrightarrow> i < length xs \<and> P (xs ! i)"
  by (induction xs arbitrary: i) (auto split: if_splits)

lemma position_None: "position P xs = None \<longleftrightarrow> (\<forall>x \<in> set xs. \<not> P x)"
  by (induction xs) auto

lemma length_swap_remove: "i < length xs \<Longrightarrow> length (swap_remove i xs) = length xs - 1"
  by (simp add: swap_remove_def)

end
