(* ===== verification/Codec.thy ===== *)
theory Codec
  imports Prelude
begin

text \<open>
  The bounded codec of \<^verbatim>\<open>panweave-codec\<close>: the error type (\<^verbatim>\<open>error.rs\<close>), the read cursor
  (\<^verbatim>\<open>reader.rs\<close>), the write cursor (\<^verbatim>\<open>writer.rs\<close>) and the \<^verbatim>\<open>Decode\<close> / \<^verbatim>\<open>Encode\<close> traits
  (\<^verbatim>\<open>lib.rs\<close>). The traits' promises are the locales \<open>decoder\<close> and \<open>wire_codec\<close>; the frame
  formats of the protocol layers interpret them.
\<close>

section \<open>Errors\<close>

datatype tlv_error =
    TlvTruncated
  | DuplicateTag u8
  | Malformed u8
  | NestedEncapsulation u8
  | Missing u8

datatype codec_error =
    Truncated nat nat
  | TrailingBytes nat
  | InvalidField string u32
  | ReservedBitsSet string
  | LengthMismatch string
  | BufferTooSmall nat nat
  | Unrepresentable string
  | Tlv_err tlv_error
  | Unsupported string

section \<open>The read cursor\<close>

record reader =
  r_buf :: bytes
  r_pos :: nat

type_synonym 'a decode = "(reader, codec_error, 'a) step"

definition r_new :: "bytes \<Rightarrow> reader" where
  "r_new b = \<lparr>r_buf = b, r_pos = 0\<rparr>"

definition r_remaining :: "reader \<Rightarrow> nat" where
  "r_remaining r = length (r_buf r) - r_pos r"

definition r_is_empty :: "reader \<Rightarrow> bool" where
  "r_is_empty r \<longleftrightarrow> r_remaining r = 0"

definition r_peek_rest :: "reader \<Rightarrow> bytes" where
  "r_peek_rest r = (case slice (r_buf r) (r_pos r) (length (r_buf r)) of None \<Rightarrow> [] | Some s \<Rightarrow> s)"

definition r_consumed :: "reader \<Rightarrow> bytes" where
  "r_consumed r = (case slice (r_buf r) 0 (r_pos r) of None \<Rightarrow> [] | Some s \<Rightarrow> s)"

definition r_take_rest :: "reader \<Rightarrow> bytes \<times> reader" where
  "r_take_rest r = (r_peek_rest r, r\<lparr>r_pos := length (r_buf r)\<rparr>)"

text \<open>
  The overflow branch of \<^verbatim>\<open>checked_add\<close> and the out-of-range branch of \<^verbatim>\<open>get\<close> return the same
  error; with natural-number positions only the second one remains.
\<close>

definition r_bytes :: "nat \<Rightarrow> bytes decode" where
  "r_bytes n r =
     (case slice (r_buf r) (r_pos r) (r_pos r + n) of
        Some s \<Rightarrow> (Inr s, r\<lparr>r_pos := r_pos r + n\<rparr>)
      | None \<Rightarrow> (Inl (Truncated n (r_remaining r)), r))"

definition r_array :: "nat \<Rightarrow> bytes decode" where
  "r_array n = step_try (r_bytes n) step_ok"

definition r_skip :: "nat \<Rightarrow> unit decode" where
  "r_skip n = step_map (\<lambda>_. ()) (r_bytes n)"

definition r_peek_u8 :: "reader \<Rightarrow> codec_error + u8" where
  "r_peek_u8 r = ok_or (if r_pos r < length (r_buf r) then Some (r_buf r ! r_pos r) else None)
                   (Truncated 1 0)"

definition r_u8 :: "u8 decode" where
  "r_u8 = step_map (\<lambda>b. b ! 0) (r_array 1)"

definition r_i8 :: "int decode" where
  "r_i8 = step_map sint r_u8"

definition r_u16_le :: "u16 decode" where
  "r_u16_le = step_map le_word (r_array 2)"

definition r_i16_le :: "int decode" where
  "r_i16_le = step_map (\<lambda>b. sint (le_word b :: u16)) (r_array 2)"

definition r_u24_le :: "u32 decode" where
  "r_u24_le = step_map (\<lambda>b. le_word [b ! 0, b ! 1, b ! 2, 0]) (r_array 3)"

definition r_u32_le :: "u32 decode" where
  "r_u32_le = step_map le_word (r_array 4)"

definition r_i32_le :: "int decode" where
  "r_i32_le = step_map (\<lambda>b. sint (le_word b :: u32)) (r_array 4)"

definition r_u64_le :: "u64 decode" where
  "r_u64_le = step_map le_word (r_array 8)"

definition r_i64_le :: "int decode" where
  "r_i64_le = step_map (\<lambda>b. sint (le_word b :: u64)) (r_array 8)"

text \<open>\<^verbatim>\<open>u32::try_from(width).unwrap_or(u32::MAX)\<close>.\<close>

definition u32_try_from :: "nat \<Rightarrow> u32" where
  "u32_try_from n = (if n < 2 ^ 32 then of_nat n else - 1)"

definition r_uint_le :: "nat \<Rightarrow> u64 decode" where
  "r_uint_le width =
     (if width = 0 \<or> 8 < width
      then step_err (InvalidField ''integer width'' (u32_try_from width))
      else step_map (\<lambda>s. foldl (\<lambda>v (i, b). v OR push_bit (8 * i) (ucast b)) 0 (enumerate 0 s))
             (r_bytes width))"

definition r_sub :: "nat \<Rightarrow> reader decode" where
  "r_sub n = step_map r_new (r_bytes n)"

section \<open>The write cursor\<close>

record writer =
  w_buf :: bytes
  w_pos :: nat

type_synonym encode = "(writer, codec_error, unit) step"

definition w_new :: "bytes \<Rightarrow> writer" where
  "w_new b = \<lparr>w_buf = b, w_pos = 0\<rparr>"

definition w_remaining :: "writer \<Rightarrow> nat" where
  "w_remaining w = length (w_buf w) - w_pos w"

definition w_capacity :: "writer \<Rightarrow> nat" where
  "w_capacity w = length (w_buf w)"

definition w_written :: "writer \<Rightarrow> bytes" where
  "w_written w = (case slice (w_buf w) 0 (w_pos w) of None \<Rightarrow> [] | Some s \<Rightarrow> s)"

text \<open>A reserved or patched range is handed out as its start and end offsets.\<close>

definition w_reserve :: "nat \<Rightarrow> (writer, codec_error, nat \<times> nat) step" where
  "w_reserve n w =
     (case slice (w_buf w) (w_pos w) (w_pos w + n) of
        Some _ \<Rightarrow> (Inr (w_pos w, w_pos w + n), w\<lparr>w_pos := w_pos w + n\<rparr>)
      | None \<Rightarrow> (Inl (BufferTooSmall n (w_remaining w)), w))"

definition w_patch :: "nat \<Rightarrow> nat \<Rightarrow> (writer, codec_error, nat \<times> nat) step" where
  "w_patch start len w =
     (if w_pos w < start + len then (Inl (BufferTooSmall (start + len) (w_pos w)), w)
      else case slice (w_buf w) start (start + len) of
             None \<Rightarrow> (Inl (BufferTooSmall len 0), w)
           | Some _ \<Rightarrow> (Inr (start, start + len), w))"

text \<open>\<^verbatim>\<open>copy_from_slice\<close> into a range that was handed out.\<close>

definition w_fill :: "nat \<times> nat \<Rightarrow> bytes \<Rightarrow> encode" where
  "w_fill rng src w = (Inr (), w\<lparr>w_buf := overwrite (w_buf w) (fst rng) src\<rparr>)"

definition w_bytes :: "bytes \<Rightarrow> encode" where
  "w_bytes src = step_try (w_reserve (length src)) (\<lambda>rng. w_fill rng src)"

definition w_u8 :: "u8 \<Rightarrow> encode" where
  "w_u8 v = w_bytes [v]"

definition w_i8 :: "int \<Rightarrow> encode" where
  "w_i8 v = w_bytes (le_bytes 1 (word_of_int v :: u8))"

definition w_u16_le :: "u16 \<Rightarrow> encode" where
  "w_u16_le v = w_bytes (le_bytes 2 v)"

definition w_i16_le :: "int \<Rightarrow> encode" where
  "w_i16_le v = w_bytes (le_bytes 2 (word_of_int v :: u16))"

definition w_u24_le :: "u32 \<Rightarrow> encode" where
  "w_u24_le v = (let b = le_bytes 4 v in w_bytes [b ! 0, b ! 1, b ! 2])"

definition w_u32_le :: "u32 \<Rightarrow> encode" where
  "w_u32_le v = w_bytes (le_bytes 4 v)"

definition w_i32_le :: "int \<Rightarrow> encode" where
  "w_i32_le v = w_bytes (le_bytes 4 (word_of_int v :: u32))"

definition w_u64_le :: "u64 \<Rightarrow> encode" where
  "w_u64_le v = w_bytes (le_bytes 8 v)"

definition w_i64_le :: "int \<Rightarrow> encode" where
  "w_i64_le v = w_bytes (le_bytes 8 (word_of_int v :: u64))"

definition w_uint_le :: "u64 \<Rightarrow> nat \<Rightarrow> encode" where
  "w_uint_le v width =
     (if width = 0 \<or> 8 < width
      then step_err (InvalidField ''integer width'' (u32_try_from width))
      else w_bytes (take width (le_bytes 8 v)))"

section \<open>The Decode and Encode traits\<close>

definition decode_exact :: "'a decode \<Rightarrow> bytes \<Rightarrow> codec_error + 'a" where
  "decode_exact dec input =
     (case dec (r_new input) of
        (Inl e, _) \<Rightarrow> Inl e
      | (Inr v, r) \<Rightarrow> if r_is_empty r then Inr v else Inl (TrailingBytes (r_remaining r)))"

text \<open>The output slice is returned beside the result: the encoder writes into it in place.\<close>

definition encode_to_slice :: "('a \<Rightarrow> encode) \<Rightarrow> 'a \<Rightarrow> bytes \<Rightarrow> (codec_error + nat) \<times> bytes" where
  "encode_to_slice enc x out =
     (case enc x (w_new out) of
        (Inl e, w) \<Rightarrow> (Inl e, w_buf w)
      | (Inr _, w) \<Rightarrow> (Inr (w_pos w), w_buf w))"

section \<open>Cursor safety\<close>

text \<open>
  \<open>r_ok\<close> is the cursor invariant; a safe decoder keeps it, never moves backwards and never
  changes the input, whatever its result.
\<close>

definition r_ok :: "reader \<Rightarrow> bool" where
  "r_ok r \<longleftrightarrow> r_pos r \<le> length (r_buf r)"

definition cursor_safe :: "'a decode \<Rightarrow> bool" where
  "cursor_safe d \<longleftrightarrow>
     (\<forall>r. r_ok r \<longrightarrow> r_buf (snd (d r)) = r_buf r \<and> r_pos r \<le> r_pos (snd (d r)) \<and> r_ok (snd (d r)))"

named_theorems safe_intros \<open>cursor safety of the decoders, by construction\<close>

lemma r_ok_new [simp]: "r_ok (r_new b)"
  by (simp add: r_ok_def r_new_def)

lemma cursor_safe_ok [safe_intros]: "cursor_safe (step_ok a)"
  by (simp add: cursor_safe_def)

lemma cursor_safe_err [safe_intros]: "cursor_safe (step_err e)"
  by (simp add: cursor_safe_def)

lemma cursor_safe_try [safe_intros]:
  assumes "cursor_safe m" and "\<And>a. cursor_safe (f a)"
  shows "cursor_safe (step_try m f)"
  unfolding cursor_safe_def
proof (intro allI impI)
  fix r assume r: "r_ok r"
  show "r_buf (snd (step_try m f r)) = r_buf r \<and> r_pos r \<le> r_pos (snd (step_try m f r))
        \<and> r_ok (snd (step_try m f r))"
  proof (cases rule: step_try_cases [of m r f])
    case (Err e s')
    with assms(1) r show ?thesis by (auto simp: cursor_safe_def)
  next
    case (Ok a s')
    with assms(1) r have "r_buf s' = r_buf r" "r_pos r \<le> r_pos s'" "r_ok s'"
      unfolding cursor_safe_def by (metis snd_conv)+
    moreover with assms(2) have "r_buf (snd (f a s')) = r_buf s'" "r_pos s' \<le> r_pos (snd (f a s'))"
        "r_ok (snd (f a s'))"
      unfolding cursor_safe_def by blast+
    ultimately show ?thesis using Ok by simp
  qed
qed

lemma cursor_safe_map [safe_intros]: "cursor_safe m \<Longrightarrow> cursor_safe (step_map f m)"
  unfolding step_map_def by (intro safe_intros)

lemma cursor_safe_if [safe_intros]:
  "cursor_safe a \<Longrightarrow> cursor_safe b \<Longrightarrow> cursor_safe (if c then a else b)"
  by simp

lemma cursor_safe_bytes [safe_intros]: "cursor_safe (r_bytes n)"
  by (auto simp: cursor_safe_def r_bytes_def r_ok_def slice_def)

lemma cursor_safe_array [safe_intros]: "cursor_safe (r_array n)"
  unfolding r_array_def by (intro safe_intros)

lemma cursor_safe_ints [safe_intros]:
  "cursor_safe r_u8" "cursor_safe r_u16_le" "cursor_safe r_u24_le" "cursor_safe r_u32_le"
  "cursor_safe r_u64_le" "cursor_safe r_i8" "cursor_safe r_i16_le" "cursor_safe r_i32_le"
  "cursor_safe r_i64_le"
  unfolding r_u8_def r_u16_le_def r_u24_le_def r_u32_le_def r_u64_le_def r_i8_def r_i16_le_def
    r_i32_le_def r_i64_le_def
  by (intro safe_intros)+

lemma cursor_safe_take_rest [safe_intros]: "cursor_safe (\<lambda>r. (Inr (f (fst (r_take_rest r))), snd (r_take_rest r)))"
  by (simp add: cursor_safe_def r_take_rest_def r_ok_def)

section \<open>Decoders that parse a given encoding\<close>

text \<open>
  \<open>parses d bs v\<close>: wherever the unread input starts with \<open>bs\<close>, the decoder returns \<open>v\<close> and
  stops right behind it; wherever the unread input is a proper prefix of \<open>bs\<close>, it reports the
  truncation.
\<close>

definition proper_prefix :: "'a list \<Rightarrow> 'a list \<Rightarrow> bool" where
  "proper_prefix xs ys \<longleftrightarrow> length xs < length ys \<and> take (length xs) ys = xs"

definition truncated :: "codec_error + 'a \<Rightarrow> bool" where
  "truncated x \<longleftrightarrow> (\<exists>n a. x = Inl (Truncated n a) \<and> a < n)"

definition parses :: "'a decode \<Rightarrow> bytes \<Rightarrow> 'a \<Rightarrow> bool" where
  "parses d bs v \<longleftrightarrow>
     (\<forall>r t. r_ok r \<longrightarrow> r_peek_rest r = bs @ t \<longrightarrow> d r = (Inr v, r\<lparr>r_pos := r_pos r + length bs\<rparr>)) \<and>
     (\<forall>r. r_ok r \<longrightarrow> proper_prefix (r_peek_rest r) bs \<longrightarrow> truncated (fst (d r)))"

named_theorems parses_intros \<open>what the decoders parse, by construction\<close>

lemma r_peek_rest_ok: "r_ok r \<Longrightarrow> r_peek_rest r = drop (r_pos r) (r_buf r)"
  by (simp add: r_peek_rest_def slice_def r_ok_def)

lemma r_peek_rest_new [simp]: "r_peek_rest (r_new b) = b"
  by (simp add: r_peek_rest_ok) (simp add: r_new_def)

lemma r_advance:
  assumes "r_ok r" "r_peek_rest r = bs @ t"
  shows "r_ok (r\<lparr>r_pos := r_pos r + length bs\<rparr>)"
    and "r_peek_rest (r\<lparr>r_pos := r_pos r + length bs\<rparr>) = t"
proof -
  have eq: "drop (r_pos r) (r_buf r) = bs @ t"
    using assms by (simp add: r_peek_rest_ok)
  then have "length (r_buf r) - r_pos r = length bs + length t"
    by (metis length_append length_drop)
  with assms(1) show ok: "r_ok (r\<lparr>r_pos := r_pos r + length bs\<rparr>)"
    by (cases "length bs = 0") (auto simp: r_ok_def)
  have "drop (r_pos r + length bs) (r_buf r) = drop (length bs) (bs @ t)"
    by (metis eq add.commute drop_drop)
  with ok show "r_peek_rest (r\<lparr>r_pos := r_pos r + length bs\<rparr>) = t"
    by (simp add: r_peek_rest_ok)
qed

lemma parses_bytes [parses_intros]: "length bs = n \<Longrightarrow> parses (r_bytes n) bs bs"
  unfolding parses_def
proof (intro conjI allI impI)
  fix r t assume n: "length bs = n" and r: "r_ok r" "r_peek_rest r = bs @ t"
  then have eq: "drop (r_pos r) (r_buf r) = bs @ t" by (simp add: r_peek_rest_ok)
  then have "r_pos r + n \<le> length (r_buf r)"
    using r_advance(1) [OF r] n by (simp add: r_ok_def)
  with eq n show "r_bytes n r = (Inr bs, r\<lparr>r_pos := r_pos r + length bs\<rparr>)"
    by (simp add: r_bytes_def slice_def)
next
  fix r assume "length bs = n" "r_ok r" "proper_prefix (r_peek_rest r) bs"
  then show "truncated (fst (r_bytes n r))"
    by (auto simp: r_bytes_def slice_def r_ok_def truncated_def r_remaining_def proper_prefix_def
        r_peek_rest_ok)
qed

lemma parses_ok [parses_intros]: "parses (step_ok v) [] v"
  by (simp add: parses_def proper_prefix_def)

lemma parses_try:
  assumes "parses m bs a" and "parses (f a) cs v"
  shows "parses (step_try m f) (bs @ cs) v"
  unfolding parses_def
proof (intro conjI allI impI)
  fix r t assume r: "r_ok r" "r_peek_rest r = (bs @ cs) @ t"
  then have m: "m r = (Inr a, r\<lparr>r_pos := r_pos r + length bs\<rparr>)"
    using assms(1) by (simp add: parses_def)
  have "f a (r\<lparr>r_pos := r_pos r + length bs\<rparr>) =
        (Inr v, (r\<lparr>r_pos := r_pos r + length bs\<rparr>)\<lparr>r_pos := r_pos r + length bs + length cs\<rparr>)"
    using assms(2) r_advance [of r bs "cs @ t"] r by (simp add: parses_def)
  with m show "step_try m f r = (Inr v, r\<lparr>r_pos := r_pos r + length (bs @ cs)\<rparr>)"
    by (simp add: add.assoc)
next
  fix r assume r: "r_ok r" "proper_prefix (r_peek_rest r) (bs @ cs)"
  show "truncated (fst (step_try m f r))"
  proof (cases "length (r_peek_rest r) < length bs")
    case True
    with r have "proper_prefix (r_peek_rest r) bs" by (simp add: proper_prefix_def)
    with assms(1) r have "truncated (fst (m r))" by (simp add: parses_def)
    then show ?thesis by (cases "m r") (auto simp: truncated_def step_try_def)
  next
    case False
    define t where "t = take (length (r_peek_rest r) - length bs) cs"
    from False r have t: "r_peek_rest r = bs @ t" "proper_prefix t cs"
      unfolding proper_prefix_def t_def by (auto simp: min_def)
    with assms(1) r have "m r = (Inr a, r\<lparr>r_pos := r_pos r + length bs\<rparr>)" by (simp add: parses_def)
    with assms(2) r_advance [OF r(1) t(1)] t(2) show ?thesis by (simp add: parses_def)
  qed
qed

lemma parses_map: "parses m bs a \<Longrightarrow> f a = v \<Longrightarrow> parses (step_map f m) bs v"
  using parses_try [of m bs a "\<lambda>a. step_ok (f a)" "[]" v] parses_ok [of v]
  by (simp add: step_map_def)

lemma parses_array [parses_intros]: "length bs = n \<Longrightarrow> parses (r_array n) bs bs"
  by (simp add: r_array_def parses_bytes)

lemma parses_u8 [parses_intros]: "parses r_u8 [b] b"
  unfolding r_u8_def by (rule parses_map [OF parses_array]) auto

lemma parses_u16 [parses_intros]: "parses r_u16_le (le_bytes 2 v) v"
  unfolding r_u16_le_def by (rule parses_map [OF parses_array]) (auto simp: le_word_le_bytes)

lemma parses_u32 [parses_intros]: "parses r_u32_le (le_bytes 4 v) v"
  unfolding r_u32_le_def by (rule parses_map [OF parses_array]) (auto simp: le_word_le_bytes)

lemma parses_u64 [parses_intros]: "parses r_u64_le (le_bytes 8 v) v"
  unfolding r_u64_le_def by (rule parses_map [OF parses_array]) (auto simp: le_word_le_bytes)

lemma parses_uint [parses_intros]:
  assumes "0 < n" "n \<le> 8"
  shows "parses (r_uint_le n) (take n (le_bytes 8 v)) (take_bit (8 * n) v)"
proof -
  have fold: "foldl (\<lambda>v (i, b). v OR push_bit (8 * i) (ucast b)) acc (enumerate k s)
              = (acc OR push_bit (8 * k) (le_word s) :: u64)" for acc k and s :: bytes
    by (induction s arbitrary: acc k) (simp_all add: le_word_Cons push_bit_or or.assoc or.left_commute or.commute add.commute)
  have "le_word (take n (le_bytes 8 v)) = take_bit (8 * n) v"
    using assms by (intro bit_word_eqI) (auto simp: bit_le_word le_bytes_def bit_simps less_mult_imp_div_less div_less_iff_less_mult)
  with assms show ?thesis
    unfolding r_uint_le_def by (auto intro!: parses_map [OF parses_bytes] simp: fold)
qed

subsection \<open>What a successful read has consumed\<close>

text \<open>
  The converse of \<open>parses\<close>: a read that succeeded tells what the unread input started with. These
  rules take a decoder apart, field by field, when the question is which inputs it accepts.
\<close>

named_theorems reads_dest \<open>what the input looked like before a successful read\<close>

lemma r_bytes_reads:
  assumes "r_bytes n r = (Inr v, r')" "r_ok r"
  shows "length v = n \<and> r_peek_rest r = v @ r_peek_rest r' \<and> r_ok r'"
  using assms
  by (auto simp: r_bytes_def slice_def r_ok_def r_peek_rest_ok simp flip: drop_drop
      split: option.splits if_splits)
     (metis append_take_drop_id add.commute drop_drop)

lemma r_array_reads:
  assumes "r_array n r = (Inr v, r')" "r_ok r"
  shows "length v = n \<and> r_peek_rest r = v @ r_peek_rest r' \<and> r_ok r'"
  using assms r_bytes_reads by (simp add: r_array_def)

lemma step_try_eq_Inr:
  "step_try m f s = (Inr v, s') \<longleftrightarrow> (\<exists>a t. m s = (Inr a, t) \<and> f a t = (Inr v, s'))"
  by (auto simp: step_try_def split: prod.splits sum.splits)

lemma step_map_eq_Inr:
  "step_map f m s = (Inr v, s') \<longleftrightarrow> (\<exists>a. m s = (Inr a, s') \<and> v = f a)"
  by (auto simp: step_map_def step_try_eq_Inr)

lemma r_u8_reads [reads_dest]:
  assumes "r_u8 r = (Inr v, r')" "r_ok r"
  shows "r_peek_rest r = v # r_peek_rest r' \<and> r_ok r'"
  using assms by (auto simp: r_u8_def step_map_eq_Inr length_Suc_conv dest!: r_array_reads)

lemma r_words_read:
  "r_u16_le r = (Inr h, r') \<Longrightarrow> r_ok r \<Longrightarrow> r_peek_rest r = le_bytes 2 h @ r_peek_rest r' \<and> r_ok r'"
  "r_u32_le r = (Inr i, r') \<Longrightarrow> r_ok r \<Longrightarrow> r_peek_rest r = le_bytes 4 i @ r_peek_rest r' \<and> r_ok r'"
  "r_u64_le r = (Inr l, r') \<Longrightarrow> r_ok r \<Longrightarrow> r_peek_rest r = le_bytes 8 l @ r_peek_rest r' \<and> r_ok r'"
  using le_bytes_le_word [where 'a = 16] le_bytes_le_word [where 'a = 32] le_bytes_le_word [where 'a = 64]
  by (auto simp: r_u16_le_def r_u32_le_def r_u64_le_def step_map_eq_Inr dest!: r_array_reads)
     (metis order_refl append_eq_append_conv2 nat_mult_1_right)+

declare r_words_read [reads_dest] r_array_reads [reads_dest] r_bytes_reads [reads_dest]

section \<open>Encoders that emit a given encoding\<close>

definition w_ok :: "writer \<Rightarrow> bool" where
  "w_ok w \<longleftrightarrow> w_pos w \<le> length (w_buf w)"

definition w_put :: "writer \<Rightarrow> bytes \<Rightarrow> writer" where
  "w_put w bs = w\<lparr>w_buf := overwrite (w_buf w) (w_pos w) bs, w_pos := w_pos w + length bs\<rparr>"

definition too_small :: "codec_error + 'a \<Rightarrow> bool" where
  "too_small x \<longleftrightarrow> (\<exists>n a. x = Inl (BufferTooSmall n a) \<and> a < n)"

definition emits :: "encode \<Rightarrow> bytes \<Rightarrow> bool" where
  "emits m bs \<longleftrightarrow>
     (\<forall>w. w_ok w \<longrightarrow>
        (length bs \<le> w_remaining w \<longrightarrow> m w = (Inr (), w_put w bs)) \<and>
        (w_remaining w < length bs \<longrightarrow> too_small (fst (m w))))"

named_theorems emits_intros \<open>what the encoders emit, by construction\<close>

lemma w_ok_new [simp]: "w_ok (w_new b)"
  by (simp add: w_ok_def w_new_def)

lemma w_put_ok:
  assumes "w_ok w" "length bs \<le> w_remaining w"
  shows "w_ok (w_put w bs)" "w_remaining (w_put w bs) = w_remaining w - length bs"
    "length (w_buf (w_put w bs)) = length (w_buf w)"
  using assms by (auto simp: w_ok_def w_remaining_def w_put_def)

lemma w_put_put:
  assumes "w_ok w" "length bs + length cs \<le> w_remaining w"
  shows "w_put (w_put w bs) cs = w_put w (bs @ cs)"
  using assms by (simp add: w_put_def w_ok_def w_remaining_def overwrite_overwrite add.assoc)

lemma emits_bytes [emits_intros]: "emits (w_bytes bs) bs"
  by (auto simp: emits_def w_bytes_def step_try_def w_reserve_def slice_def w_remaining_def w_ok_def
      w_fill_def w_put_def too_small_def)

lemma emits_ok [emits_intros]: "emits (step_ok ()) []"
  by (simp add: emits_def w_put_def)

lemma emits_try [emits_intros]:
  assumes "emits m bs" and "emits n cs"
  shows "emits (step_try m (\<lambda>_. n)) (bs @ cs)"
  unfolding emits_def
proof (intro allI impI)
  fix w assume w: "w_ok w"
  show "(length (bs @ cs) \<le> w_remaining w \<longrightarrow>
           step_try m (\<lambda>_. n) w = (Inr (), w_put w (bs @ cs))) \<and>
        (w_remaining w < length (bs @ cs) \<longrightarrow> too_small (fst (step_try m (\<lambda>_. n) w)))"
  proof (cases "length bs \<le> w_remaining w")
    case True
    with assms(1) w have m: "m w = (Inr (), w_put w bs)" by (simp add: emits_def)
    have n: "(length cs \<le> w_remaining w - length bs \<longrightarrow> n (w_put w bs) = (Inr (), w_put (w_put w bs) cs)) \<and>
             (w_remaining w - length bs < length cs \<longrightarrow> too_small (fst (n (w_put w bs))))"
      using assms(2) w_put_ok [OF w True] by (simp add: emits_def)
    show ?thesis
      using n True w by (auto simp: m w_put_put)
  next
    case False
    with assms(1) w have "too_small (fst (m w))" by (simp add: emits_def)
    with False show ?thesis by (cases "m w") (auto simp: too_small_def step_try_def)
  qed
qed

lemma emits_ints [emits_intros]:
  "emits (w_u8 b) [b]" "emits (w_u16_le h) (le_bytes 2 h)" "emits (w_u32_le i) (le_bytes 4 i)"
  "emits (w_u64_le l) (le_bytes 8 l)"
  by (simp_all add: w_u8_def w_u16_le_def w_u32_le_def w_u64_le_def emits_bytes)

lemma emits_uint [emits_intros]:
  "0 < n \<Longrightarrow> n \<le> 8 \<Longrightarrow> emits (w_uint_le v n) (take n (le_bytes 8 v))"
  by (simp add: w_uint_le_def emits_bytes)

lemma emits_if [emits_intros]:
  "(c \<Longrightarrow> emits m bs) \<Longrightarrow> (\<not> c \<Longrightarrow> emits n cs) \<Longrightarrow>
     emits (if c then m else n) (if c then bs else cs)"
  by simp

section \<open>Straight-line layouts\<close>

text \<open>
  Field by field: each rule peels the first field off the layout and leaves the rest of the
  encoder or decoder. Conditional fields become straight lines by case analysis.
\<close>

named_theorems emits_then \<open>an encoder that writes one more field\<close>
named_theorems parses_then \<open>a decoder that reads one more field\<close>
named_theorems step_norm \<open>conditional steps as straight lines\<close>

lemma emits_field [emits_then]:
  "emits n cs \<Longrightarrow> emits (step_try (w_u8 b) (\<lambda>_. n)) (b # cs)"
  "emits n cs \<Longrightarrow> emits (step_try (w_u16_le h) (\<lambda>_. n)) (le_bytes 2 h @ cs)"
  "emits n cs \<Longrightarrow> emits (step_try (w_u32_le i) (\<lambda>_. n)) (le_bytes 4 i @ cs)"
  "emits n cs \<Longrightarrow> emits (step_try (w_u64_le l) (\<lambda>_. n)) (le_bytes 8 l @ cs)"
  "emits n cs \<Longrightarrow> emits (step_try (w_bytes bs) (\<lambda>_. n)) (bs @ cs)"
  using emits_try [OF emits_ints(1), of n cs b] by (simp_all add: emits_try emits_ints emits_bytes)

lemma parses_field [parses_then]:
  "parses (f b) cs v \<Longrightarrow> parses (step_try r_u8 f) (b # cs) v"
  "parses (g h) cs v \<Longrightarrow> parses (step_try r_u16_le g) (le_bytes 2 h @ cs) v"
  "parses (k i) cs v \<Longrightarrow> parses (step_try r_u32_le k) (le_bytes 4 i @ cs) v"
  "parses (m l) cs v \<Longrightarrow> parses (step_try r_u64_le m) (le_bytes 8 l @ cs) v"
  using parses_try [OF parses_u8, of f b cs v]
  by (simp_all add: parses_try [OF parses_u16] parses_try [OF parses_u32] parses_try [OF parses_u64])

lemma parses_field_bytes [parses_then]:
  "parses (f bs) cs v \<Longrightarrow> length bs = n \<Longrightarrow> parses (step_try (r_bytes n) f) (bs @ cs) v"
  "parses (f bs) cs v \<Longrightarrow> length bs = n \<Longrightarrow> parses (step_try (r_array n) f) (bs @ cs) v"
  by (simp_all add: parses_try [OF parses_bytes] parses_try [OF parses_array])

lemma parses_last_field [parses_then]:
  "parses (g h) [] v \<Longrightarrow> parses (step_try r_u16_le g) (le_bytes 2 h) v"
  "parses (k i) [] v \<Longrightarrow> parses (step_try r_u32_le k) (le_bytes 4 i) v"
  "parses (m l) [] v \<Longrightarrow> parses (step_try r_u64_le m) (le_bytes 8 l) v"
  "parses (f bs) [] v \<Longrightarrow> length bs = n \<Longrightarrow> parses (step_try (r_bytes n) f) bs v"
  "parses (f bs) [] v \<Longrightarrow> length bs = n \<Longrightarrow> parses (step_try (r_array n) f) bs v"
  using parses_field(2) [of g h "[]" v] parses_field(3) [of k i "[]" v] parses_field(4) [of m l "[]" v]
    parses_field_bytes [of f bs "[]" v n] by simp_all

lemma parses_done [parses_then]: "x = v \<Longrightarrow> parses (step_ok x) [] v"
  by (simp add: parses_ok)

lemma parses_done_pair [parses_then]: "x = v \<Longrightarrow> parses (Pair (Inr x)) [] v"
  using parses_done [of x v] by (simp add: step_ok_def)

lemmas emits_last [emits_then] = emits_ints emits_bytes emits_ok

lemma step_try_map [step_norm]: "step_try (step_map f m) g = step_try m (\<lambda>a. g (f a))"
  by (simp add: step_map_def step_try_assoc)

lemma step_try_err [step_norm]: "step_try (step_err e) f = step_err e"
  by (rule ext) (simp add: step_try_def)

lemma step_try_if [step_norm]:
  "step_try (if c then m else n) f = (if c then step_try m f else step_try n f)"
  by simp

section \<open>Whole payloads\<close>

text \<open>
  Some decoders end with all octets that are left. \<open>reads_all\<close> judges a decoder on an input that holds
  nothing else.
\<close>

definition reads_all :: "'a decode \<Rightarrow> bytes \<Rightarrow> 'a \<Rightarrow> bool" where
  "reads_all d bs v \<longleftrightarrow> (\<forall>r. r_ok r \<longrightarrow> r_peek_rest r = bs \<longrightarrow> d r = (Inr v, r\<lparr>r_pos := r_pos r + length bs\<rparr>))"

named_theorems reads_then \<open>a payload decoder that reads one more field\<close>

definition r_rest :: "bytes decode" where
  "r_rest r = (Inr (fst (r_take_rest r)), snd (r_take_rest r))"

lemma reads_parses [simp]: "parses d bs v \<Longrightarrow> reads_all d bs v"
  by (simp add: parses_def reads_all_def)

lemma reads_try:
  assumes "parses m bs a" "reads_all (f a) cs v"
  shows "reads_all (step_try m f) (bs @ cs) v"
  unfolding reads_all_def
proof (intro allI impI)
  fix r assume r: "r_ok r" "r_peek_rest r = bs @ cs"
  have "m r = (Inr a, r\<lparr>r_pos := r_pos r + length bs\<rparr>)" using assms(1) r unfolding parses_def by blast
  moreover have "f a (r\<lparr>r_pos := r_pos r + length bs\<rparr>) = (Inr v, r\<lparr>r_pos := r_pos r + length bs + length cs\<rparr>)"
    using assms(2) r_advance [OF r] by (simp add: reads_all_def)
  ultimately show "step_try m f r = (Inr v, r\<lparr>r_pos := r_pos r + length (bs @ cs)\<rparr>)"
    by (simp add: step_try_def ac_simps)
qed

lemma reads_field [reads_then]:
  "reads_all (f b) cs v \<Longrightarrow> reads_all (step_try r_u8 f) (b # cs) v"
  "reads_all (g h) cs v \<Longrightarrow> reads_all (step_try r_u16_le g) (le_bytes 2 h @ cs) v"
  "reads_all (m l) cs v \<Longrightarrow> reads_all (step_try r_u64_le m) (le_bytes 8 l @ cs) v"
  "reads_all (k bs) cs v \<Longrightarrow> length bs = n \<Longrightarrow> reads_all (step_try (r_bytes n) k) (bs @ cs) v"
  using reads_try [OF parses_u8, of f b cs v] reads_try [OF parses_u16] reads_try [OF parses_u64]
    reads_try [OF parses_bytes] by simp_all

lemma reads_last_field [reads_then]:
  "reads_all (g h) [] v \<Longrightarrow> reads_all (step_try r_u16_le g) (le_bytes 2 h) v"
  "reads_all (k bs) [] v \<Longrightarrow> length bs = n \<Longrightarrow> reads_all (step_try (r_bytes n) k) bs v"
  using reads_field(2) [of g h "[]" v] reads_field(4) [of k bs "[]" v n] by simp_all

lemma reads_done [reads_then]: "x = v \<Longrightarrow> reads_all (step_ok x) [] v"
  by (simp add: reads_all_def)

lemma reads_done_pair [reads_then]: "x = v \<Longrightarrow> reads_all (Pair (Inr x)) [] v"
  by (simp add: reads_all_def)

lemma r_rest_all: "r_ok r \<Longrightarrow> r_rest r = (Inr (r_peek_rest r), r\<lparr>r_pos := r_pos r + length (r_peek_rest r)\<rparr>)"
  by (simp add: r_rest_def r_take_rest_def r_peek_rest_ok) (simp add: r_ok_def)

lemma reads_rest [reads_then]: "f bs = v \<Longrightarrow> reads_all (step_map f r_rest) bs v"
  by (simp add: reads_all_def r_rest_all)

lemma cursor_safe_rest [safe_intros]: "cursor_safe r_rest"
  by (auto simp: cursor_safe_def r_rest_def r_take_rest_def r_ok_def)

lemma reads_map: "reads_all m bs a \<Longrightarrow> f a = v \<Longrightarrow> reads_all (step_map f m) bs v"
  by (simp add: reads_all_def step_map_def)

section \<open>The contracts of the traits\<close>

text \<open>
  \<open>decoder\<close> is what \<^verbatim>\<open>Decode\<close> asks of every implementation ("never read past the cursor's end").
  \<open>payload_codec\<close> adds what a pair of \<^verbatim>\<open>Encode\<close> and \<^verbatim>\<open>Decode\<close> implementations promises on the
  representable values \<open>wf\<close>: the encoder writes exactly the octets \<open>octets x\<close>, \<open>encoded_len\<close>
  announces their number, and the decoder reads them back as a payload; a \<open>wire_codec\<close> reads them back
  in front of other octets too, and recognises a truncation.
\<close>

locale decoder =
  fixes dec :: "'a decode"
  assumes safe: "cursor_safe dec"
begin

lemma in_bounds:
  assumes "dec (r_new b) = (res, r)"
  shows "r_buf r = b \<and> r_pos r \<le> length b"
proof -
  have "r_buf r = r_buf (r_new b) \<and> r_ok r"
    using safe assms unfolding cursor_safe_def by (metis r_ok_new snd_conv)
  then show ?thesis by (auto simp: r_ok_def r_new_def)
qed

lemma exact_consumes:
  assumes "decode_exact dec b = Inr v"
  shows "\<exists>r. dec (r_new b) = (Inr v, r) \<and> r_pos r = length b \<and> r_buf r = b"
proof -
  obtain r where r: "dec (r_new b) = (Inr v, r)" "r_is_empty r"
    using assms by (auto simp: decode_exact_def split: prod.splits sum.splits if_splits)
  with in_bounds [OF r(1)] show ?thesis
    by (auto simp: r_is_empty_def r_remaining_def)
qed

end

locale payload_codec = decoder dec
  for dec :: "'a decode" +
  fixes enc :: "'a \<Rightarrow> encode" and len :: "'a \<Rightarrow> nat" and wf :: "'a \<Rightarrow> bool" and octets :: "'a \<Rightarrow> bytes"
  assumes enc_emits: "wf x \<Longrightarrow> emits (enc x) (octets x)"
    and dec_reads: "wf x \<Longrightarrow> reads_all dec (octets x) x"
    and len_octets: "wf x \<Longrightarrow> len x = length (octets x)"
begin

lemma encode_fits:
  assumes "wf x" "len x \<le> length out"
  shows "encode_to_slice enc x out = (Inr (len x), octets x @ drop (len x) out)"
  using enc_emits [OF assms(1), unfolded emits_def, rule_format, of "w_new out"] assms
  by (simp add: encode_to_slice_def len_octets w_remaining_def w_new_def w_ok_def w_put_def overwrite_def)

lemma encode_too_small:
  assumes "wf x" "length out < len x"
  shows "too_small (fst (encode_to_slice enc x out))"
  using enc_emits [OF assms(1), unfolded emits_def, rule_format, of "w_new out"] assms
  by (auto simp: encode_to_slice_def len_octets w_remaining_def w_new_def w_ok_def too_small_def
      split: prod.splits sum.splits)

lemma decode_octets:
  assumes "wf x"
  shows "decode_exact dec (octets x) = Inr x"
  using dec_reads [OF assms] unfolding reads_all_def
  by (auto simp: decode_exact_def r_is_empty_def r_remaining_def) (simp add: r_new_def)

end

locale wire_codec = payload_codec dec enc len wf octets
  for dec :: "'a decode" and enc :: "'a \<Rightarrow> encode" and len :: "'a \<Rightarrow> nat" and wf :: "'a \<Rightarrow> bool"
    and octets :: "'a \<Rightarrow> bytes" +
  assumes dec_parses: "wf x \<Longrightarrow> parses dec (octets x) x"
begin

lemma roundtrip:
  assumes "wf x" "len x \<le> length out"
  shows "\<exists>out'. encode_to_slice enc x out = (Inr (len x), out') \<and>
           decode_exact dec (take (len x) out') = Inr x"
  using encode_fits [OF assms] decode_octets [OF assms(1)] assms(1) by (simp add: len_octets)

lemma decode_truncated:
  assumes "wf x" "n < len x"
  shows "truncated (decode_exact dec (take n (octets x)))"
proof -
  have "proper_prefix (take n (octets x)) (octets x)"
    using assms by (simp add: proper_prefix_def len_octets)
  then have "truncated (fst (dec (r_new (take n (octets x)))))"
    using dec_parses [OF assms(1)] by (simp add: parses_def)
  then show ?thesis
    by (cases "dec (r_new (take n (octets x)))") (auto simp: decode_exact_def truncated_def)
qed

lemma octets_inj: "wf x \<Longrightarrow> wf y \<Longrightarrow> octets x = octets y \<Longrightarrow> x = y"
  using decode_octets by (metis sum.inject(2))

end

interpretation u8c: wire_codec r_u8 w_u8 "\<lambda>_. 1" "\<lambda>_. True" "\<lambda>b. [b]"
  by unfold_locales (auto intro: safe_intros parses_intros emits_intros reads_parses)

interpretation u16c: wire_codec r_u16_le w_u16_le "\<lambda>_. 2" "\<lambda>_. True" "le_bytes 2"
  by unfold_locales (auto intro: safe_intros parses_intros emits_intros reads_parses)

interpretation u32c: wire_codec r_u32_le w_u32_le "\<lambda>_. 4" "\<lambda>_. True" "le_bytes 4"
  by unfold_locales (auto intro: safe_intros parses_intros emits_intros reads_parses)

interpretation u64c: wire_codec r_u64_le w_u64_le "\<lambda>_. 8" "\<lambda>_. True" "le_bytes 8"
  by unfold_locales (auto intro: safe_intros parses_intros emits_intros reads_parses)

end
