(* ===== verification/Types.thy ===== *)
theory Types
  imports Codec
begin

text \<open>
  The protocol value types of \<^verbatim>\<open>panweave-types\<close>: addresses (\<^verbatim>\<open>address.rs\<close>), identifiers
  (\<^verbatim>\<open>ids.rs\<close>), device roles (\<^verbatim>\<open>device.rs\<close>), the MAC capability octet (\<^verbatim>\<open>capability.rs\<close>),
  channels and channel masks (\<^verbatim>\<open>channel.rs\<close>), monotonic time (\<^verbatim>\<open>time.rs\<close>) and key types with
  the install code and its CRC (\<^verbatim>\<open>key.rs\<close>). A newtype over an integer is that integer.
\<close>

section \<open>Addresses\<close>

type_synonym pan_id = u16
type_synonym short_address = u16
type_synonym extended_address = u64
type_synonym group_address = u16

datatype address = Short short_address | Extended extended_address

datatype short_address_kind =
    Unicast | Reserved | BroadcastLowPowerRouters | BroadcastRouters
  | BroadcastRxOnWhenIdle | NoShortAddress | BroadcastAll

definition short_kind :: "short_address \<Rightarrow> short_address_kind" where
  "short_kind a =
     (if a \<le> 0xFFF7 then Unicast
      else if a \<le> 0xFFFA then Reserved
      else if a = 0xFFFB then BroadcastLowPowerRouters
      else if a = 0xFFFC then BroadcastRouters
      else if a = 0xFFFD then BroadcastRxOnWhenIdle
      else if a = 0xFFFE then NoShortAddress
      else BroadcastAll)"

definition is_broadcast :: "short_address \<Rightarrow> bool" where
  "is_broadcast a \<longleftrightarrow> short_kind a \<in> {BroadcastAll, BroadcastRxOnWhenIdle, BroadcastRouters,
                                        BroadcastLowPowerRouters}"

definition is_unicast :: "short_address \<Rightarrow> bool" where
  "is_unicast a \<longleftrightarrow> short_kind a = Unicast"

definition is_assignable :: "short_address \<Rightarrow> bool" where
  "is_assignable a \<longleftrightarrow> a \<noteq> 0 \<and> is_unicast a"

definition is_valid_for_formation :: "pan_id \<Rightarrow> bool" where
  "is_valid_for_formation p \<longleftrightarrow> p \<noteq> 0xFFFF"

definition is_valid_device_address :: "extended_address \<Rightarrow> bool" where
  "is_valid_device_address a \<longleftrightarrow> a \<noteq> 0 \<and> a \<noteq> - 1"

definition address_short :: "address \<Rightarrow> short_address option" where
  "address_short a = (case a of Short s \<Rightarrow> Some s | Extended _ \<Rightarrow> None)"

definition address_extended :: "address \<Rightarrow> extended_address option" where
  "address_extended a = (case a of Extended e \<Rightarrow> Some e | Short _ \<Rightarrow> None)"

lemma is_unicast_iff: "is_unicast a \<longleftrightarrow> a \<le> 0xFFF7"
  by (simp add: is_unicast_def short_kind_def)

lemma broadcast_not_unicast: "is_broadcast a \<Longrightarrow> \<not> is_unicast a"
  by (auto simp: is_broadcast_def is_unicast_def)

lemma is_broadcast_iff: "is_broadcast a \<longleftrightarrow> a \<in> {0xFFFB, 0xFFFC, 0xFFFD, 0xFFFF}"
proof -
  have "unat a < 65536" using unsigned_less [of a] by simp
  then have "a = 0xFFFF" if "\<not> a \<le> 0xFFFA" "a \<noteq> 0xFFFB" "a \<noteq> 0xFFFC" "a \<noteq> 0xFFFD" "a \<noteq> 0xFFFE"
    using that by (simp add: word_le_nat_alt word_unat_eq_iff)
  then show ?thesis
    by (auto simp: is_broadcast_def short_kind_def)
qed

section \<open>Identifiers, roles and capabilities\<close>

type_synonym endpoint = u8
type_synonym frame_counter = u32
type_synonym key_sequence = u8

definition is_application :: "endpoint \<Rightarrow> bool" where
  "is_application e \<longleftrightarrow> 1 \<le> e \<and> e \<le> 240"

definition is_registrable :: "endpoint \<Rightarrow> bool" where
  "is_registrable e \<longleftrightarrow> is_application e \<or> e = 242"

definition endpoint_is_reserved :: "endpoint \<Rightarrow> bool" where
  "endpoint_is_reserved e \<longleftrightarrow> 241 \<le> e \<and> e \<le> 254 \<and> e \<noteq> 242"

definition frame_counter_next :: "frame_counter \<Rightarrow> frame_counter option" where
  "frame_counter_next c = (if c = - 1 then None else Some (c + 1))"

definition key_sequence_wrapping_next :: "key_sequence \<Rightarrow> key_sequence" where
  "key_sequence_wrapping_next s = s + 1"

datatype logical_device_type = Coordinator | Router | EndDevice

definition descriptor_value :: "logical_device_type \<Rightarrow> u8" where
  "descriptor_value t = (case t of Coordinator \<Rightarrow> 0 | Router \<Rightarrow> 1 | EndDevice \<Rightarrow> 2)"

definition from_descriptor_value :: "u8 \<Rightarrow> logical_device_type option" where
  "from_descriptor_value v =
     (if v = 0 then Some Coordinator else if v = 1 then Some Router
      else if v = 2 then Some EndDevice else None)"

definition is_routing_capable :: "logical_device_type \<Rightarrow> bool" where
  "is_routing_capable t \<longleftrightarrow> t \<noteq> EndDevice"

datatype role = RoleCoordinator | RoleRouter | RoleEndDevice | RoleSleepyEndDevice

definition role_logical_type :: "role \<Rightarrow> logical_device_type" where
  "role_logical_type r =
     (case r of RoleCoordinator \<Rightarrow> Coordinator | RoleRouter \<Rightarrow> Router
      | RoleEndDevice \<Rightarrow> EndDevice | RoleSleepyEndDevice \<Rightarrow> EndDevice)"

definition role_rx_on_when_idle :: "role \<Rightarrow> bool" where
  "role_rx_on_when_idle r \<longleftrightarrow> r \<noteq> RoleSleepyEndDevice"

type_synonym mac_capability = u8

definition cap_is_full_function_device :: "mac_capability \<Rightarrow> bool" where
  "cap_is_full_function_device c \<longleftrightarrow> c AND 2 \<noteq> 0"

definition cap_is_mains_powered :: "mac_capability \<Rightarrow> bool" where
  "cap_is_mains_powered c \<longleftrightarrow> c AND 4 \<noteq> 0"

definition cap_rx_on_when_idle :: "mac_capability \<Rightarrow> bool" where
  "cap_rx_on_when_idle c \<longleftrightarrow> c AND 8 \<noteq> 0"

definition cap_security_capable :: "mac_capability \<Rightarrow> bool" where
  "cap_security_capable c \<longleftrightarrow> c AND 64 \<noteq> 0"

definition cap_allocate_address :: "mac_capability \<Rightarrow> bool" where
  "cap_allocate_address c \<longleftrightarrow> c AND 128 \<noteq> 0"

definition cap_with_bit :: "u8 \<Rightarrow> bool \<Rightarrow> mac_capability \<Rightarrow> mac_capability" where
  "cap_with_bit b v c = (if v then c OR b else c AND NOT b)"

section \<open>Channels\<close>

type_synonym channel = u8
type_synonym channel_page = u8
type_synonym channel_mask = u32

definition channel_new :: "u8 \<Rightarrow> channel option" where
  "channel_new n = (if n \<le> 31 then Some n else None)"

definition channel_new_2_4ghz :: "u8 \<Rightarrow> channel option" where
  "channel_new_2_4ghz n = (if 11 \<le> n \<and> n \<le> 26 then Some n else None)"

definition channel_bits :: channel_mask where
  "channel_bits = 0x07FFFFFF"

definition mask_channels_only :: "channel_mask \<Rightarrow> channel_mask" where
  "mask_channels_only m = m AND channel_bits"

definition mask_page :: "channel_mask \<Rightarrow> channel_page" where
  "mask_page m = ucast (drop_bit 27 m)"

definition mask_with_page :: "channel_mask \<Rightarrow> channel_page \<Rightarrow> channel_mask" where
  "mask_with_page m p = (m AND channel_bits) OR push_bit 27 (ucast p AND 0x1F)"

definition mask_contains :: "channel_mask \<Rightarrow> channel \<Rightarrow> bool" where
  "mask_contains m c \<longleftrightarrow> m AND push_bit (unat c) 1 \<noteq> 0"

definition mask_with :: "channel_mask \<Rightarrow> channel \<Rightarrow> channel_mask" where
  "mask_with m c = m OR push_bit (unat c) 1"

definition mask_without :: "channel_mask \<Rightarrow> channel \<Rightarrow> channel_mask" where
  "mask_without m c = m AND NOT (push_bit (unat c) 1)"

definition mask_is_empty :: "channel_mask \<Rightarrow> bool" where
  "mask_is_empty m \<longleftrightarrow> m AND channel_bits = 0"

definition mask_iter :: "channel_mask \<Rightarrow> channel list" where
  "mask_iter m = map of_nat (filter (\<lambda>n. (m AND channel_bits) AND push_bit n 1 \<noteq> 0) [0..<27])"

definition mask_first :: "channel_mask \<Rightarrow> channel option" where
  "mask_first m = (case mask_iter m of [] \<Rightarrow> None | c # _ \<Rightarrow> Some c)"

section \<open>Monotonic time\<close>

text \<open>Durations and instants are milliseconds in a \<^verbatim>\<open>u64\<close>; all arithmetic saturates.\<close>

type_synonym duration = u64
type_synonym instant = u64

definition from_secs :: "u64 \<Rightarrow> duration" where
  "from_secs s = saturating_mul s 1000"

definition from_mins :: "u64 \<Rightarrow> duration" where
  "from_mins m = saturating_mul m 60000"

definition from_symbols_2_4ghz :: "u64 \<Rightarrow> duration" where
  "from_symbols_2_4ghz n = saturating_add (saturating_mul n 16) 999 div 1000"

definition as_secs :: "duration \<Rightarrow> u64" where
  "as_secs d = d div 1000"

definition duration_div :: "duration \<Rightarrow> u64 \<Rightarrow> duration" where
  "duration_div d n = (if n = 0 then - 1 else d div n)"

definition saturating_duration_since :: "instant \<Rightarrow> instant \<Rightarrow> duration" where
  "saturating_duration_since t earlier = saturating_sub t earlier"

definition saturating_duration_until :: "instant \<Rightarrow> instant \<Rightarrow> duration" where
  "saturating_duration_until t later = saturating_sub later t"

definition instant_add :: "instant \<Rightarrow> duration \<Rightarrow> instant" where
  "instant_add t d = saturating_add t d"

definition has_reached :: "instant \<Rightarrow> instant \<Rightarrow> bool" where
  "has_reached t deadline \<longleftrightarrow> deadline \<le> t"

section \<open>Keys and install codes\<close>

type_synonym key128 = bytes

datatype key_type =
    StandardNetworkKey | ApplicationLinkKey | TrustCenterLinkKey | EphemeralGlobal
  | EphemeralUnique | BasicAuthorization | AdministrativeAuthorization | UnknownKeyType u8

definition key_type_raw :: "key_type \<Rightarrow> u8" where
  "key_type_raw t =
     (case t of StandardNetworkKey \<Rightarrow> 0x01 | ApplicationLinkKey \<Rightarrow> 0x03
      | TrustCenterLinkKey \<Rightarrow> 0x04 | EphemeralGlobal \<Rightarrow> 0xB0 | EphemeralUnique \<Rightarrow> 0xB1
      | BasicAuthorization \<Rightarrow> 0xB2 | AdministrativeAuthorization \<Rightarrow> 0xB3
      | UnknownKeyType v \<Rightarrow> v)"

definition key_type_from_raw :: "u8 \<Rightarrow> key_type" where
  "key_type_from_raw v =
     (if v = 0x01 then StandardNetworkKey else if v = 0x03 then ApplicationLinkKey
      else if v = 0x04 then TrustCenterLinkKey else if v = 0xB0 then EphemeralGlobal
      else if v = 0xB1 then EphemeralUnique else if v = 0xB2 then BasicAuthorization
      else if v = 0xB3 then AdministrativeAuthorization else UnknownKeyType v)"

datatype key_attributes = ProvisionalKey | UnverifiedKey | VerifiedKey | UnknownAttributes u8

definition key_attributes_raw :: "key_attributes \<Rightarrow> u8" where
  "key_attributes_raw a =
     (case a of ProvisionalKey \<Rightarrow> 0 | UnverifiedKey \<Rightarrow> 1 | VerifiedKey \<Rightarrow> 2 | UnknownAttributes v \<Rightarrow> v)"

definition key_attributes_from_raw :: "u8 \<Rightarrow> key_attributes" where
  "key_attributes_from_raw v =
     (if v = 0 then ProvisionalKey else if v = 1 then UnverifiedKey
      else if v = 2 then VerifiedKey else UnknownAttributes v)"

lemma key_type_raw_from_raw [simp]: "key_type_raw (key_type_from_raw v) = v"
  by (simp add: key_type_raw_def key_type_from_raw_def)

lemma key_attributes_raw_from_raw [simp]: "key_attributes_raw (key_attributes_from_raw v) = v"
  by (simp add: key_attributes_raw_def key_attributes_from_raw_def)

text \<open>The inner loop of \<^verbatim>\<open>crc16_x25\<close> is eight shifts of the register.\<close>

definition crc16_x25_shift :: "u16 \<Rightarrow> u16" where
  "crc16_x25_shift crc = (if crc AND 1 \<noteq> 0 then drop_bit 1 crc XOR 0x8408 else drop_bit 1 crc)"

definition crc16_x25_octet :: "u16 \<Rightarrow> u8 \<Rightarrow> u16" where
  "crc16_x25_octet crc b = (crc16_x25_shift ^^ 8) (crc XOR ucast b)"

definition crc16_x25 :: "bytes \<Rightarrow> u16" where
  "crc16_x25 data = NOT (foldl crc16_x25_octet 0xFFFF data)"

record install_code =
  ic_bytes :: bytes
  ic_len :: u8

definition install_code_new :: "bytes \<Rightarrow> install_code option" where
  "install_code_new b =
     (if length b \<notin> {8, 10, 14, 18} then None
      else Some \<lparr>ic_bytes = overwrite (replicate 18 0) 0 b, ic_len = of_nat (length b)\<rparr>)"

definition ic_as_bytes :: "install_code \<Rightarrow> bytes" where
  "ic_as_bytes c = (case slice (ic_bytes c) 0 (unat (ic_len c)) of None \<Rightarrow> [] | Some s \<Rightarrow> s)"

definition ic_code :: "install_code \<Rightarrow> bytes" where
  "ic_code c = (case slice (ic_bytes c) 0 (unat (ic_len c) - 2) of None \<Rightarrow> [] | Some s \<Rightarrow> s)"

definition ic_crc :: "install_code \<Rightarrow> u16" where
  "ic_crc c =
     (let n = unat (ic_len c) in
      if 2 \<le> n \<and> n \<le> length (ic_bytes c)
      then le_word [ic_bytes c ! (n - 2), ic_bytes c ! (n - 1)] else 0)"

definition ic_crc_valid :: "install_code \<Rightarrow> bool" where
  "ic_crc_valid c \<longleftrightarrow> crc16_x25 (ic_code c) = ic_crc c"

subsection \<open>The CRC register loses no information\<close>

lemma crc16_x25_shift_inj: "inj crc16_x25_shift"
proof (rule injI)
  fix a b :: u16 assume eq: "crc16_x25_shift a = crc16_x25_shift b"
  have top: "bit (crc16_x25_shift c) 15 = odd c" for c :: u16
  proof -
    have "\<not> bit c 16" using bit_imp_le_length by fastforce
    then show ?thesis
      by (auto simp: crc16_x25_shift_def bit_simps and_one_eq even_iff_mod_2_eq_zero)
  qed
  have parity: "odd a = odd b" using eq top by metis
  then have half: "drop_bit 1 a = drop_bit 1 b"
    using eq by (auto simp: crc16_x25_shift_def and_one_eq odd_iff_mod_2_eq_one xor_right_cancel
        split: if_splits)
  show "a = b"
  proof (rule bit_word_eqI)
    fix n
    show "bit a n = bit b n"
    proof (cases n)
      case 0
      with parity show ?thesis by (simp add: bit_0)
    next
      case (Suc m)
      have "bit (drop_bit 1 a) m = bit (drop_bit 1 b) m" using half by simp
      with Suc show ?thesis by (simp add: bit_drop_bit_eq)
    qed
  qed
qed

lemma crc16_x25_octet_inj:
  "crc16_x25_octet c x = crc16_x25_octet d y \<Longrightarrow> c XOR ucast x = d XOR ucast y"
  unfolding crc16_x25_octet_def using inj_fn [OF crc16_x25_shift_inj] by (auto dest: injD)

lemma crc16_x25_register_inj: "crc16_x25_octet c x = crc16_x25_octet d x \<Longrightarrow> c = d"
  by (drule crc16_x25_octet_inj) (simp add: xor_right_cancel)

lemma crc16_x25_single_octet:
  assumes "i < length data" and "crc16_x25 (data[i := b]) = crc16_x25 data"
  shows "b = data ! i"
proof (rule foldl_single_change [OF _ _ assms(1)])
  show "foldl crc16_x25_octet 0xFFFF (data[i := b]) = foldl crc16_x25_octet 0xFFFF data"
    using assms(2) unfolding crc16_x25_def by (metis bit.double_compl)
next
  fix x c d assume "crc16_x25_octet c x = crc16_x25_octet d x"
  then show "c = d" by (rule crc16_x25_register_inj)
next
  fix c x y assume "crc16_x25_octet c x = crc16_x25_octet c y"
  then have "c XOR ucast x = c XOR ucast y" by (rule crc16_x25_octet_inj)
  then show "x = y" by (rule ucast_xor_cancel [rotated]) simp
qed

subsection \<open>Mistyped install codes\<close>

lemma install_code_new_parts:
  assumes "install_code_new b = Some c"
  shows "ic_code c = take (length b - 2) b" "ic_crc c = le_word [b ! (length b - 2), b ! (length b - 1)]"
    "2 \<le> length b"
proof -
  have l: "length b \<in> {8, 10, 14, 18}" and c: "c = \<lparr>ic_bytes = overwrite (replicate 18 0) 0 b, ic_len = of_nat (length b)\<rparr>"
    using assms by (auto simp: install_code_new_def split: if_splits)
  have n: "unat (of_nat (length b) :: u8) = length b" using l by auto
  show "2 \<le> length b" using l by auto
  show "ic_code c = take (length b - 2) b"
    using l unfolding c ic_code_def install_code.simps n by (auto simp: slice_def overwrite_def)
  show "ic_crc c = le_word [b ! (length b - 2), b ! (length b - 1)]"
    using l unfolding c ic_crc_def install_code.simps n Let_def by (auto simp: overwrite_def nth_append)
qed

lemma le_word_2_inj:
  assumes "(le_word [a, b] :: u16) = le_word [c, d]"
  shows "a = c \<and> b = d"
proof -
  have "le_bytes 2 (le_word [a, b] :: u16) = le_bytes 2 (le_word [c, d] :: u16)" using assms by simp
  then show ?thesis
    using le_bytes_le_word [of "[a, b]", where 'a = 16] le_bytes_le_word [of "[c, d]", where 'a = 16]
    by (simp add: numeral_2_eq_2)
qed

text \<open>
  Mistyping one octet of an install code is always detected. If an install code passes the CRC
  check, then no code that differs from it in exactly one octet, be it in the code or in the CRC
  itself, passes.
\<close>

theorem install_code_mistyped_octet:
  assumes "install_code_new b = Some c" "ic_crc_valid c" "i < length b" "x \<noteq> b ! i"
    and "install_code_new (b[i := x]) = Some c'"
  shows "\<not> ic_crc_valid c'"
proof
  assume v: "ic_crc_valid c'"
  define n where "n = length b"
  note p = install_code_new_parts [OF assms(1), folded n_def]
  have q: "ic_code c' = take (n - 2) (b[i := x])"
    "ic_crc c' = le_word [b[i := x] ! (n - 2), b[i := x] ! (n - 1)]"
    using install_code_new_parts [OF assms(5)] by (simp_all add: n_def)
  have eq: "crc16_x25 (take (n - 2) b) = le_word [b ! (n - 2), b ! (n - 1)]"
    "crc16_x25 (take (n - 2) (b[i := x])) = le_word [b[i := x] ! (n - 2), b[i := x] ! (n - 1)]"
    using assms(2) v p q by (simp_all add: ic_crc_valid_def)
  show False
  proof (cases "i < n - 2")
    case True
    then have "crc16_x25 ((take (n - 2) b)[i := x]) = crc16_x25 (take (n - 2) b)"
      using eq by (simp add: take_update_swap)
    then have "x = take (n - 2) b ! i"
      using True n_def by (intro crc16_x25_single_octet) auto
    with True assms(4) show False by simp
  next
    case False
    then have "take (n - 2) (b[i := x]) = take (n - 2) b" by simp
    then have "b[i := x] ! (n - 2) = b ! (n - 2) \<and> b[i := x] ! (n - 1) = b ! (n - 1)"
      using eq by (metis le_word_2_inj)
    moreover have "i = n - 2 \<or> i = n - 1" using False assms(3) n_def by auto
    ultimately show False using assms(3,4) by auto
  qed
qed

lemma crc16_x25_octet_unfold:
  "crc16_x25_octet crc b =
     (let f = crc16_x25_shift in f (f (f (f (f (f (f (f (crc XOR ucast b)))))))))"
  by (simp add: crc16_x25_octet_def Let_def eval_nat_numeral)

theorem install_code_mistyped_octet_witness:
  "\<exists>c c'. install_code_new [0x83, 0xFE, 0xD3, 0x40, 0x7A, 0x93, 0x2B, 0x70] = Some c \<and>
     ic_crc_valid c \<and>
     install_code_new [0x83, 0xFE, 0xD2, 0x40, 0x7A, 0x93, 0x2B, 0x70] = Some c' \<and> \<not> ic_crc_valid c'"
proof -
  let ?b = "[0x83, 0xFE, 0xD3, 0x40, 0x7A, 0x93, 0x2B, 0x70] :: u8 list"
  obtain c c' where c: "install_code_new ?b = Some c" "install_code_new (?b[2 := 0xD2]) = Some c'"
    by (simp add: install_code_new_def)
  have "crc16_x25 [0x83, 0xFE, 0xD3, 0x40, 0x7A, 0x93] = 0x702B"
    by (simp add: crc16_x25_def crc16_x25_octet_unfold crc16_x25_shift_def)
  moreover have "(le_word [0x2B, 0x70] :: u16) = 0x702B" by (simp add: le_word_Cons)
  moreover have "ic_code c = [0x83, 0xFE, 0xD3, 0x40, 0x7A, 0x93]" "ic_crc c = le_word [0x2B, 0x70]"
    using install_code_new_parts [OF c(1)] by simp_all
  ultimately have "ic_crc_valid c" by (simp add: ic_crc_valid_def)
  moreover from this have "\<not> ic_crc_valid c'"
    using install_code_mistyped_octet [OF c(1) _ _ _ c(2)] by simp
  ultimately show ?thesis using c by simp
qed

end
