(* ===== verification/Tlv.thy ===== *)
theory Tlv
  imports Types
begin

text \<open>
  Type-Length-Value framing, \<^verbatim>\<open>panweave-codec/src/tlv.rs\<close>: the iterator over a message, the
  validation of a message against the general processing rules, lookups in a validated set and the
  two writers. The specification side is the grammar \<open>tlv_octets\<close>: a message is the
  concatenation of the encodings of its TLVs.
\<close>

section \<open>The iterator\<close>

record tlv =
  tlv_tag :: u8
  tlv_value :: bytes

record tlv_iter =
  it_rest :: bytes
  it_failed :: bool

definition MANUFACTURER_SPECIFIC_TAG :: u8 where
  "MANUFACTURER_SPECIFIC_TAG = 64"

definition is_global_tag :: "u8 \<Rightarrow> bool" where
  "is_global_tag tag \<longleftrightarrow> 64 \<le> tag"

definition tlv_encoded_len :: "tlv \<Rightarrow> nat" where
  "tlv_encoded_len t = 2 + length (tlv_value t)"

definition tlv_iter_new :: "bytes \<Rightarrow> tlv_iter" where
  "tlv_iter_new b = \<lparr>it_rest = b, it_failed = False\<rparr>"

definition tlv_next :: "tlv_iter \<Rightarrow> (tlv_error + tlv) option \<times> tlv_iter" where
  "tlv_next it =
     (if it_failed it \<or> it_rest it = [] then (None, it)
      else case it_rest it of
        tag # len_minus_one # _ \<Rightarrow>
          (let len = unat len_minus_one + 1; e = 2 + len in
           case slice (it_rest it) 2 e of
             Some v \<Rightarrow> (Some (Inr \<lparr>tlv_tag = tag, tlv_value = v\<rparr>), it\<lparr>it_rest := drop e (it_rest it)\<rparr>)
           | None \<Rightarrow> (Some (Inl TlvTruncated), it\<lparr>it_failed := True\<rparr>))
      | _ \<Rightarrow> (Some (Inl TlvTruncated), it\<lparr>it_failed := True\<rparr>))"

text \<open>Everything a \<^verbatim>\<open>for\<close> loop over the iterator sees.\<close>

definition tlv_measure :: "tlv_iter \<Rightarrow> nat" where
  "tlv_measure it = (if it_failed it then 0 else Suc (length (it_rest it)))"

lemma tlv_next_decreases: "tlv_next it = (Some x, it') \<Longrightarrow> tlv_measure it' < tlv_measure it"
  by (auto simp: tlv_next_def tlv_measure_def Let_def split: if_splits list.splits option.splits)

function tlv_collect :: "tlv_iter \<Rightarrow> (tlv_error + tlv) list" where
  "tlv_collect it = (case tlv_next it of (None, _) \<Rightarrow> [] | (Some x, it') \<Rightarrow> x # tlv_collect it')"
  by pat_completeness auto
termination
  by (relation "measure tlv_measure") (auto intro: tlv_next_decreases [OF sym])

declare tlv_collect.simps [simp del]

definition tlv_items :: "bytes \<Rightarrow> (tlv_error + tlv) list" where
  "tlv_items b = tlv_collect (tlv_iter_new b)"

section \<open>Validation\<close>

definition is_global_encapsulation :: "u8 \<Rightarrow> bool" where
  "is_global_encapsulation tag \<longleftrightarrow> tag = 72 \<or> tag = 73"

fun validate_inner :: "(u8 \<Rightarrow> bool) \<Rightarrow> u8 \<Rightarrow> (tlv_error + tlv) list \<Rightarrow> tlv_error + unit" where
  "validate_inner enc outer [] = Inr ()"
| "validate_inner enc outer (Inl _ # _) = Inl (Malformed outer)"
| "validate_inner enc outer (Inr t # ts) =
     (if is_global_encapsulation (tlv_tag t) \<or> enc (tlv_tag t) then Inl (NestedEncapsulation outer)
      else validate_inner enc outer ts)"

definition mark_seen :: "u64 list \<Rightarrow> u8 \<Rightarrow> tlv_error + u64 list" where
  "mark_seen seen tag =
     (let idx = unat (tag div 64); b = push_bit (unat (tag mod 64)) 1 in
      if \<not> idx < length seen then Inl (Malformed tag)
      else if seen ! idx AND b \<noteq> 0 then Inl (DuplicateTag tag)
      else Inr (seen[idx := seen ! idx OR b]))"

fun validate_loop :: "(u8 \<Rightarrow> bool) \<Rightarrow> u64 list \<Rightarrow> (tlv_error + tlv) list \<Rightarrow> tlv_error + unit" where
  "validate_loop enc seen [] = Inr ()"
| "validate_loop enc seen (Inl e # _) = Inl e"
| "validate_loop enc seen (Inr t # ts) =
     res_try (if tlv_tag t \<noteq> MANUFACTURER_SPECIFIC_TAG then mark_seen seen (tlv_tag t) else Inr seen)
       (\<lambda>seen'. res_try
          (if is_global_encapsulation (tlv_tag t) \<or> enc (tlv_tag t)
           then validate_inner enc (tlv_tag t) (tlv_items (tlv_value t)) else Inr ())
          (\<lambda>_. validate_loop enc seen' ts))"

definition tlv_validate :: "(u8 \<Rightarrow> bool) \<Rightarrow> bytes \<Rightarrow> tlv_error + bytes" where
  "tlv_validate enc b =
     res_try (validate_loop enc (replicate 4 0) (tlv_items b)) (\<lambda>_. Inr b)"

section \<open>Lookups in a set\<close>

definition set_iter :: "bytes \<Rightarrow> tlv list" where
  "set_iter b = List.map_filter (\<lambda>x. case x of Inl _ \<Rightarrow> None | Inr t \<Rightarrow> Some t) (tlv_items b)"

definition set_find :: "bytes \<Rightarrow> u8 \<Rightarrow> tlv option" where
  "set_find b tag = List.find (\<lambda>t. tlv_tag t = tag) (set_iter b)"

definition set_value :: "bytes \<Rightarrow> u8 \<Rightarrow> bytes option" where
  "set_value b tag = map_option tlv_value (set_find b tag)"

definition set_require :: "bytes \<Rightarrow> u8 \<Rightarrow> tlv_error + tlv" where
  "set_require b tag = ok_or (set_find b tag) (Missing tag)"

definition set_manufacturer_specific :: "bytes \<Rightarrow> tlv list" where
  "set_manufacturer_specific b = filter (\<lambda>t. tlv_tag t = MANUFACTURER_SPECIFIC_TAG) (set_iter b)"

section \<open>Writers\<close>

definition write_tlv :: "u8 \<Rightarrow> bytes \<Rightarrow> encode" where
  "write_tlv tag v =
     (if v = [] \<or> 256 < length v then step_err (Unrepresentable ''tlv value'')
      else step_try (w_u8 tag) (\<lambda>_. step_try (w_u8 (of_nat (length v - 1))) (\<lambda>_. w_bytes v)))"

definition write_tlv_with :: "u8 \<Rightarrow> encode \<Rightarrow> encode" where
  "write_tlv_with tag body w0 =
     (let start = w_pos w0 in
      step_try (w_u8 tag) (\<lambda>_. step_try (w_u8 0) (\<lambda>_. step_try body (\<lambda>_. \<lambda>w.
        (let len = w_pos w - (start + 2) in
         if len = 0 \<or> 256 < len then (Inl (Unrepresentable ''tlv value''), w)
         else step_try (w_patch (start + 1) 1)
                (\<lambda>rng. w_fill rng [of_nat (len - 1)]) w)))) w0)"

section \<open>The grammar\<close>

definition tlv_wf :: "tlv \<Rightarrow> bool" where
  "tlv_wf t \<longleftrightarrow> 1 \<le> length (tlv_value t) \<and> length (tlv_value t) \<le> 256"

definition tlv_octets :: "tlv \<Rightarrow> bytes" where
  "tlv_octets t = [tlv_tag t, of_nat (length (tlv_value t) - 1)] @ tlv_value t"

lemma length_minus_one_octet: "1 \<le> n \<Longrightarrow> n \<le> 256 \<Longrightarrow> unat (of_nat (n - 1) :: u8) = n - 1"
  by (simp add: unat_of_nat del: of_nat_diff)

lemma tlv_next_octets:
  assumes "tlv_wf t"
  shows "tlv_next (tlv_iter_new (tlv_octets t @ rest)) = (Some (Inr t), tlv_iter_new rest)"
proof -
  obtain n where n: "length (tlv_value t) = Suc n"
    using assms by (cases "length (tlv_value t)") (auto simp: tlv_wf_def)
  then have "unat (of_nat n :: u8) = n" using assms by (simp add: tlv_wf_def unat_of_nat)
  with n show ?thesis
    by (simp add: tlv_next_def tlv_iter_new_def tlv_octets_def Let_def slice_def)
qed

lemma tlv_items_Nil [simp]: "tlv_items [] = []"
  by (simp add: tlv_items_def tlv_collect.simps [of "tlv_iter_new []"]) (simp add: tlv_iter_new_def tlv_next_def)

lemma tlv_items_octets_append:
  "tlv_wf t \<Longrightarrow> tlv_items (tlv_octets t @ rest) = Inr t # tlv_items rest"
  by (simp add: tlv_items_def tlv_collect.simps [of "tlv_iter_new (_ @ _)"] tlv_next_octets)

lemma tlv_items_octets:
  "list_all tlv_wf ts \<Longrightarrow> tlv_items (concat (map tlv_octets ts)) = map Inr ts"
  by (induction ts) (auto simp: tlv_items_octets_append)

text \<open>An item that decodes was the encoding of a well-formed TLV.\<close>

lemma tlv_next_Inr:
  assumes "tlv_next (tlv_iter_new b) = (Some (Inr t), it)"
  shows "tlv_wf t \<and> (\<exists>rest. it = tlv_iter_new rest \<and> b = tlv_octets t @ rest)"
proof -
  from assms obtain tag l bs where b: "b = tag # l # bs"
    by (auto simp: tlv_next_def tlv_iter_new_def split: if_splits list.splits)
  have len: "Suc (unat l) \<le> length bs" and t: "t = \<lparr>tlv_tag = tag, tlv_value = take (Suc (unat l)) bs\<rparr>"
    and it: "it = tlv_iter_new (drop (Suc (unat l)) bs)"
    using assms b by (auto simp: tlv_next_def tlv_iter_new_def Let_def slice_def split: if_splits)
  have "unat l < 256" using unsigned_less [of l] by simp
  with len have "tlv_wf t" by (simp add: t tlv_wf_def)
  moreover have "b = tlv_octets t @ drop (Suc (unat l)) bs"
    using len by (simp add: b t tlv_octets_def)
  ultimately show ?thesis using it by blast
qed

lemma tlv_next_failed: "tlv_next (tlv_iter_new b) = (Some (Inl e), it) \<Longrightarrow> it_failed it"
  by (auto simp: tlv_next_def tlv_iter_new_def Let_def split: if_splits list.splits option.splits)

lemma tlv_items_split:
  "\<exists>ts tail. list_all tlv_wf ts \<and> (tail = [] \<or> tail = [Inl TlvTruncated]) \<and>
     tlv_items b = map Inr ts @ tail \<and> (tail = [] \<longrightarrow> b = concat (map tlv_octets ts))"
proof (induction "length b" arbitrary: b rule: less_induct)
  case less
  obtain x it where n: "tlv_next (tlv_iter_new b) = (x, it)" by force
  show ?case
  proof (cases x)
    case None
    then have "b = []" using n
      by (auto simp: tlv_next_def tlv_iter_new_def Let_def split: if_splits list.splits option.splits)
    then show ?thesis by (intro exI [of _ "[]"]) auto
  next
    case (Some y)
    show ?thesis
    proof (cases y)
      case (Inl e)
      have "it_failed it" using n Some Inl by (simp add: tlv_next_failed)
      then have "tlv_collect it = []" by (simp add: tlv_collect.simps [of it] tlv_next_def)
      moreover have "e = TlvTruncated" using n Some Inl
        by (auto simp: tlv_next_def tlv_iter_new_def Let_def split: if_splits list.splits option.splits)
      ultimately have "tlv_items b = [Inl TlvTruncated]" using n Some Inl
        by (simp add: tlv_items_def tlv_collect.simps [of "tlv_iter_new b"])
      then show ?thesis by (intro exI [of _ "[]"] exI [of _ "[Inl TlvTruncated]"]) simp
    next
      case (Inr t)
      with n Some obtain rest where wf: "tlv_wf t" and b: "b = tlv_octets t @ rest"
        using tlv_next_Inr by blast
      then have "length rest < length b" by (simp add: tlv_octets_def)
      with less obtain ts tail where ih: "list_all tlv_wf ts" "tail = [] \<or> tail = [Inl TlvTruncated]"
          "tlv_items rest = map Inr ts @ tail" "tail = [] \<longrightarrow> rest = concat (map tlv_octets ts)"
        by blast
      show ?thesis
        using ih wf b by (intro exI [of _ "t # ts"] exI [of _ tail]) (auto simp: tlv_items_octets_append)
    qed
  qed
qed

section \<open>What validation accepts\<close>

definition seen_tags :: "u64 list \<Rightarrow> u8 set" where
  "seen_tags seen = {t. bit (seen ! (unat t div 64)) (unat t mod 64)}"

lemma tag_index: "unat (tag div 64 :: u8) = unat tag div 64" "unat (tag mod 64 :: u8) = unat tag mod 64"
  "unat (tag :: u8) div 64 < 4" "unat tag mod 64 < 64"
proof -
  have "unat tag < 256" using unsigned_less [of tag] by simp
  then show "unat tag div 64 < 4" "unat tag mod 64 < 64" by simp_all
qed (simp_all add: unat_div unat_mod)

lemma mark_seen_eq:
  assumes "length seen = 4"
  shows "mark_seen seen tag =
    (if tag \<in> seen_tags seen then Inl (DuplicateTag tag)
     else Inr (seen[unat tag div 64 := seen ! (unat tag div 64) OR 2 ^ (unat tag mod 64)]))"
  using assms tag_index [of tag] by (simp add: mark_seen_def Let_def and_exp_eq_0_iff_not_bit seen_tags_def)

lemma seen_tags_mark:
  assumes "length seen = 4"
  shows "seen_tags (seen[unat tag div 64 := seen ! (unat tag div 64) OR 2 ^ (unat tag mod 64)])
         = insert tag (seen_tags seen)"
proof -
  have eq: "(x :: u8) = y \<longleftrightarrow> unat x div 64 = unat y div 64 \<and> unat x mod 64 = unat y mod 64" for x y
    by (metis div_mult_mod_eq word_unat_eq_iff)
  show ?thesis
    using assms tag_index(3,4)
    by (auto simp: seen_tags_def nth_list_update bit_simps eq split: if_splits)
qed

lemma validate_inner_iff:
  "list_all tlv_wf ts \<Longrightarrow> tail = [] \<or> tail = [Inl TlvTruncated] \<Longrightarrow>
   validate_inner enc outer (map Inr ts @ tail) = Inr () \<longleftrightarrow>
     tail = [] \<and> list_all (\<lambda>t. \<not> is_global_encapsulation (tlv_tag t) \<and> \<not> enc (tlv_tag t)) ts"
  by (induction ts) auto

definition flat_tlvs :: "(u8 \<Rightarrow> bool) \<Rightarrow> bytes \<Rightarrow> bool" where
  "flat_tlvs enc b \<longleftrightarrow>
     (\<exists>ts. list_all tlv_wf ts \<and> b = concat (map tlv_octets ts) \<and>
        list_all (\<lambda>t. \<not> is_global_encapsulation (tlv_tag t) \<and> \<not> enc (tlv_tag t)) ts)"

lemma validate_inner_items:
  "validate_inner enc outer (tlv_items b) = Inr () \<longleftrightarrow> flat_tlvs enc b"
proof -
  obtain ts tail where s: "list_all tlv_wf ts" "tail = [] \<or> tail = [Inl TlvTruncated]"
      "tlv_items b = map Inr ts @ tail" "tail = [] \<longrightarrow> b = concat (map tlv_octets ts)"
    using tlv_items_split by blast
  have iff: "validate_inner enc outer (tlv_items b) = Inr () \<longleftrightarrow>
      tail = [] \<and> list_all (\<lambda>t. \<not> is_global_encapsulation (tlv_tag t) \<and> \<not> enc (tlv_tag t)) ts"
    using validate_inner_iff [OF s(1,2)] s(3) by simp
  show ?thesis
  proof
    assume "validate_inner enc outer (tlv_items b) = Inr ()"
    with iff s show "flat_tlvs enc b" unfolding flat_tlvs_def by blast
  next
    assume "flat_tlvs enc b"
    then obtain us where us: "list_all tlv_wf us" "b = concat (map tlv_octets us)"
        "list_all (\<lambda>t. \<not> is_global_encapsulation (tlv_tag t) \<and> \<not> enc (tlv_tag t)) us"
      unfolding flat_tlvs_def by blast
    then have "tlv_items b = map Inr us" by (simp add: tlv_items_octets)
    then show "validate_inner enc outer (tlv_items b) = Inr ()"
      using validate_inner_iff [OF us(1), of "[]"] us(3) by simp
  qed
qed

lemma validate_loop_iff:
  assumes "list_all tlv_wf ts" "tail = [] \<or> tail = [Inl TlvTruncated]" "length seen = 4"
  shows "validate_loop enc seen (map Inr ts @ tail) = Inr () \<longleftrightarrow>
     tail = [] \<and>
     distinct (filter (\<lambda>t. t \<noteq> 64) (map tlv_tag ts)) \<and>
     (\<forall>t \<in> set ts. tlv_tag t \<noteq> 64 \<longrightarrow> tlv_tag t \<notin> seen_tags seen) \<and>
     (\<forall>t \<in> set ts. is_global_encapsulation (tlv_tag t) \<or> enc (tlv_tag t) \<longrightarrow> flat_tlvs enc (tlv_value t))"
  using assms
proof (induction ts arbitrary: seen)
  case Nil
  then show ?case by auto
next
  case (Cons t ts)
  define nest where "nest \<longleftrightarrow> is_global_encapsulation (tlv_tag t) \<or> enc (tlv_tag t)"
  define seen' where "seen' = (if tlv_tag t = 64 then seen else
    seen[unat (tlv_tag t) div 64 := seen ! (unat (tlv_tag t) div 64) OR 2 ^ (unat (tlv_tag t) mod 64)])"
  have len: "length seen' = 4" using Cons.prems by (simp add: seen'_def)
  have tags: "seen_tags seen' = (if tlv_tag t = 64 then seen_tags seen else insert (tlv_tag t) (seen_tags seen))"
    using Cons.prems by (simp add: seen'_def seen_tags_mark)
  have step: "validate_loop enc seen (map Inr (t # ts) @ tail) = Inr () \<longleftrightarrow>
      (tlv_tag t = 64 \<or> tlv_tag t \<notin> seen_tags seen) \<and> (nest \<longrightarrow> flat_tlvs enc (tlv_value t)) \<and>
      validate_loop enc seen' (map Inr ts @ tail) = Inr ()"
  proof -
    have "(if tlv_tag t \<noteq> MANUFACTURER_SPECIFIC_TAG then mark_seen seen (tlv_tag t) else Inr seen) =
        (if tlv_tag t = 64 \<or> tlv_tag t \<notin> seen_tags seen then Inr seen' else Inl (DuplicateTag (tlv_tag t)))"
      using Cons.prems by (simp add: MANUFACTURER_SPECIFIC_TAG_def mark_seen_eq seen'_def)
    moreover have "validate_inner enc outer (tlv_items (tlv_value t)) = Inr () \<longleftrightarrow> flat_tlvs enc (tlv_value t)"
      for outer by (rule validate_inner_items)
    ultimately show ?thesis
      by (simp add: nest_def [symmetric] res_try_eq_Inr del: not_iff)
  qed
  have ih: "validate_loop enc seen' (map Inr ts @ tail) = Inr () \<longleftrightarrow>
     tail = [] \<and> distinct (filter (\<lambda>t. t \<noteq> 64) (map tlv_tag ts)) \<and>
     (\<forall>t \<in> set ts. tlv_tag t \<noteq> 64 \<longrightarrow> tlv_tag t \<notin> seen_tags seen') \<and>
     (\<forall>t \<in> set ts. is_global_encapsulation (tlv_tag t) \<or> enc (tlv_tag t) \<longrightarrow> flat_tlvs enc (tlv_value t))"
    using Cons.IH [OF _ _ len] Cons.prems by simp
  show ?case
  proof (cases "tlv_tag t = 64")
    case True
    then show ?thesis unfolding step ih tags by (auto simp: nest_def)
  next
    case False
    then have "distinct (filter (\<lambda>t. t \<noteq> 64) (map tlv_tag (t # ts))) \<longleftrightarrow>
        distinct (filter (\<lambda>t. t \<noteq> 64) (map tlv_tag ts)) \<and> tlv_tag t \<notin> tlv_tag ` set ts"
      by auto
    moreover have "(\<forall>u \<in> set ts. tlv_tag u \<noteq> 64 \<longrightarrow> tlv_tag u \<notin> seen_tags seen') \<longleftrightarrow>
        tlv_tag t \<notin> tlv_tag ` set ts \<and> (\<forall>u \<in> set ts. tlv_tag u \<noteq> 64 \<longrightarrow> tlv_tag u \<notin> seen_tags seen)"
      using False unfolding tags by (auto simp: image_iff)
    ultimately show ?thesis unfolding step ih nest_def using False by (simp only: list.set ball_simps) blast
  qed
qed

text \<open>
  C27: Validation accepts exactly the well-formed messages. \<^verbatim>\<open>validate\<close> accepts a message if and only if it
  is a concatenation of complete TLVs in which no tag but the manufacturer-specific one occurs twice
  and the value of every encapsulation TLV is itself a concatenation of complete TLVs none of which
  is an encapsulation.
\<close>

theorem tlv_validate_iff:
  "tlv_validate enc b = Inr b \<longleftrightarrow>
     (\<exists>ts. list_all tlv_wf ts \<and> b = concat (map tlv_octets ts) \<and>
        distinct (filter (\<lambda>t. t \<noteq> 64) (map tlv_tag ts)) \<and>
        (\<forall>t \<in> set ts. is_global_encapsulation (tlv_tag t) \<or> enc (tlv_tag t) \<longrightarrow>
            flat_tlvs enc (tlv_value t)))" (is "?L \<longleftrightarrow> ?R")
proof -
  obtain ts tail where s: "list_all tlv_wf ts" "tail = [] \<or> tail = [Inl TlvTruncated]"
      "tlv_items b = map Inr ts @ tail" "tail = [] \<longrightarrow> b = concat (map tlv_octets ts)"
    using tlv_items_split by blast
  have none: "seen_tags (replicate 4 0) = {}" using tag_index(3) by (auto simp: seen_tags_def)
  have L: "?L \<longleftrightarrow> validate_loop enc (replicate 4 0) (tlv_items b) = Inr ()"
    by (auto simp: tlv_validate_def res_try_eq_Inr)
  show ?thesis
  proof
    assume ?L
    with L s validate_loop_iff [OF s(1,2), of "replicate 4 0" enc] none show ?R by auto
  next
    assume ?R
    then obtain us where us: "list_all tlv_wf us" "b = concat (map tlv_octets us)"
        "distinct (filter (\<lambda>t. t \<noteq> 64) (map tlv_tag us))"
        "\<forall>t \<in> set us. is_global_encapsulation (tlv_tag t) \<or> enc (tlv_tag t) \<longrightarrow> flat_tlvs enc (tlv_value t)"
      by blast
    then have "tlv_items b = map Inr us" by (simp add: tlv_items_octets)
    then show ?L using L validate_loop_iff [OF us(1), of "[]" "replicate 4 0" enc] us none by simp
  qed
qed

section \<open>What the writers emit\<close>

lemma emits_write_tlv [emits_intros]:
  assumes "1 \<le> length v" "length v \<le> 256"
  shows "emits (write_tlv tag v) (tlv_octets \<lparr>tlv_tag = tag, tlv_value = v\<rparr>)"
proof -
  have "emits (step_try (w_u8 tag) (\<lambda>_. step_try (w_u8 (of_nat (length v - 1))) (\<lambda>_. w_bytes v)))
          ([tag] @ [of_nat (length v - 1)] @ v)"
    by (intro emits_intros)
  with assms show ?thesis by (auto simp: write_tlv_def tlv_octets_def simp del: of_nat_diff)
qed

lemma emits_write_tlv_with [emits_intros]:
  assumes body: "emits body v" and len: "1 \<le> length v" "length v \<le> 256"
  shows "emits (write_tlv_with tag body) (tlv_octets \<lparr>tlv_tag = tag, tlv_value = v\<rparr>)"
  unfolding emits_def
proof (intro allI impI)
  fix w assume w: "w_ok w"
  have pre: "emits (step_try (w_u8 tag) (\<lambda>_. step_try (w_u8 0) (\<lambda>_. body))) ([tag] @ [0] @ v)"
    by (intro emits_intros body)
  let ?post = "\<lambda>w'. (let len = w_pos w' - (w_pos w + 2) in
         if len = 0 \<or> 256 < len then (Inl (Unrepresentable ''tlv value''), w')
         else step_try (w_patch (w_pos w + 1) 1) (\<lambda>rng. w_fill rng [of_nat (len - 1)]) w')"
  have eq: "write_tlv_with tag body w =
      step_try (step_try (w_u8 tag) (\<lambda>_. step_try (w_u8 0) (\<lambda>_. body))) (\<lambda>_. ?post) w"
    by (simp add: write_tlv_with_def step_try_assoc Let_def)
  show "(length (tlv_octets \<lparr>tlv_tag = tag, tlv_value = v\<rparr>) \<le> w_remaining w \<longrightarrow>
         write_tlv_with tag body w = (Inr (), w_put w (tlv_octets \<lparr>tlv_tag = tag, tlv_value = v\<rparr>))) \<and>
        (w_remaining w < length (tlv_octets \<lparr>tlv_tag = tag, tlv_value = v\<rparr>) \<longrightarrow>
         too_small (fst (write_tlv_with tag body w)))"
  proof (cases "length v + 2 \<le> w_remaining w")
    case True
    let ?w' = "w_put w ([tag] @ [0] @ v)"
    have m: "step_try (w_u8 tag) (\<lambda>_. step_try (w_u8 0) (\<lambda>_. body)) w = (Inr (), ?w')"
      using pre w True by (simp add: emits_def)
    have pos: "w_pos ?w' = w_pos w + 2 + length v" by (simp add: w_put_def)
    have blen: "w_pos w + 2 + length v \<le> length (w_buf ?w')"
      using w True by (simp add: w_put_def w_ok_def w_remaining_def)
    have "?post ?w' = (Inr (), ?w'\<lparr>w_buf := overwrite (w_buf ?w') (w_pos w + 1) [of_nat (length v - 1)]\<rparr>)"
      unfolding Let_def pos using len blen
      by (cases "v = []") (simp_all add: pos w_patch_def slice_def w_fill_def step_try_def del: of_nat_diff append.simps)
    also have "\<dots> = (Inr (), w_put w (tlv_octets \<lparr>tlv_tag = tag, tlv_value = v\<rparr>))"
      using w True by (simp add: w_put_def tlv_octets_def overwrite_def w_ok_def w_remaining_def del: of_nat_diff)
    finally have "write_tlv_with tag body w = (Inr (), w_put w (tlv_octets \<lparr>tlv_tag = tag, tlv_value = v\<rparr>))"
      unfolding eq step_try_Inr [where m = "step_try (w_u8 tag) (\<lambda>_. step_try (w_u8 0) (\<lambda>_. body))", OF m] .
    with True show ?thesis by (simp add: tlv_octets_def)
  next
    case False
    then have "too_small (fst (step_try (w_u8 tag) (\<lambda>_. step_try (w_u8 0) (\<lambda>_. body)) w))"
      using pre w by (simp add: emits_def)
    with False show ?thesis
      by (auto simp: eq too_small_def step_try_def tlv_octets_def split: prod.splits)
  qed
qed

lemma write_tlv_unrepresentable:
  "v = [] \<or> 256 < length v \<Longrightarrow> write_tlv tag v w = (Inl (Unrepresentable ''tlv value''), w)"
  by (simp add: write_tlv_def)

text \<open>In a message written TLV by TLV, looking a tag up returns the value of the first TLV
  written under it, and nothing when no TLV has the tag.\<close>

lemma set_value_written:
  assumes "list_all tlv_wf ts"
  shows "set_value (concat (map tlv_octets ts)) tag =
           map_option tlv_value (List.find (\<lambda>t. tlv_tag t = tag) ts)"
proof -
  have "set_iter (concat (map tlv_octets ts)) = ts"
    using assms by (simp add: set_iter_def tlv_items_octets List.map_filter_def comp_def)
  then show ?thesis by (simp add: set_value_def set_find_def)
qed

theorem tlv_validate_iff_witness:
  "tlv_validate (\<lambda>_. False) [1, 0, 7, 64, 1, 2, 3, 64, 0, 9] = Inr [1, 0, 7, 64, 1, 2, 3, 64, 0, 9]"
proof -
  let ?ts = "[\<lparr>tlv_tag = 1, tlv_value = [7]\<rparr>, \<lparr>tlv_tag = 64, tlv_value = [2, 3]\<rparr>, \<lparr>tlv_tag = 64, tlv_value = [9]\<rparr>]"
  have "list_all tlv_wf ?ts" "[1, 0, 7, 64, 1, 2, 3, 64, 0, 9] = concat (map tlv_octets ?ts)"
    by (simp_all add: tlv_wf_def tlv_octets_def)
  then show ?thesis
    unfolding tlv_validate_iff
    by (intro exI [of _ ?ts]) (auto simp: is_global_encapsulation_def)
qed

end
