(* ===== verification/Storage.thy ===== *)
theory Storage
  imports Codec
begin

text \<open>
  The durable key/value storage, \<^verbatim>\<open>panweave-storage/src/lib.rs\<close>: record kinds and their on-medium codes,
  the \<^verbatim>\<open>Storage\<close> trait as a locale, and the in-memory implementation, which interprets it. The
  trait's promise is stated against the partial map \<open>contents\<close> from keys to records.
\<close>

section \<open>Keys\<close>

datatype kind =
    NwkFrameCounter | NetworkKeysKind | NibKind | ChildrenKind | LinkKeyKind | ApsFrameCounterKind
  | AibKind | BindingsKind | GroupsKind | ApplicationKind | GreenPowerKind | DirectPastKeysKind
  | StartupSetsKind | DirectConfigKind | DirectAdminKeyKind

definition kind_code :: "kind \<Rightarrow> u8" where
  "kind_code k =
     (case k of NwkFrameCounter \<Rightarrow> 1 | NetworkKeysKind \<Rightarrow> 2 | NibKind \<Rightarrow> 3 | ChildrenKind \<Rightarrow> 4
      | LinkKeyKind \<Rightarrow> 5 | ApsFrameCounterKind \<Rightarrow> 6 | AibKind \<Rightarrow> 7 | BindingsKind \<Rightarrow> 8 | GroupsKind \<Rightarrow> 9
      | ApplicationKind \<Rightarrow> 10 | GreenPowerKind \<Rightarrow> 11 | DirectPastKeysKind \<Rightarrow> 12 | StartupSetsKind \<Rightarrow> 13
      | DirectConfigKind \<Rightarrow> 14 | DirectAdminKeyKind \<Rightarrow> 15)"

definition kind_from_code :: "u8 \<Rightarrow> kind option" where
  "kind_from_code c =
     (if c = 1 then Some NwkFrameCounter else if c = 2 then Some NetworkKeysKind
      else if c = 3 then Some NibKind else if c = 4 then Some ChildrenKind
      else if c = 5 then Some LinkKeyKind else if c = 6 then Some ApsFrameCounterKind
      else if c = 7 then Some AibKind else if c = 8 then Some BindingsKind
      else if c = 9 then Some GroupsKind else if c = 10 then Some ApplicationKind
      else if c = 11 then Some GreenPowerKind else if c = 12 then Some DirectPastKeysKind
      else if c = 13 then Some StartupSetsKind else if c = 14 then Some DirectConfigKind
      else if c = 15 then Some DirectAdminKeyKind else None)"

record storage_key =
  key_kind :: kind
  key_id :: u64

definition key_single :: "kind \<Rightarrow> storage_key" where
  "key_single k = \<lparr>key_kind = k, key_id = 0\<rparr>"

definition key_with_id :: "kind \<Rightarrow> u64 \<Rightarrow> storage_key" where
  "key_with_id k i = \<lparr>key_kind = k, key_id = i\<rparr>"

datatype storage_error = StorageFull | StorageBufferTooSmall | StorageIo

lemma kind_from_code_code [simp]: "kind_from_code (kind_code k) = Some k"
  by (cases k) (simp_all add: kind_code_def kind_from_code_def)

lemma kind_code_inj [simp]: "kind_code a = kind_code b \<longleftrightarrow> a = b"
  by (metis kind_from_code_code option.inject)

lemma kind_code_from_code: "kind_from_code c = Some k \<Longrightarrow> kind_code k = c"
  by (auto simp: kind_from_code_def kind_code_def split: if_splits)

section \<open>The Storage trait\<close>

type_synonym 's store_op = "storage_key \<Rightarrow> bytes \<Rightarrow> ('s, storage_error, unit) step"
type_synonym 's load_op = "storage_key \<Rightarrow> bytes \<Rightarrow> 's \<Rightarrow> (storage_error + nat option) \<times> bytes \<times> 's"
type_synonym 's erase_op = "storage_key \<Rightarrow> ('s, storage_error, unit) step"
type_synonym 's erase_kind_op = "kind \<Rightarrow> ('s, storage_error, unit) step"

text \<open>
  What the methods promise on the states the implementation keeps (\<open>inv\<close>): a store that returns
  success is visible to every later load, one that fails has changed nothing, and loads change
  nothing.
\<close>

locale storage =
  fixes store :: "'s store_op" and load :: "'s load_op" and erase :: "'s erase_op"
    and erase_kind :: "'s erase_kind_op"
    and inv :: "'s \<Rightarrow> bool" and contents :: "'s \<Rightarrow> storage_key \<Rightarrow> bytes option"
  assumes store_ok: "inv s \<Longrightarrow> store k d s = (Inr u, s') \<Longrightarrow> inv s' \<and> contents s' = (contents s)(k \<mapsto> d)"
    and store_err: "inv s \<Longrightarrow> store k d s = (Inl e, s') \<Longrightarrow> inv s' \<and> contents s' = contents s"
    and load_absent: "inv s \<Longrightarrow> contents s k = None \<Longrightarrow> \<exists>s'. load k buf s = (Inr None, buf, s') \<and> inv s' \<and> contents s' = contents s"
    and load_present: "inv s \<Longrightarrow> contents s k = Some v \<Longrightarrow> length v \<le> length buf \<Longrightarrow>
      \<exists>s'. load k buf s = (Inr (Some (length v)), v @ drop (length v) buf, s') \<and> inv s' \<and> contents s' = contents s"
    and load_too_small: "inv s \<Longrightarrow> contents s k = Some v \<Longrightarrow> length buf < length v \<Longrightarrow>
      \<exists>buf' s'. load k buf s = (Inl StorageBufferTooSmall, buf', s') \<and> inv s' \<and> contents s' = contents s"
    and erase_ok: "inv s \<Longrightarrow> erase k s = (Inr u, s') \<Longrightarrow> inv s' \<and> contents s' = (contents s)(k := None)"
    and erase_err: "inv s \<Longrightarrow> erase k s = (Inl e, s') \<Longrightarrow> inv s' \<and> contents s' = contents s"
    and erase_kind_ok: "inv s \<Longrightarrow> erase_kind g s = (Inr u, s') \<Longrightarrow>
      inv s' \<and> contents s' = (\<lambda>k. if key_kind k = g then None else contents s k)"
    and erase_kind_err: "inv s \<Longrightarrow> erase_kind g s = (Inl e, s') \<Longrightarrow> inv s' \<and> contents s' = contents s"
begin

lemma store_then_load:
  assumes "inv s" "store k d s = (Inr u, s')" "length d \<le> length buf"
  shows "\<exists>s''. load k buf s' = (Inr (Some (length d)), d @ drop (length d) buf, s'')"
  using store_ok [OF assms(1,2)] load_present [of s' k d buf] assms(3) by auto

lemma store_keeps_others:
  assumes "inv s" "store k d s = (res, s')" "k' \<noteq> k"
  shows "contents s' k' = contents s k'"
proof (cases res)
  case (Inl e)
  then show ?thesis using store_err [OF assms(1), of k d e s'] assms(2) by simp
next
  case (Inr u)
  then show ?thesis using store_ok [OF assms(1), of k d u s'] assms(2,3) by simp
qed

lemma store_atomic:
  assumes "inv s" "store k d s = (res, s')"
  shows "inv s' \<and> (contents s' = contents s \<or> contents s' = (contents s)(k \<mapsto> d))"
  using assms store_ok [of s k d] store_err [of s k d] by (cases res) blast+

end

section \<open>In-memory storage\<close>

record memory_storage =
  ms_cap :: nat
  ms_max :: nat
  ms_records :: "(storage_key \<times> bytes) list"
  ms_writes :: u32

definition memory_new :: "nat \<Rightarrow> nat \<Rightarrow> memory_storage" where
  "memory_new n s = \<lparr>ms_cap = n, ms_max = s, ms_records = [], ms_writes = 0\<rparr>"

definition memory_store :: "memory_storage store_op" where
  "memory_store key data m0 =
     (if ms_max m0 < length data then (Inl StorageFull, m0)
      else let m = m0\<lparr>ms_writes := saturating_add (ms_writes m0) 1\<rparr> in
           if List.find (\<lambda>r. fst r = key) (ms_records m) \<noteq> None
           then (Inr (), m\<lparr>ms_records := update_first (\<lambda>r. fst r = key) (\<lambda>r. (fst r, data)) (ms_records m)\<rparr>)
           else case vec_push (ms_cap m) (ms_records m) (key, data) of
                  Inr rs \<Rightarrow> (Inr (), m\<lparr>ms_records := rs\<rparr>)
                | Inl _ \<Rightarrow> (Inl StorageFull, m))"

definition memory_load :: "memory_storage load_op" where
  "memory_load key buf m =
     (case List.find (\<lambda>r. fst r = key) (ms_records m) of
        None \<Rightarrow> (Inr None, buf, m)
      | Some (_, v) \<Rightarrow>
          (case slice buf 0 (length v) of
             None \<Rightarrow> (Inl StorageBufferTooSmall, buf, m)
           | Some _ \<Rightarrow> (Inr (Some (length v)), overwrite buf 0 v, m)))"

definition memory_erase :: "memory_storage erase_op" where
  "memory_erase key m = (Inr (), m\<lparr>ms_records := filter (\<lambda>r. fst r \<noteq> key) (ms_records m)\<rparr>)"

definition memory_erase_kind :: "memory_storage erase_kind_op" where
  "memory_erase_kind g m = (Inr (), m\<lparr>ms_records := filter (\<lambda>r. key_kind (fst r) \<noteq> g) (ms_records m)\<rparr>)"

definition memory_contents :: "memory_storage \<Rightarrow> storage_key \<Rightarrow> bytes option" where
  "memory_contents m key = map_option snd (List.find (\<lambda>r. fst r = key) (ms_records m))"

lemma find_update_key:
  "x \<noteq> k \<Longrightarrow> List.find (\<lambda>r. fst r = x) (update_first (\<lambda>r. fst r = k) (\<lambda>r. (fst r, d)) rs) =
     List.find (\<lambda>r. fst r = x) rs"
  by (rule find_update_first_other) auto

lemma find_filter_group:
  "List.find (\<lambda>r. fst r = k) (filter (\<lambda>r. g (fst r)) rs) =
     (if g k then List.find (\<lambda>r. fst r = k) rs else None)"
  by (induction rs) auto

interpretation mem: storage memory_store memory_load memory_erase memory_erase_kind "\<lambda>_. True" memory_contents
proof unfold_locales
  show "True \<and> memory_contents s' = (memory_contents s)(k \<mapsto> d)"
    if "memory_store k d s = (Inr u, s')" for s k d u s'
    using that
    by (auto simp: memory_store_def memory_contents_def vec_push_def Let_def fun_eq_iff find_append
        find_update_first find_update_key split: if_splits option.splits)
  show "True \<and> memory_contents s' = memory_contents s" if "memory_store k d s = (Inl e, s')" for s k d e s'
    using that by (auto simp: memory_store_def memory_contents_def vec_push_def Let_def split: if_splits)
  show "\<exists>s'. memory_load k buf s = (Inr None, buf, s') \<and> True \<and> memory_contents s' = memory_contents s"
    if "memory_contents s k = None" for s k buf
    using that by (simp add: memory_load_def memory_contents_def)
  show "\<exists>s'. memory_load k buf s = (Inr (Some (length v)), v @ drop (length v) buf, s') \<and> True \<and>
      memory_contents s' = memory_contents s"
    if "memory_contents s k = Some v" "length v \<le> length buf" for s k v buf
    using that by (auto simp: memory_load_def memory_contents_def slice_def overwrite_def)
  show "\<exists>buf' s'. memory_load k buf s = (Inl StorageBufferTooSmall, buf', s') \<and> True \<and>
      memory_contents s' = memory_contents s"
    if "memory_contents s k = Some v" "length buf < length v" for s k v buf
    using that by (auto simp: memory_load_def memory_contents_def slice_def)
  show "True \<and> memory_contents s' = (memory_contents s)(k := None)" if "memory_erase k s = (Inr u, s')" for s k u s'
    using that by (auto simp: memory_erase_def memory_contents_def fun_eq_iff
        find_filter_group [where g = "\<lambda>x. x \<noteq> k"])
  show "True \<and> memory_contents s' = (\<lambda>k. if key_kind k = g then None else memory_contents s k)"
    if "memory_erase_kind g s = (Inr u, s')" for s g u s'
    using that by (auto simp: memory_erase_kind_def memory_contents_def fun_eq_iff
        find_filter_group [where g = "\<lambda>k. key_kind k \<noteq> h" for h])
qed (simp_all add: memory_erase_def memory_erase_kind_def)

lemma memory_store_full_only_when_needed:
  assumes "length d \<le> ms_max m" "memory_store k d m = (Inl e, m')"
  shows "e = StorageFull \<and> memory_contents m k = None \<and> ms_cap m \<le> length (ms_records m)"
  using assms
  by (cases "List.find (\<lambda>r. fst r = k) (ms_records m)")
     (auto simp: memory_store_def memory_contents_def vec_push_def Let_def split: if_splits)

end
