(* ===== verification/NorFlash.thy ===== *)
theory NorFlash
  imports Storage
begin

text \<open>
  The log-structured store of \<^verbatim>\<open>panweave-storage/src/nor_flash.rs\<close>: two halves of a NOR flash, records
  appended to the active one, the newest record of a key being the truth, compaction into the other
  half. The flash driver (the \<^verbatim>\<open>embedded-storage\<close> traits) is a parameter; offsets are natural numbers,
  the region lying inside the 32-bit address space of the flash.
\<close>

section \<open>The flash driver\<close>

text \<open>\<^verbatim>\<open>NorFlash\<close> and \<^verbatim>\<open>ReadNorFlash\<close>: the granules and the three operations. The error carries nothing.\<close>

record 'f nor_driver =
  READ_SIZE :: nat
  WRITE_SIZE :: nat
  ERASE_SIZE :: nat
  drv_read :: "nat \<Rightarrow> nat \<Rightarrow> ('f, unit, bytes) step"
  drv_write :: "nat \<Rightarrow> bytes \<Rightarrow> ('f, unit, unit) step"
  drv_erase :: "nat \<Rightarrow> nat \<Rightarrow> ('f, unit, unit) step"

section \<open>The store\<close>

definition MAX_RECORD :: nat where "MAX_RECORD = 512"
definition MAGIC :: bytes where "MAGIC = [0x50, 0x57, 0x53, 0x31]"
definition HEADER_LEN :: nat where "HEADER_LEN = 16"
definition TAG_RECORD :: u8 where "TAG_RECORD = 0xA5"
definition FLAG_SET :: u8 where "FLAG_SET = 0"
definition FLAG_ERASED :: u8 where "FLAG_ERASED = 1"
definition FLAG_KIND_ERASED :: u8 where "FLAG_KIND_ERASED = 2"
definition CHUNK :: nat where "CHUNK = 64"

record store_stats =
  formatted_at_open :: bool
  corrupt_records :: u32
  stat_writes :: u32
  stat_compactions :: u32
  stat_io_errors :: u32

definition stats_default :: store_stats where
  "stats_default = \<lparr>formatted_at_open = False, corrupt_records = 0, stat_writes = 0, stat_compactions = 0, stat_io_errors = 0\<rparr>"

record 'f nor_flash_store =
  nf_flash :: 'f
  nf_stats :: store_stats
  nf_base :: nat
  nf_half :: nat
  nf_active :: nat
  nf_seq :: u32
  nf_tail :: nat

type_synonym ('f, 'a) nf_step = "('f nor_flash_store, storage_error, 'a) step"

definition align :: "'f nor_driver \<Rightarrow> nat" where
  "align D = (let a = if WRITE_SIZE D < READ_SIZE D then READ_SIZE D else WRITE_SIZE D in if a < 4 then 4 else a)"

definition round_up :: "nat \<Rightarrow> nat \<Rightarrow> nat" where
  "round_up n a = (if n mod a = 0 then n div a else n div a + 1) * a"

definition chunk :: "'f nor_driver \<Rightarrow> nat" where
  "chunk D = CHUNK - CHUNK mod align D"

definition crc16_bit :: "u16 \<Rightarrow> u16" where
  "crc16_bit crc = (if crc AND 0x8000 \<noteq> 0 then push_bit 1 crc XOR 0x1021 else push_bit 1 crc)"

definition crc16_octet :: "u16 \<Rightarrow> u8 \<Rightarrow> u16" where
  "crc16_octet crc b = (crc16_bit ^^ 8) (crc XOR push_bit 8 (ucast b))"

definition crc16_update :: "u16 \<Rightarrow> bytes \<Rightarrow> u16" where
  "crc16_update crc bs = foldl crc16_octet crc bs"

definition crc16 :: "bytes \<Rightarrow> u16" where
  "crc16 bs = crc16_update 0xffff bs"

subsection \<open>Driver calls on behalf of the store\<close>

text \<open>\<^verbatim>\<open>self.flash.read(..).map_err(|_| StorageError::Io)?\<close> and its companions.\<close>

definition on_flash :: "('f, unit, 'a) step \<Rightarrow> ('f, 'a) nf_step" where
  "on_flash m s = (case m (nf_flash s) of (r, f) \<Rightarrow> (map_err (\<lambda>_. StorageIo) r, s\<lparr>nf_flash := f\<rparr>))"

subsection \<open>The chunk writer\<close>

record chunk_writer =
  cw_buf :: bytes
  cw_fill :: nat
  cw_at :: nat

definition cw_new :: "nat \<Rightarrow> chunk_writer" where
  "cw_new pos = \<lparr>cw_buf = replicate CHUNK 0xff, cw_fill = 0, cw_at = pos\<rparr>"

definition cw_flush :: "'f nor_driver \<Rightarrow> ('f \<times> chunk_writer, storage_error, unit) step" where
  "cw_flush D fw = (case fw of (f, w) \<Rightarrow>
     if cw_fill w = 0 then (Inr (), f, w)
     else let n = round_up (cw_fill w) (align D) in
       (case drv_write D (cw_at w) (take n (cw_buf w)) f of
          (Inl _, f') \<Rightarrow> (Inl StorageIo, f', w)
        | (Inr _, f') \<Rightarrow> (Inr (), f', \<lparr>cw_buf = replicate CHUNK 0xff, cw_fill = 0, cw_at = cw_at w + n\<rparr>)))"

text \<open>
  The loop of \<^verbatim>\<open>push\<close>. It makes no progress when the buffer is full on entry, which never happens: a
  flush follows as soon as the buffer is full, and the buffer holds at least one granule.
\<close>

function cw_push :: "'f nor_driver \<Rightarrow> bytes \<Rightarrow> ('f \<times> chunk_writer, storage_error, unit) step" where
  "cw_push D bs (f, w) =
     (if bs = [] then (Inr (), f, w)
      else let n = min (chunk D - cw_fill w) (length bs);
               w' = w\<lparr>cw_buf := overwrite (cw_buf w) (cw_fill w) (take n bs), cw_fill := cw_fill w + n\<rparr> in
        if n = 0 then (Inl StorageIo, f, w)
        else if cw_fill w' = chunk D then step_try (cw_flush D) (\<lambda>_. cw_push D (drop n bs)) (f, w')
        else cw_push D (drop n bs) (f, w'))"
  by pat_completeness auto
termination
  by (relation "measure (\<lambda>(D, bs, fw). length bs)") auto

subsection \<open>Records\<close>

record flash_record =
  fr_kind :: u8
  fr_flags :: u8
  fr_id :: u64
  fr_len :: u16
  fr_crc :: u16

definition fr_matches :: "flash_record \<Rightarrow> storage_key \<Rightarrow> bool" where
  "fr_matches r key \<longleftrightarrow> fr_kind r = kind_code (key_kind key) \<and> fr_id r = key_id key"

definition fr_size :: "'f nor_driver \<Rightarrow> flash_record \<Rightarrow> nat" where
  "fr_size D r = round_up (HEADER_LEN + unat (fr_len r)) (align D)"

definition record_header :: "flash_record \<Rightarrow> bytes" where
  "record_header r =
     [TAG_RECORD, fr_kind r, fr_flags r, 0] @ le_bytes 2 (fr_len r) @ le_bytes 2 (fr_crc r) @ le_bytes 8 (fr_id r)"

subsection \<open>Halves\<close>

definition half_base :: "'f nor_flash_store \<Rightarrow> nat \<Rightarrow> nat" where
  "half_base s h = nf_base s + h * nf_half s"

definition erase_half :: "'f nor_driver \<Rightarrow> nat \<Rightarrow> ('f, unit) nf_step" where
  "erase_half D h s = on_flash (drv_erase D (half_base s h) (half_base s h + nf_half s)) s"

definition header_seq :: "'f nor_driver \<Rightarrow> nat \<Rightarrow> ('f, u32 option) nf_step" where
  "header_seq D h s =
     step_try (on_flash (drv_read D (half_base s h) HEADER_LEN))
       (\<lambda>buf. step_ok (if take 4 buf \<noteq> MAGIC then None else Some (le_word (take 4 (drop 4 buf))))) s"

definition write_header :: "'f nor_driver \<Rightarrow> nat \<Rightarrow> u32 \<Rightarrow> ('f, unit) nf_step" where
  "write_header D h seq s =
     on_flash (drv_write D (half_base s h) (MAGIC @ le_bytes 4 seq @ replicate 8 0xff)) s"

definition read_record :: "'f nor_driver \<Rightarrow> nat \<Rightarrow> nat \<Rightarrow> ('f, flash_record option) nf_step" where
  "read_record D h pos s =
     (if nf_half s < pos + HEADER_LEN then (Inr None, s)
      else step_try (on_flash (drv_read D (half_base s h + pos) HEADER_LEN))
        (\<lambda>buf. let len = le_word (take 2 (drop 4 buf)) in
           step_ok (if buf ! 0 \<noteq> TAG_RECORD \<or> MAX_RECORD < unat (len :: u16) then None
             else Some \<lparr>fr_kind = buf ! 1, fr_flags = buf ! 2, fr_id = le_word (drop 8 buf), fr_len = len,
                        fr_crc = le_word (take 2 (drop 6 buf))\<rparr>)) s)"

definition note_corrupt :: "bool \<Rightarrow> ('f, bool) nf_step" where
  "note_corrupt ok s =
     (Inr ok, if ok then s
              else s\<lparr>nf_stats := (nf_stats s)\<lparr>corrupt_records := saturating_add (corrupt_records (nf_stats s)) 1\<rparr>\<rparr>)"

text \<open>\<^verbatim>\<open>read_payload\<close>: the aligned part directly, the tail through a chunk.\<close>

definition read_payload ::
  "'f nor_driver \<Rightarrow> nat \<Rightarrow> nat \<Rightarrow> flash_record \<Rightarrow> bytes \<Rightarrow> 'f nor_flash_store \<Rightarrow>
     (storage_error + bool) \<times> bytes \<times> 'f nor_flash_store" where
  "read_payload D h pos r buf s =
     (let n = unat (fr_len r); a = align D; body = n - n mod a; src = half_base s h + pos + HEADER_LEN in
      if length buf < n then (Inl StorageBufferTooSmall, buf, s)
      else
        (case (if 0 < body then on_flash (drv_read D src body) s else (Inr [], s)) of
           (Inl e, s1) \<Rightarrow> (Inl e, buf, s1)
         | (Inr front, s1) \<Rightarrow>
             let buf1 = overwrite buf 0 front in
             (case (if body < n then on_flash (drv_read D (src + body) a) s1 else (Inr [], s1)) of
                (Inl e, s2) \<Rightarrow> (Inl e, buf1, s2)
              | (Inr tmp, s2) \<Rightarrow>
                  let buf2 = overwrite buf1 body (take (n - body) tmp) in
                  (case note_corrupt (crc16 (take n buf2) = fr_crc r) s2 of (res, s3) \<Rightarrow> (res, buf2, s3)))))"

text \<open>The loop of \<^verbatim>\<open>payload_intact\<close>; \<open>rounds\<close> bounds its iterations, one octet at least being read by each.\<close>

fun intact_loop :: "nat \<Rightarrow> 'f nor_driver \<Rightarrow> nat \<Rightarrow> nat \<Rightarrow> nat \<Rightarrow> u16 \<Rightarrow> ('f, u16) nf_step" where
  "intact_loop 0 D src done len crc s = (if done < len then (Inl StorageIo, s) else (Inr crc, s))"
| "intact_loop (Suc rounds) D src done len crc s =
     (if done < len then
        (let n = min (len - done) (chunk D) in
         step_try (on_flash (drv_read D (src + done) (round_up n (align D))))
           (\<lambda>tmp. intact_loop rounds D src (done + n) len (crc16_update crc (take n tmp))) s)
      else (Inr crc, s))"

definition payload_intact :: "'f nor_driver \<Rightarrow> nat \<Rightarrow> nat \<Rightarrow> flash_record \<Rightarrow> ('f, bool) nf_step" where
  "payload_intact D h pos r s =
     step_try (intact_loop (unat (fr_len r)) D (half_base s h + pos + HEADER_LEN) 0 (unat (fr_len r)) 0xffff)
       (\<lambda>crc. note_corrupt (crc = fr_crc r)) s"

subsection \<open>Walking the log\<close>

text \<open>
  \<^verbatim>\<open>walk\<close>: the closure is handed the offset, the record and the captured variable, and says whether to
  go on. Every record takes sixteen octets at least, so as many rounds as the half has octets are
  enough to reach its end.
\<close>

fun walk_loop :: "nat \<Rightarrow> 'f nor_driver \<Rightarrow> nat \<Rightarrow> (nat \<Rightarrow> flash_record \<Rightarrow> 'v \<Rightarrow> ('f, bool \<times> 'v) nf_step) \<Rightarrow>
    nat \<Rightarrow> 'v \<Rightarrow> ('f, 'v) nf_step" where
  "walk_loop 0 D h f pos v s = (Inl StorageIo, s)"
| "walk_loop (Suc rounds) D h f pos v s =
     step_try (read_record D h pos) (\<lambda>rec.
       case rec of
         None \<Rightarrow> step_ok v
       | Some r \<Rightarrow> step_try (f pos r v) (\<lambda>(go_on, v').
           if go_on then walk_loop rounds D h f (pos + fr_size D r) v' else step_ok v')) s"

definition walk :: "'f nor_driver \<Rightarrow> nat \<Rightarrow> (nat \<Rightarrow> flash_record \<Rightarrow> 'v \<Rightarrow> ('f, bool \<times> 'v) nf_step) \<Rightarrow> 'v \<Rightarrow> ('f, 'v) nf_step" where
  "walk D h f v s = walk_loop (Suc (nf_half s)) D h f HEADER_LEN v s"

fun scan_loop :: "nat \<Rightarrow> 'f nor_driver \<Rightarrow> nat \<Rightarrow> ('f, unit) nf_step" where
  "scan_loop 0 D pos s = (Inl StorageIo, s)"
| "scan_loop (Suc rounds) D pos s =
     step_try (read_record D (nf_active s) pos) (\<lambda>rec s'.
       case rec of
         None \<Rightarrow> (Inr (), s'\<lparr>nf_tail := pos\<rparr>)
       | Some r \<Rightarrow> scan_loop rounds D (pos + fr_size D r) s') s"

definition scan_tail :: "'f nor_driver \<Rightarrow> ('f, unit) nf_step" where
  "scan_tail D s = scan_loop (Suc (nf_half s)) D HEADER_LEN s"

definition find_visit :: "storage_key \<Rightarrow> nat \<Rightarrow> flash_record \<Rightarrow> (nat \<times> flash_record) option \<Rightarrow> (nat \<times> flash_record) option" where
  "find_visit key pos r found =
     (if fr_flags r = FLAG_KIND_ERASED \<and> fr_kind r = kind_code (key_kind key) then None
      else if fr_matches r key then (if fr_flags r = FLAG_SET then Some (pos, r) else None)
      else found)"

definition find_record :: "'f nor_driver \<Rightarrow> nat \<Rightarrow> storage_key \<Rightarrow> ('f, (nat \<times> flash_record) option) nf_step" where
  "find_record D h key = walk D h (\<lambda>pos r v. step_ok (True, find_visit key pos r v)) None"

definition is_live :: "'f nor_driver \<Rightarrow> nat \<Rightarrow> nat \<Rightarrow> flash_record \<Rightarrow> ('f, bool) nf_step" where
  "is_live D h pos r =
     (if fr_flags r \<noteq> FLAG_SET then step_ok False
      else case kind_from_code (fr_kind r) of
             None \<Rightarrow> step_ok False
           | Some k \<Rightarrow> step_map (\<lambda>x. case x of None \<Rightarrow> False | Some (live, _) \<Rightarrow> live = pos)
                         (find_record D h \<lparr>key_kind = k, key_id = fr_id r\<rparr>))"

subsection \<open>Compaction\<close>

text \<open>Runs a chunk-writer step on the flash of the store.\<close>

definition with_writer :: "('f \<times> chunk_writer, storage_error, unit) step \<Rightarrow> chunk_writer \<Rightarrow> ('f, chunk_writer) nf_step" where
  "with_writer m w s = (case m (nf_flash s, w) of
     (Inl e, f, _) \<Rightarrow> (Inl e, s\<lparr>nf_flash := f\<rparr>)
   | (Inr _, f, w') \<Rightarrow> (Inr w', s\<lparr>nf_flash := f\<rparr>))"

fun copy_loop :: "nat \<Rightarrow> 'f nor_driver \<Rightarrow> nat \<Rightarrow> nat \<Rightarrow> nat \<Rightarrow> chunk_writer \<Rightarrow> ('f, chunk_writer) nf_step" where
  "copy_loop 0 D src done len w s = (if done < len then (Inl StorageIo, s) else (Inr w, s))"
| "copy_loop (Suc rounds) D src done len w s =
     (if done < len then
        (let n = min (len - done) (chunk D) in
         step_try (on_flash (drv_read D (src + done) (round_up n (align D))))
           (\<lambda>tmp. step_try (with_writer (cw_push D (take n tmp)) w)
              (\<lambda>w'. copy_loop rounds D src (done + n) len w')) s)
      else (Inr w, s))"

definition copy_record :: "'f nor_driver \<Rightarrow> nat \<Rightarrow> nat \<Rightarrow> nat \<Rightarrow> nat \<Rightarrow> flash_record \<Rightarrow> ('f, unit) nf_step" where
  "copy_record D old new pos out r s =
     step_try (with_writer (cw_push D (record_header r)) (cw_new (half_base s new + out))) (\<lambda>w.
     step_try (copy_loop (unat (fr_len r)) D (half_base s old + pos + HEADER_LEN) 0 (unat (fr_len r)) w) (\<lambda>w'.
     step_map (\<lambda>_. ()) (with_writer (cw_flush D) w'))) s"

fun compact_loop :: "nat \<Rightarrow> 'f nor_driver \<Rightarrow> nat \<Rightarrow> nat \<Rightarrow> nat \<Rightarrow> nat \<Rightarrow> ('f, nat) nf_step" where
  "compact_loop 0 D old new pos out s = (Inl StorageIo, s)"
| "compact_loop (Suc rounds) D old new pos out s =
     step_try (read_record D old pos) (\<lambda>rec.
       case rec of
         None \<Rightarrow> step_ok out
       | Some r \<Rightarrow>
           step_try (is_live D old pos r) (\<lambda>live.
           step_try (if live then payload_intact D old pos r else step_ok False) (\<lambda>keep.
             if keep then step_try (copy_record D old new pos out r)
                            (\<lambda>_. compact_loop rounds D old new (pos + fr_size D r) (out + fr_size D r))
             else compact_loop rounds D old new (pos + fr_size D r) out))) s"

definition switch_half :: "nat \<Rightarrow> u32 \<Rightarrow> nat \<Rightarrow> ('f, unit) nf_step" where
  "switch_half new seq out s =
     (Inr (), s\<lparr>nf_active := new, nf_seq := seq, nf_tail := out,
        nf_stats := (nf_stats s)\<lparr>stat_compactions := saturating_add (stat_compactions (nf_stats s)) 1\<rparr>\<rparr>)"

definition compact :: "'f nor_driver \<Rightarrow> ('f, unit) nf_step" where
  "compact D s =
     (let old = nf_active s; new = 1 - old; seq = nf_seq s + 1 in
      step_try (erase_half D new) (\<lambda>_.
      step_try (compact_loop (Suc (nf_half s)) D old new HEADER_LEN HEADER_LEN) (\<lambda>out.
      step_try (write_header D new seq) (\<lambda>_.
      step_try (switch_half new seq out) (\<lambda>_.
      erase_half D old)))) s)"

subsection \<open>Appending\<close>

definition append_record :: "'f nor_driver \<Rightarrow> flash_record \<Rightarrow> bytes \<Rightarrow> ('f, unit) nf_step" where
  "append_record D r data s =
     (let pos = half_base s (nf_active s) + nf_tail s in
      case step_try (cw_push D (record_header r)) (\<lambda>_. step_try (cw_push D data) (\<lambda>_. cw_flush D))
             (nf_flash s, cw_new pos) of
        (Inl _, f, _) \<Rightarrow> (Inl StorageIo, s\<lparr>nf_flash := f,
            nf_stats := (nf_stats s)\<lparr>stat_io_errors := saturating_add (stat_io_errors (nf_stats s)) 1\<rparr>\<rparr>)
      | (Inr _, f, _) \<Rightarrow> (Inr (), s\<lparr>nf_flash := f, nf_tail := nf_tail s + fr_size D r,
            nf_stats := (nf_stats s)\<lparr>stat_writes := saturating_add (stat_writes (nf_stats s)) 1\<rparr>\<rparr>))"

definition nf_append :: "'f nor_driver \<Rightarrow> u8 \<Rightarrow> u8 \<Rightarrow> u64 \<Rightarrow> bytes \<Rightarrow> ('f, unit) nf_step" where
  "nf_append D kind flags i data s =
     (if MAX_RECORD < length data then (Inl StorageFull, s)
      else let r = \<lparr>fr_kind = kind, fr_flags = flags, fr_id = i, fr_len = of_nat (length data), fr_crc = crc16 data\<rparr> in
        if nf_half s < nf_tail s + fr_size D r
        then step_try (compact D) (\<lambda>_ s'.
               if nf_half s' < nf_tail s' + fr_size D r then (Inl StorageFull, s')
               else append_record D r data s') s
        else append_record D r data s)"

subsection \<open>Opening\<close>

definition nf_format :: "'f nor_driver \<Rightarrow> ('f, unit) nf_step" where
  "nf_format D s =
     step_try (erase_half D 0) (\<lambda>_.
     step_try (erase_half D 1) (\<lambda>_ s1.
     step_try (write_header D 0 1) (\<lambda>_ s2. (Inr (), s2\<lparr>nf_tail := HEADER_LEN\<rparr>))
       (s1\<lparr>nf_active := 0, nf_seq := 1\<rparr>))) s"

definition open_half :: "'f nor_driver \<Rightarrow> nat \<Rightarrow> u32 \<Rightarrow> ('f, unit) nf_step" where
  "open_half D h seq s = scan_tail D (s\<lparr>nf_active := h, nf_seq := seq\<rparr>)"

definition nf_new :: "'f nor_driver \<Rightarrow> 'f \<Rightarrow> nat \<Rightarrow> nat \<Rightarrow> storage_error + 'f nor_flash_store" where
  "nf_new D f base len =
     (if CHUNK < align D \<or> len < 2 * ERASE_SIZE D \<or> \<not> 2 * ERASE_SIZE D dvd len \<or> \<not> ERASE_SIZE D dvd base
      then Inl StorageIo
      else
        case step_try (header_seq D 0) (\<lambda>a. step_try (header_seq D 1) (\<lambda>b.
               case (a, b) of
                 (None, None) \<Rightarrow> (\<lambda>s. nf_format D (s\<lparr>nf_stats := (nf_stats s)\<lparr>formatted_at_open := True\<rparr>\<rparr>))
               | (Some sa, Some sb) \<Rightarrow>
                   if sb - sa < 0x7fffffff then open_half D 1 sb else open_half D 0 sa
               | (Some sa, None) \<Rightarrow> open_half D 0 sa
               | (None, Some sb) \<Rightarrow> open_half D 1 sb))
             \<lparr>nf_flash = f, nf_stats = stats_default, nf_base = base, nf_half = len div 2, nf_active = 0,
              nf_seq = 0, nf_tail = HEADER_LEN\<rparr> of
          (Inl e, _) \<Rightarrow> Inl e
        | (Inr _, s) \<Rightarrow> Inr s)"

section \<open>The Storage methods\<close>

definition nf_store :: "'f nor_driver \<Rightarrow> 'f nor_flash_store store_op" where
  "nf_store D key data = nf_append D (kind_code (key_kind key)) FLAG_SET (key_id key) data"

definition nf_load :: "'f nor_driver \<Rightarrow> 'f nor_flash_store load_op" where
  "nf_load D key buf s =
     (case find_record D (nf_active s) key s of
        (Inl e, s1) \<Rightarrow> (Inl e, buf, s1)
      | (Inr None, s1) \<Rightarrow> (Inr None, buf, s1)
      | (Inr (Some (pos, r)), s1) \<Rightarrow>
          if length buf < unat (fr_len r) then (Inl StorageBufferTooSmall, buf, s1)
          else
            (case read_payload D (nf_active s1) pos r buf s1 of
               (Inl e, buf', s2) \<Rightarrow> (Inl e, buf', s2)
             | (Inr True, buf', s2) \<Rightarrow> (Inr (Some (unat (fr_len r))), buf', s2)
             | (Inr False, buf', s2) \<Rightarrow> (Inr None, buf', s2)))"

definition nf_erase :: "'f nor_driver \<Rightarrow> 'f nor_flash_store erase_op" where
  "nf_erase D key s =
     step_try (find_record D (nf_active s) key) (\<lambda>x.
       if x = None then step_ok () else nf_append D (kind_code (key_kind key)) FLAG_ERASED (key_id key) []) s"

definition nf_erase_kind :: "'f nor_driver \<Rightarrow> 'f nor_flash_store erase_kind_op" where
  "nf_erase_kind D g s =
     step_try
       (walk D (nf_active s)
         (\<lambda>pos r any. if fr_kind r = kind_code g
            then step_map (\<lambda>live. if live then (False, True) else (True, any)) (\<lambda>s'. is_live D (nf_active s') pos r s')
            else step_ok (True, any)) False)
       (\<lambda>any. if any then nf_append D (kind_code g) FLAG_KIND_ERASED 0 [] else step_ok ()) s"

end
