(* ===== verification/NorFlashWriter.thy ===== *)
theory NorFlashWriter
  imports NorFlash
begin

text \<open>
  What the store relies on in a flash driver, as a locale, and what the chunk writer does over such a
  driver: however the octets are pushed, the cells end up holding them padded to the granule.
\<close>

declare cw_push.simps [simp del]

section \<open>Arithmetic of the layout\<close>

lemma round_up_bounds:
  assumes a: "0 < a"
  shows "n \<le> round_up n a" "round_up n a < n + a" "a dvd round_up n a"
proof -
  define q r where "q = n div a" and "r = n mod a"
  then have n: "n = q * a + r" "r < a" using a by simp_all
  have "round_up n a = (if r = 0 then q * a else q * a + a)"
    by (simp add: round_up_def q_def r_def)
  with n show "n \<le> round_up n a" "round_up n a < n + a" "a dvd round_up n a" by auto
qed

lemma round_up_dvd: "0 < a \<Longrightarrow> a dvd n \<Longrightarrow> round_up n a = n"
  by (auto simp: round_up_def elim: dvdE)

lemma round_up_le:
  assumes "0 < a" "a dvd m" "n \<le> m"
  shows "round_up n a \<le> m"
proof (rule ccontr)
  assume gt: "\<not> round_up n a \<le> m"
  moreover have "a dvd round_up n a - m" using round_up_bounds(3) [OF assms(1)] assms(2) by (rule dvd_diff_nat)
  ultimately have "a \<le> round_up n a - m" by (simp add: dvd_imp_le)
  with round_up_bounds(2) [OF assms(1), of n] assms(3) gt show False by simp
qed

lemma round_up_add: "0 < a \<Longrightarrow> a dvd m \<Longrightarrow> round_up (m + n) a = m + round_up n a"
  by (auto simp: round_up_def algebra_simps mod_eq_0_iff_dvd dvd_add_right_iff elim!: dvdE)

lemma round_up_mono: "0 < a \<Longrightarrow> m \<le> n \<Longrightarrow> round_up m a \<le> round_up n a"
  by (meson round_up_bounds order_trans round_up_le)

lemma overwrite_nth:
  "a + length ys \<le> length xs \<Longrightarrow> i < length xs \<Longrightarrow>
     overwrite xs a ys ! i = (if a \<le> i \<and> i < a + length ys then ys ! (i - a) else xs ! i)"
  by (auto simp: overwrite_def nth_append min_def)

section \<open>What the store relies on in a driver\<close>

text \<open>
  Accesses on granule boundaries inside the flash. A read returns the cells; a write into erased
  cells programs them, and one that is cut leaves the written cells undefined and every other cell
  alone; an erase takes effect or does not. \<open>steady\<close> flashes never fail.
\<close>

definition erased :: "bytes \<Rightarrow> nat \<Rightarrow> nat \<Rightarrow> bool" where
  "erased xs off n \<longleftrightarrow> off + n \<le> length xs \<and> take n (drop off xs) = replicate n 0xff"

lemma erased_mono:
  assumes "erased xs off n" "m \<le> n"
  shows "erased xs off m"
proof -
  have "take m (take n (drop off xs)) = replicate m 0xff" using assms by (simp only: erased_def) (simp add: min_def)
  then have "take m (drop off xs) = replicate m 0xff" using assms(2) by (simp only: take_take min_absorb1)
  with assms show ?thesis by (simp add: erased_def)
qed

text \<open>\<open>xs\<close> has been pushed since the writer was created at \<open>start\<close> on the cells \<open>orig\<close>.\<close>

definition cw_state :: "('f \<Rightarrow> bytes) \<Rightarrow> bytes \<Rightarrow> nat \<Rightarrow> bytes \<Rightarrow> 'f \<times> chunk_writer \<Rightarrow> bool" where
  "cw_state cells orig start xs fw \<longleftrightarrow>
     (let k = length xs - length xs mod 64 in
      cw_at (snd fw) = start + k \<and> cw_fill (snd fw) = length xs mod 64 \<and>
      cw_buf (snd fw) = drop k xs @ replicate (64 - length xs mod 64) 0xff \<and>
      cells (fst fw) = overwrite orig start (take k xs))"

definition padded :: "'f nor_driver \<Rightarrow> bytes \<Rightarrow> bytes" where
  "padded D xs = xs @ replicate (round_up (length xs) (align D) - length xs) 0xff"

locale nor_flash =
  fixes D :: "'f nor_driver" and cells :: "'f \<Rightarrow> bytes" and steady :: "'f \<Rightarrow> bool"
  assumes granules: "READ_SIZE D dvd align D" "WRITE_SIZE D dvd align D" "align D dvd 16"
      "align D dvd ERASE_SIZE D" "16 \<le> ERASE_SIZE D"
    and read_cells: "READ_SIZE D dvd off \<Longrightarrow> READ_SIZE D dvd n \<Longrightarrow> off + n \<le> length (cells f) \<Longrightarrow>
      \<exists>f'. drv_read D off n f = (Inr (take n (drop off (cells f))), f') \<and> cells f' = cells f \<and> steady f' = steady f"
    and write_done: "WRITE_SIZE D dvd off \<Longrightarrow> WRITE_SIZE D dvd length bs \<Longrightarrow> erased (cells f) off (length bs) \<Longrightarrow>
      drv_write D off bs f = (Inr u, f') \<Longrightarrow> cells f' = overwrite (cells f) off bs \<and> (steady f \<longrightarrow> steady f')"
    and write_cut: "WRITE_SIZE D dvd off \<Longrightarrow> WRITE_SIZE D dvd length bs \<Longrightarrow> erased (cells f) off (length bs) \<Longrightarrow>
      drv_write D off bs f = (Inl e, f') \<Longrightarrow>
      \<not> steady f \<and> (\<exists>ws. length ws = length bs \<and> cells f' = overwrite (cells f) off ws)"
    and erase_done: "ERASE_SIZE D dvd from \<Longrightarrow> ERASE_SIZE D dvd till \<Longrightarrow> from \<le> till \<Longrightarrow> till \<le> length (cells f) \<Longrightarrow>
      drv_erase D from till f = (Inr u, f') \<Longrightarrow>
      cells f' = overwrite (cells f) from (replicate (till - from) 0xff) \<and> (steady f \<longrightarrow> steady f')"
    and erase_cut: "ERASE_SIZE D dvd from \<Longrightarrow> ERASE_SIZE D dvd till \<Longrightarrow> from \<le> till \<Longrightarrow> till \<le> length (cells f) \<Longrightarrow>
      drv_erase D from till f = (Inl e, f') \<Longrightarrow>
      \<not> steady f \<and> (cells f' = cells f \<or> cells f' = overwrite (cells f) from (replicate (till - from) 0xff))"
begin

lemma align_pos: "0 < align D"
  by (simp add: align_def Let_def)

lemma align_le: "align D \<le> 16" "align D dvd 64"
  using granules(3) dvd_imp_le [of "align D" 16] dvd_trans [of "align D" 16 64] by simp_all

lemma chunk_eq: "chunk D = 64"
  using align_le(2) by (simp add: chunk_def CHUNK_def)

section \<open>The chunk writer programs one padded run of octets\<close>

lemma cw_state_new: "cells f = orig \<Longrightarrow> cw_state cells orig start [] (f, cw_new start)"
  by (simp add: cw_state_def cw_new_def CHUNK_def)

lemma erased_rest:
  assumes "erased orig start n" "k + m \<le> n" "length ws = k"
  shows "erased (overwrite orig start ws) (start + k) m"
proof -
  have "take n (drop start orig) = replicate n 0xff" "start + n \<le> length orig" using assms by (auto simp: erased_def)
  then have "take m (drop k (take n (drop start orig))) = replicate m 0xff" using assms(2) by simp
  then have "take m (drop (k + start) orig) = replicate m 0xff" using assms(2) by (simp add: drop_take)
  with assms show ?thesis by (auto simp: erased_def overwrite_def ac_simps)
qed

lemma write_at:
  assumes "erased orig start n" "length ws + length bs \<le> n" "cells f = overwrite orig start ws"
    and "align D dvd start" "align D dvd length ws" "align D dvd length bs"
  shows "drv_write D (start + length ws) bs f = (Inr u, f') \<Longrightarrow>
           cells f' = overwrite orig start (ws @ bs) \<and> (steady f \<longrightarrow> steady f')"
    and "drv_write D (start + length ws) bs f = (Inl e, f') \<Longrightarrow>
           \<not> steady f \<and> (\<exists>vs. length vs = length bs \<and> cells f' = overwrite orig start (ws @ vs))"
proof -
  have e: "erased (cells f) (start + length ws) (length bs)"
    using erased_rest [OF assms(1,2)] assms(3) by simp
  have d: "WRITE_SIZE D dvd start + length ws" "WRITE_SIZE D dvd length bs"
    using assms(4-6) granules(2) by (meson dvd_add dvd_trans)+
  have l: "start + length ws \<le> length orig" using assms(1,2) by (simp add: erased_def)
  show "cells f' = overwrite orig start (ws @ bs) \<and> (steady f \<longrightarrow> steady f')"
    if "drv_write D (start + length ws) bs f = (Inr u, f')"
    using write_done [OF d e that] overwrite_overwrite [OF l] assms(3) by simp
  show "\<not> steady f \<and> (\<exists>vs. length vs = length bs \<and> cells f' = overwrite orig start (ws @ vs))"
    if "drv_write D (start + length ws) bs f = (Inl e, f')"
    using write_cut [OF d e that] overwrite_overwrite [OF l] assms(3) by auto
qed

lemma cw_flush_full:
  assumes "cw_state cells orig start xs (f, w)" "length xs mod 64 + n = 64" "length bs = n"
    and "erased orig start (length xs + n)" "align D dvd start"
    and w': "w' = w\<lparr>cw_buf := overwrite (cw_buf w) (cw_fill w) bs, cw_fill := 64\<rparr>"
  shows "cw_flush D (f, w') = (Inr (), f'', w'') \<Longrightarrow>
           cw_state cells orig start (xs @ bs) (f'', w'') \<and> (steady f \<longrightarrow> steady f'')"
    and "cw_flush D (f, w') = (Inl e, f'', w'') \<Longrightarrow>
           \<not> steady f \<and> (\<exists>vs. length vs = length xs + n \<and> cells f'' = overwrite orig start vs)"
proof -
  define k where "k = length xs - length xs mod 64"
  have k64: "64 dvd k" by (simp add: k_def)
  then have ak: "align D dvd k" using align_le(2) dvd_trans by blast
  have len: "length xs = k + length xs mod 64" by (simp add: k_def)
  have st: "cw_at w = start + k" "cw_fill w = length xs mod 64"
     "cw_buf w = drop k xs @ replicate (64 - length xs mod 64) 0xff" "cells f = overwrite orig start (take k xs)"
    using assms(1) by (simp_all add: cw_state_def Let_def k_def)
  have buf: "cw_buf w' = drop k xs @ bs" "cw_fill w' = 64" "cw_at w' = start + k"
    using st assms(2,3) len by (simp_all add: w' overwrite_def)
  have lb: "length (drop k xs @ bs) = 64" using len assms(2,3) by simp
  have r: "round_up 64 (align D) = 64" using round_up_dvd [OF align_pos align_le(2)] .
  have tk: "length (take k xs) = k" using len by simp
  have sum: "length xs + length bs = k + 64" using len assms(2,3) by simp
  then have mod: "(length xs + length bs) mod 64 = 0" "length xs + length bs = k + 64"
    using k64 by (simp_all add: mod_eq_0_iff_dvd)
  have wr: "drv_write D (start + length (take k xs)) (drop k xs @ bs) f = (res, f'') \<Longrightarrow>
     cw_flush D (f, w') = (case res of Inl _ \<Rightarrow> (Inl StorageIo, f'', w')
       | Inr _ \<Rightarrow> (Inr (), f'', \<lparr>cw_buf = replicate 64 0xff, cw_fill = 0, cw_at = start + k + 64\<rparr>))" for res f''
    using buf lb r tk by (simp add: cw_flush_def CHUNK_def split: sum.splits)
  have glue: "take k xs @ drop k xs @ bs = xs @ bs" by (metis append_assoc append_take_drop_id)
  note W = write_at [OF assms(4) _ st(4) assms(5), of "drop k xs @ bs"]
  have pre: "length (take k xs) + length (drop k xs @ bs) \<le> length xs + n" using tk lb len assms(2) by simp
  have al: "align D dvd length (take k xs)" "align D dvd length (drop k xs @ bs)"
    using tk ak lb align_le(2) by simp_all
  obtain res g where res: "drv_write D (start + length (take k xs)) (drop k xs @ bs) f = (res, g)" by fastforce
  show "cw_state cells orig start (xs @ bs) (f'', w'') \<and> (steady f \<longrightarrow> steady f'')"
    if "cw_flush D (f, w') = (Inr (), f'', w'')"
    using that res wr [OF res] W(1) [OF pre al] mod
    by (cases res) (auto simp: cw_state_def Let_def glue)
  show "\<not> steady f \<and> (\<exists>vs. length vs = length xs + n \<and> cells f'' = overwrite orig start vs)"
    if fl: "cw_flush D (f, w') = (Inl e, f'', w'')"
  proof -
    obtain x where x: "res = Inl x" "f'' = g" using fl wr [OF res] by (cases res) auto
    from W(2) [OF pre al res [unfolded x]] obtain vs where
      "\<not> steady f" "length vs = length (drop k xs @ bs)" "cells g = overwrite orig start (take k xs @ vs)" by blast
    then show ?thesis using tk lb len assms(2) x(2) by (intro conjI exI [of _ "take k xs @ vs"]) auto
  qed
qed

lemma cw_push_state:
  assumes "cw_state cells orig start xs (f, w)" "align D dvd start"
    and "erased orig start n" "length xs + length bs \<le> n" "cw_push D bs (f, w) = (res, f', w')"
  shows "case res of
           Inr _ \<Rightarrow> cw_state cells orig start (xs @ bs) (f', w') \<and> (steady f \<longrightarrow> steady f')
         | Inl _ \<Rightarrow> \<not> steady f \<and> (\<exists>vs. length vs \<le> n \<and> cells f' = overwrite orig start vs)"
  using assms
proof (induction bs arbitrary: xs f w rule: length_induct)
  case (1 bs)
  define m where "m = length xs mod 64"
  define j where "j = min (64 - m) (length bs)"
  have m: "m < 64" by (simp add: m_def)
  have fill: "cw_fill w = m" using 1(2) by (simp add: cw_state_def Let_def m_def)
  define v where "v = w\<lparr>cw_buf := overwrite (cw_buf w) m (take j bs), cw_fill := m + j\<rparr>"
  show ?case
  proof (cases "bs = []")
    case True
    then show ?thesis using 1(2,6) by (auto simp: cw_push.simps)
  next
    case False
    then have j: "0 < j" "j \<le> length bs" using m by (simp_all add: j_def)
    have cv: "cw_fill v = m + j" by (simp add: v_def)
    have push: "cw_push D bs (f, w) =
       (if m + j = 64 then step_try (cw_flush D) (\<lambda>_. cw_push D (drop j bs)) (f, v) else cw_push D (drop j bs) (f, v))"
      unfolding cw_push.simps [of D bs] using False j(1) cv
      by (simp add: chunk_eq fill j_def [symmetric] v_def [symmetric])
    show ?thesis
    proof (cases "m + j = 64")
      case True
      have er: "erased orig start (length xs + j)"
        using erased_mono [OF 1(4)] 1(5) j(2) by simp
      note flush = cw_flush_full [OF 1(2), of j "take j bs" v, folded m_def, OF True _ er 1(3)]
      obtain r g u where fl: "cw_flush D (f, v) = (r, g, u)" by (cases "cw_flush D (f, v)") auto
      show ?thesis
      proof (cases r)
        case (Inl x)
        then show ?thesis
          using push True fl 1(6) flush(2) [of x g u] 1(5) j(2)
          by (auto simp: v_def fill) (metis add_left_mono order_trans)
      next
        case (Inr x)
        then have st: "cw_state cells orig start (xs @ take j bs) (g, u)" "steady f \<longrightarrow> steady g"
          using fl flush(1) [of g u] True j(2) by (auto simp: v_def fill)
        have rest: "cw_push D (drop j bs) (g, u) = (res, f', w')" using push True fl Inr 1(6) by simp
        have "length (drop j bs) < length bs" using j by simp
        from 1(1) [rule_format, OF this st(1) 1(3,4) _ rest] 1(5) j(2) st(2) show ?thesis
          by (auto split: sum.splits)
      qed
    next
      case False
      then have jl: "j = length bs" "m + j < 64" using m by (simp_all add: j_def min_def split: if_splits)
      then have r: "res = Inr ()" "f' = f" "w' = v" using push 1(6) False by (auto simp: cw_push.simps)
      have "(length xs + length bs) mod 64 = (m + j) mod 64" by (simp add: m_def jl mod_add_left_eq)
      then have l: "(length xs + length bs) mod 64 = m + length bs" using jl by simp
      have "cw_state cells orig start (xs @ bs) (f, v)"
        using 1(2) l jl by (simp add: cw_state_def Let_def v_def overwrite_def m_def [symmetric])
      with r show ?thesis by simp
    qed
  qed
qed

lemma cw_flush_state:
  assumes "cw_state cells orig start xs (f, w)" "align D dvd start"
    and "erased orig start (length (padded D xs))" "cw_flush D (f, w) = (res, f', w')"
  shows "case res of
           Inr _ \<Rightarrow> cells f' = overwrite orig start (padded D xs) \<and> (steady f \<longrightarrow> steady f')
         | Inl _ \<Rightarrow> \<not> steady f \<and> (\<exists>vs. length vs \<le> length (padded D xs) \<and> cells f' = overwrite orig start vs)"
proof -
  define m where "m = length xs mod 64"
  define k where "k = length xs - m"
  have len: "length xs = k + m" "m < 64" "64 dvd k" by (simp_all add: k_def m_def)
  have ak: "align D dvd k" using len(3) align_le(2) dvd_trans by blast
  have ru: "round_up (length xs) (align D) = k + round_up m (align D)"
    unfolding len(1) using round_up_add [OF align_pos ak] .
  have rm: "m \<le> round_up m (align D)" "round_up m (align D) \<le> 64"
    using round_up_bounds(1) [OF align_pos] round_up_le [OF align_pos align_le(2), of m] len(2) by simp_all
  have st: "cw_at w = start + k" "cw_fill w = m"
     "cw_buf w = drop k xs @ replicate (64 - m) 0xff" "cells f = overwrite orig start (take k xs)"
    using assms(1) by (simp_all add: cw_state_def Let_def k_def m_def)
  show ?thesis
  proof (cases "m = 0")
    case True
    then have "padded D xs = xs" "take k xs = xs"
      using ru len round_up_dvd [OF align_pos, of 0] by (simp_all add: padded_def)
    with True st assms(4) show ?thesis by (auto simp: cw_flush_def)
  next
    case False
    define bs where "bs = drop k xs @ replicate (round_up m (align D) - m) 0xff"
    have pad: "padded D xs = take k xs @ bs" using ru rm len by (simp add: padded_def bs_def)
    have lt: "length (take k xs) = k" using len by simp
    have buf: "take (round_up m (align D)) (cw_buf w) = bs" using rm len by (simp add: st(3) bs_def take_append min_def)
    have al: "align D dvd length (take k xs)" "align D dvd length bs"
      using ak lt len rm round_up_bounds(3) [OF align_pos, of m] by (simp_all add: bs_def)
    note W = write_at [OF assms(3) _ st(4) assms(2) al, unfolded pad lt]
    obtain r g where r: "drv_write D (start + k) bs f = (r, g)" by fastforce
    with assms(4) False st(1,2) buf have "(res, f') = (case r of Inl _ \<Rightarrow> (Inl StorageIo, g) | Inr _ \<Rightarrow> (Inr (), g))"
      by (auto simp: cw_flush_def Let_def split: sum.splits)
    moreover have "\<exists>vs. length vs \<le> length (padded D xs) \<and> cells g = overwrite orig start vs"
      if "\<exists>vs. length vs = length bs \<and> cells g = overwrite orig start (take k xs @ vs)"
      using that pad by (metis eq_imp_le length_append)
    ultimately show ?thesis using r W(1) [of "()" g] W(2) [of "()" g] lt
      by (cases r) (auto simp: pad)
  qed
qed

text \<open>A record header and its payload, one after the other and flushed: the padded run is in the cells.\<close>

lemma write_run:
  assumes "align D dvd start" "erased (cells f) start (length (padded D (xs @ ys)))"
    and "step_try (cw_push D xs) (\<lambda>_. step_try (cw_push D ys) (\<lambda>_. cw_flush D)) (f, cw_new start) = (res, f', w')"
  shows "case res of
           Inr _ \<Rightarrow> cells f' = overwrite (cells f) start (padded D (xs @ ys)) \<and> (steady f \<longrightarrow> steady f')
         | Inl _ \<Rightarrow> \<not> steady f \<and> (\<exists>vs. length vs \<le> length (padded D (xs @ ys)) \<and> cells f' = overwrite (cells f) start vs)"
proof -
  have lp: "length xs + length ys \<le> length (padded D (xs @ ys))"
    by (simp add: padded_def)
  obtain r1 f1 w1 where p1: "cw_push D xs (f, cw_new start) = (r1, f1, w1)"
    by (cases "cw_push D xs (f, cw_new start)") auto
  note s1 = cw_push_state [OF cw_state_new [OF refl] assms(1,2) _ p1]
  obtain r2 f2 w2 where p2: "cw_push D ys (f1, w1) = (r2, f2, w2)"
    by (cases "cw_push D ys (f1, w1)") auto
  show ?thesis
  proof (cases r1)
    case (Inl e)
    then show ?thesis using assms(3) p1 s1 lp by auto
  next
    case (Inr u)
    then have st1: "cw_state cells (cells f) start xs (f1, w1)" "steady f \<longrightarrow> steady f1" using s1 lp by auto
    note s2 = cw_push_state [OF st1(1) assms(1,2) _ p2]
    show ?thesis
    proof (cases r2)
      case (Inl e)
      then show ?thesis using assms(3) p1 p2 Inr s2 lp st1(2) by auto
    next
      case (Inr u')
      then have st2: "cw_state cells (cells f) start (xs @ ys) (f2, w2)" "steady f1 \<longrightarrow> steady f2"
        using s2 lp by auto
      have "cw_flush D (f2, w2) = (res, f', w')" using assms(3) p1 p2 \<open>r1 = Inr u\<close> Inr by simp
      from cw_flush_state [OF st2(1) assms(1,2) this] st1(2) st2(2) show ?thesis
        by (auto split: sum.splits)
    qed
  qed
qed

end

end
