(* ===== verification/NorFlashLog.thy ===== *)
theory NorFlashLog
  imports NorFlashWriter
begin

text \<open>
  A half of the flash as the list of its records, and every routine of the store as an operation on
  that list.
\<close>

section \<open>The log of a half\<close>

type_synonym log_entry = "flash_record \<times> bytes"

definition entry_octets :: "log_entry \<Rightarrow> bytes" where
  "entry_octets e = record_header (fst e) @ snd e"

definition entry_ok :: "'f nor_driver \<Rightarrow> log_entry \<Rightarrow> bool" where
  "entry_ok D e \<longleftrightarrow> length (snd e) + 16 = fr_size D (fst e) \<and> unat (fr_len (fst e)) \<le> MAX_RECORD"

definition payload :: "log_entry \<Rightarrow> bytes" where
  "payload e = take (unat (fr_len (fst e))) (snd e)"

definition intact :: "log_entry \<Rightarrow> bool" where
  "intact e \<longleftrightarrow> crc16 (payload e) = fr_crc (fst e)"

definition log_end :: "'f nor_driver \<Rightarrow> log_entry list \<Rightarrow> nat" where
  "log_end D es = 16 + sum_list (map (fr_size D \<circ> fst) es)"

definition log_half :: "'f nor_driver \<Rightarrow> bytes \<Rightarrow> log_entry list \<Rightarrow> bool" where
  "log_half D v es \<longleftrightarrow>
     (\<forall>e \<in> set es. entry_ok D e) \<and>
     (\<exists>hdr free. length hdr = 16 \<and> v = hdr @ concat (map entry_octets es) @ replicate free 0xff)"

definition half_view :: "('f \<Rightarrow> bytes) \<Rightarrow> 'f nor_flash_store \<Rightarrow> nat \<Rightarrow> bytes" where
  "half_view cells s h = take (nf_half s) (drop (half_base s h) (cells (nf_flash s)))"

definition geometry :: "'f nor_driver \<Rightarrow> ('f \<Rightarrow> bytes) \<Rightarrow> 'f nor_flash_store \<Rightarrow> bool" where
  "geometry D cells s \<longleftrightarrow>
     ERASE_SIZE D dvd nf_base s \<and> ERASE_SIZE D dvd nf_half s \<and> 0 < nf_half s \<and>
     half_base s 2 \<le> length (cells (nf_flash s)) \<and> nf_active s \<le> 1"

text \<open>Steps that only read leave everything but the statistics as it was.\<close>

definition same_log :: "('f \<Rightarrow> bytes) \<Rightarrow> ('f \<Rightarrow> bool) \<Rightarrow> 'f nor_flash_store \<Rightarrow> 'f nor_flash_store \<Rightarrow> bool" where
  "same_log cells steady s s' \<longleftrightarrow>
     nf_base s' = nf_base s \<and> nf_half s' = nf_half s \<and> nf_active s' = nf_active s \<and> nf_seq s' = nf_seq s \<and>
     nf_tail s' = nf_tail s \<and> cells (nf_flash s') = cells (nf_flash s) \<and>
     steady (nf_flash s') = steady (nf_flash s)"

lemma same_log_refl [simp]: "same_log cells steady s s"
  by (simp add: same_log_def)

lemma same_log_trans: "same_log cells steady s t \<Longrightarrow> same_log cells steady t u \<Longrightarrow> same_log cells steady s u"
  by (simp add: same_log_def)

lemma same_log_view: "same_log cells steady s t \<Longrightarrow> half_view cells t h = half_view cells s h"
  by (simp add: same_log_def half_view_def half_base_def)

lemma same_log_geometry: "same_log cells steady s t \<Longrightarrow> geometry D cells t = geometry D cells s"
  by (simp add: same_log_def geometry_def half_base_def)

lemmas same_log_simps = same_log_view same_log_geometry

lemma length_record_header [simp]: "length (record_header r) = 16"
  by (simp add: record_header_def)

lemma length_entry_octets: "entry_ok D e \<Longrightarrow> length (entry_octets e) = fr_size D (fst e)"
  by (simp add: entry_octets_def entry_ok_def)

lemma length_entries:
  "\<forall>e \<in> set es. entry_ok D e \<Longrightarrow> length (concat (map entry_octets es)) + 16 = log_end D es"
  by (induction es) (auto simp: log_end_def length_entry_octets)

lemma log_end_simps [simp]:
  "log_end D [] = 16" "log_end D (es @ es') = log_end D es + sum_list (map (fr_size D \<circ> fst) es')"
  by (simp_all add: log_end_def)

lemma log_half_end: "log_half D v es \<Longrightarrow> log_end D es \<le> length v"
  using length_entries by (fastforce simp: log_half_def)

lemma log_half_entry:
  assumes "log_half D v (es1 @ e # es2)"
  shows "entry_ok D e" "\<exists>ws. drop (log_end D es1) v = entry_octets e @ ws"
    "log_end D es1 + fr_size D (fst e) \<le> length v"
proof -
  from assms obtain hdr free where
    v: "length hdr = 16" "v = (hdr @ concat (map entry_octets es1)) @ entry_octets e @ concat (map entry_octets es2) @ replicate free 0xff"
    and ok: "\<forall>x \<in> set es1. entry_ok D x" "entry_ok D e"
    by (auto simp: log_half_def)
  have l: "length (hdr @ concat (map entry_octets es1)) = log_end D es1" using v(1) length_entries [OF ok(1)] by simp
  show "entry_ok D e" by (fact ok(2))
  show "\<exists>ws. drop (log_end D es1) v = entry_octets e @ ws" using v(2) l by auto
  show "log_end D es1 + fr_size D (fst e) \<le> length v" using l length_entry_octets [OF ok(2)] by (simp add: v(2) add.assoc)
qed

lemma log_half_free:
  assumes "log_half D v es"
  shows "drop (log_end D es) v = replicate (length v - log_end D es) 0xff"
proof -
  from assms obtain hdr free where
    v: "length hdr = 16" "v = (hdr @ concat (map entry_octets es)) @ replicate free 0xff"
    and ok: "\<forall>x \<in> set es. entry_ok D x"
    by (auto simp: log_half_def)
  have l: "length (hdr @ concat (map entry_octets es)) = log_end D es" using v(1) length_entries [OF ok(1)] by simp
  then show ?thesis using v(2) by (metis append_eq_conv_conj length_append length_drop length_replicate)
qed

section \<open>The log as a list\<close>

text \<open>A walk whose closure answers \<open>g\<close> on the records before the current one, the current one and the variable.\<close>

fun walk_spec :: "(log_entry list \<Rightarrow> log_entry \<Rightarrow> 'v \<Rightarrow> bool \<times> 'v) \<Rightarrow> log_entry list \<Rightarrow> log_entry list \<Rightarrow> 'v \<Rightarrow> 'v" where
  "walk_spec g pre [] v = v"
| "walk_spec g pre (e # es) v = (case g pre e v of (go_on, v') \<Rightarrow> if go_on then walk_spec g (pre @ [e]) es v' else v')"

text \<open>The entry that decides a key, with its offset: the last \<^verbatim>\<open>set\<close> no later erase covers.\<close>

definition decide_step :: "storage_key \<Rightarrow> nat \<Rightarrow> log_entry \<Rightarrow> (nat \<times> log_entry) option \<Rightarrow> (nat \<times> log_entry) option" where
  "decide_step key pos e v =
     (if fr_flags (fst e) = FLAG_KIND_ERASED \<and> fr_kind (fst e) = kind_code (key_kind key) then None
      else if fr_matches (fst e) key then (if fr_flags (fst e) = FLAG_SET then Some (pos, e) else None)
      else v)"

fun decides_from :: "'f nor_driver \<Rightarrow> storage_key \<Rightarrow> nat \<Rightarrow> log_entry list \<Rightarrow> (nat \<times> log_entry) option \<Rightarrow> (nat \<times> log_entry) option" where
  "decides_from D key pos [] v = v"
| "decides_from D key pos (e # es) v = decides_from D key (pos + fr_size D (fst e)) es (decide_step key pos e v)"

definition decides :: "'f nor_driver \<Rightarrow> storage_key \<Rightarrow> log_entry list \<Rightarrow> (nat \<times> log_entry) option" where
  "decides D key es = decides_from D key 16 es None"

text \<open>What the store holds for a key.\<close>

definition log_contents :: "'f nor_driver \<Rightarrow> log_entry list \<Rightarrow> storage_key \<Rightarrow> bytes option" where
  "log_contents D es key =
     (case decides D key es of None \<Rightarrow> None | Some (_, e) \<Rightarrow> if intact e then Some (payload e) else None)"

text \<open>The entry at an offset is live when it decides its key.\<close>

definition live :: "'f nor_driver \<Rightarrow> log_entry list \<Rightarrow> nat \<Rightarrow> log_entry \<Rightarrow> bool" where
  "live D es pos e \<longleftrightarrow> (\<exists>key. decides D key es = Some (pos, e))"

lemma decides_from_append:
  "decides_from D key pos (es @ es') v =
     decides_from D key (pos + sum_list (map (fr_size D \<circ> fst) es)) es' (decides_from D key pos es v)"
  by (induction es arbitrary: pos v) (simp_all add: add.assoc)

lemma decides_snoc:
  "decides D key (es @ [e]) = decide_step key (log_end D es) e (decides D key es)"
  by (simp add: decides_def decides_from_append log_end_def)

lemma decide_step_Some:
  assumes "decide_step key pos x v = Some (pos', e)"
  shows "fr_matches (fst e) key \<and> fr_flags (fst e) = FLAG_SET \<and> pos' = pos \<and> e = x \<or> v = Some (pos', e)"
  using assms by (auto simp: decide_step_def split: if_splits)

lemma decides_Some:
  assumes "decides D key es = Some (pos, e)"
  shows "fr_matches (fst e) key \<and> fr_flags (fst e) = FLAG_SET \<and> (\<exists>pre es'. es = pre @ e # es' \<and> pos = log_end D pre)"
  using assms
proof (induction es rule: rev_induct)
  case (snoc x es)
  from decide_step_Some [OF snoc.prems [unfolded decides_snoc]] show ?case
  proof
    assume "fr_matches (fst e) key \<and> fr_flags (fst e) = FLAG_SET \<and> pos = log_end D es \<and> e = x"
    then show ?thesis by blast
  next
    assume "decides D key es = Some (pos, e)"
    from snoc.IH [OF this] obtain pre es' where "es = pre @ e # es'" "pos = log_end D pre"
      "fr_matches (fst e) key" "fr_flags (fst e) = FLAG_SET" by blast
    then show ?thesis by (intro conjI exI [of _ pre] exI [of _ "es' @ [x]"]) simp_all
  qed
qed (simp add: decides_def)

lemma find_visit_decide:
  "find_visit key pos (fst e) (map_option (\<lambda>(pos, e). (pos, fst e)) v) =
     map_option (\<lambda>(pos, e). (pos, fst e)) (decide_step key pos e v)"
  by (simp add: find_visit_def decide_step_def)

lemma walk_find_visit:
  "walk_spec (\<lambda>pre e v. (True, find_visit key (log_end D pre) (fst e) v)) pre es (map_option (\<lambda>(pos, e). (pos, fst e)) v) =
     map_option (\<lambda>(pos, e). (pos, fst e)) (decides_from D key (log_end D pre) es v)"
proof (induction es arbitrary: pre v)
  case (Cons e es)
  show ?case using Cons.IH [of "pre @ [e]"] by (simp add: find_visit_decide)
qed simp

section \<open>Reading records\<close>

context nor_flash
begin

lemma size_facts: "align D dvd fr_size D r" "16 \<le> fr_size D r" "16 + unat (fr_len r) \<le> fr_size D r"
proof -
  show "align D dvd fr_size D r" unfolding fr_size_def by (rule round_up_bounds(3) [OF align_pos])
  show s: "16 + unat (fr_len r) \<le> fr_size D r"
    unfolding fr_size_def HEADER_LEN_def by (rule round_up_bounds(1) [OF align_pos])
  then show "16 \<le> fr_size D r" by simp
qed

lemma log_end_aligned: "align D dvd log_end D es"
proof -
  have "align D dvd sum_list (map (fr_size D \<circ> fst) es)" by (induction es) (simp_all add: size_facts)
  with granules(3) show ?thesis by (simp add: log_end_def)
qed

lemma half_aligned:
  assumes "geometry D cells s"
  shows "align D dvd half_base s h" "align D dvd nf_half s" "ERASE_SIZE D dvd half_base s h"
proof -
  show e: "ERASE_SIZE D dvd half_base s h"
    using assms by (simp add: geometry_def half_base_def)
  show "align D dvd half_base s h" using e granules(4) by (rule dvd_trans [rotated])
  show "align D dvd nf_half s" using assms granules(4) dvd_trans by (auto simp: geometry_def)
qed

lemma half_in_flash:
  assumes "geometry D cells s" "h \<le> 1"
  shows "half_base s h + nf_half s \<le> length (cells (nf_flash s))" "length (half_view cells s h) = nf_half s"
proof -
  have "h * nf_half s + nf_half s \<le> 2 * nf_half s" using assms(2) by (cases h) auto
  then show "half_base s h + nf_half s \<le> length (cells (nf_flash s))"
    using assms(1) unfolding geometry_def half_base_def by linarith
  then show "length (half_view cells s h) = nf_half s" by (simp add: half_view_def)
qed

lemma read_half:
  assumes "geometry D cells s" "h \<le> 1" "align D dvd pos" "align D dvd n" "pos + n \<le> nf_half s"
  shows "\<exists>s'. on_flash (drv_read D (half_base s h + pos) n) s = (Inr (take n (drop pos (half_view cells s h))), s')
           \<and> same_log cells steady s s'"
proof -
  have "READ_SIZE D dvd half_base s h + pos" "READ_SIZE D dvd n"
    using half_aligned(1) [OF assms(1), of h] assms(3,4) granules(1) by (meson dvd_add dvd_trans)+
  moreover have "half_base s h + pos + n \<le> length (cells (nf_flash s))"
    using half_in_flash(1) [OF assms(1,2)] assms(5) by simp
  ultimately obtain f' where f': "drv_read D (half_base s h + pos) n (nf_flash s) =
      (Inr (take n (drop (half_base s h + pos) (cells (nf_flash s)))), f')" "cells f' = cells (nf_flash s)"
      "steady f' = steady (nf_flash s)"
    using read_cells by blast
  have "take n (drop pos (half_view cells s h)) = take n (drop (half_base s h + pos) (cells (nf_flash s)))"
    using assms(5) by (simp add: half_view_def drop_take add.commute)
  with f' show ?thesis by (auto simp: on_flash_def same_log_def)
qed

lemma read_record_entry:
  assumes "geometry D cells s" "h \<le> 1" "log_half D (half_view cells s h) (es1 @ e # es2)"
  shows "\<exists>s'. read_record D h (log_end D es1) s = (Inr (Some (fst e)), s') \<and> same_log cells steady s s'"
proof -
  obtain ws where ws: "drop (log_end D es1) (half_view cells s h) = entry_octets e @ ws" "entry_ok D e"
    using log_half_entry [OF assms(3)] by blast
  have le: "log_end D es1 + 16 \<le> nf_half s"
    using log_half_entry(3) [OF assms(3)] size_facts(2) [of "fst e"] half_in_flash(2) [OF assms(1,2)] by simp
  obtain s' where s': "on_flash (drv_read D (half_base s h + log_end D es1) 16) s =
      (Inr (take 16 (drop (log_end D es1) (half_view cells s h))), s')" "same_log cells steady s s'"
    using read_half [OF assms(1,2) log_end_aligned granules(3) le] by blast
  have buf: "take 16 (drop (log_end D es1) (half_view cells s h)) = record_header (fst e)"
    by (simp add: ws entry_octets_def)
  have "read_record D h (log_end D es1) s = (Inr (Some (fst e)), s')"
    using le s'(1) ws(2)
    by (simp add: read_record_def HEADER_LEN_def buf entry_ok_def record_header_def le_word_le_bytes Let_def)
  with s'(2) show ?thesis by blast
qed

lemma read_record_end:
  assumes "geometry D cells s" "h \<le> 1" "log_half D (half_view cells s h) es"
  shows "\<exists>s'. read_record D h (log_end D es) s = (Inr None, s') \<and> same_log cells steady s s'"
proof (cases "nf_half s < log_end D es + 16")
  case True
  then show ?thesis by (auto simp: read_record_def HEADER_LEN_def intro: same_log_refl)
next
  case False
  then have le: "log_end D es + 16 \<le> nf_half s" by simp
  obtain s' where s': "on_flash (drv_read D (half_base s h + log_end D es) 16) s =
      (Inr (take 16 (drop (log_end D es) (half_view cells s h))), s')" "same_log cells steady s s'"
    using read_half [OF assms(1,2) log_end_aligned granules(3) le] by blast
  have "take 16 (drop (log_end D es) (half_view cells s h)) = replicate 16 0xff"
    using log_half_free [OF assms(3)] half_in_flash(2) [OF assms(1,2)] le by simp
  with s' False show ?thesis by (auto simp: read_record_def HEADER_LEN_def TAG_RECORD_def Let_def)
qed

section \<open>Walking\<close>

lemma entries_below_half:
  assumes "log_half D v es"
  shows "length es < Suc (length v)"
proof -
  have "length xs * 16 \<le> sum_list (map (fr_size D \<circ> fst) xs)" for xs
  proof (induction xs)
    case (Cons x xs)
    then show ?case using size_facts(2) [of "fst x"] by simp
  qed simp
  from this [of es] log_half_end [OF assms] show ?thesis by (simp add: log_end_def)
qed

lemma walk_loop_log:
  assumes "geometry D cells s" "h \<le> 1" "log_half D (half_view cells s h) (pre @ es)"
    and "\<And>t pre' e es' v. same_log cells steady s t \<Longrightarrow> pre @ es = pre' @ e # es' \<Longrightarrow>
           \<exists>t'. f (log_end D pre') (fst e) v t = (Inr (g pre' e v), t') \<and> same_log cells steady s t'"
    and "length es < rounds" "same_log cells steady s t"
  shows "\<exists>t'. walk_loop rounds D h f (log_end D pre) v t = (Inr (walk_spec g pre es v), t') \<and> same_log cells steady s t'"
  using assms(3-)
proof (induction es arbitrary: pre rounds v t)
  case Nil
  then obtain n where n: "rounds = Suc n" by (cases rounds) auto
  obtain t' where "read_record D h (log_end D pre) t = (Inr None, t')" "same_log cells steady t t'"
    using read_record_end [of t h pre] assms(1,2) Nil.prems(1,4) by (auto simp: same_log_simps)
  then show ?case using n same_log_trans [OF Nil.prems(4)] by (intro exI [of _ t']) simp
next
  case (Cons e es)
  then obtain n where n: "rounds = Suc n" "length es < n" by (cases rounds) auto
  obtain t1 where t1: "read_record D h (log_end D pre) t = (Inr (Some (fst e)), t1)" "same_log cells steady s t1"
    using read_record_entry [of t h pre e es] assms(1,2) Cons.prems(1) same_log_trans [OF Cons.prems(4)]
      same_log_simps [OF Cons.prems(4)] by auto
  obtain t2 where t2: "f (log_end D pre) (fst e) v t1 = (Inr (g pre e v), t2)" "same_log cells steady s t2"
    using Cons.prems(2) [OF t1(2) refl] by blast
  show ?case
  proof (cases "g pre e v")
    case (Pair go_on v')
    show ?thesis
    proof (cases go_on)
      case True
      have hyp: "\<exists>t'. f (log_end D pre') (fst e') x u = (Inr (g pre' e' x), t') \<and> same_log cells steady s t'"
        if "same_log cells steady s u" "(pre @ [e]) @ es = pre' @ e' # es'" for u pre' e' es' x
        using Cons.prems(2) [OF that(1), of pre' e' es' x] that(2) by simp
      have "\<exists>t3. walk_loop n D h f (log_end D (pre @ [e])) v' t2 = (Inr (walk_spec g (pre @ [e]) es v'), t3) \<and>
          same_log cells steady s t3"
      proof (rule Cons.IH)
        show "log_half D (half_view cells s h) ((pre @ [e]) @ es)" using Cons.prems(1) by simp
      qed (fact hyp n(2) t2(2))+
      then obtain t3 where "walk_loop n D h f (log_end D (pre @ [e])) v' t2 = (Inr (walk_spec g (pre @ [e]) es v'), t3)"
        "same_log cells steady s t3" by blast
      then show ?thesis using n(1) t1(1) t2(1) Pair True by (intro exI [of _ t3]) simp
    next
      case False
      then show ?thesis using n(1) t1(1) t2 Pair by (intro exI [of _ t2]) simp
    qed
  qed
qed

lemma walk_log:
  assumes "geometry D cells s" "h \<le> 1" "log_half D (half_view cells s h) es"
    and "\<And>t pre e es' v. same_log cells steady s t \<Longrightarrow> es = pre @ e # es' \<Longrightarrow>
           \<exists>t'. f (log_end D pre) (fst e) v t = (Inr (g pre e v), t') \<and> same_log cells steady s t'"
  shows "\<exists>s'. walk D h f v s = (Inr (walk_spec g [] es v), s') \<and> same_log cells steady s s'"
proof -
  have "length es < Suc (nf_half s)"
    using entries_below_half [OF assms(3)] half_in_flash(2) [OF assms(1,2)] by simp
  from walk_loop_log [OF assms(1,2) _ _ this same_log_refl, of "[]" f g v] assms(3,4) show ?thesis
    by (simp add: walk_def HEADER_LEN_def)
qed

section \<open>The record that decides a key\<close>

lemma find_record_log:
  assumes "geometry D cells s" "h \<le> 1" "log_half D (half_view cells s h) es"
  shows "\<exists>s'. find_record D h key s = (Inr (map_option (\<lambda>(pos, e). (pos, fst e)) (decides D key es)), s')
     \<and> same_log cells steady s s'"
proof -
  have "\<exists>s'. find_record D h key s =
      (Inr (walk_spec (\<lambda>pre e v. (True, find_visit key (log_end D pre) (fst e) v)) [] es None), s') \<and> same_log cells steady s s'"
    unfolding find_record_def by (rule walk_log [OF assms]) auto
  moreover have "walk_spec (\<lambda>pre e v. (True, find_visit key (log_end D pre) (fst e) v)) [] es None =
      map_option (\<lambda>(pos, e). (pos, fst e)) (decides D key es)"
    using walk_find_visit [of key D "[]" es None] by (simp add: decides_def)
  ultimately show ?thesis by simp
qed

lemma log_end_inj:
  assumes "es = pre @ e # x" "es = pre' @ e' # y" "log_end D pre = log_end D pre'"
  shows "pre = pre' \<and> e = e'"
proof -
  have lt: "log_end D p < log_end D q" if "es = p @ a # b" "es = q @ c # d" "length p < length q" for p q a b c d
  proof -
    have "q = take (length q) (p @ a # b)" using that(1,2) by (metis append_eq_conv_conj)
    also have "\<dots> = p @ a # take (length q - Suc (length p)) b" using that(3) by (simp add: take_Cons')
    finally obtain z where "q = p @ a # z" by blast
    then show ?thesis using size_facts(2) [of "fst a"] by simp
  qed
  have "length pre = length pre'"
    using lt [OF assms(1,2)] lt [OF assms(2,1)] assms(3) by (metis less_irrefl linorder_neqE_nat)
  with assms(1,2) show ?thesis by auto
qed

lemma is_live_log:
  assumes "geometry D cells s" "h \<le> 1" "log_half D (half_view cells s h) es" "es = pre @ e # es'"
  shows "\<exists>s'. is_live D h (log_end D pre) (fst e) s = (Inr (live D es (log_end D pre) e), s') \<and> same_log cells steady s s'"
proof (cases "fr_flags (fst e) = FLAG_SET \<and> kind_from_code (fr_kind (fst e)) \<noteq> None")
  case False
  then have "\<not> live D es (log_end D pre) e"
    by (auto simp: live_def fr_matches_def dest!: decides_Some)
  with False show ?thesis
    by (intro exI [of _ s]) (auto simp: is_live_def split: option.splits)
next
  case True
  then obtain k where k: "kind_from_code (fr_kind (fst e)) = Some k" by blast
  define key where "key = \<lparr>key_kind = k, key_id = fr_id (fst e)\<rparr>"
  obtain s' where s': "find_record D h key s = (Inr (map_option (\<lambda>(pos, e). (pos, fst e)) (decides D key es)), s')"
    "same_log cells steady s s'"
    using find_record_log [OF assms(1-3)] by blast
  have key: "key' = key" if "fr_matches (fst e) key'" for key'
    using that k by (cases key') (auto simp: fr_matches_def key_def)
  have "live D es (log_end D pre) e \<longleftrightarrow> decides D key es = Some (log_end D pre, e)"
    using key decides_Some unfolding live_def by blast
  also have "\<dots> \<longleftrightarrow> (\<exists>e'. decides D key es = Some (log_end D pre, e'))"
    using decides_Some log_end_inj assms(4) by metis
  finally show ?thesis
    using s' True k by (intro exI [of _ s']) (auto simp: is_live_def key_def [symmetric] split: option.splits)
qed

section \<open>Payloads\<close>

lemma read_entry:
  assumes "geometry D cells s" "h \<le> 1" "log_half D (half_view cells s h) (pre @ e # es)"
    and "align D dvd off" "align D dvd n" "off + n \<le> length (snd e)"
  shows "\<exists>s'. on_flash (drv_read D (half_base s h + log_end D pre + 16 + off) n) s = (Inr (take n (drop off (snd e))), s') \<and>
     same_log cells steady s s'"
proof -
  obtain ws where ws: "drop (log_end D pre) (half_view cells s h) = entry_octets e @ ws" "entry_ok D e"
    using log_half_entry [OF assms(3)] by blast
  have fit: "log_end D pre + 16 + off + n \<le> nf_half s"
    using assms(6) ws(2) log_half_entry(3) [OF assms(3)] half_in_flash(2) [OF assms(1,2)] by (simp add: entry_ok_def)
  have al: "align D dvd log_end D pre + 16 + off" using log_end_aligned granules(3) assms(4) by simp
  obtain s' where s': "on_flash (drv_read D (half_base s h + (log_end D pre + 16 + off)) n) s =
      (Inr (take n (drop (log_end D pre + 16 + off) (half_view cells s h))), s')" "same_log cells steady s s'"
    using read_half [OF assms(1,2) al assms(5) fit] by blast
  have "drop (log_end D pre + 16 + off) (half_view cells s h) = drop (16 + off) (entry_octets e @ ws)"
    by (simp only: ws(1) [symmetric] drop_drop) (simp add: ac_simps)
  also have "\<dots> = drop off (snd e) @ drop (off - length (snd e)) ws" by (simp add: entry_octets_def)
  finally show ?thesis using s' assms(6) by (auto simp: add.assoc)
qed

lemma length_body: "entry_ok D e \<Longrightarrow> length (snd e) = round_up (unat (fr_len (fst e))) (align D)"
  using round_up_add [OF align_pos granules(3)] by (simp add: entry_ok_def fr_size_def HEADER_LEN_def)

lemma read_chunk:
  assumes "geometry D cells s" "h \<le> 1" "log_half D (half_view cells s h) (pre @ e # es)"
    and "align D dvd pos" "pos < unat (fr_len (fst e))" "n = min (unat (fr_len (fst e)) - pos) 64"
  shows "\<exists>tmp s'. on_flash (drv_read D (half_base s h + log_end D pre + 16 + pos) (round_up n (align D))) s = (Inr tmp, s') \<and>
     length tmp = round_up n (align D) \<and> take n tmp = take n (drop pos (payload e)) \<and> same_log cells steady s s'"
proof -
  define len where "len = unat (fr_len (fst e))"
  have "length (snd e) = pos + round_up (len - pos) (align D)"
    using length_body [OF log_half_entry(1) [OF assms(3)]] round_up_add [OF align_pos assms(4), of "len - pos"] assms(5)
    by (simp add: len_def)
  then have l: "pos + round_up n (align D) \<le> length (snd e)"
    using assms(6) round_up_mono [OF align_pos, of n "len - pos"] by (simp add: len_def)
  have rn: "n \<le> round_up n (align D)" by (rule round_up_bounds(1) [OF align_pos])
  have "take n (take (round_up n (align D)) (drop pos (snd e))) = take n (drop pos (payload e))"
    using rn assms(5,6) by (simp add: payload_def drop_take min_def)
  then show ?thesis
    using read_entry [OF assms(1-4) round_up_bounds(3) [OF align_pos] l] l by auto
qed

lemma crc16_update_append: "crc16_update c (xs @ ys) = crc16_update (crc16_update c xs) ys"
  by (simp add: crc16_update_def)

lemma intact_loop_log:
  assumes "geometry D cells s" "h \<le> 1" "log_half D (half_view cells s h) (pre @ e # es)"
    and "len = unat (fr_len (fst e))" "src = half_base s h + log_end D pre + 16"
    and "pos = len \<or> align D dvd pos" "pos \<le> len" "len - pos \<le> rounds" "same_log cells steady s t"
  shows "\<exists>t'. intact_loop rounds D src pos len crc t = (Inr (crc16_update crc (drop pos (payload e))), t') \<and> same_log cells steady s t'"
  using assms(6-)
proof (induction rounds arbitrary: pos crc t)
  case 0
  then show ?case by (simp add: payload_def assms(4) crc16_update_def)
next
  case (Suc rounds)
  show ?case
  proof (cases "pos < len")
    case False
    then show ?thesis using Suc.prems by (auto simp: payload_def assms(4) crc16_update_def)
  next
    case True
    define n where "n = min (len - pos) 64"
    have lp: "log_half D (half_view cells t h) (pre @ e # es)" "geometry D cells t" "half_base t h = half_base s h"
      using assms(1,3) same_log_simps [OF Suc.prems(4)] Suc.prems(4) by (simp_all add: same_log_def half_base_def)
    obtain tmp t1 where t1: "on_flash (drv_read D (src + pos) (round_up n (align D))) t = (Inr tmp, t1)"
        "take n tmp = take n (drop pos (payload e))" "same_log cells steady t t1"
      using read_chunk [OF lp(2) assms(2) lp(1), of pos n] Suc.prems(1) True assms(4,5) lp(3)
      by (auto simp: n_def)
    have n: "0 < n" "pos + n \<le> len" "pos + n = len \<or> n = 64" using True by (auto simp: n_def)
    have al: "pos + n = len \<or> align D dvd pos + n"
      using n(3) Suc.prems(1) True align_le(2) by auto
    obtain t2 where t2: "intact_loop rounds D src (pos + n) len (crc16_update crc (take n tmp)) t1 =
        (Inr (crc16_update (crc16_update crc (take n tmp)) (drop (pos + n) (payload e))), t2)" "same_log cells steady s t2"
      using Suc.IH [OF al n(2) _ same_log_trans [OF Suc.prems(4) t1(3)]] Suc.prems(3) n(1) by fastforce
    have "drop pos (payload e) = take n tmp @ drop (pos + n) (payload e)"
      using t1(2) by (metis add.commute append_take_drop_id drop_drop)
    then show ?thesis
      using t1(1) t2 True by (intro exI [of _ t2]) (simp add: n_def [symmetric] chunk_eq crc16_update_append)
  qed
qed

lemma payload_intact_log:
  assumes "geometry D cells s" "h \<le> 1" "log_half D (half_view cells s h) (pre @ e # es)"
  shows "\<exists>s'. payload_intact D h (log_end D pre) (fst e) s = (Inr (intact e), s') \<and> same_log cells steady s s'"
proof -
  obtain s1 where s1: "intact_loop (unat (fr_len (fst e))) D (half_base s h + log_end D pre + 16) 0 (unat (fr_len (fst e))) 0xffff s =
      (Inr (crc16_update 0xffff (payload e)), s1)" "same_log cells steady s s1"
    using intact_loop_log [OF assms refl refl, of 0 "unat (fr_len (fst e))" s "0xffff"] by auto
  then show ?thesis
    by (auto simp: payload_intact_def HEADER_LEN_def note_corrupt_def intact_def crc16_def same_log_def)
qed

lemma read_payload_log:
  assumes "geometry D cells s" "h \<le> 1" "log_half D (half_view cells s h) (pre @ e # es)"
    and "unat (fr_len (fst e)) \<le> length buf"
  shows "\<exists>s'. read_payload D h (log_end D pre) (fst e) buf s =
      (Inr (intact e), payload e @ drop (unat (fr_len (fst e))) buf, s') \<and> same_log cells steady s s'"
proof -
  define n where "n = unat (fr_len (fst e))"
  define a where "a = align D"
  define b where "b = n - n mod a"
  define src where "src = half_base s h + log_end D pre + 16"
  have len: "length (snd e) = round_up n a"
    using length_body [OF log_half_entry(1) [OF assms(3)]] by (simp add: n_def a_def)
  have ab: "a dvd b" "b \<le> n" by (simp_all add: b_def minus_mod_eq_mult_div)
  have bn: "b < n \<Longrightarrow> b + a \<le> length (snd e)" "n \<le> length (snd e)"
    using len round_up_bounds(1) [OF align_pos, of n] by (auto simp: a_def b_def round_up_def minus_mod_eq_mult_div)
  obtain s1 where s1: "(if 0 < b then on_flash (drv_read D src b) s else (Inr [], s)) = (Inr (take b (snd e)), s1)"
      "same_log cells steady s s1"
    using read_entry [OF assms(1-3), of 0 b] ab bn(2) by (cases "b = 0") (auto simp: a_def src_def)
  have s1g: "geometry D cells s1" "log_half D (half_view cells s1 h) (pre @ e # es)" "half_base s1 h = half_base s h"
    using assms(1,3) same_log_simps [OF s1(2)] s1(2) by (simp_all add: same_log_def half_base_def)
  obtain s2 tmp where s2: "(if b < n then on_flash (drv_read D (src + b) a) s1 else (Inr [], s1)) = (Inr tmp, s2)"
      "same_log cells steady s1 s2" "take (n - b) tmp = take (n - b) (drop b (snd e))"
  proof (cases "b < n")
    case True
    have "n - b \<le> a" by (simp add: a_def b_def align_pos less_imp_le)
    with that read_entry [OF s1g(1) assms(2) s1g(2), of b a] ab bn(1) True s1g(3) show ?thesis
      by (fastforce simp: a_def src_def)
  next
    case False
    with that [of "[]" s1] ab show ?thesis by simp
  qed
  define buf2 where "buf2 = payload e @ drop n buf"
  have tb: "take b (snd e) @ take (n - b) (drop b (snd e)) = take n (snd e)"
    using ab(2) by (simp add: take_add [symmetric])
  have b2: "overwrite (overwrite buf 0 (take b (snd e))) b (take (n - b) tmp) = buf2"
    using assms(4) bn ab(2) s2(3) tb by (simp add: overwrite_def buf2_def payload_def n_def [symmetric])
  have tn: "take n buf2 = payload e" using bn(2) by (simp add: buf2_def payload_def n_def [symmetric])
  have nb: "\<not> length buf < n" using assms(4) by (simp add: n_def)
  have "read_payload D h (log_end D pre) (fst e) buf s =
      (case note_corrupt (intact e) s2 of (res, s3) \<Rightarrow> (res, buf2, s3))"
    unfolding read_payload_def Let_def HEADER_LEN_def n_def [symmetric] a_def [symmetric] b_def [symmetric]
      src_def [symmetric] intact_def
    by (simp only: nb if_False s1(1) s2(1) prod.case sum.case b2 tn)
  moreover have "same_log cells steady s s2" by (rule same_log_trans [OF s1(2) s2(2)])
  ultimately show ?thesis by (auto simp: note_corrupt_def buf2_def n_def same_log_def)
qed

lemma scan_loop_log:
  assumes "geometry D cells s" "log_half D (half_view cells s (nf_active s)) (pre @ es)"
    and "length es < rounds" "same_log cells steady s t"
  shows "\<exists>t'. scan_loop rounds D (log_end D pre) t = (Inr (), t') \<and>
     same_log cells steady (s\<lparr>nf_tail := log_end D (pre @ es)\<rparr>) t'"
  using assms(2-)
proof (induction es arbitrary: pre rounds t)
  case Nil
  then obtain n where n: "rounds = Suc n" by (cases rounds) auto
  have a: "nf_active t = nf_active s" "nf_active s \<le> 1" using Nil.prems(3) assms(1) by (simp_all add: same_log_def geometry_def)
  obtain t' where "read_record D (nf_active s) (log_end D pre) t = (Inr None, t')" "same_log cells steady t t'"
    using read_record_end [of t "nf_active s" pre] assms(1) a Nil.prems(1) same_log_simps [OF Nil.prems(3)] by auto
  then show ?case using n a(1) Nil.prems(3) by (auto simp: same_log_def)
next
  case (Cons e es)
  then obtain n where n: "rounds = Suc n" "length es < n" by (cases rounds) auto
  have a: "nf_active t = nf_active s" "nf_active s \<le> 1" using Cons.prems(3) assms(1) by (simp_all add: same_log_def geometry_def)
  obtain t1 where t1: "read_record D (nf_active s) (log_end D pre) t = (Inr (Some (fst e)), t1)" "same_log cells steady s t1"
    using read_record_entry [of t "nf_active s" pre e es] assms(1) a(2) Cons.prems(1) same_log_trans [OF Cons.prems(3)]
      same_log_simps [OF Cons.prems(3)] by auto
  from Cons.IH [of "pre @ [e]", OF _ n(2) t1(2)] Cons.prems(1) obtain t2 where
    "scan_loop n D (log_end D (pre @ [e])) t1 = (Inr (), t2)"
    "same_log cells steady (s\<lparr>nf_tail := log_end D ((pre @ [e]) @ es)\<rparr>) t2" by auto
  then show ?case using n(1) t1(1) a(1) by (intro exI [of _ t2]) simp
qed

lemma scan_tail_log:
  assumes "geometry D cells s" "log_half D (half_view cells s (nf_active s)) es"
  shows "\<exists>s'. scan_tail D s = (Inr (), s') \<and> same_log cells steady (s\<lparr>nf_tail := log_end D es\<rparr>) s'"
proof -
  have "nf_active s \<le> 1" using assms(1) by (simp add: geometry_def)
  then have "length es < Suc (nf_half s)"
    using entries_below_half [OF assms(2)] half_in_flash(2) [OF assms(1)] by simp
  from scan_loop_log [OF assms(1) _ this same_log_refl, of "[]"] assms(2) show ?thesis
    by (simp add: scan_tail_def HEADER_LEN_def)
qed

end

end
