(* ===== verification/NorFlashCompaction.thy ===== *)
theory NorFlashCompaction
  imports NorFlashLog
begin

text \<open>
  The contents of a half read off its octets, the states of the store, what appending an entry does to
  the contents, and compaction: the entries it keeps, that they carry the same contents, and that the
  loop writes exactly them to the other half.
\<close>

section \<open>Reading the log off the octets\<close>

fun log_entries :: "nat \<Rightarrow> 'f nor_driver \<Rightarrow> bytes \<Rightarrow> log_entry list" where
  "log_entries 0 D v = []"
| "log_entries (Suc n) D v =
     (let r = \<lparr>fr_kind = v ! 1, fr_flags = v ! 2, fr_id = le_word (take 8 (drop 8 v)),
               fr_len = le_word (take 2 (drop 4 v)), fr_crc = le_word (take 2 (drop 6 v))\<rparr> in
      if length v < 16 \<or> v ! 0 \<noteq> TAG_RECORD \<or> MAX_RECORD < unat (fr_len r) then []
      else (r, take (fr_size D r - 16) (drop 16 v)) # log_entries n D (drop (fr_size D r) v))"

definition nf_log :: "'f nor_driver \<Rightarrow> ('f \<Rightarrow> bytes) \<Rightarrow> 'f nor_flash_store \<Rightarrow> log_entry list" where
  "nf_log D cells s = log_entries (Suc (nf_half s)) D (drop 16 (half_view cells s (nf_active s)))"

definition nf_contents :: "'f nor_driver \<Rightarrow> ('f \<Rightarrow> bytes) \<Rightarrow> 'f nor_flash_store \<Rightarrow> storage_key \<Rightarrow> bytes option" where
  "nf_contents D cells s = log_contents D (nf_log D cells s)"

lemma record_header_fields:
  "record_header r ! 0 = TAG_RECORD" "record_header r ! 1 = fr_kind r" "record_header r ! Suc 0 = fr_kind r" "record_header r ! 2 = fr_flags r"
  "take 2 (drop 4 (record_header r)) = le_bytes 2 (fr_len r)" "take 2 (drop 6 (record_header r)) = le_bytes 2 (fr_crc r)"
  "drop 8 (record_header r) = le_bytes 8 (fr_id r)"
  by (simp_all add: record_header_def nth_append numeral_2_eq_2)

lemma record_collapse [simp]:
  "\<lparr>fr_kind = fr_kind r, fr_flags = fr_flags r, fr_id = fr_id r, fr_len = fr_len r, fr_crc = fr_crc r\<rparr> = (r :: flash_record)"
  by (cases r) simp

lemma log_entries_octets:
  assumes "\<forall>e \<in> set es. entry_ok D e" "length es < n"
  shows "log_entries n D (concat (map entry_octets es) @ replicate free 0xff) = es"
  using assms
proof (induction es arbitrary: n)
  case Nil
  then obtain m where "n = Suc m" by (cases n) auto
  then show ?case by (cases free) (simp_all add: TAG_RECORD_def Let_def)
next
  case (Cons e es)
  then obtain m where m: "n = Suc m" "length es < m" by (cases n) auto
  define ws where "ws = concat (map entry_octets es) @ replicate free 0xff"
  have ok: "entry_ok D e" using Cons.prems(1) by simp
  then have len: "length (record_header (fst e) @ snd e) = fr_size D (fst e)" "length (snd e) = fr_size D (fst e) - 16"
    by (auto simp: entry_ok_def)
  have f: "fr_size D (fst e) - length (snd e) - 16 = 0" "fr_size D (fst e) - 16 - length (snd e) = 0" using len by simp_all
  have v: "concat (map entry_octets (e # es)) @ replicate free 0xff = record_header (fst e) @ snd e @ ws"
    by (simp add: entry_octets_def ws_def)
  have "log_entries m D ws = es" using Cons.IH [OF _ m(2)] Cons.prems(1) by (simp add: ws_def)
  then show ?case
    unfolding v m(1) using ok len f
    by (simp add: Let_def nth_append record_header_fields le_word_le_bytes entry_ok_def)
qed

lemma log_half_entries:
  assumes "log_half D v es" "length es < n"
  shows "log_entries n D (drop 16 v) = es"
  using assms log_entries_octets [of es D n] by (auto simp: log_half_def)

section \<open>Appending and compacting, on lists\<close>

lemma log_half_snoc:
  assumes "log_half D v es" "entry_ok D e" "log_end D es + fr_size D (fst e) \<le> length v"
  shows "log_half D (overwrite v (log_end D es) (entry_octets e)) (es @ [e])"
proof -
  from assms(1) obtain hdr free where
    v: "length hdr = 16" "v = (hdr @ concat (map entry_octets es)) @ replicate free 0xff"
    and ok: "\<forall>x \<in> set es. entry_ok D x"
    by (auto simp: log_half_def)
  have l: "length (hdr @ concat (map entry_octets es)) = log_end D es" using v(1) length_entries [OF ok(1)] by simp
  have "overwrite v (log_end D es) (entry_octets e) =
      hdr @ concat (map entry_octets (es @ [e])) @ replicate (free - fr_size D (fst e)) 0xff"
    using l length_entry_octets [OF assms(2)] by (simp add: overwrite_def v(2))
  with v(1) ok assms(2) show ?thesis by (auto simp: log_half_def)
qed

lemma log_half_header:
  assumes "log_half D v es" "length hdr = 16"
  shows "log_half D (overwrite v 0 hdr) es"
  using assms by (auto simp: log_half_def overwrite_def)

lemma contents_store:
  assumes "fr_matches r key" "fr_flags r = FLAG_SET" "take (unat (fr_len r)) body = data" "fr_crc r = crc16 data"
  shows "log_contents D (es @ [(r, body)]) = (log_contents D es)(key \<mapsto> data)"
proof
  fix k
  show "log_contents D (es @ [(r, body)]) k = ((log_contents D es)(key \<mapsto> data)) k"
  proof (cases "k = key")
    case True
    then show ?thesis using assms
      by (simp add: log_contents_def decides_snoc decide_step_def intact_def payload_def FLAG_SET_def FLAG_KIND_ERASED_def)
  next
    case False
    then have "\<not> fr_matches r k" using assms(1) by (cases k; cases key) (auto simp: fr_matches_def)
    with False assms(2) show ?thesis
      by (simp add: log_contents_def decides_snoc decide_step_def FLAG_SET_def FLAG_KIND_ERASED_def)
  qed
qed

lemma contents_erase:
  assumes "fr_matches r key" "fr_flags r = FLAG_ERASED"
  shows "log_contents D (es @ [(r, body)]) = (log_contents D es)(key := None)"
proof
  fix k
  have "fr_matches r k \<longleftrightarrow> k = key" using assms(1) by (cases k; cases key) (auto simp: fr_matches_def)
  then show "log_contents D (es @ [(r, body)]) k = ((log_contents D es)(key := None)) k"
    using assms(2) by (simp add: log_contents_def decides_snoc decide_step_def FLAG_SET_def FLAG_KIND_ERASED_def FLAG_ERASED_def)
qed

lemma contents_erase_kind:
  assumes "fr_kind r = kind_code g" "fr_flags r = FLAG_KIND_ERASED"
  shows "log_contents D (es @ [(r, body)]) = (\<lambda>k. if key_kind k = g then None else log_contents D es k)"
  using assms by (auto simp: fun_eq_iff log_contents_def decides_snoc decide_step_def fr_matches_def)

text \<open>The entries a compaction keeps, as it writes them.\<close>

definition recopied :: "'f nor_driver \<Rightarrow> log_entry \<Rightarrow> log_entry" where
  "recopied D e = (fst e, payload e @ replicate (fr_size D (fst e) - 16 - unat (fr_len (fst e))) 0xff)"

fun kept_from :: "'f nor_driver \<Rightarrow> log_entry list \<Rightarrow> nat \<Rightarrow> log_entry list \<Rightarrow> log_entry list" where
  "kept_from D es pos [] = []"
| "kept_from D es pos (e # rest) =
     (if live D es pos e \<and> intact e then [recopied D e] else []) @ kept_from D es (pos + fr_size D (fst e)) rest"

definition kept :: "'f nor_driver \<Rightarrow> log_entry list \<Rightarrow> log_entry list" where
  "kept D es = kept_from D es 16 es"

lemma kept_from_append:
  "kept_from D all pos (es @ es') =
     kept_from D all pos es @ kept_from D all (pos + sum_list (map (fr_size D \<circ> fst) es)) es'"
  by (induction es arbitrary: pos) (simp_all add: add.assoc)

lemma decides_from_inert:
  "\<forall>e \<in> set es. fr_flags (fst e) = FLAG_SET \<and> \<not> fr_matches (fst e) key \<Longrightarrow> decides_from D key pos es v = v"
  by (induction es arbitrary: pos) (simp_all add: decide_step_def FLAG_SET_def FLAG_KIND_ERASED_def)

lemma recopied_simps [simp]: "fst (recopied D e) = fst e"
  by (simp add: recopied_def)

lemma kept_from_sources:
  assumes "x \<in> set (kept_from D all pos es)"
  shows "\<exists>pre e es'. es = pre @ e # es' \<and> x = recopied D e \<and> live D all (pos + sum_list (map (fr_size D \<circ> fst) pre)) e \<and> intact e"
  using assms
proof (induction es arbitrary: pos)
  case (Cons e es)
  show ?case
  proof (cases "x \<in> set (kept_from D all (pos + fr_size D (fst e)) es)")
    case True
    from Cons.IH [OF this] obtain pre e' es' where "es = pre @ e' # es'" "x = recopied D e'" "intact e'"
      "live D all (pos + fr_size D (fst e) + sum_list (map (fr_size D \<circ> fst) pre)) e'" by blast
    then have "e # es = (e # pre) @ e' # es' \<and> x = recopied D e' \<and>
        live D all (pos + sum_list (map (fr_size D \<circ> fst) (e # pre))) e' \<and> intact e'" by (simp add: add.assoc)
    then show ?thesis by blast
  next
    case False
    with Cons.prems have "x = recopied D e" "live D all pos e" "intact e" by (auto split: if_splits)
    then have "e # es = [] @ e # es \<and> x = recopied D e \<and>
        live D all (pos + sum_list (map (fr_size D \<circ> fst) [])) e \<and> intact e" by simp
    then show ?thesis by blast
  qed
qed simp

section \<open>States of the store\<close>

definition programmed :: "('f \<Rightarrow> bytes) \<Rightarrow> 'f nor_flash_store \<Rightarrow> nat \<Rightarrow> nat \<Rightarrow> bytes \<Rightarrow> 'f nor_flash_store \<Rightarrow> bool" where
  "programmed cells s h pos xs t \<longleftrightarrow>
     nf_base t = nf_base s \<and> nf_half t = nf_half s \<and>
     cells (nf_flash t) = overwrite (cells (nf_flash s)) (half_base s h + pos) xs"

definition same_frame :: "'f nor_flash_store \<Rightarrow> 'f nor_flash_store \<Rightarrow> bool" where
  "same_frame s t \<longleftrightarrow>
     nf_base t = nf_base s \<and> nf_half t = nf_half s \<and> nf_active t = nf_active s \<and> nf_seq t = nf_seq s \<and> nf_tail t = nf_tail s"

definition header_of :: "bytes \<Rightarrow> u32 option" where
  "header_of v = (if take 4 v \<noteq> MAGIC then None else Some (le_word (take 4 (drop 4 v))))"

text \<open>The half a reopened store takes for the active one, with its sequence number.\<close>

definition chosen :: "u32 option \<Rightarrow> u32 option \<Rightarrow> (nat \<times> u32) option" where
  "chosen a b = (case (a, b) of
     (None, None) \<Rightarrow> None
   | (Some sa, Some sb) \<Rightarrow> if sb - sa < 0x7fffffff then Some (1, sb) else Some (0, sa)
   | (Some sa, None) \<Rightarrow> Some (0, sa)
   | (None, Some sb) \<Rightarrow> Some (1, sb))"

definition nf_inv :: "'f nor_driver \<Rightarrow> ('f \<Rightarrow> bytes) \<Rightarrow> 'f nor_flash_store \<Rightarrow> log_entry list \<Rightarrow> bool" where
  "nf_inv D cells s es \<longleftrightarrow>
     geometry D cells s \<and> log_half D (half_view cells s (nf_active s)) es \<and> nf_tail s = log_end D es \<and>
     chosen (header_of (half_view cells s 0)) (header_of (half_view cells s 1)) = Some (nf_active s, nf_seq s)"

section \<open>Compaction keeps the contents\<close>

lemma decides_alone:
  assumes "\<forall>x \<in> set (xs @ ys). fr_flags (fst x) = FLAG_SET \<and> \<not> fr_matches (fst x) key"
    and "fr_flags (fst e) = FLAG_SET" "fr_matches (fst e) key"
  shows "\<exists>pos. decides D key (xs @ e # ys) = Some (pos, e)"
  using assms decides_from_inert [of xs key D 16 None] decides_from_inert [of ys key D]
  by (simp add: decides_def decides_from_append) (simp add: decide_step_def FLAG_SET_def FLAG_KIND_ERASED_def)

context nor_flash
begin

lemma kept_matching:
  assumes "x \<in> set (kept_from D es (log_end D pre) suf)" "es = pre @ suf @ post" "fr_matches (fst x) key"
  shows "\<exists>pre' e suf'. es = pre' @ e # suf' \<and> length pre \<le> length pre' \<and> length pre' < length (pre @ suf) \<and>
     decides D key es = Some (log_end D pre', e) \<and> intact e"
proof -
  from kept_from_sources [OF assms(1)] obtain p e q where
    s: "suf = p @ e # q" "x = recopied D e" "live D es (log_end D (pre @ p)) e" "intact e" by auto
  then obtain key' where k: "decides D key' es = Some (log_end D (pre @ p), e)" by (auto simp: live_def)
  with decides_Some have "fr_matches (fst e) key'" by blast
  with assms(3) s(2) have "key' = key" by (cases key; cases key') (auto simp: fr_matches_def)
  with k s assms(2) have "es = (pre @ p) @ e # q @ post \<and> length pre \<le> length (pre @ p) \<and>
      length (pre @ p) < length (pre @ suf) \<and> decides D key es = Some (log_end D (pre @ p), e) \<and> intact e" by simp
  then show ?thesis by blast
qed

lemma kept_flags: "x \<in> set (kept_from D es pos suf) \<Longrightarrow> fr_flags (fst x) = FLAG_SET"
  by (auto simp: live_def dest!: kept_from_sources decides_Some)

lemma kept_dropped:
  assumes "\<And>pos e. decides D key es = Some (pos, e) \<Longrightarrow> \<not> intact e"
  shows "decides D key (kept D es) = None"
  unfolding decides_def
proof (rule decides_from_inert, intro ballI conjI notI)
  fix x assume x: "x \<in> set (kept D es)"
  then show "fr_flags (fst x) = FLAG_SET" by (simp add: kept_def kept_flags)
  assume m: "fr_matches (fst x) key"
  from x have "x \<in> set (kept_from D es (log_end D []) es)" by (simp add: kept_def)
  from kept_matching [OF this _ m, of "[]"] have "\<exists>pre' e. decides D key es = Some (log_end D pre', e) \<and> intact e"
    by simp blast
  with assms show False by blast
qed

lemma kept_copied:
  assumes d: "decides D key es = Some (pos, e)" and i: "intact e"
  shows "\<exists>p. decides D key (kept D es) = Some (p, recopied D e)"
proof -
  from decides_Some [OF d] obtain pre suf where es: "es = pre @ e # suf" "pos = log_end D pre"
    "fr_matches (fst e) key" "fr_flags (fst e) = FLAG_SET" by blast
  have only: "length pre' = length pre" if "es = pre' @ e' # suf'" "decides D key es = Some (log_end D pre', e')" for pre' e' suf'
  proof -
    have "log_end D pre' = pos" using that(2) d by simp
    with log_end_inj [OF that(1) es(1)] es(2) show ?thesis by simp
  qed
  define xs where "xs = kept_from D es (log_end D []) pre"
  define ys where "ys = kept_from D es (log_end D (pre @ [e])) suf"
  have l: "live D es (log_end D pre) e" using d es(2) by (auto simp: live_def)
  have "kept D es = xs @ kept_from D es (log_end D pre) (e # suf)"
    unfolding kept_def xs_def by (subst (2) es(1), subst kept_from_append) (simp add: log_end_def)
  then have k: "kept D es = xs @ recopied D e # ys" using l i by (simp add: ys_def)
  have split: "es = [] @ pre @ e # suf" "es = (pre @ [e]) @ suf @ []" using es(1) by simp_all
  have "\<not> fr_matches (fst x) key" if "x \<in> set xs" for x
  proof
    assume "fr_matches (fst x) key"
    from kept_matching [OF that [unfolded xs_def] split(1) this] only show False
      by (metis append_Nil less_irrefl)
  qed
  moreover have "\<not> fr_matches (fst x) key" if "x \<in> set ys" for x
  proof
    assume "fr_matches (fst x) key"
    from kept_matching [OF that [unfolded ys_def] split(2) this] only show False
      by (metis Suc_n_not_le_n length_append_singleton)
  qed
  ultimately have "\<forall>x \<in> set (xs @ ys). fr_flags (fst x) = FLAG_SET \<and> \<not> fr_matches (fst x) key"
    using kept_flags by (auto simp: xs_def ys_def)
  from decides_alone [OF this, of "recopied D e" D] es(3,4) show ?thesis by (simp add: k)
qed

lemma payload_recopied: "entry_ok D e \<Longrightarrow> payload (recopied D e) = payload e"
  using size_facts(3) [of "fst e"] by (auto simp: entry_ok_def payload_def recopied_def)

lemma log_contents_kept:
  assumes "\<forall>e \<in> set es. entry_ok D e"
  shows "log_contents D (kept D es) = log_contents D es"
proof
  fix key
  show "log_contents D (kept D es) key = log_contents D es key"
  proof (cases "\<exists>pos e. decides D key es = Some (pos, e) \<and> intact e")
    case True
    then obtain pos e p where d: "decides D key es = Some (pos, e)" "intact e"
      "decides D key (kept D es) = Some (p, recopied D e)" using kept_copied by blast
    with decides_Some [OF d(1)] assms have "entry_ok D e" by auto
    with d show ?thesis by (simp add: log_contents_def intact_def payload_recopied)
  next
    case False
    with kept_dropped [of key es] show ?thesis by (auto simp: log_contents_def split: option.splits)
  qed
qed

lemma entry_ok_recopied: "entry_ok D e \<Longrightarrow> entry_ok D (recopied D e)"
  using size_facts(3) [of "fst e"] by (auto simp: entry_ok_def recopied_def payload_def)

lemma kept_from_ok: "\<forall>e \<in> set es. entry_ok D e \<Longrightarrow> \<forall>e \<in> set (kept_from D all pos es). entry_ok D e"
  by (induction es arbitrary: pos) (auto simp: entry_ok_recopied)

lemma kept_from_size: "log_end D (kept_from D all pos es) \<le> log_end D es"
proof (induction es arbitrary: pos)
  case (Cons e es)
  from Cons.IH [of "pos + fr_size D (fst e)"] show ?case by (simp add: log_end_def)
qed simp

section \<open>Programming a half\<close>

text \<open>Between \<open>s\<close> and \<open>t\<close> only the cells of half \<open>h\<close> from \<open>pos\<close> on have changed, to \<open>xs\<close>.\<close>

lemma view_programmed:
  assumes "geometry D cells s" "h \<le> 1" "programmed cells s h pos xs t" "pos + length xs \<le> nf_half s"
  shows "half_view cells t h = overwrite (half_view cells s h) pos xs"
    and "h' \<le> 1 \<Longrightarrow> h' \<noteq> h \<Longrightarrow> half_view cells t h' = half_view cells s h'"
    and "nf_active t \<le> 1 \<Longrightarrow> geometry D cells t"
proof -
  define c where "c = cells (nf_flash s)"
  define B where "B = half_base s h"
  have t: "cells (nf_flash t) = overwrite c (B + pos) xs" "nf_base t = nf_base s" "nf_half t = nf_half s"
    using assms(3) by (simp_all add: programmed_def c_def B_def)
  have hb: "half_base t x = half_base s x" for x using t by (simp add: half_base_def)
  have B: "B + nf_half s \<le> length c" using half_in_flash(1) [OF assms(1,2)] by (simp add: B_def c_def)
  then have len: "length (cells (nf_flash t)) = length c" using t(1) assms(4) by simp
  have i: "i < nf_half s \<Longrightarrow> overwrite c (B + pos) xs ! (B + i) = overwrite (take (nf_half s) (drop B c)) pos xs ! i" for i
    using B assms(4) by (auto simp: overwrite_nth)
  show "half_view cells t h = overwrite (half_view cells s h) pos xs"
    using B assms(4) len t i
    by (intro nth_equalityI) (auto simp: half_view_def hb B_def [symmetric] c_def [symmetric])
  show "half_view cells t h' = half_view cells s h'" if h': "h' \<le> 1" "h' \<noteq> h"
  proof -
    define B' where "B' = half_base s h'"
    have "h = 0 \<and> h' = 1 \<or> h = 1 \<and> h' = 0" using h' assms(2) by auto
    then have dis: "B' + nf_half s \<le> B \<or> B + nf_half s \<le> B'" by (auto simp: B_def B'_def half_base_def)
    have "B' + nf_half s \<le> length c" using half_in_flash(1) [OF assms(1) h'(1)] by (simp add: B'_def c_def)
    then show ?thesis using dis B assms(4) len t
      by (intro nth_equalityI) (auto simp: half_view_def hb B'_def [symmetric] c_def [symmetric] overwrite_nth)
  qed
  show "geometry D cells t" if "nf_active t \<le> 1"
    using assms(1) that t len hb by (simp add: geometry_def c_def)
qed

lemma erase_half_log:
  assumes "geometry D cells s" "h \<le> 1" "erase_half D h s = (res, t)"
  shows "(\<exists>f. t = s\<lparr>nf_flash := f\<rparr>) \<and>
     (case res of
        Inr _ \<Rightarrow> programmed cells s h 0 (replicate (nf_half s) 0xff) t \<and> (steady (nf_flash s) \<longrightarrow> steady (nf_flash t))
      | Inl _ \<Rightarrow> \<not> steady (nf_flash s) \<and>
          (same_log cells steady s (t\<lparr>nf_flash := nf_flash s\<rparr>) \<and> cells (nf_flash t) = cells (nf_flash s) \<or>
           programmed cells s h 0 (replicate (nf_half s) 0xff) t))"
proof -
  define B where "B = half_base s h"
  have d: "ERASE_SIZE D dvd B" "ERASE_SIZE D dvd B + nf_half s"
    using half_aligned(3) [OF assms(1)] assms(1) by (auto simp: B_def geometry_def)
  have l: "B \<le> B + nf_half s" "B + nf_half s \<le> length (cells (nf_flash s))"
    using half_in_flash(1) [OF assms(1,2)] by (simp_all add: B_def)
  obtain r f where r: "drv_erase D B (B + nf_half s) (nf_flash s) = (r, f)" by fastforce
  with assms(3) have t: "t = s\<lparr>nf_flash := f\<rparr>" "res = map_err (\<lambda>_. StorageIo) r"
    by (auto simp: erase_half_def on_flash_def B_def)
  show ?thesis
    using erase_done [OF d l, of "()" f] erase_cut [OF d l, of "()" f] r t
    by (cases r) (auto simp: programmed_def same_log_def B_def)
qed

section \<open>Copying a record\<close>

lemma with_writer_result:
  assumes "with_writer m w t = (res, t')"
  shows "\<exists>r f v. m (nf_flash t, w) = (r, f, v) \<and> t' = t\<lparr>nf_flash := f\<rparr> \<and> res = (case r of Inl e \<Rightarrow> Inl e | Inr _ \<Rightarrow> Inr v)"
  using assms by (auto simp: with_writer_def split: prod.splits sum.splits)

lemma other_half_kept:
  assumes "geometry D cells s" "old \<le> 1" "new \<le> 1" "old \<noteq> new" "same_frame s t"
    and "cells (nf_flash t) = overwrite (cells (nf_flash s)) (half_base s new + out) xs" "out + length xs \<le> nf_half s"
  shows "geometry D cells t" "half_view cells t old = half_view cells s old" "half_base t old = half_base s old"
    "half_view cells t new = overwrite (half_view cells s new) out xs"
proof -
  have pr: "programmed cells s new out xs t" using assms(5,6) by (simp add: programmed_def same_frame_def)
  show "geometry D cells t" "half_view cells t old = half_view cells s old" "half_base t old = half_base s old"
    "half_view cells t new = overwrite (half_view cells s new) out xs"
    using view_programmed [OF assms(1,3) pr assms(7)] assms(1,2,4,5)
    by (simp_all add: same_frame_def geometry_def half_base_def)
qed

lemma cw_state_cells: "cw_state cells orig start xs (f, w) \<Longrightarrow> \<exists>k. cells f = overwrite orig start (take k xs)"
  by (auto simp: cw_state_def Let_def)

lemma copy_loop_log:
  assumes g: "geometry D cells s" "old \<le> 1" "new \<le> 1" "old \<noteq> new"
    and lg: "log_half D (half_view cells s old) (pre @ e # es)"
    and len: "len = unat (fr_len (fst e))" and src: "src = half_base s old + log_end D pre + 16"
    and out: "align D dvd out" "out + fr_size D (fst e) \<le> nf_half s" "start = half_base s new + out"
    and er: "erased (cells (nf_flash s)) start (fr_size D (fst e))"
    and pos: "pos = len \<or> align D dvd pos" "pos \<le> len" "len - pos \<le> rounds"
    and t: "same_frame s t" "cw_state cells (cells (nf_flash s)) start (record_header (fst e) @ take pos (payload e)) (nf_flash t, w)"
    and run: "copy_loop rounds D src pos len w t = (res, t')"
  shows "same_frame s t' \<and>
    (case res of
       Inr w' \<Rightarrow> cw_state cells (cells (nf_flash s)) start (record_header (fst e) @ payload e) (nf_flash t', w') \<and>
                 (steady (nf_flash t) \<longrightarrow> steady (nf_flash t'))
     | Inl _ \<Rightarrow> \<not> steady (nf_flash t) \<and>
         (\<exists>vs. length vs \<le> fr_size D (fst e) \<and> cells (nf_flash t') = overwrite (cells (nf_flash s)) start vs))"
  using pos t run
proof (induction rounds arbitrary: pos w t)
  case 0
  then show ?case by (auto simp: payload_def len)
next
  case (Suc rounds)
  show ?case
  proof (cases "pos < len")
    case False
    then show ?thesis using Suc.prems by (auto simp: payload_def len)
  next
    case True
    define n where "n = min (len - pos) 64"
    have n: "0 < n" "pos + n \<le> len" "pos + n = len \<or> n = 64" using True by (auto simp: n_def)
    have al: "pos + n = len \<or> align D dvd pos + n" using n(3) Suc.prems(1) True align_le(2) by auto
    have ok: "entry_ok D e" and ls: "len + 16 \<le> fr_size D (fst e)" "len \<le> length (snd e)"
      using log_half_entry(1) [OF lg] size_facts(3) [of "fst e"] by (auto simp: entry_ok_def len)
    have lp: "length (take pos (payload e)) = pos" using True ls by (simp add: payload_def len [symmetric])
    obtain k where k: "cells (nf_flash t) = overwrite (cells (nf_flash s)) start (take k (record_header (fst e) @ take pos (payload e)))"
      using cw_state_cells [OF Suc.prems(5)] by blast
    have "length (take k (record_header (fst e) @ take pos (payload e))) \<le> fr_size D (fst e)" using lp ls True by simp
    note gt = other_half_kept [OF g Suc.prems(4) k [unfolded out(3)] le_trans [OF add_left_mono [OF this] out(2)]]
    obtain tmp t1 where t1: "on_flash (drv_read D (src + pos) (round_up n (align D))) t = (Inr tmp, t1)"
        "take n tmp = take n (drop pos (payload e))" "same_log cells steady t t1"
      using read_chunk [OF gt(1) g(2), of pre e es pos n] lg gt(2,3) Suc.prems(1) True src by (auto simp: n_def len)
    have tp: "take pos (payload e) @ take n tmp = take (pos + n) (payload e)" using t1(2) by (simp add: take_add)
    have cw1: "cw_state cells (cells (nf_flash s)) start (record_header (fst e) @ take pos (payload e)) (nf_flash t1, w)"
      using Suc.prems(5) t1(3) by (simp add: cw_state_def same_log_def)
    have a: "align D dvd start" using half_aligned(1) [OF g(1)] out(1,3) by simp
    have ltn: "length (take n tmp) = n" using t1(2) n(2) ls by (simp add: payload_def len [symmetric])
    obtain r f v where p: "cw_push D (take n tmp) (nf_flash t1, w) = (r, f, v)" by (cases "cw_push D (take n tmp) (nf_flash t1, w)") auto
    note push = cw_push_state [OF cw1 a er _ p]
    have fits: "length (record_header (fst e) @ take pos (payload e)) + length (take n tmp) \<le> fr_size D (fst e)"
      using lp ltn n(2) ls(1) by simp
    have fr: "same_frame s (t1\<lparr>nf_flash := f\<rparr>)" using Suc.prems(4) t1(3) by (simp add: same_frame_def same_log_def)
    show ?thesis
    proof (cases r)
      case (Inl x)
      then have "res = Inl x" "t' = t1\<lparr>nf_flash := f\<rparr>" using Suc.prems(6) t1(1) p True
        by (simp_all add: n_def [symmetric] chunk_eq with_writer_def)
      with push [OF fits] Inl fr t1(3) show ?thesis by (auto simp: same_log_def)
    next
      case (Inr u)
      then have rest: "copy_loop rounds D src (pos + n) len v (t1\<lparr>nf_flash := f\<rparr>) = (res, t')"
        using Suc.prems(6) t1(1) p True by (simp add: n_def [symmetric] chunk_eq with_writer_def)
      have cw2: "cw_state cells (cells (nf_flash s)) start (record_header (fst e) @ take (pos + n) (payload e))
          (nf_flash (t1\<lparr>nf_flash := f\<rparr>), v)" and st: "steady (nf_flash t1) \<longrightarrow> steady f"
        using push [OF fits] Inr tp by simp_all
      have left: "len - (pos + n) \<le> rounds" using Suc.prems(3) n(1) by linarith
      from Suc.IH [OF al n(2) left fr cw2 rest] st t1(3) show ?thesis
        by (auto simp: same_log_def split: sum.splits)
    qed
  qed
qed

lemma padded_record:
  assumes "entry_ok D e"
  shows "padded D (record_header (fst e) @ payload e) = entry_octets (recopied D e)"
    "length (entry_octets (recopied D e)) = fr_size D (fst e)"
proof -
  have l: "length (payload e) = unat (fr_len (fst e))"
    using assms size_facts(3) [of "fst e"] by (auto simp: payload_def entry_ok_def)
  then have "round_up (length (record_header (fst e) @ payload e)) (align D) = fr_size D (fst e)"
    by (simp add: fr_size_def HEADER_LEN_def)
  with l size_facts(3) [of "fst e"] show "padded D (record_header (fst e) @ payload e) = entry_octets (recopied D e)"
    "length (entry_octets (recopied D e)) = fr_size D (fst e)"
    by (simp_all add: padded_def entry_octets_def recopied_def)
qed

lemma copy_record_log:
  assumes g: "geometry D cells s" "old \<le> 1" "new \<le> 1" "old \<noteq> new"
    and lg: "log_half D (half_view cells s old) (pre @ e # es)"
    and out: "align D dvd out" "out + fr_size D (fst e) \<le> nf_half s"
    and er: "erased (cells (nf_flash s)) (half_base s new + out) (fr_size D (fst e))"
    and run: "copy_record D old new (log_end D pre) out (fst e) s = (res, t)"
  shows "same_frame s t \<and>
    (case res of
       Inr _ \<Rightarrow> cells (nf_flash t) = overwrite (cells (nf_flash s)) (half_base s new + out) (entry_octets (recopied D e)) \<and>
         (steady (nf_flash s) \<longrightarrow> steady (nf_flash t))
     | Inl _ \<Rightarrow> \<not> steady (nf_flash s) \<and>
         (\<exists>vs. length vs \<le> fr_size D (fst e) \<and> cells (nf_flash t) = overwrite (cells (nf_flash s)) (half_base s new + out) vs))"
proof -
  define start where "start = half_base s new + out"
  define src where "src = half_base s old + log_end D pre + 16"
  define len where "len = unat (fr_len (fst e))"
  note ok = log_half_entry(1) [OF lg]
  note er' = er [folded start_def]
  have a: "align D dvd start" using half_aligned(1) [OF g(1)] out(1) by (simp add: start_def)
  obtain r f w where p: "cw_push D (record_header (fst e)) (nf_flash s, cw_new start) = (r, f, w)"
    by (cases "cw_push D (record_header (fst e)) (nf_flash s, cw_new start)") auto
  note push = cw_push_state [OF cw_state_new [OF refl] a er' _ p]
  have h: "length [] + length (record_header (fst e)) \<le> fr_size D (fst e)" using size_facts(2) by simp
  show ?thesis
  proof (cases r)
    case (Inl x)
    then have "res = Inl x" "t = s\<lparr>nf_flash := f\<rparr>" using run p
      by (simp_all add: copy_record_def with_writer_def start_def)
    with push [OF h] Inl show ?thesis by (simp add: same_frame_def start_def)
  next
    case (Inr u)
    define s1 where "s1 = s\<lparr>nf_flash := f\<rparr>"
    have s1: "same_frame s s1" "cw_state cells (cells (nf_flash s)) start (record_header (fst e) @ take 0 (payload e)) (nf_flash s1, w)"
      "steady (nf_flash s) \<longrightarrow> steady (nf_flash s1)"
      using push [OF h] Inr by (simp_all add: s1_def same_frame_def)
    obtain q s2 where c: "copy_loop len D src 0 len w s1 = (q, s2)" by fastforce
    have hb: "half_base s1 x = half_base s x" for x by (simp add: s1_def half_base_def)
    note copy = copy_loop_log [OF g lg len_def src_def out start_def er' _ _ _ s1(1,2) c]
    have rest: "(res, t) = (case q of Inl x \<Rightarrow> (Inl x, s2) | Inr w' \<Rightarrow> step_map (\<lambda>_. ()) (with_writer (cw_flush D) w') s2)"
      using run p Inr c
      by (auto simp: copy_record_def with_writer_def start_def s1_def src_def len_def HEADER_LEN_def split: sum.splits)
    show ?thesis
    proof (cases q)
      case (Inl x)
      with rest copy s1(3) show ?thesis by (auto simp: start_def)
    next
      case (Inr w')
      with copy have s2: "same_frame s s2" "steady (nf_flash s1) \<longrightarrow> steady (nf_flash s2)"
        "cw_state cells (cells (nf_flash s)) start (record_header (fst e) @ payload e) (nf_flash s2, w')" by simp_all
      obtain r3 f3 w3 where fl: "cw_flush D (nf_flash s2, w') = (r3, f3, w3)" by (cases "cw_flush D (nf_flash s2, w')") auto
      note flush = cw_flush_state [OF s2(3) a _ fl, unfolded padded_record [OF ok], OF er']
      from rest Inr fl have "t = s2\<lparr>nf_flash := f3\<rparr>" "res = r3"
        by (auto simp: step_map_def step_try_def with_writer_def split: sum.splits)
      with flush s2(1,2) s1(3) show ?thesis by (auto simp: same_frame_def start_def split: sum.splits)
    qed
  qed
qed

lemma view_erased:
  assumes "geometry D cells s" "h \<le> 1" "drop out (half_view cells s h) = replicate (nf_half s - out) 0xff" "out + n \<le> nf_half s"
  shows "erased (cells (nf_flash s)) (half_base s h + out) n"
proof -
  have "take n (drop out (half_view cells s h)) = replicate n 0xff" using assms(3,4) by simp
  moreover have "take n (drop out (half_view cells s h)) = take n (drop (half_base s h + out) (cells (nf_flash s)))"
    using assms(4) by (simp add: half_view_def drop_take add.commute)
  ultimately show ?thesis using half_in_flash(1) [OF assms(1,2)] assms(4) by (simp add: erased_def)
qed

section \<open>The compaction loop\<close>

text \<open>The new half while it is being filled: its header still erased, its log the entries kept so far.\<close>

lemma keep_entry_log:
  assumes g: "geometry D cells s" "old \<le> 1" "new \<le> 1" "old \<noteq> new"
    and lg: "log_half D (half_view cells s old) (pre @ e # es)" "log_half D (half_view cells s new) ks"
      "take 16 (half_view cells s new) = replicate 16 0xff"
    and fit: "log_end D ks + fr_size D (fst e) \<le> nf_half s"
    and run: "copy_record D old new (log_end D pre) (log_end D ks) (fst e) s = (res, t)"
  shows "same_frame s t \<and> geometry D cells t \<and> half_view cells t old = half_view cells s old \<and>
     take 16 (half_view cells t new) = replicate 16 0xff \<and>
     (case res of Inr _ \<Rightarrow> log_half D (half_view cells t new) (ks @ [recopied D e]) \<and> (steady (nf_flash s) \<longrightarrow> steady (nf_flash t))
      | Inl _ \<Rightarrow> \<not> steady (nf_flash s))"
proof -
  define v where "v = half_view cells s new"
  have lv: "length v = nf_half s" using half_in_flash(2) [OF g(1,3)] by (simp add: v_def)
  have fr: "drop (log_end D ks) v = replicate (nf_half s - log_end D ks) 0xff"
    using log_half_free [OF lg(2)] lv by (simp add: v_def)
  note er = view_erased [OF g(1,3) fr [unfolded v_def] fit]
  note c = copy_record_log [OF g lg(1) log_end_aligned fit er run]
  have ok: "entry_ok D (recopied D e)" using entry_ok_recopied [OF log_half_entry(1) [OF lg(1)]] .
  obtain vs where vs: "same_frame s t" "length vs \<le> fr_size D (fst e)"
      "cells (nf_flash t) = overwrite (cells (nf_flash s)) (half_base s new + log_end D ks) vs"
      "case res of Inr _ \<Rightarrow> vs = entry_octets (recopied D e) \<and> (steady (nf_flash s) \<longrightarrow> steady (nf_flash t))
       | Inl _ \<Rightarrow> \<not> steady (nf_flash s)"
    using c length_entry_octets [OF ok] by (cases res) auto
  have fit': "log_end D ks + length vs \<le> nf_half s" using fit vs(2) by simp
  note o = other_half_kept [OF g vs(1,3) fit']
  have "take 16 (overwrite v (log_end D ks) vs) = take 16 v"
    using fit lv by (intro take_overwrite) (simp_all add: log_end_def)
  then have "take 16 (half_view cells t new) = replicate 16 0xff" using lg(3) o(4) by (simp add: v_def)
  moreover have "log_half D (overwrite v (log_end D ks) (entry_octets (recopied D e))) (ks @ [recopied D e])"
    using log_half_snoc [OF lg(2) ok] fit lv by (simp add: v_def)
  ultimately show ?thesis using vs(1,4) o by (auto simp: v_def split: sum.splits)
qed

lemma examine_entry:
  assumes "geometry D cells s" "h \<le> 1" "log_half D (half_view cells s h) es" "es = pre @ e # es'"
  shows "\<exists>t. step_try (read_record D h (log_end D pre)) (\<lambda>rec. case rec of None \<Rightarrow> a
             | Some r \<Rightarrow> step_try (is_live D h (log_end D pre) r) (\<lambda>lv.
                 step_try (if lv then payload_intact D h (log_end D pre) r else step_ok False) (b r))) s =
           b (fst e) (live D es (log_end D pre) e \<and> intact e) t \<and> same_log cells steady s t"
proof -
  obtain s1 where s1: "read_record D h (log_end D pre) s = (Inr (Some (fst e)), s1)" "same_log cells steady s s1"
    using read_record_entry [OF assms(1,2)] assms(3,4) by blast
  note g1 = same_log_simps [OF s1(2)]
  obtain s2 where s2: "is_live D h (log_end D pre) (fst e) s1 = (Inr (live D es (log_end D pre) e), s2)" "same_log cells steady s1 s2"
    using is_live_log [of s1 h es pre e es'] assms g1 by auto
  note g2 = same_log_simps [OF same_log_trans [OF s1(2) s2(2)]]
  show ?thesis
  proof (cases "live D es (log_end D pre) e")
    case True
    obtain s3 where s3: "payload_intact D h (log_end D pre) (fst e) s2 = (Inr (intact e), s3)" "same_log cells steady s2 s3"
      using payload_intact_log [of s2 h pre e es'] assms g2 by auto
    show ?thesis
      using s1 s2 s3 True same_log_trans [OF same_log_trans [OF s1(2) s2(2)] s3(2)] by (intro exI [of _ s3]) simp
  next
    case False
    then show ?thesis using s1 s2 same_log_trans [OF s1(2) s2(2)] by (intro exI [of _ s2]) simp
  qed
qed

lemma compact_loop_log:
  assumes g: "geometry D cells s" "old \<le> 1" "new \<le> 1" "old \<noteq> new" "es = pre @ rest" "length rest < rounds"
    and lg: "log_half D (half_view cells s old) es" "log_half D (half_view cells s new) (kept_from D es 16 pre)"
      "take 16 (half_view cells s new) = replicate 16 0xff"
    and run: "compact_loop rounds D old new (log_end D pre) (log_end D (kept_from D es 16 pre)) s = (res, t)"
  shows "same_frame s t \<and> geometry D cells t \<and> half_view cells t old = half_view cells s old \<and>
     take 16 (half_view cells t new) = replicate 16 0xff \<and>
     (case res of
        Inr out \<Rightarrow> log_half D (half_view cells t new) (kept D es) \<and> out = log_end D (kept D es) \<and>
          (steady (nf_flash s) \<longrightarrow> steady (nf_flash t))
      | Inl _ \<Rightarrow> \<not> steady (nf_flash s))"
  using g(1,5,6) lg run
proof (induction rest arbitrary: pre rounds s)
  case Nil
  then obtain n where n: "rounds = Suc n" by (cases rounds) auto
  obtain s1 where s1: "read_record D old (log_end D pre) s = (Inr None, s1)" "same_log cells steady s s1"
    using read_record_end [OF Nil.prems(1) g(2), of pre] Nil.prems(2,4) by auto
  then have "res = Inr (log_end D (kept D es))" "t = s1" using Nil.prems(2,7) n by (simp_all add: kept_def)
  with s1(2) Nil.prems same_log_simps [OF s1(2)] show ?case
    by (simp add: kept_def same_frame_def same_log_def)
next
  case (Cons e rest)
  then obtain n where n: "rounds = Suc n" "length rest < n" by (cases rounds) auto
  define ks where "ks = kept_from D es 16 pre"
  define keep where "keep = (live D es (log_end D pre) e \<and> intact e)"
  have ks': "kept_from D es 16 (pre @ [e]) = ks @ (if keep then [recopied D e] else [])"
    by (simp add: kept_from_append ks_def keep_def log_end_def)
  have es: "es = pre @ e # rest" "es = (pre @ [e]) @ rest" using Cons.prems(2) by simp_all
  note run = Cons.prems(7) [unfolded n(1) compact_loop.simps, folded ks_def]
  from examine_entry [OF Cons.prems(1) g(2) Cons.prems(4) es(1), where a = "step_ok (log_end D ks)" and
      b = "\<lambda>r kp. if kp then step_try (copy_record D old new (log_end D pre) (log_end D ks) r)
          (\<lambda>_. compact_loop n D old new (log_end D pre + fr_size D r) (log_end D ks + fr_size D r))
        else compact_loop n D old new (log_end D pre + fr_size D r) (log_end D ks)", unfolded run, folded keep_def]
  obtain s1 where s1: "same_log cells steady s s1"
    "(if keep then step_try (copy_record D old new (log_end D pre) (log_end D ks) (fst e))
                     (\<lambda>_. compact_loop n D old new (log_end D pre + fr_size D (fst e)) (log_end D ks + fr_size D (fst e)))
      else compact_loop n D old new (log_end D pre + fr_size D (fst e)) (log_end D ks)) s1 = (res, t)"
    by metis
  note v1 = same_log_simps [OF s1(1)]
  have g1: "geometry D cells s1" "log_half D (half_view cells s1 old) es" "log_half D (half_view cells s1 new) ks"
    "take 16 (half_view cells s1 new) = replicate 16 0xff"
    using Cons.prems v1 by (simp_all add: ks_def)
  show ?case
  proof (cases keep)
    case False
    then have run: "compact_loop n D old new (log_end D (pre @ [e])) (log_end D (kept_from D es 16 (pre @ [e]))) s1 = (res, t)"
      using s1(2) by (simp add: ks')
    from Cons.IH [OF g1(1) es(2) n(2) g1(2) _ g1(4) run] g1(3) False ks' s1(1) v1 show ?thesis
      by (auto simp: same_frame_def same_log_def split: sum.splits)
  next
    case True
    obtain r s2 where c: "copy_record D old new (log_end D pre) (log_end D ks) (fst e) s1 = (r, s2)" by fastforce
    have "log_end D ks \<le> log_end D pre" using kept_from_size by (simp add: ks_def)
    then have fit: "log_end D ks + fr_size D (fst e) \<le> nf_half s1"
      using log_half_entry(3) [of D _ pre e rest] g1(2) es(1) half_in_flash(2) [OF g1(1) g(2)] by fastforce
    note k = keep_entry_log [OF g1(1) g(2-4) g1(2) [unfolded es(1)] g1(3,4) fit c]
    show ?thesis
    proof (cases r)
      case (Inl x)
      then have "res = Inl x" "t = s2" using s1(2) True c by simp_all
      with k Inl s1(1) v1 show ?thesis by (simp add: same_frame_def same_log_def)
    next
      case (Inr u)
      with k have s2: "geometry D cells s2" "log_half D (half_view cells s2 old) es"
        "log_half D (half_view cells s2 new) (kept_from D es 16 (pre @ [e]))" "take 16 (half_view cells s2 new) = replicate 16 0xff"
        "same_frame s1 s2" "steady (nf_flash s1) \<longrightarrow> steady (nf_flash s2)" "half_view cells s2 old = half_view cells s1 old"
        using g1(2) ks' True by simp_all
      have run: "compact_loop n D old new (log_end D (pre @ [e])) (log_end D (kept_from D es 16 (pre @ [e]))) s2 = (res, t)"
        using s1(2) True c Inr by (simp add: ks')
      from Cons.IH [OF s2(1) es(2) n(2) s2(2,3,4) run] s2 s1(1) v1 show ?thesis
        by (auto simp: same_frame_def same_log_def split: sum.splits)
    qed
  qed
qed

end

end
