(* ===== verification/FrameCounter.thy ===== *)
theory FrameCounter
  imports Tlv
begin

text \<open>
  Frame counters, \<^verbatim>\<open>panweave-security/src/frame_counter.rs\<close>: the outgoing counter with its
  store-ahead reservation window and the per-sender table of incoming counters. How the runtime
  persists the reservations and what a power loss does to them is in the theory
  \<open>CounterPersistence\<close>.
\<close>

section \<open>The outgoing counter\<close>

datatype counter_error = Exhausted | ReservationRequired

record outgoing_counter =
  oc_next :: u32
  oc_reserved_until :: u32
  oc_window :: u32
  oc_margin :: u32
  oc_in_flight :: "u32 option"

definition DEFAULT_WINDOW :: u32 where "DEFAULT_WINDOW = 1024"
definition DEFAULT_MARGIN :: u32 where "DEFAULT_MARGIN = 64"
definition SWITCH_RESET_THRESHOLD :: u32 where "SWITCH_RESET_THRESHOLD = 0x80000000"
definition U32_MAX :: u32 where "U32_MAX = - 1"

definition oc_restore :: "u32 \<Rightarrow> outgoing_counter" where
  "oc_restore bound =
     \<lparr>oc_next = bound, oc_reserved_until = bound, oc_window = DEFAULT_WINDOW,
      oc_margin = DEFAULT_MARGIN, oc_in_flight = None\<rparr>"

definition oc_new :: outgoing_counter where
  "oc_new = oc_restore 0"

definition oc_with_window :: "u32 \<Rightarrow> u32 \<Rightarrow> outgoing_counter \<Rightarrow> outgoing_counter" where
  "oc_with_window window margin c =
     (let w = max window 1 in c\<lparr>oc_window := w, oc_margin := min margin (saturating_sub w 1)\<rparr>)"

definition needs_reservation :: "outgoing_counter \<Rightarrow> bool" where
  "needs_reservation c \<longleftrightarrow>
     oc_in_flight c = None \<and> oc_reserved_until c \<le> saturating_add (oc_next c) (oc_margin c) \<and>
     oc_reserved_until c \<noteq> U32_MAX"

text \<open>A \<^verbatim>\<open>Reservation\<close> is its only field, the bound to persist.\<close>

definition start_reservation :: "outgoing_counter \<Rightarrow> u32 option \<times> outgoing_counter" where
  "start_reservation c =
     (if \<not> needs_reservation c then (None, c)
      else let target = max (saturating_add (oc_next c) (oc_window c)) (oc_reserved_until c)
           in (Some target, c\<lparr>oc_in_flight := Some target\<rparr>))"

definition commit_reservation :: "u32 \<Rightarrow> outgoing_counter \<Rightarrow> outgoing_counter" where
  "commit_reservation r c =
     (let c1 = (if oc_in_flight c = Some r then c\<lparr>oc_in_flight := None\<rparr> else c)
      in if oc_reserved_until c1 < r then c1\<lparr>oc_reserved_until := r\<rparr> else c1)"

definition abort_reservation :: "outgoing_counter \<Rightarrow> outgoing_counter" where
  "abort_reservation c = c\<lparr>oc_in_flight := None\<rparr>"

definition allocate :: "(outgoing_counter, counter_error, u32) step" where
  "allocate c =
     (if oc_next c = U32_MAX then (Inl Exhausted, c)
      else if oc_reserved_until c \<le> oc_next c then (Inl ReservationRequired, c)
      else (Inr (oc_next c), c\<lparr>oc_next := oc_next c + 1\<rparr>))"

definition on_key_switch :: "outgoing_counter \<Rightarrow> bool \<times> outgoing_counter" where
  "on_key_switch c =
     (if SWITCH_RESET_THRESHOLD < oc_next c
      then (True, c\<lparr>oc_next := 0, oc_reserved_until := 0, oc_in_flight := None\<rparr>)
      else (False, c))"

definition near_exhaustion :: "outgoing_counter \<Rightarrow> bool" where
  "near_exhaustion c \<longleftrightarrow> SWITCH_RESET_THRESHOLD \<le> oc_next c"

subsection \<open>Invariant and behaviour\<close>

text \<open>
  The counter never stands beyond its committed bound, and a reservation in flight is never below
  it.
\<close>

definition oc_inv :: "outgoing_counter \<Rightarrow> bool" where
  "oc_inv c \<longleftrightarrow>
     oc_next c \<le> oc_reserved_until c \<and>
     (case oc_in_flight c of None \<Rightarrow> True | Some t \<Rightarrow> oc_reserved_until c \<le> t)"

named_theorems oc_defs \<open>the operations of the outgoing counter\<close>

declare oc_restore_def [oc_defs] oc_new_def [oc_defs] oc_with_window_def [oc_defs]
  start_reservation_def [oc_defs] commit_reservation_def [oc_defs] abort_reservation_def [oc_defs]
  allocate_def [oc_defs] on_key_switch_def [oc_defs]

lemma U32_MAX_top [simp]: "x \<le> U32_MAX"
  by (simp add: U32_MAX_def)

lemma unat_incr: "(a :: 'a::len word) < b \<Longrightarrow> unat (a + 1) = unat a + 1"
proof -
  assume "a < b"
  then have "Suc (unat a) \<le> unat b" by (simp add: word_less_nat_alt)
  also have "unat b < 2 ^ LENGTH('a)" by (rule unsigned_less)
  finally have "Suc (unat a) < 2 ^ LENGTH('a)" .
  then show ?thesis by (simp add: unat_word_ariths)
qed

lemma word_less_incr: "(a :: 'a::len word) < b \<Longrightarrow> a + 1 \<le> b \<and> a < a + 1"
  using unat_incr [of a b] by (simp add: word_less_nat_alt word_le_nat_alt)

lemma oc_inv_restore [simp]: "oc_inv (oc_restore b)"
  by (simp add: oc_inv_def oc_defs)

lemma oc_inv_with_window [simp]: "oc_inv (oc_with_window w m c) = oc_inv c"
  by (simp add: oc_inv_def oc_defs Let_def split: option.split)

lemma oc_inv_start: "oc_inv c \<Longrightarrow> oc_inv (snd (start_reservation c))"
  by (auto simp: oc_inv_def oc_defs Let_def split: option.splits)

lemma oc_inv_commit: "oc_inv c \<Longrightarrow> oc_in_flight c = Some r \<or> oc_in_flight c = None \<Longrightarrow> oc_inv (commit_reservation r c)"
  by (auto simp: oc_inv_def oc_defs Let_def split: option.splits)

lemma oc_inv_abort: "oc_inv c \<Longrightarrow> oc_inv (abort_reservation c)"
  by (simp add: oc_inv_def oc_defs)

lemma oc_inv_allocate: "oc_inv c \<Longrightarrow> oc_inv (snd (allocate c))"
  by (auto simp: oc_inv_def oc_defs word_less_incr split: option.splits)

lemma oc_inv_key_switch: "oc_inv c \<Longrightarrow> oc_inv (snd (on_key_switch c))"
  by (auto simp: oc_inv_def oc_defs split: option.splits)

lemma allocate_ok:
  assumes "allocate c = (Inr v, c')"
  shows "v = oc_next c" "v < oc_next c'" "oc_next c' \<le> oc_reserved_until c" "v < oc_reserved_until c"
    "oc_reserved_until c' = oc_reserved_until c" "oc_in_flight c' = oc_in_flight c" "v \<noteq> U32_MAX"
  using assms word_less_incr [of "oc_next c" "oc_reserved_until c"]
  by (auto simp: oc_defs not_le split: if_splits)

text \<open>
  When nothing is in flight and the counter has run into its margin, a reservation is requested,
  and committing it opens the window: the next allocation succeeds. The counter is therefore never
  stuck short of its maximum as long as the storage accepts the bound.
\<close>

lemma needs_reservation_when_required:
  assumes "fst (allocate c) = Inl ReservationRequired" "oc_in_flight c = None"
  shows "needs_reservation c"
proof -
  have c: "oc_next c \<noteq> U32_MAX" "oc_reserved_until c \<le> oc_next c"
    using assms(1) by (auto simp: oc_defs split: if_splits)
  have "unat (oc_next c) \<le> unat (saturating_add (oc_next c) (oc_margin c))"
    using unsigned_less [of "oc_next c", where 'a = nat] by (simp add: unat_simps)
  then have "oc_next c \<le> saturating_add (oc_next c) (oc_margin c)"
    by (simp add: word_le_nat_alt)
  with c have "oc_reserved_until c \<le> saturating_add (oc_next c) (oc_margin c)" by simp
  moreover have "oc_reserved_until c \<noteq> U32_MAX"
    using c antisym [OF U32_MAX_top, of "oc_next c"] by auto
  ultimately show ?thesis using assms(2) by (simp add: needs_reservation_def)
qed

lemma reservation_unblocks:
  assumes "needs_reservation c" "oc_next c \<noteq> U32_MAX" "0 < oc_window c"
    and "start_reservation c = (r, c')"
  shows "\<exists>t. r = Some t \<and> fst (allocate (commit_reservation t c')) = Inr (oc_next c)"
proof -
  define t where "t = max (saturating_add (oc_next c) (oc_window c)) (oc_reserved_until c)"
  have r: "r = Some t" "c' = c\<lparr>oc_in_flight := Some t\<rparr>"
    using assms by (auto simp: start_reservation_def t_def Let_def)
  have "unat (oc_next c) < 2 ^ 32 - 1"
    using assms(2) unsigned_less [of "oc_next c", where 'a = nat]
    by (simp add: U32_MAX_def unat_max_word word_unat_eq_iff)
  moreover have "0 < unat (oc_window c)" using assms(3) by (simp add: word_less_nat_alt)
  ultimately have "unat (oc_next c) < unat (saturating_add (oc_next c) (oc_window c))"
    by (simp add: unat_simps)
  then have "oc_next c < t" unfolding t_def less_max_iff_disj by (simp add: word_less_nat_alt)
  then have "fst (allocate (commit_reservation t c')) = Inr (oc_next c)"
    using assms(2) by (auto simp: r oc_defs Let_def)
  with r show ?thesis by simp
qed

section \<open>Incoming counters\<close>

datatype freshness_error = Replay | TableFull | ExhaustedCounter

text \<open>The table with its capacity \<open>ic_cap\<close> (\<^verbatim>\<open>K::N\<close>).\<close>

record incoming_counters =
  ic_cap :: nat
  ic_entries :: "(u64 \<times> u32) list"

definition incoming_new :: "nat \<Rightarrow> incoming_counters" where
  "incoming_new n = \<lparr>ic_cap = n, ic_entries = []\<rparr>"

definition ic_entry :: "incoming_counters \<Rightarrow> u64 \<Rightarrow> (u64 \<times> u32) option" where
  "ic_entry t sender = List.find (\<lambda>e. fst e = sender) (ic_entries t)"

definition check_and_update ::
  "u64 \<Rightarrow> u32 \<Rightarrow> bool \<Rightarrow> (incoming_counters, freshness_error, unit) step" where
  "check_and_update sender received all_fresh t =
     (if received = U32_MAX then (Inl ExhaustedCounter, t)
      else case ic_entry t sender of
        Some e \<Rightarrow>
          (if received < snd e then (Inl Replay, t)
           else (Inr (), t\<lparr>ic_entries :=
                   update_first (\<lambda>e. fst e = sender) (\<lambda>e. (fst e, received + 1)) (ic_entries t)\<rparr>))
      | None \<Rightarrow>
          (case vec_push (ic_cap t) (ic_entries t) (sender, received + 1) of
             Inr es \<Rightarrow> (Inr (), t\<lparr>ic_entries := es\<rparr>)
           | Inl _ \<Rightarrow> if all_fresh then (Inl TableFull, t) else (Inr (), t)))"

definition is_fresh :: "u64 \<Rightarrow> u32 \<Rightarrow> incoming_counters \<Rightarrow> bool" where
  "is_fresh sender received t \<longleftrightarrow>
     received \<noteq> U32_MAX \<and>
     (case ic_entry t sender of None \<Rightarrow> True | Some e \<Rightarrow> snd e \<le> received)"

definition incoming_get :: "u64 \<Rightarrow> incoming_counters \<Rightarrow> u32 option" where
  "incoming_get sender t = map_option snd (ic_entry t sender)"

definition incoming_set :: "u64 \<Rightarrow> u32 \<Rightarrow> (incoming_counters, freshness_error, unit) step" where
  "incoming_set sender nxt t =
     (case ic_entry t sender of
        Some _ \<Rightarrow> (Inr (), t\<lparr>ic_entries :=
                     update_first (\<lambda>e. fst e = sender) (\<lambda>e. (fst e, nxt)) (ic_entries t)\<rparr>)
      | None \<Rightarrow>
          (case vec_push (ic_cap t) (ic_entries t) (sender, nxt) of
             Inr es \<Rightarrow> (Inr (), t\<lparr>ic_entries := es\<rparr>)
           | Inl _ \<Rightarrow> (Inl TableFull, t)))"

definition incoming_remove :: "u64 \<Rightarrow> incoming_counters \<Rightarrow> incoming_counters" where
  "incoming_remove sender t = t\<lparr>ic_entries := filter (\<lambda>e. fst e \<noteq> sender) (ic_entries t)\<rparr>"

definition incoming_reset_all :: "incoming_counters \<Rightarrow> incoming_counters" where
  "incoming_reset_all t = t\<lparr>ic_entries := []\<rparr>"

text \<open>At most one entry per sender, within the capacity.\<close>

definition ic_inv :: "incoming_counters \<Rightarrow> bool" where
  "ic_inv t \<longleftrightarrow> distinct (map fst (ic_entries t)) \<and> length (ic_entries t) \<le> ic_cap t"

lemma ic_entry_None: "ic_entry t s = None \<longleftrightarrow> s \<notin> fst ` set (ic_entries t)"
  by (simp add: ic_entry_def find_None_keys)

lemma ic_inv_check_and_update: "ic_inv t \<Longrightarrow> ic_inv (snd (check_and_update s r f t))"
  by (auto simp: check_and_update_def ic_inv_def vec_push_def map_update_first ic_entry_None
      split: option.split)

lemma ic_inv_set: "ic_inv t \<Longrightarrow> ic_inv (snd (incoming_set s r t))"
  by (auto simp: incoming_set_def ic_inv_def vec_push_def map_update_first ic_entry_None
      split: option.split)

lemma ic_inv_remove: "ic_inv t \<Longrightarrow> ic_inv (incoming_remove s t)"
  by (auto simp: incoming_remove_def ic_inv_def distinct_map_filter intro: le_trans [OF length_filter_le])

lemma incoming_get_after_accept:
  assumes "check_and_update s r True t = (Inr (), t')"
  shows "incoming_get s t' = Some (r + 1)" "r \<noteq> U32_MAX" "is_fresh s r t"
  using assms
  by (auto simp: check_and_update_def incoming_get_def ic_entry_def is_fresh_def vec_push_def
      find_update_first find_append not_less split: if_splits option.splits)

lemma incoming_get_other:
  assumes "s' \<noteq> s"
  shows "incoming_get s' (snd (check_and_update s r f t)) = incoming_get s' t"
  using assms
  by (auto simp: check_and_update_def incoming_get_def ic_entry_def vec_push_def
      find_update_first_other find_append split: option.split)

lemma check_and_update_fresh:
  "check_and_update s r f t = (Inr (), t') \<Longrightarrow> is_fresh s r t"
  by (auto simp: check_and_update_def is_fresh_def not_less split: if_splits option.splits)

text \<open>The received frames, one after the other; every result is kept.\<close>

fun receive_all :: "(u64 \<times> u32) list \<Rightarrow> incoming_counters \<Rightarrow> (freshness_error + unit) list \<times> incoming_counters" where
  "receive_all [] t = ([], t)"
| "receive_all ((s, r) # fs) t =
     (let (res, t1) = check_and_update s r True t; (rs, t2) = receive_all fs t1 in (res # rs, t2))"

definition accepted :: "(u64 \<times> u32) list \<Rightarrow> incoming_counters \<Rightarrow> (u64 \<times> u32) list" where
  "accepted fs t = map fst (filter (\<lambda>p. snd p = Inr ()) (zip fs (fst (receive_all fs t))))"

lemma accepted_Nil [simp]: "accepted [] t = []"
  by (simp add: accepted_def)

lemma accepted_Cons:
  "accepted ((s, r) # fs) t =
     (case check_and_update s r True t of
        (Inr _, t1) \<Rightarrow> (s, r) # accepted fs t1
      | (Inl _, t1) \<Rightarrow> accepted fs t1)"
  by (auto simp: accepted_def Let_def split: prod.splits sum.splits)

text \<open>A stored counter never decreases while frames are received.\<close>

lemma check_and_update_grows:
  assumes "incoming_get s t = Some n"
  shows "\<exists>m. incoming_get s (snd (check_and_update s' r f t)) = Some m \<and> n \<le> m"
proof (cases "s' = s")
  case False
  with assms show ?thesis by (simp add: incoming_get_other)
next
  case True
  obtain e where e: "ic_entry t s = Some e" "snd e = n"
    using assms by (auto simp: incoming_get_def)
  have "n \<le> r \<Longrightarrow> r \<noteq> U32_MAX \<Longrightarrow> n \<le> r + 1"
    using word_less_incr [of r U32_MAX] by (auto simp: order.strict_iff_order)
  with e show ?thesis
    by (cases e) (auto simp: True check_and_update_def incoming_get_def ic_entry_def find_update_first
        not_less)
qed

lemma accepted_above:
  assumes "incoming_get s t = Some n" "(s, r) \<in> set (accepted fs t)"
  shows "n \<le> r"
  using assms
proof (induction fs arbitrary: t n)
  case (Cons f fs)
  obtain s' r' where f: "f = (s', r')" by (cases f)
  obtain res t1 where c: "check_and_update s' r' True t = (res, t1)" by fastforce
  obtain m where m: "incoming_get s t1 = Some m" "n \<le> m"
    using check_and_update_grows [OF Cons.prems(1), of s' r' True] c by auto
  show ?case
  proof (cases "(s, r) \<in> set (accepted fs t1)")
    case True
    with Cons.IH [OF m(1)] m(2) show ?thesis by simp
  next
    case False
    with Cons.prems(2) c have "s' = s" "r' = r" "res = Inr ()"
      by (auto simp: f accepted_Cons split: sum.splits)
    then have "is_fresh s r t" using check_and_update_fresh c by blast
    with Cons.prems(1) show ?thesis by (auto simp: is_fresh_def incoming_get_def)
  qed
qed simp

lemma accepted_sorted:
  "sorted_wrt (\<lambda>p q. fst p = fst q \<longrightarrow> snd p < snd q) (accepted fs t)"
proof (induction fs arbitrary: t)
  case (Cons f fs)
  obtain s r where f: "f = (s, r)" by (cases f)
  obtain res t1 where c: "check_and_update s r True t = (res, t1)" by fastforce
  show ?case
  proof (cases res)
    case (Inl e)
    with Cons c show ?thesis by (simp add: f accepted_Cons)
  next
    case (Inr u)
    then have g: "incoming_get s t1 = Some (r + 1)" "r \<noteq> U32_MAX"
      using incoming_get_after_accept(1,2) [of s r t t1] c by auto
    then have "r < r + 1" using word_less_incr [of r U32_MAX] by (auto simp: order.strict_iff_order)
    then have "r < r'" if "(s, r') \<in> set (accepted fs t1)" for r'
      using accepted_above [OF g(1) that] by simp
    with Cons c Inr show ?thesis by (fastforce simp: f accepted_Cons)
  qed
qed simp



text \<open>
  C26: Transmission is never blocked for good. When \<^verbatim>\<open>allocate\<close> refuses because the window is used up and
  no reservation is in flight, \<^verbatim>\<open>start_reservation\<close> hands out a bound, and once that bound is committed
  \<^verbatim>\<open>allocate\<close> returns the very value that was refused.
\<close>

theorem reservation_lets_transmission_resume:
  assumes "fst (allocate c) = Inl ReservationRequired" "oc_in_flight c = None" "0 < oc_window c"
  shows "\<exists>t c'. start_reservation c = (Some t, c') \<and>
           fst (allocate (commit_reservation t c')) = Inr (oc_next c)"
proof -
  have "needs_reservation c" using needs_reservation_when_required assms(1,2) by blast
  moreover have "oc_next c \<noteq> U32_MAX" using assms(1) by (auto simp: allocate_def split: if_splits)
  ultimately show ?thesis
    using reservation_unblocks [of c "fst (start_reservation c)" "snd (start_reservation c)"] assms(3)
    by (metis prod.collapse)
qed

theorem reservation_lets_transmission_resume_witness:
  "\<exists>t c'. start_reservation (oc_restore 7) = (Some t, c') \<and>
     fst (allocate (commit_reservation t c')) = Inr 7"
  using reservation_lets_transmission_resume [of "oc_restore 7"]
  by (simp add: oc_restore_def allocate_def U32_MAX_def DEFAULT_WINDOW_def)

end
