(* ===== verification/AuxHeader.thy ===== *)
theory AuxHeader
  imports FrameCounter
begin

text \<open>
  The auxiliary security header and the CCM nonce, \<^verbatim>\<open>panweave-security/src/aux_header.rs\<close>. The
  header interprets \<open>wire_codec\<close>; the nonce is shown to determine the sender, the counter and the
  control octet it is built from.
\<close>

section \<open>Security control\<close>

datatype security_level =
  LevelNone | Mic32 | Mic64 | Mic128 | Enc | EncMic32 | EncMic64 | EncMic128

definition level_from_raw :: "u8 \<Rightarrow> security_level" where
  "level_from_raw v =
     (let x = v AND 7 in
      if x = 0 then LevelNone else if x = 1 then Mic32 else if x = 2 then Mic64
      else if x = 3 then Mic128 else if x = 4 then Enc else if x = 5 then EncMic32
      else if x = 6 then EncMic64 else EncMic128)"

definition level_raw :: "security_level \<Rightarrow> u8" where
  "level_raw l =
     (case l of LevelNone \<Rightarrow> 0 | Mic32 \<Rightarrow> 1 | Mic64 \<Rightarrow> 2 | Mic128 \<Rightarrow> 3 | Enc \<Rightarrow> 4
      | EncMic32 \<Rightarrow> 5 | EncMic64 \<Rightarrow> 6 | EncMic128 \<Rightarrow> 7)"

definition mic_len :: "security_level \<Rightarrow> nat" where
  "mic_len l =
     (case l of LevelNone \<Rightarrow> 0 | Enc \<Rightarrow> 0 | Mic32 \<Rightarrow> 4 | EncMic32 \<Rightarrow> 4
      | Mic64 \<Rightarrow> 8 | EncMic64 \<Rightarrow> 8 | Mic128 \<Rightarrow> 16 | EncMic128 \<Rightarrow> 16)"

definition encrypts :: "security_level \<Rightarrow> bool" where
  "encrypts l \<longleftrightarrow> level_raw l AND 4 \<noteq> 0"

datatype key_identifier = KeyData | KeyNetwork | KeyTransport | KeyLoad

definition key_id_from_raw :: "u8 \<Rightarrow> key_identifier" where
  "key_id_from_raw v =
     (let x = v AND 3 in
      if x = 0 then KeyData else if x = 1 then KeyNetwork else if x = 2 then KeyTransport
      else KeyLoad)"

definition key_id_raw :: "key_identifier \<Rightarrow> u8" where
  "key_id_raw k = (case k of KeyData \<Rightarrow> 0 | KeyNetwork \<Rightarrow> 1 | KeyTransport \<Rightarrow> 2 | KeyLoad \<Rightarrow> 3)"

record security_control =
  sc_level :: security_level
  sc_key_id :: key_identifier
  sc_extended_nonce :: bool

definition control_from_raw :: "u8 \<Rightarrow> security_control" where
  "control_from_raw v =
     \<lparr>sc_level = level_from_raw v, sc_key_id = key_id_from_raw (drop_bit 3 v),
      sc_extended_nonce = (v AND 0x20 \<noteq> 0)\<rparr>"

definition control_raw :: "security_control \<Rightarrow> u8" where
  "control_raw c =
     level_raw (sc_level c) OR push_bit 3 (key_id_raw (sc_key_id c))
       OR push_bit 5 (of_bool (sc_extended_nonce c))"

definition with_level :: "security_control \<Rightarrow> security_level \<Rightarrow> security_control" where
  "with_level c l = c\<lparr>sc_level := l\<rparr>"

lemma level_from_raw_raw [simp]: "level_from_raw (level_raw l) = l"
  by (cases l) (simp_all add: level_from_raw_def level_raw_def)

lemma control_from_raw_raw [simp]: "control_from_raw (control_raw c) = c"
  by (cases c; cases "sc_level c"; cases "sc_key_id c"; cases "sc_extended_nonce c")
     (simp_all add: control_from_raw_def control_raw_def level_from_raw_def level_raw_def
        key_id_from_raw_def key_id_raw_def)

lemma control_raw_inj: "control_raw c = control_raw d \<Longrightarrow> c = d"
  by (metis control_from_raw_raw)

text \<open>
  On the air the level bits are cleared; the other fields survive, and restoring the level gives the
  sender's octet back.
\<close>

lemma control_from_cleared:
  "control_from_raw (control_raw c AND NOT 7) = with_level c LevelNone"
  by (cases c; cases "sc_level c"; cases "sc_key_id c"; cases "sc_extended_nonce c")
     (simp_all add: control_from_raw_def control_raw_def level_from_raw_def level_raw_def
        key_id_from_raw_def key_id_raw_def with_level_def)

lemma with_level_simps [simp]:
  "sc_key_id (with_level c l) = sc_key_id c"
  "sc_extended_nonce (with_level c l) = sc_extended_nonce c"
  "sc_level (with_level c l) = l"
  "with_level (with_level c l) l' = with_level c l'"
  "with_level c (sc_level c) = c"
  by (simp_all add: with_level_def)

section \<open>The auxiliary header\<close>

record aux_header =
  ah_control :: security_control
  ah_frame_counter :: frame_counter
  ah_source :: "extended_address option"
  ah_key_sequence :: "key_sequence option"

definition aux_network ::
  "security_level \<Rightarrow> frame_counter \<Rightarrow> extended_address \<Rightarrow> key_sequence \<Rightarrow> aux_header" where
  "aux_network level fc src key_seq =
     \<lparr>ah_control = \<lparr>sc_level = level, sc_key_id = KeyNetwork, sc_extended_nonce = True\<rparr>,
      ah_frame_counter = fc, ah_source = Some src, ah_key_sequence = Some key_seq\<rparr>"

definition aux_link ::
  "security_level \<Rightarrow> key_identifier \<Rightarrow> frame_counter \<Rightarrow> extended_address option \<Rightarrow> aux_header" where
  "aux_link level key_id fc src =
     \<lparr>ah_control = \<lparr>sc_level = level, sc_key_id = key_id, sc_extended_nonce = (src \<noteq> None)\<rparr>,
      ah_frame_counter = fc, ah_source = src, ah_key_sequence = None\<rparr>"

definition aux_encoded_len :: "aux_header \<Rightarrow> nat" where
  "aux_encoded_len h =
     1 + 4 + (if ah_source h \<noteq> None then 8 else 0) + (if ah_key_sequence h \<noteq> None then 1 else 0)"

definition aux_nonce :: "aux_header \<Rightarrow> extended_address \<Rightarrow> bytes" where
  "aux_nonce h source =
     le_bytes 8 (case ah_source h of Some s \<Rightarrow> s | None \<Rightarrow> source)
       @ le_bytes 4 (ah_frame_counter h) @ [control_raw (ah_control h)]"

definition aux_decode :: "aux_header decode" where
  "aux_decode =
     step_try r_u8 (\<lambda>c. let control = control_from_raw c in
     step_try r_u32_le (\<lambda>fc.
     step_try (if sc_extended_nonce control then step_map Some r_u64_le else step_ok None) (\<lambda>src.
     step_try (if sc_key_id control = KeyNetwork then step_map Some r_u8 else step_ok None) (\<lambda>ks.
     step_ok \<lparr>ah_control = control, ah_frame_counter = fc, ah_source = src, ah_key_sequence = ks\<rparr>))))"

definition aux_encode :: "aux_header \<Rightarrow> encode" where
  "aux_encode h =
     (if sc_extended_nonce (ah_control h) \<noteq> (ah_source h \<noteq> None)
      then step_err (InvalidField ''extended nonce'' (of_bool (sc_extended_nonce (ah_control h))))
      else if (sc_key_id (ah_control h) = KeyNetwork) \<noteq> (ah_key_sequence h \<noteq> None)
      then step_err (InvalidField ''key sequence number'' (of_bool (ah_key_sequence h \<noteq> None)))
      else
        step_try (w_u8 (control_raw (ah_control h))) (\<lambda>_.
        step_try (w_u32_le (ah_frame_counter h)) (\<lambda>_.
        step_try (case ah_source h of Some s \<Rightarrow> w_u64_le s | None \<Rightarrow> step_ok ()) (\<lambda>_.
        step_try (case ah_key_sequence h of Some k \<Rightarrow> w_u8 k | None \<Rightarrow> step_ok ()) (\<lambda>_.
        step_ok ())))))"

text \<open>The headers whose presence bits agree with the fields present.\<close>

definition aux_wf :: "aux_header \<Rightarrow> bool" where
  "aux_wf h \<longleftrightarrow>
     sc_extended_nonce (ah_control h) = (ah_source h \<noteq> None) \<and>
     (sc_key_id (ah_control h) = KeyNetwork) = (ah_key_sequence h \<noteq> None)"

definition aux_octets :: "aux_header \<Rightarrow> bytes" where
  "aux_octets h =
     [control_raw (ah_control h)] @ le_bytes 4 (ah_frame_counter h)
       @ (case ah_source h of Some s \<Rightarrow> le_bytes 8 s | None \<Rightarrow> [])
       @ (case ah_key_sequence h of Some k \<Rightarrow> [k] | None \<Rightarrow> [])"

lemma length_aux_octets: "length (aux_octets h) = aux_encoded_len h"
  by (simp add: aux_octets_def aux_encoded_len_def split: option.split)

lemma aux_encode_emits: "aux_wf h \<Longrightarrow> emits (aux_encode h) (aux_octets h)"
  unfolding aux_encode_def aux_octets_def aux_wf_def
  by (auto intro!: emits_then split: option.split)

lemma parses_aux_octets_as:
  assumes "control_from_raw c = ah_control h" "aux_wf h"
  shows "parses aux_decode
    ([c] @ le_bytes 4 (ah_frame_counter h) @ (case ah_source h of Some s \<Rightarrow> le_bytes 8 s | None \<Rightarrow> [])
       @ (case ah_key_sequence h of Some k \<Rightarrow> [k] | None \<Rightarrow> [])) h"
  using assms unfolding aux_decode_def aux_wf_def
  by (auto simp: Let_def step_norm intro!: parses_then split: option.splits)

lemma aux_decode_parses: "aux_wf h \<Longrightarrow> parses aux_decode (aux_octets h) h"
  unfolding aux_octets_def by (rule parses_aux_octets_as) simp_all

lemma cursor_safe_aux [safe_intros]: "cursor_safe aux_decode"
  unfolding aux_decode_def Let_def by (intro safe_intros)

interpretation auxc: wire_codec aux_decode aux_encode aux_encoded_len aux_wf aux_octets
  by unfold_locales
     (simp_all add: cursor_safe_aux aux_encode_emits aux_decode_parses length_aux_octets)

text \<open>Everything the decoder accepts is a representable header.\<close>

lemma aux_decode_wf: "aux_decode r = (Inr h, r') \<Longrightarrow> aux_wf h"
  by (auto simp: aux_decode_def aux_wf_def step_try_def step_map_def Let_def
      split: prod.splits sum.splits if_splits)

lemma aux_encode_invalid: "\<not> aux_wf h \<Longrightarrow> \<exists>f v. aux_encode h w = (Inl (InvalidField f v), w)"
  by (auto simp: aux_encode_def aux_wf_def)

lemma aux_network_wf [simp]: "aux_wf (aux_network l fc src ks)"
  by (simp add: aux_wf_def aux_network_def)

lemma aux_network_len [simp]: "aux_encoded_len (aux_network l fc src ks) = 14"
  by (simp add: aux_encoded_len_def aux_network_def)

lemma aux_link_wf [simp]: "aux_wf (aux_link l k fc src) \<longleftrightarrow> k \<noteq> KeyNetwork"
  by (simp add: aux_wf_def aux_link_def)

section \<open>The nonce\<close>

lemma length_aux_nonce [simp]: "length (aux_nonce h s) = 13"
  by (simp add: aux_nonce_def)

lemma le_bytes_inj:
  assumes "le_bytes n (a :: 'a::len word) = le_bytes n b" "LENGTH('a) \<le> 8 * n"
  shows "a = b"
  using assms by (metis le_word_le_bytes)

lemma aux_nonce_eq_iff:
  "aux_nonce h s = aux_nonce h' s' \<longleftrightarrow>
     (case ah_source h of Some a \<Rightarrow> a | None \<Rightarrow> s) = (case ah_source h' of Some a \<Rightarrow> a | None \<Rightarrow> s') \<and>
     ah_frame_counter h = ah_frame_counter h' \<and> ah_control h = ah_control h'"
  unfolding aux_nonce_def
  by (auto dest!: le_bytes_inj control_raw_inj)

text \<open>
  The auxiliary header survives the air. A header whose optional fields agree with its control
  octet is encoded into exactly \<^verbatim>\<open>encoded_len\<close> octets at the start of any large enough buffer, decoding
  these octets returns the header, and every strict prefix of them is reported as truncated.
\<close>

theorem aux_header_roundtrip:
  assumes "aux_wf h" "aux_encoded_len h \<le> length out"
  shows "\<exists>out'. encode_to_slice aux_encode h out = (Inr (aux_encoded_len h), out') \<and>
           decode_exact aux_decode (take (aux_encoded_len h) out') = Inr h \<and>
           (\<forall>n < aux_encoded_len h. truncated (decode_exact aux_decode (take n out')))"
proof -
  have "take n (aux_octets h @ drop (aux_encoded_len h) out) = take n (aux_octets h)"
    if "n < aux_encoded_len h" for n
    using that by (simp add: length_aux_octets)
  then show ?thesis
    using auxc.encode_fits [OF assms] auxc.decode_octets [OF assms(1)] auxc.decode_truncated [OF assms(1)]
    by (auto simp: length_aux_octets)
qed

theorem aux_header_roundtrip_witness:
  "\<exists>out'. encode_to_slice aux_encode (aux_network EncMic32 5 9 0) (replicate 20 0) = (Inr 14, out') \<and>
     decode_exact aux_decode (take 14 out') = Inr (aux_network EncMic32 5 9 0) \<and>
     (\<forall>n < 14. truncated (decode_exact aux_decode (take n out')))"
  using aux_header_roundtrip [of "aux_network EncMic32 5 9 0" "replicate 20 0"] by simp

text \<open>
  C29: Different frames of a network use different nonces. Two network-layer headers built by
  \<^verbatim>\<open>AuxHeader::network\<close> give the same CCM nonce only if they agree in sender, frame counter and security
  level; the address supplied beside them plays no role.
\<close>

theorem network_nonce_unique:
  "aux_nonce (aux_network l fc src ks) a = aux_nonce (aux_network l' fc' src' ks') a' \<longleftrightarrow>
     src = src' \<and> fc = fc' \<and> l = l'"
  by (auto simp: aux_nonce_eq_iff aux_network_def)

end
