(* ===== verification/Ccm.thy ===== *)
theory Ccm
  imports Codec
begin

text \<open>
  CCM* authenticated encryption, \<^verbatim>\<open>panweave-security/src/ccm.rs\<close>. The block cipher is the
  parameter \<open>E\<close> (\<^verbatim>\<open>BlockCipher::encrypt_block\<close> under one key); all that is used of it is that a
  block of 16 octets gives a block of 16 octets, which the Rust type \<^verbatim>\<open>[u8; 16]\<close> states. The
  in-place functions return the buffers they leave behind beside their result.
\<close>

section \<open>Blocks\<close>

type_synonym block_fn = "bytes \<Rightarrow> bytes"

definition block_fn :: "block_fn \<Rightarrow> bool" where
  "block_fn E \<longleftrightarrow> (\<forall>b. length b = 16 \<longrightarrow> length (E b) = 16)"

datatype ccm_error = InvalidMicLength | LengthOverflow | CcmTruncated | AuthenticationFailed

definition NONCE_LEN :: nat where "NONCE_LEN = 13"

fun copy_prefix :: "bytes \<Rightarrow> bytes \<Rightarrow> bytes" where
  "copy_prefix (d # dst) (s # src) = s # copy_prefix dst src"
| "copy_prefix dst _ = dst"

fun xor_into :: "bytes \<Rightarrow> bytes \<Rightarrow> bytes" where
  "xor_into (d # dst) (s # src) = (d XOR s) # xor_into dst src"
| "xor_into dst _ = dst"

definition zero_block :: bytes where
  "zero_block = replicate 16 0"

text \<open>\<^verbatim>\<open>u16::try_from(n).unwrap_or(u16::MAX)\<close> and \<^verbatim>\<open>u8::try_from(n).unwrap_or(d)\<close>.\<close>

definition u16_try_from :: "nat \<Rightarrow> u16" where
  "u16_try_from n = (if n < 2 ^ 16 then of_nat n else - 1)"

definition u8_try_from_or :: "u8 \<Rightarrow> nat \<Rightarrow> u8" where
  "u8_try_from_or d n = (if n < 2 ^ 8 then of_nat n else d)"

section \<open>Authentication and encryption transformations\<close>

text \<open>The \<^verbatim>\<open>while !rest.is_empty()\<close> loops: one block per round, the last one zero-padded.\<close>

function cbc_absorb :: "block_fn \<Rightarrow> bytes \<Rightarrow> bytes \<Rightarrow> bytes" where
  "cbc_absorb E x rest =
     (if rest = [] then x
      else let n = min (length rest) 16 in
           cbc_absorb E (E (xor_into x (copy_prefix zero_block (take n rest)))) (drop n rest))"
  by pat_completeness auto
termination
  by (relation "measure (\<lambda>(E, x, rest). length rest)") auto

declare cbc_absorb.simps [simp del]

definition cbc_flags :: "bytes \<Rightarrow> nat \<Rightarrow> u8" where
  "cbc_flags aad mic_len =
     (let m_field = (if mic_len = 0 then 0 else (mic_len - 2) div 2) in
      push_bit 6 (of_bool (aad \<noteq> [])) OR push_bit 3 (u8_try_from_or 0 m_field AND 7)
        OR (u8_try_from_or 1 (2 - 1) AND 7))"

definition cbc_mac :: "block_fn \<Rightarrow> bytes \<Rightarrow> bytes \<Rightarrow> bytes \<Rightarrow> nat \<Rightarrow> bytes" where
  "cbc_mac E nonce aad msg mic_len =
     (let x0 = E ([cbc_flags aad mic_len] @ nonce @ be_bytes 2 (u16_try_from (length msg)));
          x1 = (if aad = [] then x0
                else let la = be_bytes 2 (u16_try_from (length aad));
                         first = min (length aad) 14;
                         block = la @ copy_prefix (replicate 14 0) (take first aad)
                     in cbc_absorb E (E (xor_into x0 block)) (drop first aad))
      in cbc_absorb E x1 msg)"

definition ctr_block :: "block_fn \<Rightarrow> bytes \<Rightarrow> u16 \<Rightarrow> bytes" where
  "ctr_block E nonce counter = E ([u8_try_from_or 1 (2 - 1) AND 7] @ nonce @ be_bytes 2 counter)"

text \<open>\<^verbatim>\<open>data.chunks_mut(16).enumerate()\<close>, from chunk number \<open>i\<close> on.\<close>

function ctr_xor_from :: "block_fn \<Rightarrow> bytes \<Rightarrow> nat \<Rightarrow> bytes \<Rightarrow> bytes" where
  "ctr_xor_from E nonce i data =
     (if data = [] then []
      else xor_into (take 16 data) (ctr_block E nonce (u16_try_from (i + 1)))
             @ ctr_xor_from E nonce (i + 1) (drop 16 data))"
  by pat_completeness auto
termination
  by (relation "measure (\<lambda>(E, nonce, i, data). length data)") auto

declare ctr_xor_from.simps [simp del]

definition ctr_xor :: "block_fn \<Rightarrow> bytes \<Rightarrow> bytes \<Rightarrow> bytes" where
  "ctr_xor E nonce data = ctr_xor_from E nonce 0 data"

definition check_params :: "nat \<Rightarrow> nat \<Rightarrow> nat \<Rightarrow> ccm_error + unit" where
  "check_params aad_len msg_len mic_len =
     (if mic_len \<notin> {0, 4, 8, 16} then Inl InvalidMicLength
      else if 0xFFFF < msg_len \<or> 0xFF00 \<le> aad_len then Inl LengthOverflow
      else Inr ())"

section \<open>In-place operations\<close>

definition ccm_tag :: "block_fn \<Rightarrow> bytes \<Rightarrow> bytes \<Rightarrow> bytes \<Rightarrow> nat \<Rightarrow> bytes" where
  "ccm_tag E nonce aad msg m = xor_into (cbc_mac E nonce aad msg m) (ctr_block E nonce 0)"

definition encrypt_in_place ::
  "block_fn \<Rightarrow> bytes \<Rightarrow> bytes \<Rightarrow> bytes \<Rightarrow> bytes \<Rightarrow> (ccm_error + unit) \<times> bytes \<times> bytes" where
  "encrypt_in_place E nonce aad msg mic =
     (case check_params (length aad) (length msg) (length mic) of
        Inl e \<Rightarrow> (Inl e, msg, mic)
      | Inr _ \<Rightarrow>
          (let tag = cbc_mac E nonce aad msg (length mic);
               msg' = ctr_xor E nonce msg;
               s0 = ctr_block E nonce 0
           in (Inr (), msg', copy_prefix mic (map2 (XOR) tag s0))))"

definition decrypt_in_place ::
  "block_fn \<Rightarrow> bytes \<Rightarrow> bytes \<Rightarrow> bytes \<Rightarrow> bytes \<Rightarrow> (ccm_error + unit) \<times> bytes" where
  "decrypt_in_place E nonce aad msg mic =
     (case check_params (length aad) (length msg) (length mic) of
        Inl e \<Rightarrow> (Inl e, msg)
      | Inr _ \<Rightarrow>
          (let s0 = ctr_block E nonce 0;
               tag = copy_prefix zero_block (map2 (XOR) mic s0);
               msg' = ctr_xor E nonce msg;
               expected = cbc_mac E nonce aad msg' (length mic)
           in if take (length mic) expected = take (length mic) tag then (Inr (), msg')
              else (Inl AuthenticationFailed, replicate (length msg) 0)))"

definition encrypt_buffer ::
  "block_fn \<Rightarrow> bytes \<Rightarrow> bytes \<Rightarrow> nat \<Rightarrow> (bytes, ccm_error, unit) step" where
  "encrypt_buffer E nonce aad mic_len buf =
     (if length buf < mic_len then (Inl CcmTruncated, buf)
      else let split = length buf - mic_len;
               (res, msg, mic) = encrypt_in_place E nonce aad (take split buf) (drop split buf)
           in (res, msg @ mic))"

definition decrypt_buffer ::
  "block_fn \<Rightarrow> bytes \<Rightarrow> bytes \<Rightarrow> nat \<Rightarrow> (bytes, ccm_error, unit) step" where
  "decrypt_buffer E nonce aad mic_len buf =
     (if length buf < mic_len then (Inl CcmTruncated, buf)
      else let split = length buf - mic_len;
               (res, msg) = decrypt_in_place E nonce aad (take split buf) (drop split buf)
           in (res, msg @ drop split buf))"

lemmas ccm_evals [eval_simps] =
  encrypt_in_place_def decrypt_in_place_def check_params_def Let_def cbc_mac_def cbc_flags_def
  u8_try_from_or_def u16_try_from_def cbc_absorb.simps zero_block_def ctr_xor_def
  ctr_xor_from.simps ctr_block_def

section \<open>Lengths and involution\<close>

lemma length_copy_prefix [simp]: "length (copy_prefix d s) = length d"
  by (induction d s rule: copy_prefix.induct) auto

lemma copy_prefix_eq: "copy_prefix d s = take (length d) s @ drop (length s) d"
  by (induction d s rule: copy_prefix.induct) auto

lemma length_xor_into [simp]: "length (xor_into d s) = length d"
  by (induction d s rule: xor_into.induct) auto

lemma xor_into_twice [simp]: "xor_into (xor_into d s) s = d"
  by (induction d s rule: xor_into.induct) (auto simp: xor.assoc)

lemma xor_into_map2: "length d \<le> length s \<Longrightarrow> xor_into d s = map2 (XOR) d s"
  by (induction d s rule: xor_into.induct) auto

lemma map2_xor_into: "length s = length d \<Longrightarrow> map2 (XOR) d s = xor_into d s"
  by (simp add: xor_into_map2)

lemma length_zero_block [simp]: "length zero_block = 16"
  by (simp add: zero_block_def)

lemma length_ctr_xor_from [simp]: "length (ctr_xor_from E nonce i data) = length data"
proof (induction E nonce i data rule: ctr_xor_from.induct)
  case (1 E nonce i data)
  then show ?case by (subst ctr_xor_from.simps) (simp add: min_def)
qed

lemma length_ctr_xor [simp]: "length (ctr_xor E nonce data) = length data"
  by (simp add: ctr_xor_def)

lemma take_xor_into: "take n (xor_into d s) = xor_into (take n d) s"
  by (induction d s arbitrary: n rule: xor_into.induct) (auto simp: take_Cons')

lemma ctr_xor_from_twice:
  "ctr_xor_from E nonce i (ctr_xor_from E nonce i data) = data"
proof (induction E nonce i data rule: ctr_xor_from.induct)
  case (1 E nonce i data)
  show ?case
  proof (cases "data = []")
    case True
    then show ?thesis by (simp add: ctr_xor_from.simps)
  next
    case False
    define k where "k = ctr_block E nonce (u16_try_from (i + 1))"
    define head where "head = xor_into (take 16 data) k"
    define tail where "tail = ctr_xor_from E nonce (i + 1) (drop 16 data)"
    have eq: "ctr_xor_from E nonce i data = head @ tail"
      using False unfolding head_def tail_def k_def by (subst ctr_xor_from.simps) simp
    have len: "length head = min (length data) 16" "length tail = length data - 16"
      by (simp_all add: head_def tail_def)
    have "0 < length data" using False by simp
    then have "0 < length (head @ tail)" using len by simp
    then have ne: "head @ tail \<noteq> []" by (rule length_greater_0_conv [THEN iffD1])
    have sp: "take 16 (head @ tail) = head" "drop 16 (head @ tail) = tail"
      using len by (auto simp: min_def split: if_splits)
    have "ctr_xor_from E nonce i (head @ tail) =
          xor_into head k @ ctr_xor_from E nonce (i + 1) tail"
      by (subst ctr_xor_from.simps) (simp only: ne sp if_False k_def)
    also have "\<dots> = take 16 data @ drop 16 data"
      using 1 False by (simp add: head_def tail_def)
    finally show ?thesis by (simp add: eq)
  qed
qed

lemma ctr_xor_twice [simp]: "ctr_xor E nonce (ctr_xor E nonce data) = data"
  by (simp add: ctr_xor_def ctr_xor_from_twice)

lemma length_cbc_absorb:
  "block_fn E \<Longrightarrow> length x = 16 \<Longrightarrow> length (cbc_absorb E x rest) = 16"
proof (induction E x rest rule: cbc_absorb.induct)
  case (1 E x rest)
  then show ?case
    by (subst cbc_absorb.simps) (auto simp: Let_def block_fn_def)
qed

lemma length_cbc_mac:
  assumes "block_fn E" "length nonce = NONCE_LEN"
  shows "length (cbc_mac E nonce aad msg m) = 16"
proof -
  have "length (E ([cbc_flags aad m] @ nonce @ be_bytes 2 (u16_try_from (length msg)))) = 16"
    using assms by (simp add: block_fn_def NONCE_LEN_def)
  then show ?thesis
    using assms by (auto simp: cbc_mac_def Let_def intro!: length_cbc_absorb) (simp add: block_fn_def)
qed

lemma length_ctr_block:
  "block_fn E \<Longrightarrow> length nonce = NONCE_LEN \<Longrightarrow> length (ctr_block E nonce c) = 16"
  by (simp add: ctr_block_def block_fn_def NONCE_LEN_def)

section \<open>What decryption accepts\<close>

lemma check_params_ok:
  "check_params a m n = Inr u \<longleftrightarrow> n \<in> {0, 4, 8, 16} \<and> m \<le> 0xFFFF \<and> a < 0xFF00"
  by (auto simp: check_params_def)

lemma masked_tag:
  assumes "length t = 16" "length s = 16" "length mic \<le> 16"
  shows "take (length mic) t = take (length mic) (copy_prefix zero_block (map2 (XOR) mic s))
           \<longleftrightarrow> mic = take (length mic) (xor_into t s)"
proof -
  have m: "map2 (XOR) mic s = xor_into mic s"
    using assms by (simp add: xor_into_map2)
  have "take (length mic) (copy_prefix zero_block (xor_into mic s)) = xor_into mic s"
    using assms(3) by (simp add: copy_prefix_eq)
  moreover have "take (length mic) t = xor_into mic s \<longleftrightarrow> mic = xor_into (take (length mic) t) s"
    by (metis xor_into_twice)
  ultimately show ?thesis by (simp add: m take_xor_into)
qed

lemma encrypt_in_place_eq:
  assumes "block_fn E" "length nonce = NONCE_LEN"
    and "check_params (length aad) (length msg) (length mic) = Inr ()"
  shows "encrypt_in_place E nonce aad msg mic =
    (Inr (), ctr_xor E nonce msg, take (length mic) (ccm_tag E nonce aad msg (length mic)))"
proof -
  have l: "length (cbc_mac E nonce aad msg (length mic)) = 16" "length (ctr_block E nonce 0) = 16"
    using assms by (simp_all add: length_cbc_mac length_ctr_block)
  have "length mic \<le> 16" using assms(3) by (auto simp: check_params_ok)
  then show ?thesis
    using assms(3) l
    by (simp add: encrypt_in_place_def Let_def ccm_tag_def copy_prefix_eq xor_into_map2)
qed

lemma decrypt_in_place_eq:
  assumes "block_fn E" "length nonce = NONCE_LEN"
    and "check_params (length aad) (length msg) (length mic) = Inr ()"
  shows "decrypt_in_place E nonce aad msg mic =
    (if mic = take (length mic) (ccm_tag E nonce aad (ctr_xor E nonce msg) (length mic))
     then (Inr (), ctr_xor E nonce msg) else (Inl AuthenticationFailed, replicate (length msg) 0))"
proof -
  have l: "length (cbc_mac E nonce aad (ctr_xor E nonce msg) (length mic)) = 16"
    "length (ctr_block E nonce 0) = 16"
    using assms by (simp_all add: length_cbc_mac length_ctr_block)
  have "length mic \<le> 16" using assms(3) by (auto simp: check_params_ok)
  then show ?thesis
    using assms(3) masked_tag [OF l] by (simp add: decrypt_in_place_def Let_def ccm_tag_def)
qed

lemma length_ccm_tag:
  "block_fn E \<Longrightarrow> length nonce = NONCE_LEN \<Longrightarrow> length (ccm_tag E nonce aad msg m) = 16"
  by (simp add: ccm_tag_def length_cbc_mac)

text \<open>
  C13: Decryption accepts exactly what encryption produces. For buffers within the CCM* length
  limits, \<^verbatim>\<open>decrypt_in_place\<close> accepts a ciphertext and tag and leaves the plaintext \<open>pt\<close> behind if
  and only if \<^verbatim>\<open>encrypt_in_place\<close> turns \<open>pt\<close> into that ciphertext and that tag, under the same nonce
  and additional data.
\<close>

theorem ccm_accepts_exactly_encrypted:
  assumes "block_fn E" "length nonce = NONCE_LEN" "length mic0 = length mic"
    and "check_params (length aad) (length ct) (length mic) = Inr ()"
  shows "decrypt_in_place E nonce aad ct mic = (Inr (), pt) \<longleftrightarrow>
         encrypt_in_place E nonce aad pt mic0 = (Inr (), ct, mic)"
proof
  assume "decrypt_in_place E nonce aad ct mic = (Inr (), pt)"
  then have pt: "pt = ctr_xor E nonce ct" "mic = take (length mic) (ccm_tag E nonce aad pt (length mic))"
    unfolding decrypt_in_place_eq [OF assms(1,2,4)] by (auto split: if_splits)
  with assms show "encrypt_in_place E nonce aad pt mic0 = (Inr (), ct, mic)"
    by (simp add: encrypt_in_place_eq)
next
  assume e: "encrypt_in_place E nonce aad pt mic0 = (Inr (), ct, mic)"
  have "check_params (length aad) (length pt) (length mic0) = Inr ()"
    using e by (simp add: encrypt_in_place_def split: sum.splits)
  with e assms have ct: "ct = ctr_xor E nonce pt" "take (length mic) (ccm_tag E nonce aad pt (length mic)) = mic"
    by (auto simp: encrypt_in_place_eq)
  with assms show "decrypt_in_place E nonce aad ct mic = (Inr (), pt)"
    by (simp add: decrypt_in_place_eq)
qed

theorem ccm_accepts_exactly_encrypted_witness:
  "encrypt_in_place (map NOT) (replicate 13 7) [1, 2] [3, 4, 5] [0, 0, 0, 0] =
     (Inr (), [253, 252, 253], [75, 6, 4, 2]) \<and>
   decrypt_in_place (map NOT) (replicate 13 7) [1, 2] [253, 252, 253] [75, 6, 4, 2] =
     (Inr (), [3, 4, 5])"
proof -
  have "encrypt_in_place (map NOT) (replicate 13 7) [1, 2] [3, 4, 5] [0, 0, 0, 0] =
     (Inr (), [253, 252, 253], [75, 6, 4, 2])"
    by (simp add: eval_simps)
  then show ?thesis
    using ccm_accepts_exactly_encrypted [of "map NOT" "replicate 13 7" "[0, 0, 0, 0]"
        "[75, 6, 4, 2]" "[1, 2]" "[253, 252, 253]" "[3, 4, 5]"]
    by (simp add: block_fn_def NONCE_LEN_def check_params_def)
qed


section \<open>The authentication transformation of Annex A\<close>

text \<open>
  The specification formats the input as a sequence of blocks \<open>B\<^sub>0 B\<^sub>1 \<dots>\<close> and chains
  \<open>X\<^sub>i\<^sub>+\<^sub>1 = E (X\<^sub>i XOR B\<^sub>i)\<close> from the zero block.
\<close>

function blocks16 :: "bytes \<Rightarrow> bytes list" where
  "blocks16 xs = (if xs = [] then [] else take 16 xs # blocks16 (drop 16 xs))"
  by pat_completeness auto
termination
  by (relation "measure length") auto

declare blocks16.simps [simp del]

definition pad16 :: "bytes \<Rightarrow> bytes" where
  "pad16 xs = xs @ replicate ((16 - length xs mod 16) mod 16) 0"

definition ccm_blocks :: "bytes \<Rightarrow> bytes \<Rightarrow> bytes \<Rightarrow> nat \<Rightarrow> bytes list" where
  "ccm_blocks nonce aad msg m =
     ([cbc_flags aad m] @ nonce @ be_bytes 2 (of_nat (length msg) :: u16))
       # blocks16 (pad16 (if aad = [] then [] else be_bytes 2 (of_nat (length aad) :: u16) @ aad))
       @ blocks16 (pad16 msg)"

definition cbc_chain :: "block_fn \<Rightarrow> bytes \<Rightarrow> bytes list \<Rightarrow> bytes" where
  "cbc_chain E = foldl (\<lambda>x b. E (xor_into x b))"

lemma blocks16_Nil [simp]: "blocks16 [] = []"
  by (simp add: blocks16.simps)

lemma pad16_step:
  assumes "xs \<noteq> []"
  shows "take 16 (pad16 xs) = copy_prefix zero_block (take (min (length xs) 16) xs)"
    "drop 16 (pad16 xs) = pad16 (drop (min (length xs) 16) xs)"
proof -
  have "take 16 (pad16 xs) = copy_prefix zero_block (take (min (length xs) 16) xs) \<and>
        drop 16 (pad16 xs) = pad16 (drop (min (length xs) 16) xs)"
  proof (cases "length xs < 16")
    case True
    have "(16 - length xs mod 16) mod 16 = 16 - length xs" using True assms by (cases xs) auto
    then show ?thesis using True by (simp add: pad16_def copy_prefix_eq zero_block_def min_def)
  next
    case False
    then have "(length xs - 16) mod 16 = length xs mod 16" by (simp add: le_mod_geq)
    with False show ?thesis by (simp add: pad16_def copy_prefix_eq min_def)
  qed
  then show "take 16 (pad16 xs) = copy_prefix zero_block (take (min (length xs) 16) xs)"
    "drop 16 (pad16 xs) = pad16 (drop (min (length xs) 16) xs)" by blast+
qed

lemma pad16_Nil [simp]: "pad16 [] = []"
  by (simp add: pad16_def)

lemma pad16_eq_Nil [simp]: "pad16 xs = [] \<longleftrightarrow> xs = []"
  by (auto simp: pad16_def)

lemma blocks16_pad16_step:
  "xs \<noteq> [] \<Longrightarrow> blocks16 (pad16 xs) =
     copy_prefix zero_block (take (min (length xs) 16) xs) # blocks16 (pad16 (drop (min (length xs) 16) xs))"
  by (subst blocks16.simps) (simp add: pad16_step)

lemma cbc_absorb_chain: "cbc_absorb E x rest = cbc_chain E x (blocks16 (pad16 rest))"
proof (induction E x rest rule: cbc_absorb.induct)
  case (1 E x rest)
  show ?case
  proof (cases "rest = []")
    case True
    then show ?thesis by (simp add: cbc_absorb.simps cbc_chain_def)
  next
    case False
    then show ?thesis
      using 1 [OF False refl] blocks16_pad16_step [OF False]
      by (subst cbc_absorb.simps) (simp add: Let_def cbc_chain_def)
  qed
qed

lemma xor_into_zero: "length b = 16 \<Longrightarrow> xor_into zero_block b = b"
proof -
  have "length b = n \<Longrightarrow> xor_into (replicate n 0) b = b" for n
    by (induction b arbitrary: n) (auto simp: replicate_Suc)
  then show "length b = 16 \<Longrightarrow> xor_into zero_block b = b" by (simp add: zero_block_def)
qed


text \<open>
  C14: The authentication loop computes the CBC-MAC of the specification: on inputs that
  \<^verbatim>\<open>check_params\<close> admits, the result of \<^verbatim>\<open>cbc_mac\<close>, with its special first block of additional data
  and its zero padding on the fly, is the chain of block encryptions over the formatted blocks
  \<open>B\<^sub>0\<close>, padded \<open>l(a) || a\<close>, padded \<open>m\<close>, started from the zero block.
\<close>

theorem cbc_mac_is_cbc_chain:
  assumes "length nonce = NONCE_LEN" "check_params (length aad) (length msg) m = Inr ()"
  shows "cbc_mac E nonce aad msg m = cbc_chain E zero_block (ccm_blocks nonce aad msg m)"
proof -
  have l: "length msg < 65536" "length aad < 65536" using assms(2) by (auto simp: check_params_ok)
  define b0 where "b0 = [cbc_flags aad m] @ nonce @ be_bytes 2 (of_nat (length msg) :: u16)"
  have b0: "xor_into zero_block b0 = b0"
    using assms(1) by (intro xor_into_zero) (simp add: b0_def NONCE_LEN_def)
  show ?thesis
  proof (cases "aad = []")
    case True
    then show ?thesis
      using b0 l by (simp add: cbc_mac_def ccm_blocks_def cbc_absorb_chain u16_try_from_def cbc_chain_def b0_def)
  next
    case False
    define la where "la = be_bytes 2 (of_nat (length aad) :: u16)"
    have la: "length la = 2" by (simp add: la_def)
    then obtain p q where pq: "la = [p, q]" by (auto simp: numeral_2_eq_2 length_Suc_conv)
    have "blocks16 (pad16 (la @ aad)) =
       (la @ copy_prefix (replicate 14 0) (take (min (length aad) 14) aad))
         # blocks16 (pad16 (drop (min (length aad) 14) aad))"
      using blocks16_pad16_step [of "la @ aad"]
      by (simp add: pq zero_block_def copy_prefix_eq min_def eval_simps)
    then show ?thesis
      using False b0 l
      by (simp add: cbc_mac_def ccm_blocks_def cbc_absorb_chain u16_try_from_def cbc_chain_def b0_def
          Let_def flip: la_def)
  qed
qed

theorem cbc_mac_is_cbc_chain_witness:
  "cbc_mac (map NOT) (replicate 13 7) [1, 2] [3, 4, 5] 4 =
     cbc_chain (map NOT) zero_block (ccm_blocks (replicate 13 7) [1, 2] [3, 4, 5] 4)"
  by (rule cbc_mac_is_cbc_chain) (simp_all add: NONCE_LEN_def check_params_def)

subsection \<open>The formatting is injective\<close>

lemma concat_blocks16 [simp]: "concat (blocks16 xs) = xs"
proof (induction xs rule: blocks16.induct)
  case (1 xs)
  then show ?case by (subst blocks16.simps) simp
qed

lemma length_pad16: "length xs = length ys \<Longrightarrow> length (pad16 xs) = length (pad16 ys)"
  by (simp add: pad16_def)

lemma pad16_inj: "pad16 xs = pad16 ys \<Longrightarrow> length xs = length ys \<Longrightarrow> xs = ys"
  by (simp add: pad16_def)

lemma be_length_inj:
  assumes "be_bytes 2 (of_nat a :: u16) = be_bytes 2 (of_nat b :: u16)" "a < 65536" "b < 65536"
  shows "a = b"
proof -
  have "le_bytes 2 (of_nat a :: u16) = le_bytes 2 (of_nat b :: u16)"
    using assms(1) by (simp only: be_bytes_def rev_is_rev_conv)
  then have "(of_nat a :: u16) = of_nat b"
    by (metis le_word_le_bytes [where 'a = 16 and n = 2, simplified])
  then have "unat (of_nat a :: u16) = unat (of_nat b :: u16)" by (rule arg_cong)
  with assms(2,3) show ?thesis by (simp add: unat_of_nat)
qed

lemma cbc_flags_inj:
  assumes "cbc_flags aad m = cbc_flags aad' m'" "m \<in> {0, 4, 8, 16}" "m' \<in> {0, 4, 8, 16}"
  shows "(aad = []) = (aad' = []) \<and> m = m'"
  using assms by (cases "aad = []"; cases "aad' = []") (auto simp: cbc_flags_def u8_try_from_or_def)

text \<open>
  The blocks that are authenticated determine the whole protected input. Two inputs that
  \<^verbatim>\<open>check_params\<close> admits and that are formatted into the same blocks agree in nonce, additional data,
  message and tag length, so no boundary between additional data and message can be moved without
  changing what the MIC covers.
\<close>

theorem ccm_blocks_inj:
  assumes eq: "ccm_blocks nonce aad msg m = ccm_blocks nonce' aad' msg' m'"
    and "length nonce = NONCE_LEN" "length nonce' = NONCE_LEN"
    and ok: "check_params (length aad) (length msg) m = Inr ()"
            "check_params (length aad') (length msg') m' = Inr ()"
  shows "nonce = nonce' \<and> aad = aad' \<and> msg = msg' \<and> m = m'"
proof -
  note b = ok [unfolded check_params_ok]
  define A where "A = (\<lambda>a :: bytes. if a = [] then [] else be_bytes 2 (of_nat (length a) :: u16) @ a)"
  have hd: "cbc_flags aad m = cbc_flags aad' m'" "nonce = nonce'"
      "be_bytes 2 (of_nat (length msg) :: u16) = be_bytes 2 (of_nat (length msg') :: u16)"
    and tl: "blocks16 (pad16 (A aad)) @ blocks16 (pad16 msg) = blocks16 (pad16 (A aad')) @ blocks16 (pad16 msg')"
    using eq assms(2,3) by (auto simp: ccm_blocks_def A_def)
  have fl: "(aad = []) = (aad' = [])" "m = m'" using cbc_flags_inj [OF hd(1)] b by auto
  have ml: "length msg = length msg'" using be_length_inj [OF hd(3)] b by simp
  have cat: "pad16 (A aad) @ pad16 msg = pad16 (A aad') @ pad16 msg'"
    using arg_cong [OF tl, of concat] by simp
  have al: "length aad = length aad'"
  proof (cases "aad = []")
    case False
    then have "take 2 (pad16 (A aad)) = be_bytes 2 (of_nat (length aad) :: u16)"
      "take 2 (pad16 (A aad')) = be_bytes 2 (of_nat (length aad') :: u16)"
      "2 \<le> length (pad16 (A aad))" "2 \<le> length (pad16 (A aad'))"
      using fl(1) by (simp_all add: A_def pad16_def)
    with arg_cong [OF cat, of "take 2"]
    have "be_bytes 2 (of_nat (length aad) :: u16) = be_bytes 2 (of_nat (length aad') :: u16)" by simp
    then show ?thesis using b by (intro be_length_inj) auto
  qed (use fl in simp)
  have len: "length (A aad) = length (A aad')" using al fl(1) by (simp add: A_def)
  have "pad16 (A aad) = pad16 (A aad')" "pad16 msg = pad16 msg'"
    using cat length_pad16 [OF len] by auto
  then have "A aad = A aad'" "msg = msg'" using pad16_inj len ml by blast+
  moreover have "aad = aad'" using calculation(1) fl(1) al by (auto simp: A_def split: if_splits)
  ultimately show ?thesis using hd(2) fl(2) by blast
qed

theorem ccm_blocks_inj_witness:
  "ccm_blocks (replicate 13 7) [1] [2] 4 = ccm_blocks (replicate 13 7) [1] [2] 4 \<and>
   (ccm_blocks (replicate 13 7) [1, 2] [] 4 \<noteq> ccm_blocks (replicate 13 7) [1] [2] 4)"
  using ccm_blocks_inj [of "replicate 13 7" "[1, 2]" "[]" 4 "replicate 13 7" "[1]" "[2]" 4]
  by (auto simp: NONCE_LEN_def check_params_def)

subsection \<open>Counter blocks\<close>

text \<open>The cipher inputs that encrypt a message of \<open>n\<close> octets, and the one that masks its tag.\<close>

definition ctr_input :: "bytes \<Rightarrow> u16 \<Rightarrow> bytes" where
  "ctr_input nonce c = [1] @ nonce @ be_bytes 2 c"

definition ctr_inputs :: "bytes \<Rightarrow> nat \<Rightarrow> bytes list" where
  "ctr_inputs nonce n = ctr_input nonce 0 # map (\<lambda>i. ctr_input nonce (u16_try_from (i + 1))) [0..<(n + 15) div 16]"

lemma ctr_block_input: "ctr_block E nonce c = E (ctr_input nonce c)"
  by (simp add: ctr_block_def ctr_input_def u8_try_from_or_def)

lemma ctr_input_inj: "a < 65536 \<Longrightarrow> b < 65536 \<Longrightarrow>
    ctr_input nonce (u16_try_from a) = ctr_input nonce (u16_try_from b) \<Longrightarrow> a = b"
  using be_length_inj [of a b] by (simp add: ctr_input_def u16_try_from_def)

lemma ctr_inputs_distinct:
  assumes "n \<le> 0xFFFF"
  shows "distinct (ctr_inputs nonce n)"
proof -
  have n: "(n + 15) div 16 \<le> 4096" using assms by auto
  have z: "ctr_input nonce 0 = ctr_input nonce (u16_try_from 0)" by (simp add: u16_try_from_def)
  have "inj_on (\<lambda>i. ctr_input nonce (u16_try_from (i + 1))) {0..<(n + 15) div 16}"
    using n by (intro inj_onI) (auto dest: ctr_input_inj [rotated 2])
  moreover have "ctr_input nonce 0 \<notin> (\<lambda>i. ctr_input nonce (u16_try_from (i + 1))) ` {0..<(n + 15) div 16}"
    unfolding z using n by (auto dest: ctr_input_inj [rotated 2])
  ultimately show ?thesis by (simp add: ctr_inputs_def distinct_map)
qed

end
