(* ===== verification/FrameSecurity.thy ===== *)
theory FrameSecurity
  imports AuxHeader Ccm
begin

text \<open>
  Frame protection, \<^verbatim>\<open>panweave-security/src/frame.rs\<close>: the transform both the NWK and the APS layer
  apply to a frame buffer. The frame is \<open>H || A || P || MIC\<close>; the functions work in place and return
  the buffer beside their result.
\<close>

section \<open>The transform\<close>

datatype security_error =
    FrameCounterUnavailable
  | NoKey
  | BadFrameCounter
  | UnverifiedFrameCounter
  | MalformedFrame
  | FrameBufferTooSmall
  | Ccm_err ccm_error
  | PolicyRejected

record unprotected =
  up_aux :: aux_header
  up_payload_start :: nat
  up_payload_end :: nat

definition peek_aux :: "bytes \<Rightarrow> nat \<Rightarrow> security_error + aux_header" where
  "peek_aux buf offset =
     res_try (ok_or (slice buf offset (length buf)) MalformedFrame) (\<lambda>s.
       map_err (\<lambda>_. MalformedFrame) (fst (aux_decode (r_new s))))"

text \<open>\<^verbatim>\<open>buf.get_mut(i)\<close> followed by an update of the octet.\<close>

definition set_octet :: "nat \<Rightarrow> (u8 \<Rightarrow> u8) \<Rightarrow> bytes \<Rightarrow> bytes" where
  "set_octet i f buf = (if i < length buf then buf[i := f (buf ! i)] else buf)"

definition protect_in_place ::
  "block_fn \<Rightarrow> aux_header \<Rightarrow> extended_address \<Rightarrow> nat \<Rightarrow> nat \<Rightarrow> (bytes, security_error, nat) step" where
  "protect_in_place E aux nonce_source header_len payload_len buf =
     (let level = sc_level (ah_control aux);
          aux_len = aux_encoded_len aux;
          m = mic_len level;
          payload_start = header_len + aux_len;
          payload_end = payload_start + payload_len;
          total = payload_end + m
      in if length buf < total then (Inl FrameBufferTooSmall, buf)
         else case slice buf header_len payload_start of
           None \<Rightarrow> (Inl FrameBufferTooSmall, buf)
         | Some aux_slot \<Rightarrow>
             (case aux_encode aux (w_new aux_slot) of
                (Inl _, w) \<Rightarrow> (Inl MalformedFrame, overwrite buf header_len (w_buf w))
              | (Inr _, w) \<Rightarrow>
                  (let buf1 = overwrite buf header_len (w_buf w);
                       nonce = aux_nonce aux nonce_source;
                       (res, buf2) =
                         (if encrypts level
                          then let aad = take payload_start buf1;
                                   rest = drop payload_start buf1;
                                   msg = take payload_len rest;
                                   tail = drop payload_len rest;
                                   (r, msg', mic') = encrypt_in_place E nonce aad msg (take m tail)
                               in (r, aad @ msg' @ mic' @ drop m tail)
                          else let aad = take payload_end buf1;
                                   tail = drop payload_end buf1;
                                   (r, msg', mic') = encrypt_in_place E nonce aad [] (take m tail)
                               in (r, aad @ mic' @ drop m tail))
                   in case res of
                        Inl e \<Rightarrow> (Inl (Ccm_err e), buf2)
                      | Inr _ \<Rightarrow> (Inr total, set_octet header_len (\<lambda>c. c AND NOT 7) buf2))))"

definition unprotect_in_place ::
  "block_fn \<Rightarrow> security_level \<Rightarrow> extended_address \<Rightarrow> nat \<Rightarrow> (bytes, security_error, unprotected) step" where
  "unprotect_in_place E level nonce_source header_len buf =
     (case peek_aux buf header_len of
        Inl e \<Rightarrow> (Inl e, buf)
      | Inr aux0 \<Rightarrow>
          (let aux = aux0\<lparr>ah_control := with_level (ah_control aux0) level\<rparr>;
               aux_len = aux_encoded_len aux;
               m = mic_len level;
               payload_start = header_len + aux_len
           in if length buf < payload_start + m then (Inl MalformedFrame, buf)
              else
                let payload_end = length buf - m;
                    buf1 = set_octet header_len (\<lambda>_. control_raw (ah_control aux)) buf;
                    nonce = aux_nonce aux nonce_source;
                    (res, buf2) =
                      (if encrypts level
                       then let aad = take payload_start buf1;
                                rest = drop payload_start buf1;
                                msg = take (payload_end - payload_start) rest;
                                mic = drop (payload_end - payload_start) rest;
                                (r, msg') = decrypt_in_place E nonce aad msg mic
                            in (r, aad @ msg' @ mic)
                       else let aad = take payload_end buf1;
                                mic = drop payload_end buf1;
                                (r, msg') = decrypt_in_place E nonce aad [] mic
                            in (r, aad @ mic))
                in case res of
                     Inl e \<Rightarrow> (Inl (Ccm_err e), buf2)
                   | Inr _ \<Rightarrow> (Inr \<lparr>up_aux = aux, up_payload_start = payload_start,
                                    up_payload_end = payload_end\<rparr>, buf2)))"

section \<open>The frame layout\<close>

text \<open>
  What goes over the air: the auxiliary header with cleared level bits, and the sealed payload with
  its tag.
\<close>

definition seal_payload :: "block_fn \<Rightarrow> aux_header \<Rightarrow> extended_address \<Rightarrow> bytes \<Rightarrow> bytes \<Rightarrow> bytes" where
  "seal_payload E aux src H P =
     (let nonce = aux_nonce aux src; level = sc_level (ah_control aux); m = mic_len level in
      if encrypts level
      then ctr_xor E nonce P @ take m (ccm_tag E nonce (H @ aux_octets aux) P m)
      else P @ take m (ccm_tag E nonce (H @ aux_octets aux @ P) [] m))"

definition air_octets :: "aux_header \<Rightarrow> bytes" where
  "air_octets aux = (control_raw (ah_control aux) AND NOT 7) # tl (aux_octets aux)"

definition frame_limits :: "security_level \<Rightarrow> bytes \<Rightarrow> aux_header \<Rightarrow> bytes \<Rightarrow> bool" where
  "frame_limits level H aux P \<longleftrightarrow>
     (if encrypts level then length H + aux_encoded_len aux < 0xFF00 \<and> length P \<le> 0xFFFF
      else length H + aux_encoded_len aux + length P < 0xFF00)"

lemma mic_len_cases: "mic_len l \<in> {0, 4, 8, 16}"
  by (cases l) (auto simp: mic_len_def)

lemma aux_octets_Cons: "aux_octets aux = control_raw (ah_control aux) # tl (aux_octets aux)"
  by (simp add: aux_octets_def)

lemma length_air_octets [simp]: "length (air_octets aux) = aux_encoded_len aux"
  by (simp add: air_octets_def aux_octets_def aux_encoded_len_def split: option.split)

lemma set_octet_append:
  "length H = n \<Longrightarrow> set_octet n f (H @ c # t) = H @ f c # t"
  by (simp add: set_octet_def list_update_append nth_append)

lemma aux_encode_slot:
  assumes "aux_wf aux" "length slot = aux_encoded_len aux"
  shows "\<exists>w. aux_encode aux (w_new slot) = (Inr (), w) \<and> w_buf w = aux_octets aux"
  using aux_encode_emits [OF assms(1), unfolded emits_def, rule_format, of "w_new slot"] assms(2)
  by (simp add: length_aux_octets w_remaining_def w_new_def w_ok_def w_put_def overwrite_def)

lemma length_seal_payload:
  assumes "block_fn E"
  shows "length (seal_payload E aux src H P) = length P + mic_len (sc_level (ah_control aux))"
  using assms mic_len_cases [of "sc_level (ah_control aux)"]
  by (auto simp: seal_payload_def Let_def length_ccm_tag NONCE_LEN_def)

lemma protect_layout:
  assumes "block_fn E" "aux_wf aux" "length S = aux_encoded_len aux"
    and "length M = mic_len (sc_level (ah_control aux))"
    and "frame_limits (sc_level (ah_control aux)) H aux P"
  shows "protect_in_place E aux src (length H) (length P) (H @ S @ P @ M @ R) =
    (Inr (length H + aux_encoded_len aux + length P + mic_len (sc_level (ah_control aux))),
     H @ air_octets aux @ seal_payload E aux src H P @ R)"
proof -
  define m where "m = mic_len (sc_level (ah_control aux))"
  have m: "length M = m" "m \<in> {0, 4, 8, 16}" using assms(4) mic_len_cases by (simp_all add: m_def)
  have n: "length (aux_nonce aux src) = NONCE_LEN" by (simp add: NONCE_LEN_def)
  obtain w where w: "aux_encode aux (w_new S) = (Inr (), w)" "w_buf w = aux_octets aux"
    using aux_encode_slot [OF assms(2,3)] by blast
  have slot: "slice (H @ S @ P @ M @ R) (length H) (length H + aux_encoded_len aux) = Some S"
    using assms(3) by (simp add: slice_def)
  have over: "overwrite (H @ S @ P @ M @ R) (length H) (aux_octets aux) = H @ aux_octets aux @ P @ M @ R"
    using assms(3) by (simp add: overwrite_def length_aux_octets)
  have fin: "set_octet (length H) (\<lambda>c. c AND NOT 7) (H @ aux_octets aux @ X) = H @ air_octets aux @ X" for X
    by (subst aux_octets_Cons) (simp add: set_octet_append air_octets_def)
  show ?thesis
  proof (cases "encrypts (sc_level (ah_control aux))")
    case True
    have "encrypt_in_place E (aux_nonce aux src) (H @ aux_octets aux) P M =
       (Inr (), ctr_xor E (aux_nonce aux src) P,
        take m (ccm_tag E (aux_nonce aux src) (H @ aux_octets aux) P m))"
      using encrypt_in_place_eq [OF assms(1) n, of "H @ aux_octets aux" P M] True assms(5) m
      by (simp add: check_params_ok frame_limits_def length_aux_octets)
    with True show ?thesis
      using w slot over m fin [of "seal_payload E aux src H P @ R"]
      by (simp add: protect_in_place_def Let_def length_aux_octets assms(3) seal_payload_def flip: m_def)
  next
    case False
    have "encrypt_in_place E (aux_nonce aux src) (H @ aux_octets aux @ P) [] M =
       (Inr (), [], take m (ccm_tag E (aux_nonce aux src) (H @ aux_octets aux @ P) [] m))"
      using encrypt_in_place_eq [OF assms(1) n, of "H @ aux_octets aux @ P" "[]" M] False assms(5) m
      by (simp add: check_params_ok frame_limits_def length_aux_octets ctr_xor_def ctr_xor_from.simps)
    with False show ?thesis
      using w slot over m fin [of "seal_payload E aux src H P @ R"]
      by (simp add: protect_in_place_def Let_def length_aux_octets assms(3) seal_payload_def flip: m_def)
  qed
qed

definition unseal_payload :: "block_fn \<Rightarrow> aux_header \<Rightarrow> extended_address \<Rightarrow> bytes \<Rightarrow> bytes" where
  "unseal_payload E aux src X =
     (let level = sc_level (ah_control aux); C = take (length X - mic_len level) X in
      if encrypts level then ctr_xor E (aux_nonce aux src) C else C)"

lemma length_unseal_payload [simp]:
  "length (unseal_payload E aux src X) = length X - mic_len (sc_level (ah_control aux))"
  by (simp add: unseal_payload_def Let_def)

lemma unseal_seal:
  assumes "block_fn E"
  shows "unseal_payload E aux src (seal_payload E aux src H P) = P"
  using mic_len_cases [of "sc_level (ah_control aux)"]
  by (auto simp: unseal_payload_def seal_payload_def Let_def length_ccm_tag assms NONCE_LEN_def)

text \<open>The octets of a header with its control octet replaced: what a receiver finds on the air.\<close>

definition relabelled :: "u8 \<Rightarrow> aux_header \<Rightarrow> bytes" where
  "relabelled c aux = c # tl (aux_octets aux)"

lemma length_relabelled [simp]: "length (relabelled c aux) = aux_encoded_len aux"
  by (simp add: relabelled_def aux_octets_def aux_encoded_len_def split: option.split)

lemma ctr_xor_Nil [simp]: "ctr_xor E nonce [] = []"
  by (simp add: ctr_xor_def ctr_xor_from.simps)

lemma peek_aux_relabelled:
  assumes "aux_wf aux" "with_level (control_from_raw c) (sc_level (ah_control aux)) = ah_control aux"
  shows "peek_aux (H @ relabelled c aux @ X) (length H) = Inr (aux\<lparr>ah_control := control_from_raw c\<rparr>)"
proof -
  define h where "h = aux\<lparr>ah_control := control_from_raw c\<rparr>"
  have k: "sc_key_id (control_from_raw c) = sc_key_id (ah_control aux)"
    "sc_extended_nonce (control_from_raw c) = sc_extended_nonce (ah_control aux)"
    using arg_cong [OF assms(2), of sc_key_id] arg_cong [OF assms(2), of sc_extended_nonce] by simp_all
  have "parses aux_decode (relabelled c aux) h"
    using parses_aux_octets_as [of c h] assms(1) k
    by (simp add: h_def relabelled_def aux_octets_def aux_wf_def)
  then have "fst (aux_decode (r_new (relabelled c aux @ X))) = Inr h"
    by (simp add: parses_def)
  then show ?thesis
    by (simp add: peek_aux_def slice_def h_def)
qed

lemma unprotect_layout:
  assumes "block_fn E" "aux_wf aux"
    and c: "with_level (control_from_raw c) (sc_level (ah_control aux)) = ah_control aux"
    and X: "mic_len (sc_level (ah_control aux)) \<le> length X"
    and lim: "frame_limits (sc_level (ah_control aux)) H aux (unseal_payload E aux src X)"
  shows "unprotect_in_place E (sc_level (ah_control aux)) src (length H) (H @ relabelled c aux @ X) =
    (let P = unseal_payload E aux src X; T = drop (length P) X in
     if X = seal_payload E aux src H P
     then (Inr \<lparr>up_aux = aux, up_payload_start = length H + aux_encoded_len aux,
                up_payload_end = length H + aux_encoded_len aux + length P\<rparr>,
           H @ aux_octets aux @ P @ T)
     else (Inl (Ccm_err AuthenticationFailed),
           H @ aux_octets aux
             @ (if encrypts (sc_level (ah_control aux)) then replicate (length P) 0 else P) @ T))"
proof -
  define level where "level = sc_level (ah_control aux)"
  define m where "m = mic_len level"
  define k where "k = length X - m"
  define N where "N = aux_nonce aux src"
  have m: "m \<in> {0, 4, 8, 16}" "m \<le> length X" using X mic_len_cases by (simp_all add: m_def level_def)
  have n: "length N = NONCE_LEN" by (simp add: N_def NONCE_LEN_def)
  have tk: "length (take k X) = k" and dk: "length (drop k X) = m"
    using m by (simp_all add: k_def)
  have aux: "aux\<lparr>ah_control := with_level (control_from_raw c) level\<rparr> = aux"
    using c by (simp add: level_def)
  have buf1: "set_octet (length H) (\<lambda>_. control_raw (ah_control aux)) (H @ relabelled c aux @ X) =
     H @ aux_octets aux @ X"
    by (simp add: relabelled_def set_octet_append flip: aux_octets_Cons)
  have lenX: "length X = k + m" using m by (simp add: k_def)
  note prep = unprotect_in_place_def peek_aux_relabelled [OF assms(2) c] Let_def buf1
  show ?thesis
  proof (cases "encrypts level")
    case True
    have d: "decrypt_in_place E N (H @ aux_octets aux) (take k X) (drop k X) =
       (if drop k X = take m (ccm_tag E N (H @ aux_octets aux) (ctr_xor E N (take k X)) m)
        then (Inr (), ctr_xor E N (take k X)) else (Inl AuthenticationFailed, replicate k 0))"
    proof -
      have "check_params (length (H @ aux_octets aux)) k m = Inr ()"
        using lim True m(1) by (simp add: check_params_ok frame_limits_def length_aux_octets k_def m_def level_def)
      then show ?thesis
        using decrypt_in_place_eq [OF assms(1) n, of "H @ aux_octets aux" "take k X" "drop k X"]
        by (simp only: tk dk)
    qed
    have u: "unseal_payload E aux src X = ctr_xor E N (take k X)"
      using True by (simp add: unseal_payload_def Let_def k_def m_def level_def N_def)
    have s: "X = seal_payload E aux src H (ctr_xor E N (take k X)) \<longleftrightarrow>
        drop k X = take m (ccm_tag E N (H @ aux_octets aux) (ctr_xor E N (take k X)) m)"
      using True by (simp add: seal_payload_def Let_def flip: N_def level_def m_def)
        (metis append_take_drop_id same_append_eq)
    show ?thesis
      using True unfolding u
      by (simp add: prep d aux lenX tk length_aux_octets flip: level_def m_def N_def) (use s in blast)
  next
    case False
    have d: "decrypt_in_place E N (H @ aux_octets aux @ take k X) [] (drop k X) =
       (if drop k X = take m (ccm_tag E N (H @ aux_octets aux @ take k X) [] m)
        then (Inr (), []) else (Inl AuthenticationFailed, []))"
    proof -
      have "check_params (length (H @ aux_octets aux @ take k X)) 0 m = Inr ()"
        using lim False m(1) by (simp add: check_params_ok frame_limits_def length_aux_octets k_def m_def level_def)
      then show ?thesis
        using decrypt_in_place_eq [OF assms(1) n, of "H @ aux_octets aux @ take k X" "[]" "drop k X"]
        by (simp only: tk dk list.size(3) replicate_0 ctr_xor_Nil)
    qed
    have u: "unseal_payload E aux src X = take k X"
      using False by (simp add: unseal_payload_def Let_def k_def m_def level_def)
    have s: "X = seal_payload E aux src H (take k X) \<longleftrightarrow>
        drop k X = take m (ccm_tag E N (H @ aux_octets aux @ take k X) [] m)"
      using False by (simp add: seal_payload_def Let_def flip: N_def level_def m_def)
        (metis append_take_drop_id same_append_eq)
    show ?thesis
      using False unfolding u
      by (simp add: prep d aux lenX tk length_aux_octets flip: level_def m_def N_def) (use s in blast)
  qed
qed

section \<open>Protection and unprotection are inverse\<close>

text \<open>A worked example: complementing every octet stands for the block cipher.\<close>

definition example_aux :: "security_level \<Rightarrow> aux_header" where
  "example_aux level = aux_network level 5 9 0"

lemma example_block_fn: "block_fn (map NOT)"
  by (simp add: block_fn_def)

lemma example_aux_facts:
  "aux_wf (example_aux l)" "aux_encoded_len (example_aux l) = 14" "sc_level (ah_control (example_aux l)) = l"
  by (simp_all add: example_aux_def) (simp add: aux_network_def)

lemma air_octets_relabelled: "air_octets aux = relabelled (control_raw (ah_control aux) AND NOT 7) aux"
  by (simp add: air_octets_def relabelled_def)

lemma sealed_frame_accepted:
  assumes "block_fn E" "aux_wf aux" "frame_limits (sc_level (ah_control aux)) H aux P"
  shows "unprotect_in_place E (sc_level (ah_control aux)) src (length H)
           (H @ air_octets aux @ seal_payload E aux src H P) =
         (Inr \<lparr>up_aux = aux, up_payload_start = length H + aux_encoded_len aux,
               up_payload_end = length H + aux_encoded_len aux + length P\<rparr>,
          H @ aux_octets aux @ P @ drop (length P) (seal_payload E aux src H P))"
proof -
  have un: "unseal_payload E aux src (seal_payload E aux src H P) = P"
    by (simp add: unseal_seal assms(1))
  have c: "with_level (control_from_raw (control_raw (ah_control aux) AND NOT 7)) (sc_level (ah_control aux))
     = ah_control aux"
    by (simp only: control_from_cleared with_level_simps)
  show ?thesis
    using unprotect_layout [OF assms(1,2) c, of "seal_payload E aux src H P" H src] assms(1,3)
    by (simp add: un air_octets_relabelled Let_def length_seal_payload)
qed

text \<open>
  C12: A protected frame is unprotected to what was protected. Whenever the buffer holds a header,
  a reserved auxiliary slot, a payload and room for the MIC, \<^verbatim>\<open>protect_in_place\<close> succeeds, keeps the
  header and everything behind the frame, and transmits the auxiliary header with the level bits
  cleared; \<^verbatim>\<open>unprotect_in_place\<close> with the same level on the frame it returns gives back the auxiliary
  header, the payload range and the payload itself.
\<close>

theorem protect_then_unprotect:
  assumes "block_fn E" "aux_wf aux" "length S = aux_encoded_len aux"
    and "length M = mic_len (sc_level (ah_control aux))"
    and "frame_limits (sc_level (ah_control aux)) H aux P"
  shows "\<exists>X T. protect_in_place E aux src (length H) (length P) (H @ S @ P @ M @ R) =
           (Inr (length (H @ S @ P @ M)), H @ air_octets aux @ X @ R) \<and>
         length X = length P + length M \<and>
         unprotect_in_place E (sc_level (ah_control aux)) src (length H) (H @ air_octets aux @ X) =
           (Inr \<lparr>up_aux = aux, up_payload_start = length (H @ S), up_payload_end = length (H @ S @ P)\<rparr>,
            H @ aux_octets aux @ P @ T)"
proof -
  define X where "X = seal_payload E aux src H P"
  have len: "length X = length P + mic_len (sc_level (ah_control aux))"
    by (simp add: X_def length_seal_payload assms(1))
  have "unprotect_in_place E (sc_level (ah_control aux)) src (length H) (H @ air_octets aux @ X) =
           (Inr \<lparr>up_aux = aux, up_payload_start = length (H @ S), up_payload_end = length (H @ S @ P)\<rparr>,
            H @ aux_octets aux @ P @ drop (length P) X)"
    using sealed_frame_accepted [OF assms(1,2,5), of src] by (simp add: X_def assms(3))
  with protect_layout [OF assms, of src R] len show ?thesis
    by - (rule exI [of _ X], rule exI [of _ "drop (length P) X"], simp add: X_def assms(3,4))
qed

theorem protect_then_unprotect_witness:
  "\<exists>X T. protect_in_place (map NOT) (example_aux EncMic32) 9 1 2 ([1] @ replicate 14 0 @ [10, 20] @ [0, 0, 0, 0] @ [99]) =
       (Inr 21, [1] @ air_octets (example_aux EncMic32) @ X @ [99]) \<and> length X = 6 \<and>
     unprotect_in_place (map NOT) EncMic32 9 1 ([1] @ air_octets (example_aux EncMic32) @ X) =
       (Inr \<lparr>up_aux = example_aux EncMic32, up_payload_start = 15, up_payload_end = 17\<rparr>,
        [1] @ aux_octets (example_aux EncMic32) @ [10, 20] @ T)"
proof -
  have "frame_limits EncMic32 [1] (example_aux EncMic32) [10, 20]"
    by (simp add: frame_limits_def example_aux_facts encrypts_def level_raw_def)
  then show ?thesis
    using protect_then_unprotect [OF example_block_fn example_aux_facts(1),
        of "replicate 14 0" EncMic32 "[0, 0, 0, 0]" "[1]" "[10, 20]" 9 "[99]"]
    by (simp add: example_aux_facts mic_len_def eval_nat_numeral)
qed

subsection \<open>What unprotection accepts\<close>

lemma u8_and_3_cases: "(v :: u8) AND 3 = 0 \<or> v AND 3 = 1 \<or> v AND 3 = 2 \<or> v AND 3 = 3"
proof -
  have "unat (v AND 3) \<le> unat (3 :: u8)" using word_and_le1 [of v 3] by (simp only: word_le_nat_alt)
  then have "unat (v AND 3) = 0 \<or> unat (v AND 3) = 1 \<or> unat (v AND 3) = 2 \<or> unat (v AND 3) = 3"
    by simp linarith
  then show ?thesis by (simp only: word_unat_eq_iff) simp
qed

lemma key_id_raw_from_raw: "key_id_raw (key_id_from_raw v) = v AND 3"
  using u8_and_3_cases [of v] by (elim disjE) (simp_all add: key_id_from_raw_def key_id_raw_def)

lemma level_raw_high: "level_raw l AND NOT 7 = 0"
  by (cases l) (simp_all add: level_raw_def)

lemma cleared_control: "control_raw (with_level (control_from_raw c) l) AND NOT 7 = c AND 0x38"
proof -
  have "control_raw (with_level (control_from_raw c) l) AND NOT 7 =
     (push_bit 3 (drop_bit 3 c AND 3) OR push_bit 5 (of_bool (c AND 0x20 \<noteq> 0))) AND NOT 7"
    by (simp only: control_raw_def control_from_raw_def with_level_simps key_id_raw_from_raw
        bit.conj_disj_distrib2 level_raw_high or.left_neutral security_control.simps)
  also have "push_bit 5 (of_bool (c AND 0x20 \<noteq> 0)) = c AND 0x20"
  proof (cases "bit c 5")
    case True
    then have "c AND 0x20 = 0x20"
      by (intro bit_word_eqI) (auto simp: bit_simps bit_numeral_rec numeral_eq_Suc less_Suc_eq)
    then show ?thesis by simp
  next
    case False
    then have "c AND 0x20 = 0"
      by (intro bit_word_eqI) (auto simp: bit_simps bit_numeral_rec numeral_eq_Suc less_Suc_eq)
    then show ?thesis by simp
  qed
  also have "(push_bit 3 (drop_bit 3 c AND 3) OR (c AND 0x20)) AND NOT 7 = c AND 0x38"
    by (rule bit_word_eqI, simp add: bit_simps, auto simp: bit_numeral_rec numeral_eq_Suc less_Suc_eq)
  finally show ?thesis .
qed

lemma peek_aux_inverse:
  assumes "peek_aux buf n = Inr h"
  shows "\<exists>H c X. buf = H @ relabelled c h @ X \<and> length H = n \<and> control_from_raw c = ah_control h \<and> aux_wf h"
proof -
  have n: "n \<le> length buf" and d: "fst (aux_decode (r_new (drop n buf))) = Inr h"
    using assms by (auto simp: peek_aux_def slice_def ok_or_def map_err_def split: if_splits sum.splits)
  then obtain r where r: "aux_decode (r_new (drop n buf)) = (Inr h, r)" by (metis surj_pair fst_conv)
  then have "\<exists>c X. drop n buf = relabelled c h @ X \<and> control_from_raw c = ah_control h"
    unfolding aux_decode_def Let_def
    by (auto simp: step_try_eq_Inr step_map_eq_Inr relabelled_def aux_octets_def
        split: if_splits dest!: reads_dest)
  then obtain c X where "drop n buf = relabelled c h @ X" "control_from_raw c = ah_control h" by blast
  with n aux_decode_wf [OF r] show ?thesis
    by (metis append_take_drop_id length_take min.absorb2)
qed

lemma decrypt_ok_params:
  "decrypt_in_place E nonce aad msg mic = (Inr x, b) \<Longrightarrow>
     check_params (length aad) (length msg) (length mic) = Inr ()"
  by (auto simp: decrypt_in_place_def split: sum.splits)

lemma length_set_octet [simp]: "length (set_octet i f buf) = length buf"
  by (simp add: set_octet_def)

lemma unprotect_ok_limits:
  assumes "unprotect_in_place E level src hl buf = (Inr u, buf')" "peek_aux buf hl = Inr h"
  shows "hl + aux_encoded_len h + mic_len level \<le> length buf"
    and "if encrypts level then hl + aux_encoded_len h < 0xFF00 \<and>
           length buf - (hl + aux_encoded_len h + mic_len level) \<le> 0xFFFF
         else length buf - mic_len level < 0xFF00"
proof -
  have len: "aux_encoded_len (h\<lparr>ah_control := c\<rparr>) = aux_encoded_len h" for c
    by (simp add: aux_encoded_len_def)
  show lim: "hl + aux_encoded_len h + mic_len level \<le> length buf"
    using assms by (auto simp: unprotect_in_place_def Let_def len split: if_splits)
  show "if encrypts level then hl + aux_encoded_len h < 0xFF00 \<and>
           length buf - (hl + aux_encoded_len h + mic_len level) \<le> 0xFFFF
         else length buf - mic_len level < 0xFF00"
    using assms lim
    by (auto simp: unprotect_in_place_def Let_def len check_params_ok split: if_splits prod.splits sum.splits
        dest!: decrypt_ok_params)
qed

text \<open>
  C9: Whatever is accepted was protected with the same key. If \<^verbatim>\<open>unprotect_in_place\<close> accepts a
  frame, then running \<^verbatim>\<open>protect_in_place\<close> with the auxiliary header it reports on the buffer it
  leaves behind reproduces the received frame octet by octet, except that the level bits and the
  two reserved bits of the control octet, which the receiver ignores, are zero.
\<close>

theorem unprotect_accepts_only_protected:
  assumes "block_fn E" "unprotect_in_place E level src hl buf = (Inr u, buf')"
  shows "protect_in_place E (up_aux u) src hl (up_payload_end u - up_payload_start u) buf' =
           (Inr (length buf), buf[hl := buf ! hl AND 0x38])"
proof -
  obtain h where h: "peek_aux buf hl = Inr h"
    using assms(2) by (auto simp: unprotect_in_place_def split: sum.splits)
  then obtain H c X where b: "buf = H @ relabelled c h @ X" "length H = hl"
      "control_from_raw c = ah_control h" "aux_wf h"
    using peek_aux_inverse by blast
  define aux where "aux = h\<lparr>ah_control := with_level (ah_control h) level\<rparr>"
  have lev: "sc_level (ah_control aux) = level" by (simp add: aux_def)
  have aux: "aux_wf aux" "relabelled c aux = relabelled c h" "aux_encoded_len aux = aux_encoded_len h"
    "with_level (control_from_raw c) (sc_level (ah_control aux)) = ah_control aux"
    using b(3,4) by (simp_all add: aux_def aux_wf_def relabelled_def aux_octets_def aux_encoded_len_def)
  note lim = unprotect_ok_limits [OF assms(2) h]
  define P where "P = unseal_payload E aux src X"
  have X: "mic_len level \<le> length X" and "frame_limits level H aux P"
    using lim b aux(3) by (auto simp: frame_limits_def P_def lev split: if_splits)
  then have fl: "frame_limits (sc_level (ah_control aux)) H aux (unseal_payload E aux src X)"
    by (simp add: P_def lev)
  have "X = seal_payload E aux src H P"
    and u: "u = \<lparr>up_aux = aux, up_payload_start = length H + aux_encoded_len aux,
                up_payload_end = length H + aux_encoded_len aux + length P\<rparr>"
      "buf' = H @ aux_octets aux @ P @ drop (length P) X"
    using unprotect_layout [OF assms(1) aux(1,4) _ fl] X assms(2) b(1,2)
    by (simp_all add: aux(2) lev Let_def P_def split: if_splits)
  moreover have "length (drop (length P) X) = mic_len (sc_level (ah_control aux))"
    using X by (simp add: P_def lev)
  ultimately have "protect_in_place E aux src (length H) (length P) buf' =
     (Inr (length H + aux_encoded_len aux + length P + mic_len level), H @ air_octets aux @ X)"
    using protect_layout [OF assms(1) aux(1), of "aux_octets aux" "drop (length P) X" H P src "[]"] fl
    by (simp add: length_aux_octets lev P_def)
  moreover have "length H + aux_encoded_len aux + length P + mic_len level = length buf"
    using X by (simp add: b(1) aux(3) P_def lev)
  moreover have "H @ air_octets aux @ X = buf[hl := buf ! hl AND 0x38]"
    using cleared_control [of c level] b(2,3)
    by (simp add: b(1) air_octets_def relabelled_def list_update_append nth_append aux_def aux_octets_def)
  ultimately show ?thesis using b(2) by (simp add: u)
qed

theorem unprotect_accepts_only_protected_witness:
  "\<exists>u buf'. unprotect_in_place (map NOT) EncMic32 9 1
       ([1] @ air_octets (example_aux EncMic32) @ seal_payload (map NOT) (example_aux EncMic32) 9 [1] [10, 20]) =
       (Inr u, buf') \<and> up_payload_end u - up_payload_start u = 2 \<and>
     fst (protect_in_place (map NOT) (up_aux u) 9 1 2 buf') = Inr 21"
proof -
  let ?W = "[1] @ air_octets (example_aux EncMic32) @ seal_payload (map NOT) (example_aux EncMic32) 9 [1] [10, 20]"
  have "\<exists>u buf'. unprotect_in_place (map NOT) EncMic32 9 1 ?W = (Inr u, buf') \<and>
      up_payload_end u - up_payload_start u = 2"
    using sealed_frame_accepted [OF example_block_fn example_aux_facts(1), of EncMic32 "[1]" "[10, 20]" 9]
    by (simp add: example_aux_facts frame_limits_def encrypts_def level_raw_def)
  moreover have "length ?W = 21"
    by (simp add: length_seal_payload example_block_fn example_aux_facts mic_len_def)
  ultimately show ?thesis
    using unprotect_accepts_only_protected [OF example_block_fn, of EncMic32 9 1 ?W] by fastforce
qed

text \<open>
  C32: What a failed authentication leaves in the buffer. After \<^verbatim>\<open>unprotect_in_place\<close> reports an
  authentication failure, the payload range is all zeros when the level encrypts; with an
  authentication-only level the received payload is still there, unchanged.
\<close>

theorem unprotect_failure_payload:
  assumes "unprotect_in_place E level src hl buf = (Inl (Ccm_err AuthenticationFailed), buf')"
    and "peek_aux buf hl = Inr h"
    and ps: "ps = hl + aux_encoded_len h" and pe: "pe = length buf - mic_len level"
  shows "length buf' = length buf \<and>
         take (pe - ps) (drop ps buf') =
           (if encrypts level then replicate (pe - ps) 0 else take (pe - ps) (drop ps buf))"
proof -
  have failed: "decrypt_in_place E nonce aad msg mic = (Inl AuthenticationFailed, b) \<Longrightarrow>
      b = replicate (length msg) 0" for nonce aad msg mic b
    by (auto simp: decrypt_in_place_def check_params_def Let_def split: sum.splits if_splits)
  have len: "aux_encoded_len (h\<lparr>ah_control := c\<rparr>) = aux_encoded_len h" "0 < aux_encoded_len h" for c
    by (simp_all add: aux_encoded_len_def)
  have set: "drop ps (set_octet hl f buf) = drop ps buf" for f
    using len(2) by (simp add: set_octet_def ps)
  have lim: "ps + mic_len level \<le> length buf"
    using assms(1,2) by (auto simp: unprotect_in_place_def Let_def len ps split: if_splits)
  then have mn: "min (length buf - ps) (pe - ps) = pe - ps" "ps \<le> pe" "pe \<le> length buf"
    by (simp_all add: pe)
  show ?thesis
  proof (cases "encrypts level")
    case True
    with assms(1,2) lim mn(2,3) show ?thesis
      by (auto simp: unprotect_in_place_def Let_def len set mn(1) split: if_splits prod.splits sum.splits
          dest!: failed simp flip: ps pe)
  next
    case False
    with assms(1,2) lim show ?thesis
      by (auto simp: unprotect_in_place_def Let_def len split: if_splits prod.splits sum.splits
          simp flip: ps pe simp: set)
  qed
qed

lemma example_levels: "encrypts EncMic32" "\<not> encrypts Mic32"
  by (simp_all add: encrypts_def level_raw_def)

lemma example_forged:
  assumes "l = EncMic32 \<or> l = Mic32"
  shows "\<exists>buf'. unprotect_in_place (map NOT) l 9 1 ([1] @ air_octets (example_aux l) @ [10, 20, 0, 0, 0, 0]) =
       (Inl (Ccm_err AuthenticationFailed), buf')"
    and "peek_aux ([1] @ air_octets (example_aux l) @ [10, 20, 0, 0, 0, 0]) 1 = Inr (example_aux LevelNone)"
proof -
  have ne: "[10, 20, 0, 0, 0, 0] \<noteq> seal_payload (map NOT) (example_aux l) 9 [1]
       (unseal_payload (map NOT) (example_aux l) 9 [10, 20, 0, 0, 0, 0])"
    using assms
    by (elim disjE)
      (simp_all add: seal_payload_def unseal_payload_def example_aux_def aux_network_def encrypts_def
        level_raw_def mic_len_def ccm_tag_def aux_octets_def aux_nonce_def control_raw_def key_id_raw_def
        eval_simps)
  have c: "with_level (control_from_raw (control_raw (ah_control (example_aux l)) AND NOT 7))
      (sc_level (ah_control (example_aux l))) = ah_control (example_aux l)"
    by (simp only: control_from_cleared with_level_simps)
  have m: "mic_len l = 4" using assms by (auto simp: mic_len_def)
  show "\<exists>buf'. unprotect_in_place (map NOT) l 9 1 ([1] @ air_octets (example_aux l) @ [10, 20, 0, 0, 0, 0]) =
       (Inl (Ccm_err AuthenticationFailed), buf')"
    using unprotect_layout [OF example_block_fn example_aux_facts(1) c, of "[10, 20, 0, 0, 0, 0]" "[1]" 9]
    by (simp add: ne m example_aux_facts air_octets_relabelled Let_def frame_limits_def)
  have "(example_aux l)\<lparr>ah_control := with_level (ah_control (example_aux l)) LevelNone\<rparr> = example_aux LevelNone"
    by (simp add: example_aux_def aux_network_def with_level_def)
  then show "peek_aux ([1] @ air_octets (example_aux l) @ [10, 20, 0, 0, 0, 0]) 1 = Inr (example_aux LevelNone)"
    using peek_aux_relabelled [OF example_aux_facts(1) c, of "[1]" "[10, 20, 0, 0, 0, 0]"]
    by (simp only: control_from_cleared air_octets_relabelled list.size One_nat_def plus_nat.simps add_0)
qed

theorem unprotect_failure_payload_witness:
  "(\<exists>buf'. unprotect_in_place (map NOT) EncMic32 9 1
       ([1] @ air_octets (example_aux EncMic32) @ [10, 20, 0, 0, 0, 0]) =
       (Inl (Ccm_err AuthenticationFailed), buf') \<and> take 2 (drop 15 buf') = [0, 0]) \<and>
   (\<exists>buf'. unprotect_in_place (map NOT) Mic32 9 1
       ([1] @ air_octets (example_aux Mic32) @ [10, 20, 0, 0, 0, 0]) =
       (Inl (Ccm_err AuthenticationFailed), buf') \<and> take 2 (drop 15 buf') = [10, 20])"
proof -
  obtain b1 b2 where b: "unprotect_in_place (map NOT) EncMic32 9 1
       ([1] @ air_octets (example_aux EncMic32) @ [10, 20, 0, 0, 0, 0]) =
       (Inl (Ccm_err AuthenticationFailed), b1)"
     "unprotect_in_place (map NOT) Mic32 9 1
       ([1] @ air_octets (example_aux Mic32) @ [10, 20, 0, 0, 0, 0]) =
       (Inl (Ccm_err AuthenticationFailed), b2)"
    using example_forged(1) by blast
  have "take 2 (drop 15 b1) = [0, 0]"
    using unprotect_failure_payload [OF b(1) example_forged(2) refl refl]
    by (simp add: example_aux_facts mic_len_def example_levels replicate_eval)
  moreover have "take 2 (drop 15 b2) = [10, 20]"
    using unprotect_failure_payload [OF b(2) example_forged(2) refl refl]
    by (simp add: example_aux_facts mic_len_def example_levels)
  ultimately show ?thesis using b by blast
qed

end
