(* ===== verification/Material.thy ===== *)
theory Material
  imports FrameSecurity
begin

text \<open>
  Security material, \<^verbatim>\<open>panweave-security/src/material.rs\<close>: the two network key slots with the shared
  outgoing counter, and the APS device key-pair set.
\<close>

section \<open>Network keys\<close>

record network_key_slot =
  nk_sequence :: key_sequence
  nk_key :: key128

record network_keys =
  nk_slots :: "network_key_slot list"
  nk_active :: "key_sequence option"
  nk_outgoing :: outgoing_counter

definition network_keys_new :: network_keys where
  "network_keys_new = \<lparr>nk_slots = [], nk_active = None, nk_outgoing = oc_new\<rparr>"

text \<open>The slots are a \<^verbatim>\<open>heapless::Vec<_, 2>\<close>; the final push is into a vector that has room.\<close>

definition nk_push :: "network_key_slot \<Rightarrow> network_key_slot list \<Rightarrow> network_key_slot list" where
  "nk_push s xs = (case vec_push 2 xs s of Inr ys \<Rightarrow> ys | Inl _ \<Rightarrow> xs)"

definition nk_install :: "key_sequence \<Rightarrow> key128 \<Rightarrow> network_keys \<Rightarrow> network_keys" where
  "nk_install sequence key ks =
     (if List.find (\<lambda>s. nk_sequence s = sequence) (nk_slots ks) \<noteq> None
      then ks\<lparr>nk_slots := update_first (\<lambda>s. nk_sequence s = sequence) (\<lambda>s. s\<lparr>nk_key := key\<rparr>) (nk_slots ks)\<rparr>
      else
        let slots = (if length (nk_slots ks) = 2
                     then swap_remove
                            (case position (\<lambda>s. Some (nk_sequence s) \<noteq> nk_active ks) (nk_slots ks) of
                               Some i \<Rightarrow> i | None \<Rightarrow> 0) (nk_slots ks)
                     else nk_slots ks)
        in ks\<lparr>nk_slots := nk_push \<lparr>nk_sequence = sequence, nk_key = key\<rparr> slots\<rparr>)"

definition nk_install_active :: "key_sequence \<Rightarrow> key128 \<Rightarrow> network_keys \<Rightarrow> network_keys" where
  "nk_install_active sequence key ks = (nk_install sequence key ks)\<lparr>nk_active := Some sequence\<rparr>"

definition nk_switch_to :: "key_sequence \<Rightarrow> network_keys \<Rightarrow> bool \<times> network_keys" where
  "nk_switch_to sequence ks =
     (if list_ex (\<lambda>s. nk_sequence s = sequence) (nk_slots ks)
      then (True,
            if nk_active ks \<noteq> Some sequence
            then ks\<lparr>nk_active := Some sequence, nk_outgoing := snd (on_key_switch (nk_outgoing ks))\<rparr>
            else ks)
      else (False, ks))"

definition nk_get :: "key_sequence \<Rightarrow> network_keys \<Rightarrow> network_key_slot option" where
  "nk_get sequence ks = List.find (\<lambda>s. nk_sequence s = sequence) (nk_slots ks)"

definition nk_active_slot :: "network_keys \<Rightarrow> network_key_slot option" where
  "nk_active_slot ks = (case nk_active ks of None \<Rightarrow> None | Some a \<Rightarrow> nk_get a ks)"

definition nk_has_active :: "network_keys \<Rightarrow> bool" where
  "nk_has_active ks \<longleftrightarrow> nk_active_slot ks \<noteq> None"

definition nk_clear_keys :: "network_keys \<Rightarrow> network_keys" where
  "nk_clear_keys ks = ks\<lparr>nk_slots := [], nk_active := None\<rparr>"

text \<open>
  At most two keys with different sequence numbers, the active one among them, and a sound outgoing
  counter.
\<close>

definition nk_inv :: "network_keys \<Rightarrow> bool" where
  "nk_inv ks \<longleftrightarrow>
     length (nk_slots ks) \<le> 2 \<and> distinct (map nk_sequence (nk_slots ks)) \<and>
     (\<forall>a. nk_active ks = Some a \<longrightarrow> a \<in> nk_sequence ` set (nk_slots ks)) \<and>
     oc_inv (nk_outgoing ks)"

lemma nk_inv_new: "nk_inv network_keys_new"
  by (simp add: nk_inv_def network_keys_new_def oc_new_def)

lemma two_slots:
  assumes "length xs = 2" obtains a b where "xs = [a, b]"
  using assms by (auto simp: numeral_2_eq_2 length_Suc_conv)

text \<open>The slot that makes room never is the active one.\<close>

lemma evicted_slots:
  assumes "nk_inv ks" "length (nk_slots ks) = 2"
  defines "v \<equiv> (case position (\<lambda>s. Some (nk_sequence s) \<noteq> nk_active ks) (nk_slots ks) of Some i \<Rightarrow> i | None \<Rightarrow> 0)"
  shows "\<exists>s \<in> set (nk_slots ks). swap_remove v (nk_slots ks) = [s] \<and>
           (\<forall>a. nk_active ks = Some a \<longrightarrow> nk_sequence s = a)"
proof -
  obtain a b where ab: "nk_slots ks = [a, b]" using two_slots [OF assms(2)] .
  have "nk_sequence a \<noteq> nk_sequence b" using assms(1) by (simp add: nk_inv_def ab)
  moreover have "nk_active ks = Some x \<Longrightarrow> x = nk_sequence a \<or> x = nk_sequence b" for x
    using assms(1) by (auto simp: nk_inv_def ab)
  ultimately show ?thesis
    by (cases "nk_active ks") (auto simp: v_def ab swap_remove_def)
qed

lemma nk_install_cases:
  assumes "nk_inv ks"
  shows "nk_inv (nk_install seq k ks)"
    and "nk_get seq (nk_install seq k ks) = Some \<lparr>nk_sequence = seq, nk_key = k\<rparr>"
    and "\<And>a. nk_active ks = Some a \<Longrightarrow> a \<noteq> seq \<Longrightarrow> nk_get a (nk_install seq k ks) = nk_get a ks"
    and "nk_active (nk_install seq k ks) = nk_active ks"
    and "nk_outgoing (nk_install seq k ks) = nk_outgoing ks"
proof -
  show "nk_active (nk_install seq k ks) = nk_active ks" "nk_outgoing (nk_install seq k ks) = nk_outgoing ks"
    by (simp_all add: nk_install_def Let_def)
  have "nk_inv (nk_install seq k ks) \<and>
        nk_get seq (nk_install seq k ks) = Some \<lparr>nk_sequence = seq, nk_key = k\<rparr> \<and>
        (\<forall>a. nk_active ks = Some a \<longrightarrow> a \<noteq> seq \<longrightarrow> nk_get a (nk_install seq k ks) = nk_get a ks)"
  proof (cases "List.find (\<lambda>s. nk_sequence s = seq) (nk_slots ks)")
    case (Some s)
    have "map nk_sequence (update_first (\<lambda>s. nk_sequence s = seq) (\<lambda>s. s\<lparr>nk_key := k\<rparr>) (nk_slots ks)) =
          map nk_sequence (nk_slots ks)"
      by (rule map_update_first) simp
    moreover have "nk_sequence s = seq" using find_SomeD [OF Some] by simp
    ultimately show ?thesis
      using assms Some
      by (auto simp: nk_install_def nk_inv_def nk_get_def find_update_first find_update_first_other
          simp flip: set_map)
  next
    case None
    then have new: "seq \<notin> nk_sequence ` set (nk_slots ks)" by (simp add: find_None_keys)
    show ?thesis
    proof (cases "length (nk_slots ks) = 2")
      case True
      define v where "v = (case position (\<lambda>s. Some (nk_sequence s) \<noteq> nk_active ks) (nk_slots ks) of Some i \<Rightarrow> i | None \<Rightarrow> 0)"
      obtain s where s: "s \<in> set (nk_slots ks)" "swap_remove v (nk_slots ks) = [s]"
          "\<forall>a. nk_active ks = Some a \<longrightarrow> nk_sequence s = a"
        using evicted_slots [OF assms True] v_def by blast
      have "nk_sequence s \<noteq> seq" using new s(1) by auto
      moreover have "nk_get (nk_sequence s) ks = Some s"
        using assms s(1) by (simp add: nk_get_def nk_inv_def find_distinct_keys)
      moreover have "nk_slots (nk_install seq k ks) = [s, \<lparr>nk_sequence = seq, nk_key = k\<rparr>]"
        using None True s(2) by (simp add: nk_install_def nk_push_def vec_push_def flip: v_def)
      ultimately show ?thesis
        using assms s(3) by (auto simp: nk_inv_def nk_get_def nk_install_def Let_def)
    next
      case False
      then have "length (nk_slots ks) < 2" using assms by (simp add: nk_inv_def)
      then have "nk_slots (nk_install seq k ks) = nk_slots ks @ [\<lparr>nk_sequence = seq, nk_key = k\<rparr>]"
        using None by (simp add: nk_install_def nk_push_def vec_push_def)
      with assms new None False show ?thesis
        by (auto simp: nk_inv_def nk_get_def find_append nk_install_def Let_def split: option.split)
    qed
  qed
  then show "nk_inv (nk_install seq k ks)"
    "nk_get seq (nk_install seq k ks) = Some \<lparr>nk_sequence = seq, nk_key = k\<rparr>"
    "\<And>a. nk_active ks = Some a \<Longrightarrow> a \<noteq> seq \<Longrightarrow> nk_get a (nk_install seq k ks) = nk_get a ks"
    by blast+
qed

lemma nk_inv_install_active: "nk_inv ks \<Longrightarrow> nk_inv (nk_install_active seq k ks)"
  using nk_install_cases(1,2) [of ks seq k]
  by (auto simp: nk_install_active_def nk_inv_def nk_get_def dest!: find_SomeD intro: rev_image_eqI)

lemma nk_inv_switch: "nk_inv ks \<Longrightarrow> nk_inv (snd (nk_switch_to seq ks))"
  by (auto simp: nk_switch_to_def nk_inv_def list_ex_iff oc_inv_key_switch)

lemma nk_inv_clear: "nk_inv ks \<Longrightarrow> nk_inv (nk_clear_keys ks)"
  by (simp add: nk_clear_keys_def nk_inv_def)

lemma nk_active_present: "nk_inv ks \<Longrightarrow> nk_active ks = Some a \<Longrightarrow> \<exists>s. nk_get a ks = Some s \<and> nk_sequence s = a"
  by (cases "nk_get a ks") (auto simp: nk_inv_def nk_get_def find_None_keys dest: find_SomeD)

section \<open>The device key-pair set\<close>

datatype link_key_kind = UniqueKey | GlobalKey

datatype initial_join_authentication =
  NoAuthentication | InstallCodeKey | AnonymousKeyNegotiation | KeyNegotiationWithAuthentication

definition initial_join_raw :: "initial_join_authentication \<Rightarrow> u8" where
  "initial_join_raw a =
     (case a of NoAuthentication \<Rightarrow> 0 | InstallCodeKey \<Rightarrow> 1 | AnonymousKeyNegotiation \<Rightarrow> 2
      | KeyNegotiationWithAuthentication \<Rightarrow> 3)"

datatype post_join_key_update =
  NotUpdated | KeyRequest | UnauthenticatedNegotiation | AuthenticatedNegotiation | CertificateBased

definition post_join_raw :: "post_join_key_update \<Rightarrow> u8" where
  "post_join_raw u =
     (case u of NotUpdated \<Rightarrow> 0 | KeyRequest \<Rightarrow> 1 | UnauthenticatedNegotiation \<Rightarrow> 2
      | AuthenticatedNegotiation \<Rightarrow> 3 | CertificateBased \<Rightarrow> 4)"

datatype key_negotiation_state = NegotiationNone | NegotiationStarted | NegotiationComplete

record link_key_entry =
  lk_partner :: extended_address
  lk_key :: key128
  lk_kind :: link_key_kind
  lk_attributes :: key_attributes
  lk_outgoing :: outgoing_counter
  lk_incoming :: u32
  lk_initial_join_authentication :: initial_join_authentication
  lk_negotiation_state :: key_negotiation_state
  lk_negotiation_method :: u8
  lk_post_join_key_update :: post_join_key_update
  lk_passphrase :: "key128 option"
  lk_passphrase_update_allowed :: bool
  lk_frame_counter_sync :: bool
  lk_verified_frame_counter :: bool
  lk_challenge_frame_counter :: u32
  lk_timeout_secs :: u16

definition lk_provisional :: "extended_address \<Rightarrow> key128 \<Rightarrow> link_key_kind \<Rightarrow> link_key_entry" where
  "lk_provisional partner key kind =
     \<lparr>lk_partner = partner, lk_key = key, lk_kind = kind, lk_attributes = ProvisionalKey,
      lk_outgoing = oc_new, lk_incoming = 0, lk_initial_join_authentication = NoAuthentication,
      lk_negotiation_state = NegotiationNone, lk_negotiation_method = 0,
      lk_post_join_key_update = NotUpdated, lk_passphrase = None,
      lk_passphrase_update_allowed = True, lk_frame_counter_sync = False,
      lk_verified_frame_counter = True, lk_challenge_frame_counter = 0, lk_timeout_secs = 0xFFFF\<rparr>"

definition lk_is_verified :: "link_key_entry \<Rightarrow> bool" where
  "lk_is_verified e \<longleftrightarrow> lk_attributes e = VerifiedKey"

definition lk_has_passphrase :: "link_key_entry \<Rightarrow> bool" where
  "lk_has_passphrase e \<longleftrightarrow> lk_passphrase e \<noteq> None"

text \<open>The table with its capacity \<open>lt_cap\<close> (\<^verbatim>\<open>K::N\<close>).\<close>

record link_key_table =
  lt_cap :: nat
  lt_entries :: "link_key_entry list"

definition lt_get :: "extended_address \<Rightarrow> link_key_table \<Rightarrow> link_key_entry option" where
  "lt_get partner t = List.find (\<lambda>e. lk_partner e = partner) (lt_entries t)"

definition lt_update :: "extended_address \<Rightarrow> (link_key_entry \<Rightarrow> link_key_entry) \<Rightarrow> link_key_table \<Rightarrow> link_key_table" where
  "lt_update partner f t = t\<lparr>lt_entries := update_first (\<lambda>e. lk_partner e = partner) f (lt_entries t)\<rparr>"

definition lt_insert :: "link_key_entry \<Rightarrow> (link_key_table, link_key_entry, unit) step" where
  "lt_insert e t =
     (case lt_get (lk_partner e) t of
        Some _ \<Rightarrow> (Inr (), lt_update (lk_partner e) (\<lambda>_. e) t)
      | None \<Rightarrow> (case vec_push (lt_cap t) (lt_entries t) e of
                   Inr es \<Rightarrow> (Inr (), t\<lparr>lt_entries := es\<rparr>)
                 | Inl x \<Rightarrow> (Inl x, t)))"

definition lt_remove :: "extended_address \<Rightarrow> link_key_table \<Rightarrow> bool \<times> link_key_table" where
  "lt_remove partner t =
     (let es = filter (\<lambda>e. lk_partner e \<noteq> partner) (lt_entries t)
      in (length es \<noteq> length (lt_entries t), t\<lparr>lt_entries := es\<rparr>))"

definition lt_is_full :: "link_key_table \<Rightarrow> bool" where
  "lt_is_full t \<longleftrightarrow> length (lt_entries t) = lt_cap t"

definition lt_clear :: "link_key_table \<Rightarrow> link_key_table" where
  "lt_clear t = t\<lparr>lt_entries := []\<rparr>"

definition lt_inv :: "link_key_table \<Rightarrow> bool" where
  "lt_inv t \<longleftrightarrow> distinct (map lk_partner (lt_entries t)) \<and> length (lt_entries t) \<le> lt_cap t"

lemma lt_inv_insert: "lt_inv t \<Longrightarrow> lt_inv (snd (lt_insert e t))"
  by (auto simp: lt_inv_def lt_insert_def lt_update_def lt_get_def map_update_first vec_push_def
      find_None_keys split: option.split)

lemma lt_inv_remove: "lt_inv t \<Longrightarrow> lt_inv (snd (lt_remove p t))"
  by (auto simp: lt_inv_def lt_remove_def Let_def distinct_map_filter intro: le_trans [OF length_filter_le])

lemma lt_get_insert:
  assumes "lt_insert e t = (Inr (), t')"
  shows "lt_get p t' = (if p = lk_partner e then Some e else lt_get p t)"
  using assms
  by (auto simp: lt_insert_def lt_update_def lt_get_def vec_push_def find_append
      find_update_first find_update_first_other split: option.splits if_splits)

lemma lt_get_remove: "lt_get p (snd (lt_remove q t)) = (if p = q then None else lt_get p t)"
proof -
  have "List.find (\<lambda>e. lk_partner e = q) (filter (\<lambda>e. lk_partner e \<noteq> q) es) = None" for es
    by (rule find_filter_neg)
  then show ?thesis
    by (auto simp: lt_remove_def lt_get_def Let_def intro: find_filter_other)
qed

lemma lt_insert_full:
  "lt_get (lk_partner e) t = None \<Longrightarrow> lt_cap t \<le> length (lt_entries t) \<Longrightarrow> lt_insert e t = (Inl e, t)"
  by (simp add: lt_insert_def vec_push_def)

text \<open>
  C33: Installing a network key never loses the active one. On a sound key store \<^verbatim>\<open>install\<close> keeps at most
  two keys with different sequence numbers, makes the new key available under its sequence number,
  leaves the active sequence number and the outgoing counter alone, and the active key, if it has
  another sequence number, is still there with the same value even when a key had to be evicted.
\<close>

theorem install_keeps_active_key:
  assumes "nk_inv ks"
  shows "nk_inv (nk_install seq k ks) \<and>
         nk_get seq (nk_install seq k ks) = Some \<lparr>nk_sequence = seq, nk_key = k\<rparr> \<and>
         nk_active (nk_install seq k ks) = nk_active ks \<and>
         nk_outgoing (nk_install seq k ks) = nk_outgoing ks \<and>
         (nk_active ks \<noteq> Some seq \<longrightarrow> nk_active_slot (nk_install seq k ks) = nk_active_slot ks)"
  using nk_install_cases [OF assms, where seq = seq and k = k] by (auto simp: nk_active_slot_def split: option.split)

theorem install_keeps_active_key_witness:
  "nk_active_slot (nk_install 2 (replicate 16 3) (nk_install 1 (replicate 16 2)
     (nk_install_active 0 (replicate 16 1) network_keys_new))) =
   Some \<lparr>nk_sequence = 0, nk_key = replicate 16 1\<rparr>"
proof -
  let ?k1 = "nk_install 1 (replicate 16 2) (nk_install_active 0 (replicate 16 1) network_keys_new)"
  have "nk_inv ?k1" using nk_install_cases(1) nk_inv_install_active nk_inv_new by blast
  moreover have "nk_active ?k1 = Some 0" "nk_active_slot ?k1 = Some \<lparr>nk_sequence = 0, nk_key = replicate 16 1\<rparr>"
    by (simp_all add: nk_active_slot_def nk_install_active_def nk_install_def network_keys_new_def nk_push_def
        vec_push_def nk_get_def)
  ultimately show ?thesis using install_keeps_active_key [of ?k1 2 "replicate 16 3"] by simp
qed

end
