(* ===== verification/Mmo.thy ===== *)
theory Mmo
  imports FrameSecurity
begin

text \<open>
  The AES-MMO hash, HMAC and the key derivations, \<^verbatim>\<open>panweave-security/src/mmo.rs\<close>,
  \<^verbatim>\<open>key_hierarchy.rs\<close> and \<^verbatim>\<open>challenge.rs\<close>. The cipher is the parameter \<open>aes\<close>: a key gives a block
  function (\<^verbatim>\<open>C::new(key)\<close> followed by \<^verbatim>\<open>encrypt_block\<close>).
\<close>

type_synonym cipher_fn = "key128 \<Rightarrow> block_fn"

section \<open>The incremental hasher\<close>

record mmo_hasher =
  mh_state :: bytes
  mh_buf :: bytes
  mh_buf_len :: nat
  mh_total_len :: nat

definition mmo_new :: mmo_hasher where
  "mmo_new = \<lparr>mh_state = zero_block, mh_buf = zero_block, mh_buf_len = 0, mh_total_len = 0\<rparr>"

definition mmo_compress :: "cipher_fn \<Rightarrow> bytes \<Rightarrow> bytes \<Rightarrow> bytes" where
  "mmo_compress aes state block = xor_into (aes state block) block"

text \<open>The \<^verbatim>\<open>while rest.len() >= 16\<close> loop: the state after the full blocks, and what is left.\<close>

function mmo_blocks :: "cipher_fn \<Rightarrow> bytes \<Rightarrow> bytes \<Rightarrow> bytes \<times> bytes" where
  "mmo_blocks aes state rest =
     (if 16 \<le> length rest then mmo_blocks aes (mmo_compress aes state (take 16 rest)) (drop 16 rest)
      else (state, rest))"
  by pat_completeness auto
termination
  by (relation "measure (\<lambda>(aes, state, rest). length rest)") auto

declare mmo_blocks.simps [simp del]

definition mmo_update :: "cipher_fn \<Rightarrow> bytes \<Rightarrow> mmo_hasher \<Rightarrow> mmo_hasher" where
  "mmo_update aes data h0 =
     (let h1 = h0\<lparr>mh_total_len := mh_total_len h0 + length data\<rparr>;
          (h2, rest) =
            (if 0 < mh_buf_len h1
             then let n = min (16 - mh_buf_len h1) (length data);
                      buf = take (mh_buf_len h1) (mh_buf h1)
                              @ copy_prefix (drop (mh_buf_len h1) (mh_buf h1)) (take n data);
                      h = h1\<lparr>mh_buf := buf, mh_buf_len := mh_buf_len h1 + n\<rparr>
                  in (if mh_buf_len h = 16
                      then h\<lparr>mh_state := mmo_compress aes (mh_state h) (mh_buf h), mh_buf_len := 0\<rparr>
                      else h, drop n data)
             else (h1, data));
          (state, rest') = mmo_blocks aes (mh_state h2) rest;
          h3 = h2\<lparr>mh_state := state\<rparr>
      in if rest' \<noteq> [] then h3\<lparr>mh_buf := copy_prefix (mh_buf h3) rest', mh_buf_len := length rest'\<rparr>
         else h3)"

definition mmo_update_padding :: "cipher_fn \<Rightarrow> bytes \<Rightarrow> mmo_hasher \<Rightarrow> mmo_hasher" where
  "mmo_update_padding aes data h = (mmo_update aes data h)\<lparr>mh_total_len := mh_total_len h\<rparr>"

text \<open>
  The \<^verbatim>\<open>while self.buf_len != tail_mod\<close> loop adds one octet per round to a buffer of 16, so 16
  rounds are enough (\<open>mmo_pad_loop_ends\<close>).
\<close>

fun mmo_pad_loop :: "nat \<Rightarrow> cipher_fn \<Rightarrow> nat \<Rightarrow> mmo_hasher \<Rightarrow> mmo_hasher" where
  "mmo_pad_loop 0 aes tail_mod h = h"
| "mmo_pad_loop (Suc n) aes tail_mod h =
     (if mh_buf_len h = tail_mod then h
      else mmo_pad_loop n aes tail_mod (mmo_update_padding aes [0] h))"

definition mmo_length_octets :: "nat \<Rightarrow> nat \<times> bytes" where
  "mmo_length_octets n =
     (let bit_len = n * 8 in
      if n < 8192 then (14, be_bytes 2 (u16_try_from bit_len) @ [0, 0, 0, 0])
      else (10, be_bytes 4 (u32_try_from bit_len) @ [0, 0]))"

definition mmo_finalize :: "cipher_fn \<Rightarrow> mmo_hasher \<Rightarrow> bytes" where
  "mmo_finalize aes h0 =
     (let (tail_mod, len_enc) = mmo_length_octets (mh_total_len h0);
          len_enc_len = 16 - tail_mod;
          h1 = mmo_update_padding aes [0x80] h0;
          h2 = mmo_pad_loop 16 aes tail_mod h1;
          h3 = mmo_update_padding aes (take len_enc_len len_enc) h2
      in mh_state h3)"

definition mmo_hash :: "cipher_fn \<Rightarrow> bytes \<Rightarrow> bytes" where
  "mmo_hash aes data = mmo_finalize aes (mmo_update aes data mmo_new)"

definition mmo_hmac :: "cipher_fn \<Rightarrow> bytes \<Rightarrow> bytes \<Rightarrow> bytes" where
  "mmo_hmac aes key data =
     (let k0 = (if 16 < length key then mmo_hash aes key else copy_prefix zero_block key);
          inner_key = map (\<lambda>b. b XOR 0x36) k0;
          outer_key = map (\<lambda>b. b XOR 0x5C) k0;
          inner_hash = mmo_finalize aes (mmo_update aes data (mmo_update aes inner_key mmo_new))
      in mmo_finalize aes (mmo_update aes inner_hash (mmo_update aes outer_key mmo_new)))"

section \<open>Key derivation\<close>

definition key_transport_key :: "cipher_fn \<Rightarrow> key128 \<Rightarrow> key128" where
  "key_transport_key aes link_key = mmo_hmac aes link_key [0x00]"

definition key_load_key :: "cipher_fn \<Rightarrow> key128 \<Rightarrow> key128" where
  "key_load_key aes link_key = mmo_hmac aes link_key [0x02]"

definition verify_key_hash :: "cipher_fn \<Rightarrow> key128 \<Rightarrow> bytes" where
  "verify_key_hash aes link_key = mmo_hmac aes link_key [0x03]"

definition link_key_from_install_code :: "cipher_fn \<Rightarrow> install_code \<Rightarrow> key128" where
  "link_key_from_install_code aes code = mmo_hash aes (ic_as_bytes code)"

section \<open>The hash of the specification\<close>

definition mmo_pad :: "bytes \<Rightarrow> bytes" where
  "mmo_pad m =
     (let tail = (if length m < 8192 then 14 else 10) in
      m @ [0x80] @ replicate ((tail + 15 - length m mod 16) mod 16) 0 @
      (if length m < 8192 then be_bytes 2 (of_nat (8 * length m) :: u16)
       else be_bytes 4 (of_nat (8 * length m) :: u32) @ [0, 0]))"

definition mmo_spec :: "cipher_fn \<Rightarrow> bytes \<Rightarrow> bytes" where
  "mmo_spec aes m = foldl (mmo_compress aes) zero_block (blocks16 (mmo_pad m))"

text \<open>A hasher that has absorbed the octets \<open>m\<close>.\<close>

definition mmo_repr :: "cipher_fn \<Rightarrow> mmo_hasher \<Rightarrow> bytes \<Rightarrow> bool" where
  "mmo_repr aes h m \<longleftrightarrow>
     length (mh_buf h) = 16 \<and> mh_buf_len h < 16 \<and>
     mmo_blocks aes zero_block m = (mh_state h, take (mh_buf_len h) (mh_buf h))"

lemma mmo_blocks_append:
  "mmo_blocks aes st (xs @ ys) = (let (s, r) = mmo_blocks aes st xs in mmo_blocks aes s (r @ ys))"
proof (induction aes st xs rule: mmo_blocks.induct)
  case (1 aes st xs)
  show ?case
  proof (cases "16 \<le> length xs")
    case True
    then show ?thesis
      using 1 by (subst (1 2) mmo_blocks.simps) simp
  next
    case False
    then show ?thesis by (subst (2) mmo_blocks.simps) simp
  qed
qed

lemma mmo_blocks_short [simp]: "length xs < 16 \<Longrightarrow> mmo_blocks aes st xs = (st, xs)"
  by (simp add: mmo_blocks.simps)

lemma mmo_blocks_rest: "mmo_blocks aes st xs = (s, r) \<Longrightarrow> length r = length xs mod 16"
proof (induction aes st xs arbitrary: s r rule: mmo_blocks.induct)
  case (1 aes st xs)
  show ?case
  proof (cases "16 \<le> length xs")
    case True
    then have "mmo_blocks aes (mmo_compress aes st (take 16 xs)) (drop 16 xs) = (s, r)"
      using "1.prems" by (subst (asm) mmo_blocks.simps) simp
    with "1.IH" [OF True] True show ?thesis by (simp add: le_mod_geq)
  qed (use 1 in simp)
qed

lemma mmo_blocks_foldl:
  "length xs mod 16 = 0 \<Longrightarrow> mmo_blocks aes st xs = (foldl (mmo_compress aes) st (blocks16 xs), [])"
proof (induction aes st xs rule: mmo_blocks.induct)
  case (1 aes st xs)
  show ?case
  proof (cases "16 \<le> length xs")
    case True
    then have "xs \<noteq> []" "(length xs - 16) mod 16 = 0" using 1 by (auto simp: le_mod_geq)
    with 1 True show ?thesis by (subst mmo_blocks.simps, subst blocks16.simps) simp
  next
    case False
    with 1 have "xs = []" by simp
    then show ?thesis by simp
  qed
qed

lemma mmo_repr_new: "mmo_repr aes mmo_new []"
  by (simp add: mmo_repr_def mmo_new_def)

lemma mmo_update_repr:
  assumes "mmo_repr aes h m"
  shows "mmo_repr aes (mmo_update aes d h) (m @ d)"
proof -
  define k where "k = mh_buf_len h"
  define lo where "lo = take k (mh_buf h)"
  have h: "length (mh_buf h) = 16" "k < 16" "mmo_blocks aes zero_block m = (mh_state h, lo)" "length lo = k"
    using assms by (auto simp: mmo_repr_def k_def lo_def)
  have goal: "mmo_blocks aes zero_block (m @ d) = mmo_blocks aes (mh_state h) (lo @ d)"
    using mmo_blocks_append [of aes zero_block m d] h by simp
  show ?thesis
  proof (cases "k = 0")
    case True
    obtain s r where sr: "mmo_blocks aes (mh_state h) d = (s, r)" by fastforce
    have "length r < 16" using mmo_blocks_rest [OF sr] by simp
    moreover have "lo = []" using h(4) True by simp
    ultimately show ?thesis
      using h True goal sr
      by (simp add: mmo_repr_def mmo_update_def Let_def k_def copy_prefix_eq)
  next
    case False
    define n where "n = min (16 - k) (length d)"
    show ?thesis
    proof (cases "length d < 16 - k")
      case True
      then have "n = length d" by (simp add: n_def)
      with True False h goal show ?thesis
        by (simp add: mmo_repr_def mmo_update_def Let_def copy_prefix_eq lo_def min_def flip: k_def n_def) linarith
    next
      case full: False
      then have n: "n = 16 - k" by (simp add: n_def)
      obtain s r where sr: "mmo_blocks aes (mmo_compress aes (mh_state h) (lo @ take n d)) (drop n d) = (s, r)"
        by fastforce
      have "length r < 16" using mmo_blocks_rest [OF sr] by simp
      moreover have "mmo_blocks aes (mh_state h) (lo @ d) = (s, r)"
        using full h n sr by (subst mmo_blocks.simps) (simp add: not_less le_diff_conv add.commute)
      moreover have "lo @ copy_prefix (drop k (mh_buf h)) (take n d) = lo @ take n d"
        using h n full by (simp add: copy_prefix_eq)
      ultimately show ?thesis
        using h False goal n sr full
        by (simp add: mmo_repr_def mmo_update_def Let_def copy_prefix_eq flip: k_def n_def lo_def) linarith
    qed
  qed
qed


lemma mmo_update_total [simp]: "mh_total_len (mmo_update aes d h) = mh_total_len h + length d"
  by (simp add: mmo_update_def Let_def split: prod.split)

lemma mmo_update_padding_repr:
  "mmo_repr aes h m \<Longrightarrow> mmo_repr aes (mmo_update_padding aes d h) (m @ d)"
  using mmo_update_repr [of aes h m d] by (simp add: mmo_update_padding_def mmo_repr_def)

lemma mmo_repr_buf_len: "mmo_repr aes h m \<Longrightarrow> mh_buf_len h = length m mod 16"
  using mmo_blocks_rest [of aes zero_block m "mh_state h" "take (mh_buf_len h) (mh_buf h)"]
  by (simp add: mmo_repr_def min_def)

lemma pad_count_step:
  assumes "(r :: nat) < 16" "t < 16" "r \<noteq> t"
  shows "(t + 16 - r) mod 16 = Suc ((t + 15 - r) mod 16)"
proof (cases "r < t")
  case True
  then obtain d where d: "t = r + Suc d" using less_imp_Suc_add by auto
  then have "t + 16 - r = Suc d + 16" "t + 15 - r = d + 16" "Suc d < 16" using assms by auto
  then show ?thesis by (simp only: mod_add_self2 mod_less)
next
  case False
  then obtain d where "r = t + Suc d" using assms(3) by (metis less_imp_Suc_add linorder_neqE_nat add_Suc_right)
  with assms show ?thesis by simp
qed

lemma pad_count_Suc: "(t + 16 - Suc n mod 16) mod 16 = (t + 15 - n mod 16) mod 16"
  by (cases "n mod 16 = 15") (auto simp: mod_Suc add.commute)

lemma pad_count_total: "(n + 1 + (t + 15 - n mod 16) mod 16) mod 16 = t mod (16 :: nat)"
proof -
  have "n mod 16 \<le> 15" using mod_less_divisor [of 16 n] by linarith
  moreover obtain q r where "n = 16 * q + r" "n mod 16 = r" "n div 16 = q"
    by (metis mult_div_mod_eq)
  ultimately have "n + 1 + (t + 15 - n mod 16) = t + 16 * (n div 16 + 1)"
    by simp
  then show ?thesis by (metis mod_add_right_eq mod_mult_self2)
qed

text \<open>The padding loop stops at the wanted position within its rounds.\<close>

lemma mmo_pad_loop_ends:
  assumes "mmo_repr aes h m" "t < 16" "(t + 16 - length m mod 16) mod 16 \<le> n"
  shows "mmo_repr aes (mmo_pad_loop n aes t h) (m @ replicate ((t + 16 - length m mod 16) mod 16) 0)"
  using assms
proof (induction n arbitrary: h m)
  case 0
  then show ?case by simp
next
  case (Suc n)
  have l: "mh_buf_len h = length m mod 16" using mmo_repr_buf_len [OF Suc.prems(1)] .
  show ?case
  proof (cases "mh_buf_len h = t")
    case True
    then show ?thesis using Suc.prems l by simp
  next
    case False
    define j where "j = (t + 16 - length m mod 16) mod 16"
    define j' where "j' = (t + 16 - length (m @ [0 :: u8]) mod 16) mod 16"
    have j: "j = Suc j'"
      using pad_count_step [of "length m mod 16" t] False l Suc.prems(2)
      unfolding j_def j'_def by (simp add: pad_count_Suc)
    then have "j' \<le> n" using Suc.prems(3) unfolding j_def by simp
    then have "mmo_repr aes (mmo_pad_loop n aes t (mmo_update_padding aes [0] h)) ((m @ [0]) @ replicate j' 0)"
      using Suc.IH [OF mmo_update_padding_repr [OF Suc.prems(1)] Suc.prems(2), of "[0]"]
      unfolding j'_def by simp
    then show ?thesis using False j by (simp flip: j_def)
  qed
qed

lemma length_mmo_pad: "length (mmo_pad m) mod 16 = 0"
proof -
  define t :: nat where "t = (if length m < 8192 then 14 else 10)"
  have "length (mmo_pad m) = length m + 1 + (t + 15 - length m mod 16) mod 16 + (16 - t)"
    by (simp add: mmo_pad_def Let_def t_def)
  moreover have "(length m + 1 + (t + 15 - length m mod 16) mod 16) mod 16 = t"
    unfolding pad_count_total by (simp add: t_def)
  ultimately have "length (mmo_pad m) mod 16 = (t + (16 - t)) mod 16"
    by (metis mod_add_left_eq)
  then show ?thesis by (simp add: t_def split: if_splits)
qed

lemma mmo_finalize_spec:
  assumes "mmo_repr aes h m" "mh_total_len h = length m" "8 * length m < 2 ^ 32"
  shows "mmo_finalize aes h = mmo_spec aes m"
proof -
  obtain t enc where te: "mmo_length_octets (length m) = (t, enc)" by fastforce
  have t: "t = (if length m < 8192 then 14 else 10)"
    and enc: "take (16 - t) enc = (if length m < 8192 then be_bytes 2 (of_nat (8 * length m) :: u16)
       else be_bytes 4 (of_nat (8 * length m) :: u32) @ [0, 0])"
    using te assms(3)
    by (auto simp: mmo_length_octets_def Let_def u16_try_from_def u32_try_from_def mult.commute
        split: if_splits)
  define z where "z = (t + 16 - length (m @ [0x80 :: u8]) mod 16) mod 16"
  have z: "z = (t + 15 - length m mod 16) mod 16"
    unfolding z_def by (simp add: pad_count_Suc)
  have "mmo_repr aes (mmo_update_padding aes [0x80] h) (m @ [0x80])"
    using mmo_update_padding_repr [OF assms(1)] .
  then have "mmo_repr aes (mmo_pad_loop 16 aes t (mmo_update_padding aes [0x80] h)) ((m @ [0x80]) @ replicate z 0)"
    unfolding z_def using t by (intro mmo_pad_loop_ends) (auto split: if_splits)
  then have r: "mmo_repr aes (mmo_update_padding aes (take (16 - t) enc)
      (mmo_pad_loop 16 aes t (mmo_update_padding aes [0x80] h))) (mmo_pad m)"
    using mmo_update_padding_repr enc t z by (fastforce simp: mmo_pad_def Let_def)
  have "length (mmo_pad m) mod 16 = 0" by (rule length_mmo_pad)
  then have "mh_state (mmo_update_padding aes (take (16 - t) enc)
      (mmo_pad_loop 16 aes t (mmo_update_padding aes [0x80] h))) = mmo_spec aes m"
    using r mmo_blocks_foldl [of "mmo_pad m" aes zero_block] by (simp add: mmo_repr_def mmo_spec_def)
  then show ?thesis by (simp add: mmo_finalize_def te assms(2) Let_def)
qed

lemma mmo_hash_spec: "8 * length m < 2 ^ 32 \<Longrightarrow> mmo_hash aes m = mmo_spec aes m"
  unfolding mmo_hash_def
  by (rule mmo_finalize_spec) (use mmo_update_repr [OF mmo_repr_new, of aes m] in \<open>auto simp: mmo_new_def\<close>)

text \<open>The octets fed to a hasher in any number of pieces.\<close>

definition mmo_hash_pieces :: "cipher_fn \<Rightarrow> bytes list \<Rightarrow> bytes" where
  "mmo_hash_pieces aes ds = mmo_finalize aes (fold (mmo_update aes) ds mmo_new)"

lemma mmo_pieces_repr:
  "mmo_repr aes h m \<Longrightarrow> mmo_repr aes (fold (mmo_update aes) ds h) (m @ concat ds)"
proof (induction ds arbitrary: h m)
  case (Cons d ds)
  from Cons.IH [OF mmo_update_repr [OF Cons.prems, of d]] show ?case by simp
qed simp

lemma mmo_pieces_total: "mh_total_len (fold (mmo_update aes) ds h) = mh_total_len h + length (concat ds)"
  by (induction ds arbitrary: h) auto

text \<open>
  C30: However a message is cut into pieces, the incremental hasher computes the AES-MMO hash of the
  specification: for messages below \<open>2\<^sup>32\<close> bits, feeding the pieces with \<^verbatim>\<open>update\<close> and calling
  \<^verbatim>\<open>finalize\<close> gives the Matyas-Meyer-Oseas chain over the padded concatenation, with the short padding
  below 8192 octets and the long padding from there on.
\<close>

theorem mmo_pieces_hash:
  assumes "8 * length (concat ds) < 2 ^ 32"
  shows "mmo_hash_pieces aes ds = mmo_spec aes (concat ds)"
  unfolding mmo_hash_pieces_def
  by (rule mmo_finalize_spec)
     (use mmo_pieces_repr [OF mmo_repr_new, of aes ds] assms in
       \<open>auto simp: mmo_pieces_total mmo_new_def\<close>)

theorem mmo_pieces_hash_witness:
  "mmo_hash_pieces (\<lambda>k b. map2 (XOR) k b) [[1, 2], [], [3]] = mmo_spec (\<lambda>k b. map2 (XOR) k b) [1, 2, 3]"
  using mmo_pieces_hash [of "[[1, 2], [], [3]]" "\<lambda>k b. map2 (XOR) k b"] by simp

definition hmac_key :: "cipher_fn \<Rightarrow> bytes \<Rightarrow> bytes" where
  "hmac_key aes key =
     (if 16 < length key then mmo_spec aes key else key @ replicate (16 - length key) 0)"

definition cipher_ok :: "cipher_fn \<Rightarrow> bool" where
  "cipher_ok aes \<longleftrightarrow> (\<forall>k. length k = 16 \<longrightarrow> block_fn (aes k))"

lemma length_blocks16: "length xs mod 16 = 0 \<Longrightarrow> b \<in> set (blocks16 xs) \<Longrightarrow> length b = 16"
proof (induction xs rule: blocks16.induct)
  case (1 xs)
  then have ne: "xs \<noteq> []" by (auto simp: blocks16.simps)
  then have "16 \<le> length xs" using 1(2) by (auto simp: mod_eq_0_iff_dvd dvd_imp_le)
  moreover have "b = take 16 xs \<or> b \<in> set (blocks16 (drop 16 xs))"
    using 1(3) ne by (subst (asm) blocks16.simps) simp
  ultimately show ?case using 1 ne by (auto simp: le_mod_geq)
qed

lemma length_mmo_spec:
  assumes "cipher_ok aes"
  shows "length (mmo_spec aes m) = 16"
proof -
  have "(\<forall>b \<in> set bs. length b = 16) \<Longrightarrow> length st = 16 \<Longrightarrow> length (foldl (mmo_compress aes) st bs) = 16"
    for bs st
    using assms by (induction bs arbitrary: st) (auto simp: mmo_compress_def cipher_ok_def block_fn_def)
  then show ?thesis
    using length_blocks16 [OF length_mmo_pad] by (simp add: mmo_spec_def)
qed

lemma length_hmac_key: "cipher_ok aes \<Longrightarrow> length (hmac_key aes key) = 16"
  by (simp add: hmac_key_def length_mmo_spec)

text \<open>
  C31: \<^verbatim>\<open>hmac\<close> is the keyed hash of FIPS 198 over that hash: the key, hashed first when it is longer
  than a block and zero-padded otherwise, is XORed with the two pads, and the two nested hashes are
  taken over pad and data.
\<close>

theorem mmo_hmac_spec:
  assumes "cipher_ok aes" "length key < 2 ^ 29" "length data < 2 ^ 28"
  shows "mmo_hmac aes key data =
           mmo_spec aes (map (\<lambda>b. b XOR 0x5C) (hmac_key aes key) @
             mmo_spec aes (map (\<lambda>b. b XOR 0x36) (hmac_key aes key) @ data))"
proof -
  have two: "mmo_finalize aes (mmo_update aes b (mmo_update aes a mmo_new)) = mmo_spec aes (a @ b)"
    if "8 * length (a @ b) < 2 ^ 32" for a b
    using mmo_update_repr [OF mmo_update_repr [OF mmo_repr_new, of aes a], of b] that
    by (intro mmo_finalize_spec) (auto simp: mmo_new_def)
  have k: "(if 16 < length key then mmo_hash aes key else copy_prefix zero_block key) = hmac_key aes key"
    using assms(2) by (auto simp: hmac_key_def mmo_hash_spec copy_prefix_eq zero_block_def)
  show ?thesis
    using assms by (simp add: mmo_hmac_def Let_def k two length_hmac_key length_mmo_spec)
qed

theorem mmo_hmac_spec_witness:
  "mmo_hmac (\<lambda>k b. map2 (XOR) k b) [1, 2] [3] =
     mmo_spec (\<lambda>k b. map2 (XOR) k b) (map (\<lambda>b. b XOR 0x5C) (hmac_key (\<lambda>k b. map2 (XOR) k b) [1, 2]) @
       mmo_spec (\<lambda>k b. map2 (XOR) k b) (map (\<lambda>b. b XOR 0x36) (hmac_key (\<lambda>k b. map2 (XOR) k b) [1, 2]) @ [3]))"
  by (rule mmo_hmac_spec) (simp_all add: cipher_ok_def block_fn_def)

section \<open>The frame counter challenge\<close>

definition challenge_key :: "key128 \<Rightarrow> u32 \<Rightarrow> key128" where
  "challenge_key link_key outgoing =
     (let fc = le_bytes 4 outgoing in
      link_key[0 := link_key ! 0 XOR fc ! 0, 4 := link_key ! 4 XOR fc ! 1,
               8 := link_key ! 8 XOR fc ! 2, 12 := link_key ! 12 XOR fc ! 3])"

definition challenge_nonce :: "extended_address \<Rightarrow> u32 \<Rightarrow> bytes" where
  "challenge_nonce responder challenge_fc =
     le_bytes 8 responder @ le_bytes 4 challenge_fc @
     [control_raw \<lparr>sc_level = Mic64, sc_key_id = KeyData, sc_extended_nonce = False\<rparr>]"

definition response_authenticated_octets :: "extended_address \<Rightarrow> u64 \<Rightarrow> u32 \<Rightarrow> bytes" where
  "response_authenticated_octets responder challenge aps_fc =
     [0, 23] @ le_bytes 8 responder @ le_bytes 8 challenge @ le_bytes 4 aps_fc"

definition challenge_mic ::
  "cipher_fn \<Rightarrow> key128 \<Rightarrow> u32 \<Rightarrow> extended_address \<Rightarrow> u32 \<Rightarrow> bytes \<Rightarrow> bytes" where
  "challenge_mic aes link_key outgoing responder challenge_fc authenticated =
     snd (snd (encrypt_in_place (aes (challenge_key link_key outgoing))
       (challenge_nonce responder challenge_fc) authenticated [] (replicate 8 0)))"

lemma challenge_key_inj:
  assumes "challenge_key k a = challenge_key k b" "length k = 16"
  shows "a = b"
proof -
  have x: "challenge_key k a ! i = challenge_key k b ! i" for i using assms(1) by simp
  have "le_bytes 4 a ! j = le_bytes 4 b ! j" if "j < 4" for j
  proof -
    have "k ! (4 * j) XOR le_bytes 4 a ! j = k ! (4 * j) XOR le_bytes 4 b ! j"
      using x [of "4 * j"] that assms(2)
      by (auto simp: challenge_key_def Let_def less_Suc_eq numeral_eq_Suc)
    then show ?thesis by (simp add: xor.commute [of "k ! (4 * j)"] xor_right_cancel)
  qed
  then have "le_bytes 4 a = le_bytes 4 b" by (intro nth_equalityI) auto
  then show ?thesis by (rule le_bytes_inj) simp
qed

end
