(* ===== verification/NwkSecurity.thy ===== *)
theory NwkSecurity
  imports Material Mmo
begin

text \<open>
  NWK frame security, \<^verbatim>\<open>panweave-nwk/src/security.rs\<close>: the network keys, the incoming counters and the
  two cached cipher instances, with the handlers that secure outgoing and unsecure incoming frames.
\<close>

section \<open>State and handlers\<close>

record nwk_security =
  ns_keys :: network_keys
  ns_incoming :: incoming_counters
  ns_ciphers :: "(key_sequence \<times> block_fn) option list"

record unsecured =
  un_sender :: extended_address
  un_key_sequence :: key_sequence
  un_frame_counter :: frame_counter
  un_payload_start :: nat
  un_payload_end :: nat

definition ns_new :: "nat \<Rightarrow> nwk_security" where
  "ns_new cap = \<lparr>ns_keys = network_keys_new, ns_incoming = incoming_new cap, ns_ciphers = [None, None]\<rparr>"

definition install_active_key :: "key_sequence \<Rightarrow> key128 \<Rightarrow> nwk_security \<Rightarrow> nwk_security" where
  "install_active_key sequence key s =
     s\<lparr>ns_keys := nk_install_active sequence key (ns_keys s), ns_ciphers := [None, None]\<rparr>"

definition install_key :: "key_sequence \<Rightarrow> key128 \<Rightarrow> nwk_security \<Rightarrow> nwk_security" where
  "install_key sequence key s =
     s\<lparr>ns_keys := nk_install sequence key (ns_keys s), ns_ciphers := [None, None]\<rparr>"

definition switch_key :: "key_sequence \<Rightarrow> nwk_security \<Rightarrow> bool \<times> nwk_security" where
  "switch_key sequence s =
     (if nk_active (ns_keys s) = Some sequence then (True, s)
      else case nk_switch_to sequence (ns_keys s) of
             (False, ks) \<Rightarrow> (False, s\<lparr>ns_keys := ks\<rparr>)
           | (True, ks) \<Rightarrow> (True, s\<lparr>ns_keys := ks, ns_incoming := incoming_reset_all (ns_incoming s)\<rparr>))"

definition clear_keys :: "nwk_security \<Rightarrow> nwk_security" where
  "clear_keys s =
     s\<lparr>ns_keys := nk_clear_keys (ns_keys s), ns_incoming := incoming_reset_all (ns_incoming s),
       ns_ciphers := [None, None]\<rparr>"

definition cached_for :: "key_sequence \<Rightarrow> (key_sequence \<times> block_fn) option \<Rightarrow> bool" where
  "cached_for sequence c = (case c of Some (q, _) \<Rightarrow> q = sequence | None \<Rightarrow> False)"

definition cipher_for :: "cipher_fn \<Rightarrow> key_sequence \<Rightarrow> nwk_security \<Rightarrow> block_fn option \<times> nwk_security" where
  "cipher_for aes sequence s =
     (case position (cached_for sequence) (ns_ciphers s) of
        Some i \<Rightarrow> (map_option snd (ns_ciphers s ! i), s)
      | None \<Rightarrow>
          (case nk_get sequence (ns_keys s) of
             None \<Rightarrow> (None, s)
           | Some k \<Rightarrow>
               (let slot = (case position Option.is_none (ns_ciphers s) of Some i \<Rightarrow> i | None \<Rightarrow> 1);
                    c = aes (nk_key k)
                in (Some c, s\<lparr>ns_ciphers := (ns_ciphers s)[slot := Some (sequence, c)]\<rparr>))))"

definition ns_update_outgoing :: "(outgoing_counter \<Rightarrow> outgoing_counter) \<Rightarrow> nwk_security \<Rightarrow> nwk_security" where
  "ns_update_outgoing f s = s\<lparr>ns_keys := (ns_keys s)\<lparr>nk_outgoing := f (nk_outgoing (ns_keys s))\<rparr>\<rparr>"

definition ns_start_counter_reservation :: "nwk_security \<Rightarrow> u32 option \<times> nwk_security" where
  "ns_start_counter_reservation s =
     (fst (start_reservation (nk_outgoing (ns_keys s))),
      ns_update_outgoing (\<lambda>c. snd (start_reservation c)) s)"

definition ns_commit_counter_reservation :: "u32 \<Rightarrow> nwk_security \<Rightarrow> nwk_security" where
  "ns_commit_counter_reservation r = ns_update_outgoing (commit_reservation r)"

definition ns_abort_counter_reservation :: "nwk_security \<Rightarrow> nwk_security" where
  "ns_abort_counter_reservation = ns_update_outgoing abort_reservation"

definition ns_restore_outgoing_counter :: "u32 \<Rightarrow> nwk_security \<Rightarrow> nwk_security" where
  "ns_restore_outgoing_counter bound = ns_update_outgoing (\<lambda>_. oc_restore bound)"

text \<open>The two handlers return their result, the security state and the frame buffer.\<close>

definition secure_outgoing ::
  "cipher_fn \<Rightarrow> nat \<Rightarrow> nat \<Rightarrow> security_level \<Rightarrow> extended_address \<Rightarrow> nwk_security \<Rightarrow> bytes
     \<Rightarrow> (security_error + nat) \<times> nwk_security \<times> bytes" where
  "secure_outgoing aes header_len payload_len level local_ieee s0 buf =
     (case nk_active (ns_keys s0) of
        None \<Rightarrow> (Inl NoKey, s0, buf)
      | Some sequence \<Rightarrow>
          (let (counter, oc) = allocate (nk_outgoing (ns_keys s0));
               s1 = ns_update_outgoing (\<lambda>_. oc) s0
           in case counter of
                Inl _ \<Rightarrow> (Inl FrameCounterUnavailable, s1, buf)
              | Inr fc \<Rightarrow>
                  (let aux = aux_network level fc local_ieee sequence in
                   case cipher_for aes sequence s1 of
                     (None, s2) \<Rightarrow> (Inl NoKey, s2, buf)
                   | (Some E, s2) \<Rightarrow>
                       (let (res, buf') = protect_in_place E aux local_ieee header_len payload_len buf
                        in (res, s2, buf')))))"

definition unsecure_incoming ::
  "cipher_fn \<Rightarrow> nat \<Rightarrow> security_level \<Rightarrow> bool \<Rightarrow> nwk_security \<Rightarrow> bytes
     \<Rightarrow> (security_error + unsecured) \<times> nwk_security \<times> bytes" where
  "unsecure_incoming aes header_len level all_fresh s buf =
     (case peek_aux buf header_len of
        Inl e \<Rightarrow> (Inl e, s, buf)
      | Inr aux \<Rightarrow>
          (case ah_key_sequence aux of
             None \<Rightarrow> (Inl MalformedFrame, s, buf)
           | Some sequence \<Rightarrow>
               (case ah_source aux of
                  None \<Rightarrow> (Inl MalformedFrame, s, buf)
                | Some sender \<Rightarrow>
                    if ah_frame_counter aux = U32_MAX then (Inl BadFrameCounter, s, buf)
                    else if \<not> is_fresh sender (ah_frame_counter aux) (ns_incoming s)
                    then (Inl BadFrameCounter, s, buf)
                    else case cipher_for aes sequence s of
                      (None, s1) \<Rightarrow> (Inl NoKey, s1, buf)
                    | (Some E, s1) \<Rightarrow>
                        (case unprotect_in_place E level sender header_len buf of
                           (Inl e, buf') \<Rightarrow> (Inl e, s1, buf')
                         | (Inr u, buf') \<Rightarrow>
                             (let (res, inc) = check_and_update sender (ah_frame_counter aux) all_fresh (ns_incoming s1);
                                  s2 = s1\<lparr>ns_incoming := inc\<rparr>
                              in case res of
                                   Inl TableFull \<Rightarrow> (Inl PolicyRejected, s2, buf')
                                 | Inl _ \<Rightarrow> (Inl BadFrameCounter, s2, buf')
                                 | Inr _ \<Rightarrow>
                                     (Inr \<lparr>un_sender = sender, un_key_sequence = sequence,
                                           un_frame_counter = ah_frame_counter aux,
                                           un_payload_start = up_payload_start u,
                                           un_payload_end = up_payload_end u\<rparr>, s2, buf'))))))"

section \<open>Invariant: the cached ciphers belong to the installed keys\<close>

definition ns_inv :: "cipher_fn \<Rightarrow> nwk_security \<Rightarrow> bool" where
  "ns_inv aes s \<longleftrightarrow>
     nk_inv (ns_keys s) \<and> ic_inv (ns_incoming s) \<and> length (ns_ciphers s) = 2 \<and>
     (\<forall>q E. Some (q, E) \<in> set (ns_ciphers s) \<longrightarrow>
        map_option (\<lambda>k. aes (nk_key k)) (nk_get q (ns_keys s)) = Some E)"

lemma ns_inv_new: "ns_inv aes (ns_new cap)"
  by (simp add: ns_inv_def ns_new_def nk_inv_new ic_inv_def incoming_new_def)

lemma ns_inv_install:
  "ns_inv aes s \<Longrightarrow> ns_inv aes (install_active_key q k s)"
  "ns_inv aes s \<Longrightarrow> ns_inv aes (install_key q k s)"
  by (auto simp: ns_inv_def install_active_key_def install_key_def nk_inv_install_active nk_install_cases(1))

lemma ns_inv_clear: "ns_inv aes s \<Longrightarrow> ns_inv aes (clear_keys s)"
  by (auto simp: ns_inv_def clear_keys_def nk_inv_clear ic_inv_def incoming_reset_all_def)

lemma nk_switch_slots: "nk_slots (snd (nk_switch_to q ks)) = nk_slots ks"
  by (simp add: nk_switch_to_def)

lemma ns_inv_switch:
  assumes "ns_inv aes s"
  shows "ns_inv aes (snd (switch_key q s))"
proof -
  obtain ok ks where sw: "nk_switch_to q (ns_keys s) = (ok, ks)" by fastforce
  have "nk_inv ks" using assms nk_inv_switch [of "ns_keys s" q] sw by (simp add: ns_inv_def)
  moreover have "nk_slots ks = nk_slots (ns_keys s)" using nk_switch_slots [of q "ns_keys s"] sw by simp
  ultimately show ?thesis
    using assms sw
    by (cases ok) (auto simp: switch_key_def ns_inv_def nk_get_def ic_inv_def incoming_reset_all_def)
qed

lemma ns_inv_outgoing:
  "ns_inv aes s \<Longrightarrow> oc_inv (f (nk_outgoing (ns_keys s))) \<Longrightarrow> ns_inv aes (ns_update_outgoing f s)"
  by (auto simp: ns_inv_def ns_update_outgoing_def nk_inv_def nk_get_def)

lemma cipher_for_correct:
  assumes "ns_inv aes s"
  shows "fst (cipher_for aes q s) = map_option (\<lambda>k. aes (nk_key k)) (nk_get q (ns_keys s))"
    and "ns_inv aes (snd (cipher_for aes q s))"
    and "ns_keys (snd (cipher_for aes q s)) = ns_keys s"
    and "ns_incoming (snd (cipher_for aes q s)) = ns_incoming s"
proof -
  have "fst (cipher_for aes q s) = map_option (\<lambda>k. aes (nk_key k)) (nk_get q (ns_keys s)) \<and>
        ns_inv aes (snd (cipher_for aes q s))"
  proof (cases "position (cached_for q) (ns_ciphers s)")
    case (Some i)
    then have i: "i < length (ns_ciphers s)" "cached_for q (ns_ciphers s ! i)"
      using position_Some by blast+
    then obtain E where E: "ns_ciphers s ! i = Some (q, E)"
      by (auto simp: cached_for_def split: option.splits)
    with i(1) have "Some (q, E) \<in> set (ns_ciphers s)" by (metis nth_mem)
    then have "map_option (\<lambda>k. aes (nk_key k)) (nk_get q (ns_keys s)) = Some E"
      using assms unfolding ns_inv_def by blast
    with assms E Some show ?thesis by (auto simp: cipher_for_def)
  next
    case None
    with assms show ?thesis
      by (auto simp: cipher_for_def ns_inv_def Let_def split: option.split dest!: set_update_subset_insert [THEN subsetD])
  qed
  then show "fst (cipher_for aes q s) = map_option (\<lambda>k. aes (nk_key k)) (nk_get q (ns_keys s))"
    "ns_inv aes (snd (cipher_for aes q s))" by blast+
  show "ns_keys (snd (cipher_for aes q s)) = ns_keys s" "ns_incoming (snd (cipher_for aes q s)) = ns_incoming s"
    by (simp_all add: cipher_for_def Let_def split: option.split)
qed

lemma ns_inv_secure_outgoing:
  assumes "ns_inv aes s"
  shows "ns_inv aes (fst (snd (secure_outgoing aes hl pl level me s buf)))"
proof -
  define s1 where "s1 = ns_update_outgoing (\<lambda>_. snd (allocate (nk_outgoing (ns_keys s)))) s"
  have s1: "ns_inv aes s1"
    unfolding s1_def using assms by (intro ns_inv_outgoing oc_inv_allocate) (auto simp: ns_inv_def nk_inv_def)
  have "ns_inv aes (snd (cipher_for aes q s1))" for q
    using cipher_for_correct(2) [OF s1] .
  then show ?thesis
    using assms s1
    by (auto simp: secure_outgoing_def Let_def s1_def split: option.split prod.split sum.split)
       (metis snd_conv)+
qed

lemma ns_inv_unsecure_incoming:
  assumes "ns_inv aes s"
  shows "ns_inv aes (fst (snd (unsecure_incoming aes hl level fresh s buf)))"
proof -
  have c: "ns_inv aes (snd (cipher_for aes q s))" for q
    using cipher_for_correct(2) [OF assms] .
  have upd: "ns_inv aes (t\<lparr>ns_incoming := snd (check_and_update q r fresh (ns_incoming t))\<rparr>)"
    if "ns_inv aes t" for t q r
    using that ic_inv_check_and_update by (auto simp: ns_inv_def)
  show ?thesis
    unfolding unsecure_incoming_def
    using assms c upd
    by (auto simp: Let_def split: option.split prod.split sum.split freshness_error.split) (metis snd_conv)+
qed

section \<open>From one node to another\<close>

lemma peek_air:
  assumes "aux_wf aux"
  shows "peek_aux (H @ air_octets aux @ X) (length H) = Inr (aux\<lparr>ah_control := with_level (ah_control aux) LevelNone\<rparr>)"
proof -
  have "with_level (control_from_raw (control_raw (ah_control aux) AND NOT 7)) (sc_level (ah_control aux)) = ah_control aux"
    by (simp only: control_from_cleared with_level_simps)
  from peek_aux_relabelled [OF assms this, of H X] show ?thesis
    by (simp only: air_octets_relabelled control_from_cleared)
qed

lemma check_and_update_fresh_ok:
  assumes "is_fresh q r t" "ic_entry t q \<noteq> None \<or> length (ic_entries t) < ic_cap t"
  shows "\<exists>t'. check_and_update q r True t = (Inr (), t')"
  using assms by (auto simp: check_and_update_def is_fresh_def vec_push_def not_less split: option.splits)

lemma replay_not_fresh:
  assumes "check_and_update q r True t = (Inr (), t')"
  shows "\<not> is_fresh q r t'"
proof -
  have "incoming_get q t' = Some (r + 1)" "r \<noteq> U32_MAX"
    using incoming_get_after_accept [OF assms] by blast+
  moreover have "r < r + 1"
    using calculation(2) word_less_incr [of r U32_MAX] by (auto simp: order.strict_iff_order)
  ultimately show ?thesis by (auto simp: incoming_get_def is_fresh_def)
qed

lemma secure_outgoing_layout:
  assumes inv: "ns_inv aes tx" and act: "nk_active (ns_keys tx) = Some q"
    and fc: "allocate (nk_outgoing (ns_keys tx)) = (Inr fc, oc)"
    and key: "nk_get q (ns_keys tx) = Some slot" "block_fn (aes (nk_key slot))"
    and lay: "length S = 14" "length M = mic_len level" "frame_limits level H (aux_network level fc me q) P"
  shows "\<exists>tx'. secure_outgoing aes (length H) (length P) level me tx (H @ S @ P @ M @ R) =
    (Inr (length (H @ S @ P @ M)), tx',
     H @ air_octets (aux_network level fc me q) @
     seal_payload (aes (nk_key slot)) (aux_network level fc me q) me H P @ R)"
proof -
  define aux where "aux = aux_network level fc me q"
  have aux: "aux_wf aux" "aux_encoded_len aux = 14" "sc_level (ah_control aux) = level"
    by (simp_all add: aux_def) (simp add: aux_network_def)
  define s1 where "s1 = ns_update_outgoing (\<lambda>_. oc) tx"
  have "oc_inv oc" using oc_inv_allocate [of "nk_outgoing (ns_keys tx)"] inv fc by (simp add: ns_inv_def nk_inv_def)
  then have s1: "ns_inv aes s1" unfolding s1_def by (intro ns_inv_outgoing inv)
  have "nk_get q (ns_keys s1) = Some slot"
    using key(1) by (simp add: s1_def ns_update_outgoing_def nk_get_def)
  then obtain s2 where "cipher_for aes q s1 = (Some (aes (nk_key slot)), s2)"
    using cipher_for_correct(1) [OF s1, of q] by (metis option.simps(9) prod.collapse)
  then show ?thesis
    using protect_layout [OF key(2) aux(1), of S M H P me R] lay act fc
    by (simp add: secure_outgoing_def Let_def aux aux_def [symmetric] flip: s1_def)
qed


text \<open>A node that joined with one key and committed its first reservation.\<close>

definition example_node :: nwk_security where
  "example_node =
     ns_commit_counter_reservation 1024 (install_active_key 0 (replicate 16 3) (ns_new 4))"

lemma example_node_inv: "ns_inv aes example_node"
  unfolding example_node_def ns_commit_counter_reservation_def
  by (intro ns_inv_outgoing ns_inv_install ns_inv_new)
     (simp add: install_active_key_def nk_install_active_def nk_install_def ns_new_def
        network_keys_new_def oc_inv_def oc_defs Let_def)


end
