(* ===== verification/ApsSecurity.thy ===== *)
theory ApsSecurity
  imports NwkSecurity
begin

text \<open>
  APS frame security, \<^verbatim>\<open>panweave-aps/src/security.rs\<close>: the device key-pair set with its cached ciphers,
  the handlers that secure and unsecure APS frames, the frame counter challenge and the Trust Center
  swap-out.
\<close>

section \<open>State\<close>

datatype secure_error = SecureNoKey | CounterPending | CounterExhausted | SecurityFailed security_error

record aps_security =
  as_keys :: link_key_table
  as_ciphers :: "(extended_address \<times> key_identifier \<times> block_fn) option list"
  as_next_slot :: nat

record aps_unsecured =
  au_partner :: extended_address
  au_key_id :: key_identifier
  au_extended_nonce :: bool
  au_frame_counter :: frame_counter
  au_kind :: link_key_kind
  au_attributes :: key_attributes
  au_payload_start :: nat
  au_payload_end :: nat

definition as_new :: "nat \<Rightarrow> aps_security" where
  "as_new cap = \<lparr>as_keys = \<lparr>lt_cap = cap, lt_entries = []\<rparr>, as_ciphers = [None, None], as_next_slot = 0\<rparr>"

definition drop_ciphers :: "aps_security \<Rightarrow> aps_security" where
  "drop_ciphers s = s\<lparr>as_ciphers := [None, None]\<rparr>"

definition as_install :: "link_key_entry \<Rightarrow> (aps_security, link_key_entry, unit) step" where
  "as_install e s =
     (let s1 = drop_ciphers s;
          k1 = snd (lt_remove (lk_partner e) (as_keys s1));
          (res, k2) = lt_insert e k1
      in (res, s1\<lparr>as_keys := k2\<rparr>))"

definition replace_key ::
  "extended_address \<Rightarrow> key128 \<Rightarrow> key_attributes \<Rightarrow> link_key_kind \<Rightarrow> aps_security \<Rightarrow> bool \<times> aps_security" where
  "replace_key partner key attributes kind s =
     (let s1 = drop_ciphers s in
      case lt_get partner (as_keys s1) of
        Some _ \<Rightarrow> (True, s1\<lparr>as_keys := lt_update partner (\<lambda>e. e\<lparr>lk_key := key, lk_attributes := attributes,
                     lk_kind := kind, lk_incoming := 0, lk_outgoing := oc_new\<rparr>) (as_keys s1)\<rparr>)
      | None \<Rightarrow> (False, s1))"

definition as_rename :: "extended_address \<Rightarrow> extended_address \<Rightarrow> aps_security \<Rightarrow> bool \<times> aps_security" where
  "as_rename from_addr to_addr s =
     (if from_addr = to_addr then (True, s)
      else if lt_get from_addr (as_keys s) = None then (False, s)
      else let s1 = drop_ciphers s;
               k1 = snd (lt_remove to_addr (as_keys s1))
           in case lt_get from_addr k1 of
                Some _ \<Rightarrow> (True, s1\<lparr>as_keys := lt_update from_addr (\<lambda>e. e\<lparr>lk_partner := to_addr\<rparr>) k1\<rparr>)
              | None \<Rightarrow> (False, s1\<lparr>as_keys := k1\<rparr>))"

definition as_remove :: "extended_address \<Rightarrow> aps_security \<Rightarrow> bool \<times> aps_security" where
  "as_remove partner s =
     (let s1 = drop_ciphers s; (res, k) = lt_remove partner (as_keys s1) in (res, s1\<lparr>as_keys := k\<rparr>))"

definition set_attributes :: "extended_address \<Rightarrow> key_attributes \<Rightarrow> aps_security \<Rightarrow> bool \<times> aps_security" where
  "set_attributes partner attributes s =
     (case lt_get partner (as_keys s) of
        Some _ \<Rightarrow> (True, s\<lparr>as_keys := lt_update partner (\<lambda>e. e\<lparr>lk_attributes := attributes\<rparr>) (as_keys s)\<rparr>)
      | None \<Rightarrow> (False, s))"

definition reset_incoming :: "extended_address \<Rightarrow> aps_security \<Rightarrow> aps_security" where
  "reset_incoming partner s = s\<lparr>as_keys := lt_update partner (\<lambda>e. e\<lparr>lk_incoming := 0\<rparr>) (as_keys s)\<rparr>"

section \<open>The frame counter challenge\<close>

definition answer_challenge ::
  "cipher_fn \<Rightarrow> extended_address \<Rightarrow> extended_address \<Rightarrow> u64 \<Rightarrow> aps_security
     \<Rightarrow> (u32 \<times> u32 \<times> bytes) option \<times> aps_security" where
  "answer_challenge aes local partner challenge s =
     (case lt_get partner (as_keys s) of
        None \<Rightarrow> (None, s)
      | Some e \<Rightarrow>
          (let outgoing = oc_next (lk_outgoing e);
               challenge_fc = lk_challenge_frame_counter e;
               s1 = s\<lparr>as_keys := lt_update partner
                     (\<lambda>e. e\<lparr>lk_challenge_frame_counter := lk_challenge_frame_counter e + 1\<rparr>) (as_keys s)\<rparr>;
               aad = response_authenticated_octets local challenge outgoing;
               mic = challenge_mic aes (lk_key e) outgoing local challenge_fc aad
           in (Some (outgoing, challenge_fc, mic), s1)))"

definition validate_challenge ::
  "cipher_fn \<Rightarrow> extended_address \<Rightarrow> u64 \<Rightarrow> u32 \<Rightarrow> u32 \<Rightarrow> bytes \<Rightarrow> aps_security \<Rightarrow> bool \<times> aps_security" where
  "validate_challenge aes partner challenge aps_fc challenge_fc mic s =
     (case lt_get partner (as_keys s) of
        None \<Rightarrow> (False, s)
      | Some e \<Rightarrow>
          (let aad = response_authenticated_octets partner challenge aps_fc;
               expected = challenge_mic aes (lk_key e) aps_fc partner challenge_fc aad
           in if expected \<noteq> mic then (False, s)
              else (True, s\<lparr>as_keys := lt_update partner
                      (\<lambda>e. e\<lparr>lk_incoming := aps_fc, lk_verified_frame_counter := True\<rparr>) (as_keys s)\<rparr>)))"

definition invalidate_frame_counters :: "aps_security \<Rightarrow> aps_security" where
  "invalidate_frame_counters s =
     s\<lparr>as_keys := (as_keys s)\<lparr>lt_entries :=
         map (\<lambda>e. e\<lparr>lk_verified_frame_counter := False, lk_challenge_frame_counter := 0\<rparr>) (lt_entries (as_keys s))\<rparr>\<rparr>"

section \<open>Counter reservations\<close>

text \<open>The loop stops at the first entry that starts a reservation.\<close>

fun start_first :: "link_key_entry list \<Rightarrow> (extended_address \<times> u32) option \<times> link_key_entry list" where
  "start_first [] = (None, [])"
| "start_first (e # es) =
     (case start_reservation (lk_outgoing e) of
        (Some r, oc) \<Rightarrow> (Some (lk_partner e, r), e\<lparr>lk_outgoing := oc\<rparr> # es)
      | (None, oc) \<Rightarrow> (let (res, es') = start_first es in (res, e\<lparr>lk_outgoing := oc\<rparr> # es')))"

definition as_start_counter_reservation :: "aps_security \<Rightarrow> (extended_address \<times> u32) option \<times> aps_security" where
  "as_start_counter_reservation s =
     (let (res, es) = start_first (lt_entries (as_keys s))
      in (res, s\<lparr>as_keys := (as_keys s)\<lparr>lt_entries := es\<rparr>\<rparr>))"

definition as_commit_counter_reservation :: "extended_address \<Rightarrow> u32 \<Rightarrow> aps_security \<Rightarrow> aps_security" where
  "as_commit_counter_reservation partner r s =
     s\<lparr>as_keys := lt_update partner (\<lambda>e. e\<lparr>lk_outgoing := commit_reservation r (lk_outgoing e)\<rparr>) (as_keys s)\<rparr>"

definition as_abort_counter_reservation :: "extended_address \<Rightarrow> aps_security \<Rightarrow> aps_security" where
  "as_abort_counter_reservation partner s =
     s\<lparr>as_keys := lt_update partner (\<lambda>e. e\<lparr>lk_outgoing := abort_reservation (lk_outgoing e)\<rparr>) (as_keys s)\<rparr>"

section \<open>Securing and unsecuring\<close>

definition derived_key :: "cipher_fn \<Rightarrow> key_identifier \<Rightarrow> key128 \<Rightarrow> key128 option" where
  "derived_key aes key_id key =
     (case key_id of KeyData \<Rightarrow> Some key | KeyTransport \<Rightarrow> Some (key_transport_key aes key)
      | KeyLoad \<Rightarrow> Some (key_load_key aes key) | KeyNetwork \<Rightarrow> None)"

definition as_cached :: "extended_address \<Rightarrow> key_identifier \<Rightarrow> (extended_address \<times> key_identifier \<times> block_fn) option \<Rightarrow> bool" where
  "as_cached partner key_id c = (case c of Some (p, k, _) \<Rightarrow> p = partner \<and> k = key_id | None \<Rightarrow> False)"

definition as_cipher_for ::
  "cipher_fn \<Rightarrow> extended_address \<Rightarrow> key_identifier \<Rightarrow> aps_security \<Rightarrow> block_fn option \<times> aps_security" where
  "as_cipher_for aes partner key_id s =
     (case position (as_cached partner key_id) (as_ciphers s) of
        Some i \<Rightarrow> (map_option (snd \<circ> snd) (as_ciphers s ! i), s)
      | None \<Rightarrow>
          (case lt_get partner (as_keys s) of
             None \<Rightarrow> (None, s)
           | Some entry \<Rightarrow>
               (case derived_key aes key_id (lk_key entry) of
                  None \<Rightarrow> (None, s)
                | Some key \<Rightarrow>
                    (let slot = as_next_slot s mod 2; c = aes key
                     in (Some c, s\<lparr>as_next_slot := as_next_slot s + 1,
                                   as_ciphers := (as_ciphers s)[slot := Some (partner, key_id, c)]\<rparr>)))))"

definition swap_out_key :: "cipher_fn \<Rightarrow> extended_address \<Rightarrow> aps_security \<Rightarrow> key128 option" where
  "swap_out_key aes partner s = map_option (\<lambda>e. mmo_hash aes (lk_key e)) (lt_get partner (as_keys s))"

definition unsecure_swap_out ::
  "cipher_fn \<Rightarrow> nat \<Rightarrow> security_level \<Rightarrow> extended_address \<Rightarrow> aps_security \<Rightarrow> bytes
     \<Rightarrow> (security_error + (extended_address \<times> key_identifier \<times> nat \<times> nat)) \<times> aps_security \<times> bytes" where
  "unsecure_swap_out aes header_len level trust_center s buf =
     (case peek_aux buf header_len of
        Inl e \<Rightarrow> (Inl e, s, buf)
      | Inr aux \<Rightarrow>
          (case ah_source aux of
             None \<Rightarrow> (Inl NoKey, s, buf)
           | Some source \<Rightarrow>
               if sc_key_id (ah_control aux) = KeyNetwork \<or> source = trust_center
               then (Inl PolicyRejected, s, buf)
               else case swap_out_key aes trust_center s of
                 None \<Rightarrow> (Inl NoKey, s, buf)
               | Some hashed \<Rightarrow>
                   (case derived_key aes (sc_key_id (ah_control aux)) hashed of
                      None \<Rightarrow> (Inl PolicyRejected, s, buf)
                    | Some derived \<Rightarrow>
                        (case unprotect_in_place (aes derived) level source header_len buf of
                           (Inl e, buf') \<Rightarrow> (Inl e, s, buf')
                         | (Inr u, buf') \<Rightarrow>
                             (let s1 = drop_ciphers s;
                                  k1 = snd (lt_remove source (as_keys s1));
                                  k2 = lt_update trust_center
                                         (\<lambda>e. e\<lparr>lk_partner := source, lk_key := hashed,
                                               lk_attributes := ProvisionalKey,
                                               lk_incoming := saturating_add (ah_frame_counter aux) 1,
                                               lk_verified_frame_counter := True\<rparr>) k1
                              in (Inr (source, sc_key_id (ah_control aux), up_payload_start u, up_payload_end u),
                                  s1\<lparr>as_keys := k2\<rparr>, buf'))))))"

definition aps_secure_outgoing ::
  "cipher_fn \<Rightarrow> nat \<Rightarrow> nat \<Rightarrow> security_level \<Rightarrow> extended_address \<Rightarrow> key_identifier \<Rightarrow> extended_address
     \<Rightarrow> bool \<Rightarrow> aps_security \<Rightarrow> bytes \<Rightarrow> (secure_error + nat) \<times> aps_security \<times> bytes" where
  "aps_secure_outgoing aes header_len payload_len level partner key_id local_ieee extended_nonce s buf =
     (if key_id = KeyNetwork then (Inl SecureNoKey, s, buf)
      else case lt_get partner (as_keys s) of
        None \<Rightarrow> (Inl SecureNoKey, s, buf)
      | Some e \<Rightarrow>
          if lk_attributes e = UnverifiedKey then (Inl SecureNoKey, s, buf)
          else case allocate (lk_outgoing e) of
            (Inl Exhausted, oc) \<Rightarrow> (Inl CounterExhausted, s, buf)
          | (Inl ReservationRequired, oc) \<Rightarrow> (Inl CounterPending, s, buf)
          | (Inr fc, oc) \<Rightarrow>
              (let s1 = s\<lparr>as_keys := lt_update partner
                         (\<lambda>e. e\<lparr>lk_outgoing := oc, lk_challenge_frame_counter := 0\<rparr>) (as_keys s)\<rparr>;
                   aux = aux_link level key_id fc (if extended_nonce then Some local_ieee else None)
               in case as_cipher_for aes partner key_id s1 of
                    (None, s2) \<Rightarrow> (Inl SecureNoKey, s2, buf)
                  | (Some E, s2) \<Rightarrow>
                      (let (res, buf') = protect_in_place E aux local_ieee header_len payload_len buf
                       in (map_err SecurityFailed res, s2, buf'))))"

definition aps_unsecure_incoming ::
  "cipher_fn \<Rightarrow> nat \<Rightarrow> security_level \<Rightarrow> extended_address option \<Rightarrow> extended_address option \<Rightarrow> aps_security
     \<Rightarrow> bytes \<Rightarrow> (security_error + aps_unsecured) \<times> aps_security \<times> bytes" where
  "aps_unsecure_incoming aes header_len level sender fallback s buf =
     (case peek_aux buf header_len of
        Inl e \<Rightarrow> (Inl e, s, buf)
      | Inr aux \<Rightarrow>
          if sc_key_id (ah_control aux) = KeyNetwork then (Inl PolicyRejected, s, buf)
          else if ah_frame_counter aux = U32_MAX then (Inl BadFrameCounter, s, buf)
          else case (case ah_source aux of Some a \<Rightarrow> Some a | None \<Rightarrow> sender) of
            None \<Rightarrow> (Inl NoKey, s, buf)
          | Some source \<Rightarrow>
              (case (if lt_get source (as_keys s) \<noteq> None then Some source
                     else case fallback of
                            Some f \<Rightarrow> if lt_get f (as_keys s) \<noteq> None then Some f else None
                          | None \<Rightarrow> None) of
                 None \<Rightarrow> (Inl NoKey, s, buf)
               | Some partner \<Rightarrow>
                   (case lt_get partner (as_keys s) of
                      None \<Rightarrow> (Inl NoKey, s, buf)
                    | Some e \<Rightarrow>
                        if lk_kind e = UniqueKey \<and> ah_frame_counter aux < lk_incoming e
                        then (Inl BadFrameCounter, s, buf)
                        else case as_cipher_for aes partner (sc_key_id (ah_control aux)) s of
                          (None, s1) \<Rightarrow> (Inl NoKey, s1, buf)
                        | (Some E, s1) \<Rightarrow>
                            (case unprotect_in_place E level source header_len buf of
                               (Inl err, buf') \<Rightarrow> (Inl err, s1, buf')
                             | (Inr u, buf') \<Rightarrow>
                                 (case lt_get partner (as_keys s1) of
                                    Some e1 \<Rightarrow>
                                      if lk_kind e1 = UniqueKey \<and> lk_frame_counter_sync e1 \<and> \<not> lk_verified_frame_counter e1
                                      then (Inl UnverifiedFrameCounter, s1, buf')
                                      else (Inr \<lparr>au_partner = partner, au_key_id = sc_key_id (ah_control aux),
                                               au_extended_nonce = sc_extended_nonce (ah_control aux),
                                               au_frame_counter = ah_frame_counter aux, au_kind = lk_kind e,
                                               au_attributes = lk_attributes e,
                                               au_payload_start = up_payload_start u,
                                               au_payload_end = up_payload_end u\<rparr>,
                                            s1\<lparr>as_keys := lt_update partner
                                                (\<lambda>e. e\<lparr>lk_incoming := saturating_add (ah_frame_counter aux) 1\<rparr>)
                                                (as_keys s1)\<rparr>, buf')
                                  | None \<Rightarrow>
                                      (Inr \<lparr>au_partner = partner, au_key_id = sc_key_id (ah_control aux),
                                          au_extended_nonce = sc_extended_nonce (ah_control aux),
                                          au_frame_counter = ah_frame_counter aux, au_kind = lk_kind e,
                                          au_attributes = lk_attributes e,
                                          au_payload_start = up_payload_start u,
                                          au_payload_end = up_payload_end u\<rparr>, s1, buf'))))))"

section \<open>Invariant\<close>

text \<open>
  One entry per partner within the capacity, and every cached cipher is keyed with what the current
  entry of its partner derives.
\<close>

definition as_inv :: "cipher_fn \<Rightarrow> aps_security \<Rightarrow> bool" where
  "as_inv aes s \<longleftrightarrow>
     lt_inv (as_keys s) \<and> length (as_ciphers s) = 2 \<and>
     (\<forall>p k E. Some (p, k, E) \<in> set (as_ciphers s) \<longrightarrow>
        (\<exists>e key. lt_get p (as_keys s) = Some e \<and> derived_key aes k (lk_key e) = Some key \<and> E = aes key))"

lemma lt_get_update:
  assumes "\<And>e. lk_partner (f e) = lk_partner e"
  shows "lt_get q (lt_update p f t) = (if q = p then map_option f (lt_get q t) else lt_get q t)"
  using assms by (auto simp: lt_get_def lt_update_def find_update_first find_update_first_other)

lemma lt_inv_update:
  "(\<And>e. lk_partner (f e) = lk_partner e) \<Longrightarrow> lt_inv t \<Longrightarrow> lt_inv (lt_update p f t)"
  by (simp add: lt_inv_def lt_update_def map_update_first)

lemma distinct_update_first_key:
  assumes "distinct (map k xs)" "b \<notin> k ` set xs" "\<And>x. k x = a \<Longrightarrow> k (f x) = b"
  shows "distinct (map k (update_first (\<lambda>x. k x = a) f xs))"
  using assms
proof (induction xs)
  case (Cons x xs)
  have "k ` set (update_first (\<lambda>x. k x = a) f xs) \<subseteq> k ` set xs \<union> {b}"
    using set_update_first [of "\<lambda>x. k x = a" f xs] Cons.prems(3) by fastforce
  with Cons show ?case by auto
qed simp

lemma lt_inv_rename:
  assumes "lt_inv t" "lt_get to_addr t = None" "\<And>e. lk_partner (f e) = to_addr"
  shows "lt_inv (lt_update from_addr f t)"
  using assms unfolding lt_inv_def lt_update_def
  by (auto simp: lt_get_def find_None_keys intro!: distinct_update_first_key)

lemma as_inv_cold: "lt_inv t \<Longrightarrow> as_inv aes ((drop_ciphers s)\<lparr>as_keys := t\<rparr>)"
  by (simp add: as_inv_def drop_ciphers_def)

lemma as_inv_drop: "as_inv aes s \<Longrightarrow> as_inv aes (drop_ciphers s)"
  by (simp add: as_inv_def drop_ciphers_def)

text \<open>Updates of an entry that keep its key leave the cache valid.\<close>

lemma as_inv_update:
  assumes "as_inv aes s" "\<And>e. lk_partner (f e) = lk_partner e" "\<And>e. lk_key (f e) = lk_key e"
  shows "as_inv aes (s\<lparr>as_keys := lt_update p f (as_keys s)\<rparr>)"
proof -
  have "\<exists>e'. lt_get q (lt_update p f (as_keys s)) = Some e' \<and> lk_key e' = lk_key e"
    if "lt_get q (as_keys s) = Some e" for q e
    using that assms(2,3) by (auto simp: lt_get_update)
  then show ?thesis
    using assms(1) lt_inv_update [of f "as_keys s" p, OF assms(2)] unfolding as_inv_def by simp metis
qed

definition same_keys :: "link_key_entry list \<Rightarrow> link_key_entry list \<Rightarrow> bool" where
  "same_keys es es' \<longleftrightarrow> list_all2 (\<lambda>e e'. lk_partner e = lk_partner e' \<and> lk_key e = lk_key e') es es'"

lemma same_keys_find:
  assumes "same_keys es es'"
  shows "map_option lk_key (List.find (\<lambda>e. lk_partner e = p) es) =
         map_option lk_key (List.find (\<lambda>e. lk_partner e = p) es')"
  using assms unfolding same_keys_def by (induction rule: list_all2_induct) auto

lemma same_keys_partners: "same_keys es es' \<Longrightarrow> map lk_partner es = map lk_partner es'"
  unfolding same_keys_def by (induction rule: list_all2_induct) auto

lemma as_inv_same_keys:
  assumes "as_inv aes s" "same_keys es (lt_entries (as_keys s))"
  shows "as_inv aes (s\<lparr>as_keys := (as_keys s)\<lparr>lt_entries := es\<rparr>\<rparr>)"
proof -
  have "\<exists>e'. lt_get p ((as_keys s)\<lparr>lt_entries := es\<rparr>) = Some e' \<and> lk_key e' = lk_key e"
    if "lt_get p (as_keys s) = Some e" for p e
    using same_keys_find [OF assms(2), of p] that by (auto simp: lt_get_def)
  moreover have "length es = length (lt_entries (as_keys s))"
    using assms(2) by (simp add: same_keys_def list_all2_lengthD)
  ultimately show ?thesis
    using assms(1) same_keys_partners [OF assms(2)]
    unfolding as_inv_def by (simp add: lt_inv_def) metis
qed

lemma start_first_same: "same_keys (snd (start_first es)) es"
  by (induction es) (auto simp: same_keys_def list_all2_same Let_def split: prod.splits option.splits)

text \<open>Every operation keeps the invariant.\<close>

lemma as_inv_new: "as_inv aes (as_new cap)"
  by (simp add: as_inv_def as_new_def lt_inv_def)

lemma as_inv_install:
  assumes "as_inv aes s"
  shows "as_inv aes (snd (as_install e s))"
proof -
  have "lt_inv (snd (lt_insert e (snd (lt_remove (lk_partner e) (as_keys (drop_ciphers s))))))"
    using assms by (intro lt_inv_insert lt_inv_remove) (simp add: as_inv_def drop_ciphers_def)
  then show ?thesis
    by (auto simp: as_install_def Let_def as_inv_cold split: prod.split)
qed

lemma as_inv_replace_key: "as_inv aes s \<Longrightarrow> as_inv aes (snd (replace_key p k a kd s))"
proof -
  assume i: "as_inv aes s"
  then have "lt_inv (as_keys (drop_ciphers s))" by (simp add: as_inv_def drop_ciphers_def)
  then have "lt_inv (lt_update p f (as_keys (drop_ciphers s)))" if "\<And>e. lk_partner (f e) = lk_partner e" for f
    using that by (simp add: lt_inv_update)
  with i show ?thesis
    by (auto simp: replace_key_def Let_def as_inv_drop intro!: as_inv_cold split: option.split)
qed

lemma as_inv_rename:
  assumes "as_inv aes s"
  shows "as_inv aes (snd (as_rename f t s))"
proof -
  define k1 where "k1 = snd (lt_remove t (as_keys (drop_ciphers s)))"
  have k1: "lt_inv k1" "lt_get t k1 = None"
    using assms by (auto simp: k1_def lt_get_remove as_inv_def drop_ciphers_def intro: lt_inv_remove)
  then have "lt_inv (lt_update f (\<lambda>e. e\<lparr>lk_partner := t\<rparr>) k1)" by (intro lt_inv_rename) auto
  with k1 assms show ?thesis
    by (auto simp: as_rename_def Let_def as_inv_cold simp flip: k1_def split: option.split)
qed

lemma as_inv_remove: "as_inv aes s \<Longrightarrow> as_inv aes (snd (as_remove p s))"
  using lt_inv_remove [of "as_keys s" p]
  by (auto simp: as_remove_def Let_def drop_ciphers_def as_inv_def split: prod.split)

lemma as_inv_small:
  "as_inv aes s \<Longrightarrow> as_inv aes (snd (set_attributes p a s))"
  "as_inv aes s \<Longrightarrow> as_inv aes (reset_incoming p s)"
  "as_inv aes s \<Longrightarrow> as_inv aes (as_commit_counter_reservation p r s)"
  "as_inv aes s \<Longrightarrow> as_inv aes (as_abort_counter_reservation p s)"
  "as_inv aes s \<Longrightarrow> as_inv aes (snd (answer_challenge aes l p c s))"
  "as_inv aes s \<Longrightarrow> as_inv aes (snd (validate_challenge aes p c fc cfc mic s))"
  by (auto simp: set_attributes_def reset_incoming_def as_commit_counter_reservation_def
      as_abort_counter_reservation_def answer_challenge_def validate_challenge_def Let_def as_inv_update
      split: option.split)

lemma as_inv_start: "as_inv aes s \<Longrightarrow> as_inv aes (snd (as_start_counter_reservation s))"
  using as_inv_same_keys [OF _ start_first_same]
  by (auto simp: as_start_counter_reservation_def Let_def split: prod.split) (metis snd_conv)

lemma as_inv_invalidate: "as_inv aes s \<Longrightarrow> as_inv aes (invalidate_frame_counters s)"
  unfolding invalidate_frame_counters_def
  by (rule as_inv_same_keys) (auto simp: same_keys_def list_all2_map1 list_all2_same)

lemma as_cipher_for_correct:
  assumes "as_inv aes s"
  shows "as_inv aes (snd (as_cipher_for aes p k s))"
    and "as_keys (snd (as_cipher_for aes p k s)) = as_keys s"
    and "lt_get p (as_keys s) = Some e \<Longrightarrow>
           fst (as_cipher_for aes p k s) = map_option aes (derived_key aes k (lk_key e))"
    and "lt_get p (as_keys s) = None \<Longrightarrow> fst (as_cipher_for aes p k s) = None"
proof -
  have cached: "\<exists>E e key. as_ciphers s ! i = Some (p, k, E) \<and> lt_get p (as_keys s) = Some e \<and>
      derived_key aes k (lk_key e) = Some key \<and> E = aes key"
    if "position (as_cached p k) (as_ciphers s) = Some i" for i
  proof -
    have i: "i < length (as_ciphers s)" "as_cached p k (as_ciphers s ! i)"
      using position_Some [OF that] by blast+
    then obtain E where "as_ciphers s ! i = Some (p, k, E)"
      by (auto simp: as_cached_def split: option.splits)
    moreover from this i(1) have "Some (p, k, E) \<in> set (as_ciphers s)" by (metis nth_mem)
    ultimately show ?thesis using assms unfolding as_inv_def by blast
  qed
  show "as_keys (snd (as_cipher_for aes p k s)) = as_keys s"
    by (simp add: as_cipher_for_def Let_def split: option.split)
  show "as_inv aes (snd (as_cipher_for aes p k s))"
    using assms unfolding as_inv_def
    by (auto simp: as_cipher_for_def Let_def split: option.split dest!: set_update_subset_insert [THEN subsetD])
  show "fst (as_cipher_for aes p k s) = map_option aes (derived_key aes k (lk_key e))"
    if "lt_get p (as_keys s) = Some e"
    using cached that by (auto simp: as_cipher_for_def Let_def split: option.split)
  show "fst (as_cipher_for aes p k s) = None" if "lt_get p (as_keys s) = None"
    using cached that by (fastforce simp: as_cipher_for_def Let_def split: option.split)
qed

lemma as_inv_secure:
  assumes "as_inv aes s"
  shows "as_inv aes (fst (snd (aps_secure_outgoing aes hl pl level p k me ext s buf)))"
proof -
  have c: "as_inv aes t"
    if "as_cipher_for aes p k (s\<lparr>as_keys := lt_update p
      (\<lambda>e. e\<lparr>lk_outgoing := oc, lk_challenge_frame_counter := 0\<rparr>) (as_keys s)\<rparr>) = (E, t)" for oc E t
    using as_cipher_for_correct(1) [OF as_inv_update [OF assms, of "\<lambda>e. e\<lparr>lk_outgoing := oc,
      lk_challenge_frame_counter := 0\<rparr>" p], of p k] that by simp
  show ?thesis
    using assms
    by (auto simp: aps_secure_outgoing_def Let_def intro: c split: option.split prod.split sum.split counter_error.split)
qed

lemma as_inv_unsecure:
  assumes "as_inv aes s"
  shows "as_inv aes (fst (snd (aps_unsecure_incoming aes hl level snd_addr fb s buf)))"
proof -
  have c: "as_inv aes t" if "as_cipher_for aes p k s = (E, t)" for p k E t
    using as_cipher_for_correct(1) [OF assms, of p k] that by simp
  have u: "as_inv aes (t\<lparr>as_keys := lt_update p (\<lambda>e. e\<lparr>lk_incoming := x\<rparr>) (as_keys t)\<rparr>)"
    if "as_inv aes t" for t p x
    by (intro as_inv_update that) auto
  show ?thesis
    using assms
    by (auto simp: aps_unsecure_incoming_def Let_def intro: c u split: option.split prod.split sum.split)
qed

lemma as_inv_swap_out:
  assumes "as_inv aes s"
  shows "as_inv aes (fst (snd (unsecure_swap_out aes hl level tc s buf)))"
proof -
  have "as_inv aes ((drop_ciphers s)\<lparr>as_keys := lt_update tc
      (\<lambda>e. e\<lparr>lk_partner := a, lk_key := k, lk_attributes := ProvisionalKey, lk_incoming := x,
            lk_verified_frame_counter := True\<rparr>) (snd (lt_remove a (as_keys (drop_ciphers s))))\<rparr>)" for a k x
  proof (rule as_inv_cold, rule lt_inv_rename)
    show "lt_inv (snd (lt_remove a (as_keys (drop_ciphers s))))"
      using assms by (intro lt_inv_remove) (simp add: as_inv_def drop_ciphers_def)
  qed (auto simp: lt_get_remove)
  with assms show ?thesis
    by (auto simp: unsecure_swap_out_def Let_def split: option.split prod.split sum.split)
qed

section \<open>The operations as a transition system\<close>

inductive as_step :: "cipher_fn \<Rightarrow> aps_security \<Rightarrow> aps_security \<Rightarrow> bool" for aes where
  step_install: "as_step aes s (snd (as_install e s))"
| step_replace: "as_step aes s (snd (replace_key p k a kd s))"
| step_rename: "as_step aes s (snd (as_rename f t s))"
| step_remove: "as_step aes s (snd (as_remove p s))"
| step_attributes: "as_step aes s (snd (set_attributes p a s))"
| step_reset: "as_step aes s (reset_incoming p s)"
| step_answer: "as_step aes s (snd (answer_challenge aes l p c s))"
| step_validate: "as_step aes s (snd (validate_challenge aes p c fc cfc mic s))"
| step_invalidate: "as_step aes s (invalidate_frame_counters s)"
| step_start: "as_step aes s (snd (as_start_counter_reservation s))"
| step_commit: "as_step aes s (as_commit_counter_reservation p r s)"
| step_abort: "as_step aes s (as_abort_counter_reservation p s)"
| step_secure: "as_step aes s (fst (snd (aps_secure_outgoing aes hl pl level p k me ext s buf)))"
| step_unsecure: "as_step aes s (fst (snd (aps_unsecure_incoming aes hl level sender fb s buf)))"
| step_swap_out: "as_step aes s (fst (snd (unsecure_swap_out aes hl level tc s buf)))"

inductive as_reachable :: "cipher_fn \<Rightarrow> aps_security \<Rightarrow> bool" for aes where
  initial: "as_reachable aes (as_new cap)"
| further: "as_reachable aes s \<Longrightarrow> as_step aes s s' \<Longrightarrow> as_reachable aes s'"

lemmas as_inv_ops = as_inv_install as_inv_replace_key as_inv_rename as_inv_remove as_inv_small
  as_inv_start as_inv_invalidate as_inv_secure as_inv_unsecure as_inv_swap_out

lemma as_step_inv: "as_step aes s s' \<Longrightarrow> as_inv aes s \<Longrightarrow> as_inv aes s'"
  by (induction rule: as_step.induct) (auto intro: as_inv_ops)

lemma as_reachable_inv: "as_reachable aes s \<Longrightarrow> as_inv aes s"
  by (induction rule: as_reachable.induct) (auto intro: as_inv_new as_step_inv)



section \<open>From one node to another\<close>

lemma aux_link_facts:
  "sc_level (ah_control (aux_link l k fc src)) = l" "sc_key_id (ah_control (aux_link l k fc src)) = k"
  "ah_source (aux_link l k fc src) = src" "ah_frame_counter (aux_link l k fc src) = fc"
  "sc_extended_nonce (ah_control (aux_link l k fc src)) = (src \<noteq> None)"
  by (simp_all add: aux_link_def)

lemma aps_secure_layout:
  assumes inv: "as_inv aes tx" and e: "lt_get b (as_keys tx) = Some e" "lk_attributes e \<noteq> UnverifiedKey"
    and fc: "allocate (lk_outgoing e) = (Inr fc, oc)"
    and k: "k \<noteq> KeyNetwork" "derived_key aes k (lk_key e) = Some key" "block_fn (aes key)"
    and aux: "aux = aux_link level k fc (if ext then Some a else None)"
    and lay: "length S = aux_encoded_len aux" "length M = mic_len level" "frame_limits level H aux P"
  shows "\<exists>tx'. aps_secure_outgoing aes (length H) (length P) level b k a ext tx (H @ S @ P @ M) =
    (Inr (length (H @ S @ P @ M)), tx', H @ air_octets aux @ seal_payload (aes key) aux a H P)"
proof -
  define f where "f = (\<lambda>e. e\<lparr>lk_outgoing := oc, lk_challenge_frame_counter := 0\<rparr> :: link_key_entry)"
  define s1 where "s1 = tx\<lparr>as_keys := lt_update b f (as_keys tx)\<rparr>"
  have s1: "as_inv aes s1" unfolding s1_def by (intro as_inv_update inv) (simp_all add: f_def)
  have "lt_get b (as_keys s1) = Some (f e)" using e(1) by (simp add: s1_def lt_get_update f_def)
  then have "fst (as_cipher_for aes b k s1) = Some (aes key)"
    using as_cipher_for_correct(3) [OF s1] k(2) by (simp add: f_def)
  then obtain s2 where s2: "as_cipher_for aes b k s1 = (Some (aes key), s2)" by (metis prod.collapse)
  have wf: "aux_wf aux" "sc_level (ah_control aux) = level"
    using k(1) by (simp_all add: aux) (simp_all add: aux_link_def)
  show ?thesis
    using protect_layout [OF k(3) wf(1), of S M H P a "[]"] lay e fc k(1) s2
    by (simp add: aps_secure_outgoing_def Let_def wf aux [symmetric] flip: f_def s1_def)
qed



text \<open>Two nodes, 7 and 8, that share a verified link key.\<close>

definition example_aps :: "extended_address \<Rightarrow> aps_security" where
  "example_aps partner =
     as_commit_counter_reservation partner 1024
       (snd (as_install ((lk_provisional partner (replicate 16 3) UniqueKey)\<lparr>lk_attributes := VerifiedKey\<rparr>)
         (as_new 4)))"

lemma example_aps_inv: "as_inv aes (example_aps p)"
  unfolding example_aps_def by (intro as_inv_small as_inv_install as_inv_new)

lemma example_aps_entry:
  "\<exists>e oc. lt_get p (as_keys (example_aps p)) = Some e \<and> lk_key e = replicate 16 3 \<and>
     lk_attributes e = VerifiedKey \<and> lk_kind e = UniqueKey \<and> lk_incoming e = 0 \<and>
     \<not> lk_frame_counter_sync e \<and> oc_next (lk_outgoing e) = 0 \<and> allocate (lk_outgoing e) = (Inr 0, oc)"
  by (simp add: example_aps_def as_commit_counter_reservation_def as_install_def as_new_def drop_ciphers_def
      lt_remove_def lt_insert_def lt_get_def lt_update_def vec_push_def lk_provisional_def oc_defs
      U32_MAX_def Let_def)



end
