(* ===== verification/CounterPersistence.thy ===== *)
theory CounterPersistence
  imports ApsSecurity Storage
begin

text \<open>
  How the runtime keeps the outgoing NWK frame counter across power loss: the handler of the
  \<^verbatim>\<open>CounterReservation\<close> action (\<^verbatim>\<open>panweave-runtime/src/pump.rs\<close>), the restore at start-up
  (\<^verbatim>\<open>panweave-runtime/src/persist.rs\<close>) and the queue of actions between the network layer and the
  runtime (\<^verbatim>\<open>panweave-nwk/src/layer/mod.rs\<close>), composed into a transition system in which power may
  fail between any two steps and in the middle of a store. The storage is any implementation of the
  \<^verbatim>\<open>Storage\<close> trait.
\<close>

section \<open>Handlers\<close>

definition counter_key :: storage_key where
  "counter_key = key_single NwkFrameCounter"

text \<open>\<^verbatim>\<open>NwkAction::CounterReservation(r)\<close>: persist, then commit or abort.\<close>

definition on_counter_reservation ::
  "'s store_op \<Rightarrow> u32 \<Rightarrow> outgoing_counter \<times> 's \<Rightarrow> outgoing_counter \<times> 's" where
  "on_counter_reservation store r cs =
     (case store counter_key (le_bytes 4 r) (snd cs) of
        (Inr _, s) \<Rightarrow> (commit_reservation r (fst cs), s)
      | (Inl _, s) \<Rightarrow> (abort_reservation (fst cs), s))"

text \<open>\<^verbatim>\<open>maybe_reserve_counter\<close>: start a reservation and queue the action.\<close>

definition maybe_reserve_counter :: "outgoing_counter \<times> u32 list \<Rightarrow> outgoing_counter \<times> u32 list" where
  "maybe_reserve_counter cq =
     (case start_reservation (fst cq) of
        (Some r, c) \<Rightarrow> (c, snd cq @ [r])
      | (None, c) \<Rightarrow> (c, snd cq))"

text \<open>The first step of \<^verbatim>\<open>Stack::restore\<close>, on a counter that was just created.\<close>

definition restore_counter :: "'s load_op \<Rightarrow> 's \<Rightarrow> (storage_error + outgoing_counter) \<times> 's" where
  "restore_counter load s =
     (case load counter_key [0, 0, 0, 0] s of
        (Inl e, _, s') \<Rightarrow> (Inl e, s')
      | (Inr None, _, s') \<Rightarrow> (Inr oc_new, s')
      | (Inr (Some _), fc, s') \<Rightarrow> (Inr (oc_restore (le_word fc)), s'))"

section \<open>The node as a transition system\<close>

text \<open>
  \<open>nd_used\<close> records every pair of network key and counter value a frame was secured with; it is not
  part of the node, it is what an observer of the air sees.
\<close>

record 's node =
  nd_counter :: outgoing_counter
  nd_queue :: "u32 list"
  nd_storage :: 's
  nd_key :: nat
  nd_used :: "(nat \<times> u32) list"

definition node_boot :: "'s \<Rightarrow> nat \<Rightarrow> 's node" where
  "node_boot s k = \<lparr>nd_counter = oc_new, nd_queue = [], nd_storage = s, nd_key = k, nd_used = []\<rparr>"

definition rebooted :: "outgoing_counter \<Rightarrow> 's \<Rightarrow> 's node \<Rightarrow> 's node" where
  "rebooted c s n = n\<lparr>nd_counter := c, nd_queue := [], nd_storage := s\<rparr>"

inductive node_step :: "'s store_op \<Rightarrow> 's load_op \<Rightarrow> 's node \<Rightarrow> 's node \<Rightarrow> bool"
  for store load where
  secure: "allocate (nd_counter n) = (Inr v, c) \<Longrightarrow>
     node_step store load n (n\<lparr>nd_counter := c, nd_used := (nd_key n, v) # nd_used n\<rparr>)"
| reserve: "maybe_reserve_counter (nd_counter n, nd_queue n) = (c, q) \<Longrightarrow>
     node_step store load n (n\<lparr>nd_counter := c, nd_queue := q\<rparr>)"
| pump: "nd_queue n = r # q \<Longrightarrow> on_counter_reservation store r (nd_counter n, nd_storage n) = (c, s) \<Longrightarrow>
     node_step store load n (n\<lparr>nd_counter := c, nd_queue := q, nd_storage := s\<rparr>)"
| power_loss: "restore_counter load (nd_storage n) = (Inr c, s) \<Longrightarrow>
     node_step store load n (rebooted c s n)"
| power_loss_in_store: "nd_queue n = r # q \<Longrightarrow> store counter_key (le_bytes 4 r) (nd_storage n) = (res, s1) \<Longrightarrow>
     restore_counter load s1 = (Inr c, s) \<Longrightarrow> node_step store load n (rebooted c s n)"
| switch_key: "nd_queue n = [] \<Longrightarrow> k \<notin> fst ` set (nd_used n) \<Longrightarrow>
     node_step store load n (n\<lparr>nd_counter := snd (on_key_switch (nd_counter n)), nd_key := k\<rparr>)"

inductive node_run :: "'s store_op \<Rightarrow> 's load_op \<Rightarrow> 's node \<Rightarrow> 's node \<Rightarrow> bool" for store load where
  run_refl: "node_run store load n n"
| run_step: "node_run store load n m \<Longrightarrow> node_step store load m m' \<Longrightarrow> node_run store load n m'"

section \<open>No counter value is used twice\<close>

text \<open>The bound a restart would resume at.\<close>

definition persisted_bound :: "bytes option \<Rightarrow> u32" where
  "persisted_bound v = (case v of None \<Rightarrow> 0 | Some b \<Rightarrow> le_word b)"

definition queue_matches :: "outgoing_counter \<Rightarrow> u32 list \<Rightarrow> bool" where
  "queue_matches c q \<longleftrightarrow> (q = [] \<and> oc_in_flight c = None) \<or> (\<exists>t. q = [t] \<and> oc_in_flight c = Some t)"

definition counter_safe :: "outgoing_counter \<Rightarrow> u32 list \<Rightarrow> bytes option \<Rightarrow> nat \<Rightarrow> (nat \<times> u32) list \<Rightarrow> bool" where
  "counter_safe c q v k used \<longleftrightarrow>
     oc_inv c \<and> queue_matches c q \<and> (\<forall>b. v = Some b \<longrightarrow> length b = 4) \<and>
     oc_reserved_until c \<le> persisted_bound v \<and>
     (\<forall>x. (k, x) \<in> set used \<longrightarrow> x < oc_next c) \<and> distinct used"

lemma persisted_bound_some [simp]: "persisted_bound (Some (le_bytes 4 r)) = r"
  by (simp add: persisted_bound_def le_word_le_bytes)

lemma counter_safe_secure:
  assumes "counter_safe c q v k used" "allocate c = (Inr x, c')"
  shows "counter_safe c' q v k ((k, x) # used)"
  using assms allocate_ok [OF assms(2)] oc_inv_allocate [of c]
  by (force simp: counter_safe_def queue_matches_def)

lemma counter_safe_reserve:
  assumes "counter_safe c q v k used" "maybe_reserve_counter (c, q) = (c', q')"
  shows "counter_safe c' q' v k used"
  using assms oc_inv_start [of c]
  by (auto simp: counter_safe_def queue_matches_def maybe_reserve_counter_def start_reservation_def
      needs_reservation_def Let_def split: if_splits)

lemma counter_safe_commit:
  assumes "counter_safe c [r] v k used"
  shows "counter_safe (commit_reservation r c) [] (Some (le_bytes 4 r)) k used"
proof -
  have f: "oc_in_flight c = Some r" using assms by (auto simp: counter_safe_def queue_matches_def)
  moreover have "oc_reserved_until c \<le> r" using assms f by (auto simp: counter_safe_def oc_inv_def)
  ultimately show ?thesis
    using assms oc_inv_commit [of c r]
    by (auto simp: counter_safe_def queue_matches_def commit_reservation_def Let_def)
qed

lemma counter_safe_abort:
  "counter_safe c [r] v k used \<Longrightarrow> counter_safe (abort_reservation c) [] v k used"
  using oc_inv_abort [of c] by (auto simp: counter_safe_def queue_matches_def abort_reservation_def)

text \<open>A restart resumes at the bound of the medium, which lies beyond every value ever handed out.\<close>

lemma counter_safe_restart:
  assumes "counter_safe c q v k used"
    and "w = v \<or> (\<exists>r. q = [r] \<and> w = Some (le_bytes 4 r))"
  shows "counter_safe (case w of None \<Rightarrow> oc_new | Some b \<Rightarrow> oc_restore (le_word b)) [] w k used"
proof -
  have len: "\<forall>b. w = Some b \<longrightarrow> length b = 4" using assms by (auto simp: counter_safe_def)
  have le: "oc_reserved_until c \<le> persisted_bound w"
    using assms by (auto simp: counter_safe_def oc_inv_def queue_matches_def)
  have "oc_next c \<le> persisted_bound w"
    using assms(1) le by (auto simp: counter_safe_def oc_inv_def)
  then show ?thesis
    using assms(1) len
    by (cases w) (fastforce simp: counter_safe_def queue_matches_def oc_new_def oc_restore_def oc_inv_def
        persisted_bound_def)+
qed

lemma counter_safe_switch:
  assumes "counter_safe c [] v k used" "k' \<notin> fst ` set used"
  shows "counter_safe (snd (on_key_switch c)) [] v k' used"
  using assms oc_inv_key_switch [of c]
  by (auto simp: counter_safe_def queue_matches_def on_key_switch_def image_iff)

definition node_safe :: "('s \<Rightarrow> bool) \<Rightarrow> ('s \<Rightarrow> storage_key \<Rightarrow> bytes option) \<Rightarrow> 's node \<Rightarrow> bool" where
  "node_safe ok view n \<longleftrightarrow>
     ok (nd_storage n) \<and>
     counter_safe (nd_counter n) (nd_queue n) (view (nd_storage n) counter_key) (nd_key n) (nd_used n)"

context storage
begin

lemma restore_counter_ok:
  assumes "inv s" "\<forall>b. contents s counter_key = Some b \<longrightarrow> length b = 4" "restore_counter load s = (Inr c, s')"
  shows "c = (case contents s counter_key of None \<Rightarrow> oc_new | Some b \<Rightarrow> oc_restore (le_word b))
         \<and> inv s' \<and> contents s' = contents s"
proof (cases "contents s counter_key")
  case None
  with load_absent [OF assms(1) None, of "[0, 0, 0, 0]"] assms(3) show ?thesis
    by (auto simp: restore_counter_def)
next
  case (Some b)
  with assms(2) have "length b = 4" by simp
  with load_present [OF assms(1) Some, of "[0, 0, 0, 0]"] assms(3) Some show ?thesis
    by (auto simp: restore_counter_def)
qed

lemma restore_counter_succeeds:
  assumes "inv s" "\<forall>b. contents s counter_key = Some b \<longrightarrow> length b = 4"
  shows "\<exists>c s'. restore_counter load s = (Inr c, s')"
proof (cases "contents s counter_key")
  case None
  with load_absent [OF assms(1) None, of "[0, 0, 0, 0]"] show ?thesis
    by (auto simp: restore_counter_def)
next
  case (Some b)
  with load_present [OF assms(1) Some, of "[0, 0, 0, 0]"] assms(2) show ?thesis
    by (auto simp: restore_counter_def)
qed

lemma pump_safe:
  assumes "inv s" "counter_safe c [r] (contents s counter_key) k used"
    and "on_counter_reservation store r (c, s) = (c', s')"
  shows "inv s' \<and> counter_safe c' [] (contents s' counter_key) k used"
proof (cases "store counter_key (le_bytes 4 r) s")
  case (Pair res s1)
  show ?thesis
  proof (cases res)
    case (Inl e)
    with store_err [OF assms(1), of counter_key "le_bytes 4 r" e s1] assms(2,3) Pair show ?thesis
      by (auto simp: on_counter_reservation_def counter_safe_abort)
  next
    case (Inr u)
    with store_ok [OF assms(1), of counter_key "le_bytes 4 r" u s1] assms(2,3) Pair show ?thesis
      by (auto simp: on_counter_reservation_def counter_safe_commit)
  qed
qed

lemma node_step_safe:
  assumes "node_step store load n n'" "node_safe inv contents n"
  shows "node_safe inv contents n'"
  using assms
proof (induction rule: node_step.induct)
  case (secure n v c)
  then show ?case by (auto simp: node_safe_def intro: counter_safe_secure)
next
  case (reserve n c q)
  then show ?case by (auto simp: node_safe_def intro: counter_safe_reserve)
next
  case (pump n r q c s)
  have q: "q = []" using pump.prems pump.hyps(1) by (auto simp: node_safe_def counter_safe_def queue_matches_def)
  with pump pump_safe [of "nd_storage n" "nd_counter n" r "nd_key n" "nd_used n" c s]
  show ?case by (simp add: node_safe_def)
next
  case (power_loss n c s)
  have i: "inv (nd_storage n)" and l: "\<forall>b. contents (nd_storage n) counter_key = Some b \<longrightarrow> length b = 4"
    and cs: "counter_safe (nd_counter n) (nd_queue n) (contents (nd_storage n) counter_key) (nd_key n) (nd_used n)"
    using power_loss.prems by (auto simp: node_safe_def counter_safe_def)
  from restore_counter_ok [OF i l power_loss.hyps] counter_safe_restart [OF cs] show ?case
    by (simp add: node_safe_def rebooted_def)
next
  case (power_loss_in_store n r q res s1 c s)
  have i: "inv (nd_storage n)"
    and cs: "counter_safe (nd_counter n) [r] (contents (nd_storage n) counter_key) (nd_key n) (nd_used n)"
    using power_loss_in_store.prems power_loss_in_store.hyps(1)
    by (auto simp: node_safe_def counter_safe_def queue_matches_def)
  have s1: "inv s1" "contents s1 counter_key = contents (nd_storage n) counter_key \<or>
      contents s1 counter_key = Some (le_bytes 4 r)"
    using store_atomic [OF i power_loss_in_store.hyps(2)] by auto
  have safe: "counter_safe (case contents s1 counter_key of None \<Rightarrow> oc_new | Some b \<Rightarrow> oc_restore (le_word b)) []
      (contents s1 counter_key) (nd_key n) (nd_used n)"
    using counter_safe_restart [OF cs, of "contents s1 counter_key"] s1(2) by auto
  then have "\<forall>b. contents s1 counter_key = Some b \<longrightarrow> length b = 4" by (simp add: counter_safe_def)
  from restore_counter_ok [OF s1(1) this power_loss_in_store.hyps(3)] safe show ?case
    by (simp add: node_safe_def rebooted_def)
next
  case (switch_key n k)
  then show ?case by (auto simp: node_safe_def intro: counter_safe_switch)
qed

lemma node_run_safe: "node_run store load n m \<Longrightarrow> node_safe inv contents n \<Longrightarrow> node_safe inv contents m"
  by (induction rule: node_run.induct) (auto intro: node_step_safe)

lemma node_boot_safe: "inv s \<Longrightarrow> contents s counter_key = None \<Longrightarrow> node_safe inv contents (node_boot s k)"
  by (simp add: node_safe_def node_boot_def counter_safe_def queue_matches_def oc_new_def oc_restore_def
      oc_inv_def persisted_bound_def)

lemma never_reused:
  assumes "inv s" "contents s counter_key = None" "node_run store load (node_boot s k) n"
  shows "distinct (nd_used n)"
  using node_run_safe [OF assms(3) node_boot_safe [OF assms(1,2)]] by (simp add: node_safe_def counter_safe_def)

lemma can_always_restart:
  assumes "inv s" "contents s counter_key = None" "node_run store load (node_boot s k) n"
  shows "\<exists>c s'. restore_counter load (nd_storage n) = (Inr c, s')"
  using node_run_safe [OF assms(3) node_boot_safe [OF assms(1,2)]]
  by (intro restore_counter_succeeds) (auto simp: node_safe_def counter_safe_def)

end

section \<open>On the in-memory storage\<close>



subsection \<open>Switching keys while a reservation is pending\<close>

text \<open>
  The guard of \<open>switch_key\<close> is not enforced by the code: the action queue may hold a reservation of
  the old key when the key is switched and the counter restarts at zero.
\<close>

inductive node_run_eager :: "'s store_op \<Rightarrow> 's load_op \<Rightarrow> 's node \<Rightarrow> 's node \<Rightarrow> bool" for store load where
  eager_refl: "node_run_eager store load n n"
| eager_step: "node_run_eager store load n m \<Longrightarrow> node_step store load m m' \<Longrightarrow> node_run_eager store load n m'"
| eager_switch: "node_run_eager store load n m \<Longrightarrow> k \<notin> fst ` set (nd_used m) \<Longrightarrow>
     node_run_eager store load n (m\<lparr>nd_counter := snd (on_key_switch (nd_counter m)), nd_key := k\<rparr>)"

lemma secure_many:
  assumes "unat (oc_next c) + j \<le> unat (oc_reserved_until c)" "node_run_eager store load a m" "nd_counter m = c"
  shows "\<exists>used. node_run_eager store load a (m\<lparr>nd_counter := c\<lparr>oc_next := oc_next c + of_nat j\<rparr>, nd_used := used\<rparr>) \<and>
           (\<forall>i < j. (nd_key m, oc_next c + of_nat i) \<in> set used)"
  using assms(1)
proof (induction j)
  case 0
  have "m\<lparr>nd_counter := c\<lparr>oc_next := oc_next c + of_nat 0\<rparr>, nd_used := nd_used m\<rparr> = m" using assms(3) by simp
  then show ?case using assms(2) by (intro exI [of _ "nd_used m"]) simp
next
  case (Suc j)
  then obtain used where u: "node_run_eager store load a
      (m\<lparr>nd_counter := c\<lparr>oc_next := oc_next c + of_nat j\<rparr>, nd_used := used\<rparr>)"
      "\<forall>i < j. (nd_key m, oc_next c + of_nat i) \<in> set used" by auto
  define x where "x = oc_next c + of_nat j"
  have lt: "unat (oc_next c) + j < unat (oc_reserved_until c)" using Suc.prems by simp
  have "unat (oc_reserved_until c) < 2 ^ 32" using unsigned_less [of "oc_reserved_until c", where 'a = nat] by simp
  then have ux: "unat x = unat (oc_next c) + j" using lt by (simp add: x_def unat_word_ariths unat_of_nat)
  then have "x < oc_reserved_until c" using lt by (simp add: word_less_nat_alt)
  moreover have "x \<noteq> U32_MAX" using calculation by (metis U32_MAX_top leD)
  ultimately have "allocate (c\<lparr>oc_next := x\<rparr>) = (Inr x, c\<lparr>oc_next := x + 1\<rparr>)" by (auto simp: allocate_def)
  then have "node_step store load (m\<lparr>nd_counter := c\<lparr>oc_next := x\<rparr>, nd_used := used\<rparr>)
      (m\<lparr>nd_counter := c\<lparr>oc_next := x + 1\<rparr>, nd_used := (nd_key m, x) # used\<rparr>)"
    using node_step.secure [of "m\<lparr>nd_counter := c\<lparr>oc_next := x\<rparr>, nd_used := used\<rparr>" x] by simp
  then have "node_run_eager store load a (m\<lparr>nd_counter := c\<lparr>oc_next := x + 1\<rparr>, nd_used := (nd_key m, x) # used\<rparr>)"
    using eager_step [OF u(1)] by (simp add: x_def)
  moreover have "x + 1 = oc_next c + of_nat (Suc j)" by (simp add: x_def)
  moreover have "\<forall>i < Suc j. (nd_key m, oc_next c + of_nat i) \<in> set ((nd_key m, x) # used)"
    using u(2) by (auto simp: less_Suc_eq x_def)
  ultimately show ?case by metis
qed

text \<open>A medium that holds the bound \<open>x\<close>, and a node on it.\<close>

definition medium :: "u32 \<Rightarrow> u32 \<Rightarrow> memory_storage" where
  "medium x w = \<lparr>ms_cap = 4, ms_max = 16, ms_records = [(counter_key, le_bytes 4 x)], ms_writes = w\<rparr>"

lemma medium_store: "memory_store counter_key (le_bytes 4 y) (medium x w) = (Inr (), medium y (saturating_add w 1))"
  by (simp add: memory_store_def medium_def Let_def)

lemma medium_restore: "restore_counter memory_load (medium x w) = (Inr (oc_restore x), medium x w)"
  by (simp add: restore_counter_def memory_load_def medium_def slice_def overwrite_def le_word_le_bytes)

definition node_on :: "outgoing_counter \<Rightarrow> u32 list \<Rightarrow> u32 \<Rightarrow> u32 \<Rightarrow> nat \<Rightarrow> (nat \<times> u32) list \<Rightarrow> memory_storage node" where
  "node_on c q x w k used =
     \<lparr>nd_counter = c, nd_queue = q, nd_storage = medium x w, nd_key = k, nd_used = used\<rparr>"

definition counter_at :: "u32 \<Rightarrow> u32 \<Rightarrow> u32 option \<Rightarrow> outgoing_counter" where
  "counter_at nxt res fl =
     \<lparr>oc_next = nxt, oc_reserved_until = res, oc_window = 1024, oc_margin = 64, oc_in_flight = fl\<rparr>"

lemma run_power_loss:
  "node_run_eager memory_store memory_load a (node_on c q x w k used) \<Longrightarrow>
   node_run_eager memory_store memory_load a (node_on (counter_at x x None) [] x w k used)"
  using eager_step [OF _ node_step.power_loss [of memory_load "node_on c q x w k used" "oc_restore x" "medium x w"]]
  by (simp add: node_on_def medium_restore rebooted_def oc_restore_def counter_at_def DEFAULT_WINDOW_def DEFAULT_MARGIN_def)

lemma run_reserve:
  "node_run_eager memory_store memory_load a (node_on (counter_at nxt nxt None) q x w k used) \<Longrightarrow>
   unat nxt + 1024 < 2 ^ 32 \<Longrightarrow>
   node_run_eager memory_store memory_load a (node_on (counter_at nxt nxt (Some (nxt + 1024))) (q @ [nxt + 1024]) x w k used)"
proof -
  assume run: "node_run_eager memory_store memory_load a (node_on (counter_at nxt nxt None) q x w k used)"
    and lim: "unat nxt + 1024 < 2 ^ 32"
  have "unat (nxt + 1024) = unat nxt + 1024" using lim by (simp add: unat_word_ariths)
  then have le: "nxt \<le> nxt + 1024" by (simp add: word_le_nat_alt)
  have "unat (saturating_add nxt 64) = unat nxt + 64" using lim by (simp add: unat_simps)
  then have "nxt \<le> saturating_add nxt 64" by (simp add: word_le_nat_alt)
  moreover have "nxt \<noteq> U32_MAX" using lim by (auto simp: U32_MAX_def unat_max_word)
  ultimately have "maybe_reserve_counter (counter_at nxt nxt None, q) = (counter_at nxt nxt (Some (nxt + 1024)), q @ [nxt + 1024])"
    using le lim
    by (simp add: maybe_reserve_counter_def counter_at_def start_reservation_def needs_reservation_def
        saturating_add_def Let_def max_def)
  then show ?thesis
    using eager_step [OF run node_step.reserve] by (simp add: node_on_def)
qed

lemma run_pump:
  "node_run_eager memory_store memory_load a (node_on c (r # q) x w k used) \<Longrightarrow>
   node_run_eager memory_store memory_load a (node_on (commit_reservation r c) q r (saturating_add w 1) k used)"
  using eager_step [OF _ node_step.pump [of "node_on c (r # q) x w k used" r q memory_store
      "commit_reservation r c" "medium r (saturating_add w 1)"]]
  by (simp add: node_on_def on_counter_reservation_def medium_store)

text \<open>
  C23: A key switch that overtakes a pending reservation leads to a reused counter. From a medium that
  holds the bound \<open>0x80000100\<close>, a node restarts, requests a reservation, is switched to a fresh key
  (which resets the counter to zero) before the reservation is persisted, and requests another one.
  Persisting both in order leaves the committed bound far above the persisted one; after 1025 more
  frames and a power loss the node secures a second frame with the same key and counter 1024.
\<close>

theorem key_switch_overtaking_reservation_reuses_counter:
  "\<exists>n. node_run_eager memory_store memory_load (node_boot (medium 0x80000100 0) 0) n \<and>
     (\<exists>used. nd_used n = (1, 1024) # used \<and> (1, 1024) \<in> set used)"
proof -
  let ?a = "node_boot (medium 0x80000100 0) 0"
  let ?run = "node_run_eager memory_store memory_load ?a"
  have "?run (node_on oc_new [] 0x80000100 0 0 [])"
    using eager_refl [of memory_store memory_load ?a] by (simp add: node_boot_def node_on_def)
  then have "?run (node_on (counter_at 0x80000100 0x80000100 None) [] 0x80000100 0 0 [])"
    by (rule run_power_loss)
  from run_reserve [OF this]
  have "?run (node_on (counter_at 0x80000100 0x80000100 (Some 0x80000500)) [0x80000500] 0x80000100 0 0 [])"
    by simp
  from eager_switch [OF this, of 1]
  have "?run (node_on (counter_at 0 0 None) [0x80000500] 0x80000100 0 1 [])"
    by (simp add: node_on_def on_key_switch_def counter_at_def SWITCH_RESET_THRESHOLD_def)
  from run_reserve [OF this]
  have "?run (node_on (counter_at 0 0 (Some 1024)) [0x80000500, 1024] 0x80000100 0 1 [])"
    by simp
  from run_pump [OF this]
  have "?run (node_on (counter_at 0 0x80000500 (Some 1024)) [1024] 0x80000500 (saturating_add 0 1) 1 [])"
    by (simp add: commit_reservation_def counter_at_def)
  from run_pump [OF this]
  have r: "?run (node_on (counter_at 0 0x80000500 None) [] 1024 (saturating_add (saturating_add 0 1) 1) 1 [])"
    by (simp add: commit_reservation_def counter_at_def)
  define w where "w = saturating_add (saturating_add 0 1 :: u32) 1"
  obtain used where u: "?run (node_on (counter_at 1025 0x80000500 None) [] 1024 w 1 used)" "(1, 1024) \<in> set used"
    using secure_many [of "counter_at 0 0x80000500 None" 1025, OF _ r] by (auto simp: node_on_def counter_at_def w_def dest: spec [of _ 1024])
  have "?run (node_on (counter_at 1024 1024 None) [] 1024 w 1 used)" using u(1) by (rule run_power_loss)
  from run_reserve [OF this]
  have "?run (node_on (counter_at 1024 1024 (Some 2048)) [2048] 1024 w 1 used)" by simp
  from run_pump [OF this]
  have "?run (node_on (counter_at 1024 2048 None) [] 2048 (saturating_add w 1) 1 used)"
    by (simp add: commit_reservation_def counter_at_def)
  then have "?run (node_on (counter_at 1025 2048 None) [] 2048 (saturating_add w 1) 1 ((1, 1024) # used))"
    using eager_step [OF _ node_step.secure [of "node_on (counter_at 1024 2048 None) [] 2048 (saturating_add w 1) 1 used" 1024 "counter_at 1025 2048 None"]]
    by (simp add: node_on_def counter_at_def allocate_def U32_MAX_def)
  then show ?thesis using u(2) by (auto simp: node_on_def)
qed

end
