(* ===== verification/NorFlashStorage.thy ===== *)
theory NorFlashStorage
  imports NorFlashCompaction CounterPersistence
begin

text \<open>
  The store as an implementation of the \<^verbatim>\<open>Storage\<close> trait: appending, opening after a reset, what a
  power loss during compaction leaves behind, and the trait's contract over a driver in memory.
\<close>

section \<open>Which half a reset finds\<close>

lemma other_half:
  assumes "h \<le> (1 :: nat)"
  shows "1 - h \<le> 1" "1 - h \<noteq> h" "1 - (1 - h) = h" "h \<noteq> 1 - h"
  using assms by (cases h; simp)+

lemma chosen_other_none:
  "h \<le> 1 \<Longrightarrow> H h = Some q \<Longrightarrow> H (1 - h) = None \<Longrightarrow> chosen (H 0) (H (1 :: nat)) = Some (h, q)"
  by (cases h) (auto simp: chosen_def)

lemma chosen_successor:
  "h \<le> 1 \<Longrightarrow> H h = Some q \<Longrightarrow> H (1 - h) = Some (q + 1) \<Longrightarrow> chosen (H 0) (H (1 :: nat)) = Some (1 - h, q + 1)"
  by (cases h) (auto simp: chosen_def)

lemma chosen_valid:
  "chosen (H 0) (H (1 :: nat)) = Some (h, q) \<Longrightarrow> h \<le> 1 \<and> H h = Some q"
  by (auto simp: chosen_def split: option.splits if_splits)

lemma chosen_exists:
  "h \<le> 1 \<Longrightarrow> H h \<noteq> None \<Longrightarrow> \<exists>h' q'. chosen (H 0) (H (1 :: nat)) = Some (h', q')"
  by (cases h) (auto simp: chosen_def split: option.splits)

lemma header_erased: "take 16 v = replicate 16 0xff \<Longrightarrow> header_of v = None"
proof -
  assume "take 16 v = replicate 16 (0xff :: u8)"
  then have "take 4 (take 16 v) = take 4 (replicate 16 0xff)" by simp
  then have "take 4 v = replicate 4 0xff" by (simp add: min_def)
  then show ?thesis by (simp add: header_of_def MAGIC_def eval_simps)
qed

lemma header_written: "header_of (overwrite v 0 (MAGIC @ le_bytes 4 q @ ws)) = Some q"
  by (simp add: header_of_def overwrite_def MAGIC_def le_word_le_bytes)

definition fresh :: "'f \<Rightarrow> nat \<Rightarrow> nat \<Rightarrow> 'f nor_flash_store" where
  "fresh f base len = \<lparr>nf_flash = f, nf_stats = stats_default, nf_base = base, nf_half = len div 2, nf_active = 0,
     nf_seq = 0, nf_tail = HEADER_LEN\<rparr>"

definition region_ok :: "'f nor_driver \<Rightarrow> ('f \<Rightarrow> bytes) \<Rightarrow> 'f \<Rightarrow> nat \<Rightarrow> nat \<Rightarrow> bool" where
  "region_ok D cells f base len \<longleftrightarrow>
     2 * ERASE_SIZE D \<le> len \<and> 2 * ERASE_SIZE D dvd len \<and> ERASE_SIZE D dvd base \<and> base + len \<le> length (cells f)"

text \<open>A flash that will be opened, after a reset, with the contents \<open>c\<close>.\<close>

definition recovers :: "'f nor_driver \<Rightarrow> ('f \<Rightarrow> bytes) \<Rightarrow> 'f nor_flash_store \<Rightarrow> (storage_key \<Rightarrow> bytes option) \<Rightarrow> bool" where
  "recovers D cells t c \<longleftrightarrow>
     (\<exists>h q es. chosen (header_of (half_view cells t 0)) (header_of (half_view cells t 1)) = Some (h, q) \<and>
        log_half D (half_view cells t h) es \<and> log_contents D es = c)"

definition compaction_outcome ::
  "'f nor_driver \<Rightarrow> ('f \<Rightarrow> bytes) \<Rightarrow> ('f \<Rightarrow> bool) \<Rightarrow> 'f nor_flash_store \<Rightarrow> log_entry list \<Rightarrow> (storage_key \<Rightarrow> bytes option) \<Rightarrow>
     (storage_error + unit) \<Rightarrow> 'f nor_flash_store \<Rightarrow> bool" where
  "compaction_outcome D cells steady s es c res t \<longleftrightarrow>
     nf_base t = nf_base s \<and> nf_half t = nf_half s \<and>
     (case res of
        Inr _ \<Rightarrow> nf_inv D cells t es \<and> (steady (nf_flash s) \<longrightarrow> steady (nf_flash t))
      | Inl _ \<Rightarrow> \<not> steady (nf_flash s) \<and> recovers D cells t c \<and> geometry D cells t)"

text \<open>The states a store that never met a failure goes through.\<close>

definition nf_ok :: "'f nor_driver \<Rightarrow> ('f \<Rightarrow> bytes) \<Rightarrow> ('f \<Rightarrow> bool) \<Rightarrow> 'f nor_flash_store \<Rightarrow> bool" where
  "nf_ok D cells steady s \<longleftrightarrow> steady (nf_flash s) \<and> (\<exists>es. nf_inv D cells s es \<and> (\<forall>e \<in> set es. intact e))"

context nor_flash
begin

section \<open>Opening\<close>

lemma half_holds_header: "geometry D cells s \<Longrightarrow> 16 \<le> nf_half s"
  using granules(5) dvd_imp_le [of "ERASE_SIZE D" "nf_half s"] by (simp add: geometry_def)

lemma header_seq_log:
  assumes "geometry D cells s" "h \<le> 1"
  shows "\<exists>s'. header_seq D h s = (Inr (header_of (half_view cells s h)), s') \<and> same_log cells steady s s'"
proof -
  have "0 + 16 \<le> nf_half s" using half_holds_header [OF assms(1)] by simp
  from read_half [OF assms dvd_0_right granules(3) this] show ?thesis
    by (auto simp: header_seq_def header_of_def HEADER_LEN_def min_def take_drop)
qed

lemma fresh_geometry: "region_ok D cells f base len \<Longrightarrow> geometry D cells (fresh f base len)"
  using granules(5) by (auto simp: region_ok_def geometry_def fresh_def half_base_def elim!: dvdE)

lemma open_half_log:
  assumes "geometry D cells s" "h \<le> 1" "log_half D (half_view cells s h) es"
    and "chosen (header_of (half_view cells s 0)) (header_of (half_view cells s 1)) = Some (h, q)"
  shows "\<exists>t. open_half D h q s = (Inr (), t) \<and> nf_inv D cells t es \<and> nf_base t = nf_base s \<and> nf_half t = nf_half s \<and>
     cells (nf_flash t) = cells (nf_flash s) \<and> steady (nf_flash t) = steady (nf_flash s)"
proof -
  define s' where "s' = s\<lparr>nf_active := h, nf_seq := q\<rparr>"
  have v: "half_view cells s' x = half_view cells s x" for x by (simp add: s'_def half_view_def half_base_def)
  have g: "geometry D cells s'" using assms(1,2) by (simp add: s'_def geometry_def half_base_def)
  from scan_tail_log [OF g, of es] assms(3) v obtain t where
    t: "scan_tail D s' = (Inr (), t)" "same_log cells steady (s'\<lparr>nf_tail := log_end D es\<rparr>) t" by (auto simp: s'_def)
  have w: "half_view cells t x = half_view cells s x" for x
    using same_log_view [OF t(2)] v by (simp add: half_view_def half_base_def)
  have "geometry D cells t" using same_log_geometry [OF t(2)] g by (simp add: geometry_def half_base_def)
  then have "nf_inv D cells t es" using t(2) assms(3,4) w by (simp add: nf_inv_def same_log_def s'_def)
  with t show ?thesis by (auto simp: open_half_def s'_def same_log_def)
qed

lemma nf_new_reads:
  assumes "region_ok D cells f base len" "s = fresh f base len"
  shows "\<exists>t. same_log cells steady s t \<and> nf_new D f base len =
    (case (case chosen (header_of (half_view cells s 0)) (header_of (half_view cells s 1)) of
             None \<Rightarrow> nf_format D (t\<lparr>nf_stats := (nf_stats t)\<lparr>formatted_at_open := True\<rparr>\<rparr>)
           | Some (h, q) \<Rightarrow> open_half D h q t) of
       (Inl e, _) \<Rightarrow> Inl e | (Inr _, t') \<Rightarrow> Inr t')"
proof -
  have g: "geometry D cells s" using fresh_geometry [OF assms(1)] assms(2) by simp
  obtain s1 where s1: "header_seq D 0 s = (Inr (header_of (half_view cells s 0)), s1)" "same_log cells steady s s1"
    using header_seq_log [OF g] by auto
  obtain s2 where s2: "header_seq D 1 s1 = (Inr (header_of (half_view cells s 1)), s2)" "same_log cells steady s1 s2"
    using header_seq_log [of s1 1] g same_log_simps [OF s1(2)] by auto
  have "nf_new D f base len =
    (case (case chosen (header_of (half_view cells s 0)) (header_of (half_view cells s 1)) of
             None \<Rightarrow> nf_format D (s2\<lparr>nf_stats := (nf_stats s2)\<lparr>formatted_at_open := True\<rparr>\<rparr>)
           | Some (h, q) \<Rightarrow> open_half D h q s2) of
       (Inl e, _) \<Rightarrow> Inl e | (Inr _, t') \<Rightarrow> Inr t')"
    using assms(1) s1(1) s2(1) align_le(1)
    by (auto simp: nf_new_def region_ok_def CHUNK_def chosen_def assms(2) fresh_def split: option.splits)
  with same_log_trans [OF s1(2) s2(2)] show ?thesis by blast
qed

lemma nf_new_at:
  assumes "region_ok D cells f base len" "s = fresh f base len"
    and "chosen (header_of (half_view cells s 0)) (header_of (half_view cells s 1)) = Some (h, q)"
    and "log_half D (half_view cells s h) es"
  shows "\<exists>t. nf_new D f base len = Inr t \<and> nf_inv D cells t es \<and>
     nf_base t = base \<and> nf_half t = len div 2 \<and> cells (nf_flash t) = cells f \<and> steady (nf_flash t) = steady f"
proof -
  have g: "geometry D cells s" "h \<le> 1"
    using fresh_geometry [OF assms(1)] chosen_valid [OF assms(3)] assms(2) by simp_all
  from nf_new_reads [OF assms(1,2)] obtain s2 where s2: "same_log cells steady s s2"
    "nf_new D f base len = (case open_half D h q s2 of (Inl e, _) \<Rightarrow> Inl e | (Inr _, t') \<Rightarrow> Inr t')"
    using assms(3) by auto
  note v2 = same_log_simps [OF s2(1)]
  from open_half_log [of s2 h es q] g v2 assms(3,4) s2 show ?thesis
    by (auto simp: same_log_def assms(2) fresh_def)
qed

lemma nf_new_log:
  assumes "region_ok D cells f base len"
    and "recovers D cells (fresh f base len) c"
  shows "\<exists>t es. nf_new D f base len = Inr t \<and> nf_inv D cells t es \<and> log_contents D es = c \<and>
     nf_base t = base \<and> nf_half t = len div 2 \<and> cells (nf_flash t) = cells f \<and> steady (nf_flash t) = steady f"
proof -
  from assms(2) obtain h q es where
    "chosen (header_of (half_view cells (fresh f base len) 0)) (header_of (half_view cells (fresh f base len) 1)) = Some (h, q)"
    "log_half D (half_view cells (fresh f base len) h) es" "log_contents D es = c" by (auto simp: recovers_def)
  with nf_new_at [OF assms(1) refl] show ?thesis by blast
qed

section \<open>Compaction\<close>

lemma write_header_log:
  assumes "geometry D cells s" "h \<le> 1" "take 16 (half_view cells s h) = replicate 16 0xff" "write_header D h q s = (res, t)"
  shows "(\<exists>f. t = s\<lparr>nf_flash := f\<rparr>) \<and>
    (case res of
       Inr _ \<Rightarrow> programmed cells s h 0 (MAGIC @ le_bytes 4 q @ replicate 8 0xff) t \<and> (steady (nf_flash s) \<longrightarrow> steady (nf_flash t))
     | Inl _ \<Rightarrow> \<not> steady (nf_flash s) \<and> (\<exists>ws. length ws = 16 \<and> programmed cells s h 0 ws t))"
proof -
  define B where "B = half_base s h"
  define bs where "bs = MAGIC @ le_bytes 4 q @ replicate 8 0xff"
  have l: "length bs = 16" by (simp add: bs_def MAGIC_def)
  have "take 16 (drop B (cells (nf_flash s))) = replicate 16 0xff"
    using assms(3) half_holds_header [OF assms(1)] by (simp add: half_view_def B_def min_def)
  then have e: "erased (cells (nf_flash s)) B (length bs)"
    using half_in_flash(1) [OF assms(1,2)] half_holds_header [OF assms(1)] l by (simp add: erased_def B_def)
  have d: "WRITE_SIZE D dvd B" "WRITE_SIZE D dvd length bs"
    using half_aligned(1) [OF assms(1)] granules(2,3) l by (auto simp: B_def intro: dvd_trans)
  obtain r f where r: "drv_write D B bs (nf_flash s) = (r, f)" by fastforce
  with assms(4) have "t = s\<lparr>nf_flash := f\<rparr>" "res = map_err (\<lambda>_. StorageIo) r"
    by (auto simp: write_header_def on_flash_def B_def bs_def)
  then show ?thesis
    using write_done [OF d e, of "()" f] write_cut [OF d e, of "()" f] r l
    by (cases r) (auto simp: programmed_def B_def bs_def)
qed

lemma log_half_erased: "16 \<le> n \<Longrightarrow> log_half D (replicate n 0xff) []"
  unfolding log_half_def
  by (intro conjI exI [of _ "replicate 16 0xff"] exI [of _ "n - 16"]) (auto simp: replicate_add [symmetric])

lemma new_half_erased:
  assumes "geometry D cells s" "h \<le> 1" "programmed cells s h 0 (replicate (nf_half s) 0xff) t"
  shows "half_view cells t h = replicate (nf_half s) 0xff" "log_half D (half_view cells t h) []"
    "take 16 (half_view cells t h) = replicate 16 0xff" "header_of (half_view cells t h) = None"
proof -
  show v: "half_view cells t h = replicate (nf_half s) 0xff"
    using view_programmed(1) [OF assms] half_in_flash(2) [OF assms(1,2)] by (simp add: overwrite_def)
  show "log_half D (half_view cells t h) []" using log_half_erased half_holds_header [OF assms(1)] by (simp add: v)
  show "take 16 (half_view cells t h) = replicate 16 0xff" using half_holds_header [OF assms(1)] by (simp add: v)
  then show "header_of (half_view cells t h) = None" by (rule header_erased)
qed

text \<open>Everything up to the new header: the old half decides until then.\<close>

lemma recovers_old:
  assumes "log_half D (half_view cells t h) es" "h \<le> 1"
    and "header_of (half_view cells t h) = Some q" "header_of (half_view cells t (1 - h)) = None"
  shows "recovers D cells t (log_contents D es)"
  using assms chosen_other_none [of h "\<lambda>x. header_of (half_view cells t x)" q] by (auto simp: recovers_def)

text \<open>Whatever a cut header write leaves, both halves carry the same contents.\<close>

lemma recovers_either:
  assumes "log_half D (half_view cells t h) es" "log_half D (half_view cells t (1 - h)) es'" "h \<le> 1"
    and "log_contents D es' = log_contents D es" "header_of (half_view cells t h) \<noteq> None"
  shows "recovers D cells t (log_contents D es)"
proof -
  obtain h' q' where c: "chosen (header_of (half_view cells t 0)) (header_of (half_view cells t 1)) = Some (h', q')"
    using chosen_exists [of h "\<lambda>x. header_of (half_view cells t x)"] assms(3,5) by blast
  have "h' \<le> 1" using chosen_valid [OF c] by simp
  then have "h' = h \<or> h' = 1 - h" using assms(3) by auto
  with c assms show ?thesis unfolding recovers_def by metis
qed

text \<open>The outcome of a compaction step that started from the contents \<open>c\<close> of \<open>s\<close>.\<close>

lemma erase_old_log:
  assumes "geometry D cells s" "nf_active s = 1 - old" "old \<le> 1" "log_half D (half_view cells s (1 - old)) es"
    and "nf_tail s = log_end D es" "header_of (half_view cells s (1 - old)) = Some (nf_seq s)"
    and "header_of (half_view cells s old) = Some (nf_seq s - 1)" "erase_half D old s = (res, t)"
  shows "compaction_outcome D cells steady s es (log_contents D es) res t"
proof -
  note e = erase_half_log [OF assms(1,3,8)]
  note new = other_half [OF assms(3)]
  have fr: "nf_active t = nf_active s" "nf_seq t = nf_seq s" "nf_tail t = nf_tail s" "nf_base t = nf_base s" "nf_half t = nf_half s"
    using e by auto
  have erased: "nf_inv D cells t es" if p: "programmed cells s old 0 (replicate (nf_half s) 0xff) t"
  proof -
    note v = view_programmed(2) [OF assms(1,3) p _ new(1,2)] view_programmed(3) [OF assms(1,3) p]
    note n = new_half_erased(4) [OF assms(1,3) p]
    show ?thesis
      using v n fr assms(2,4-6) chosen_other_none [of "1 - old" "\<lambda>x. header_of (half_view cells t x)" "nf_seq s"] new
      by (simp add: nf_inv_def)
  qed
  have kept: "recovers D cells t (log_contents D es) \<and> geometry D cells t" if "cells (nf_flash t) = cells (nf_flash s)"
  proof -
    have v: "half_view cells t x = half_view cells s x" "geometry D cells t" for x
      using that fr assms(1) by (simp_all add: half_view_def half_base_def geometry_def)
    show ?thesis
      using chosen_successor [of old "\<lambda>x. header_of (half_view cells t x)" "nf_seq s - 1"] assms v
      by (auto simp: recovers_def)
  qed
  have rec: "recovers D cells t (log_contents D es) \<and> geometry D cells t" if "nf_inv D cells t es"
    using that by (auto simp: nf_inv_def recovers_def)
  show ?thesis
    using e erased kept rec fr by (cases res) (auto simp: compaction_outcome_def)
qed

lemma finish_log:
  assumes g: "geometry D cells s" "old \<le> 1" "new = 1 - old"
    and lg: "log_half D (half_view cells s old) es" "header_of (half_view cells s old) = Some q"
      "log_half D (half_view cells s new) ks" "take 16 (half_view cells s new) = replicate 16 0xff"
      "log_contents D ks = log_contents D es"
    and run: "step_try (write_header D new (q + 1)) (\<lambda>_. step_try (switch_half new (q + 1) (log_end D ks)) (\<lambda>_. erase_half D old)) s = (res, t)"
  shows "compaction_outcome D cells steady s ks (log_contents D es) res t"
proof -
  obtain r s1 where w: "write_header D new (q + 1) s = (r, s1)" by fastforce
  have new: "new \<le> 1" "old \<noteq> new" "1 - old = new" using other_half [OF g(2)] g(3) by auto
  note wl = write_header_log [OF g(1) new(1) lg(4) w]
  obtain ws where ws: "programmed cells s new 0 ws s1" "length ws = 16"
    "r = Inr () \<longrightarrow> ws = MAGIC @ le_bytes 4 (q + 1) @ replicate 8 0xff"
    using wl by (cases r) (auto simp: MAGIC_def)
  have fit: "0 + length ws \<le> nf_half s" using half_holds_header [OF g(1)] ws(2) by simp
  have act: "nf_active s1 \<le> 1" using wl g(1) by (auto simp: geometry_def)
  note v = view_programmed(1) [OF g(1) new(1) ws(1) fit] view_programmed(2) [OF g(1) new(1) ws(1) fit g(2) new(2)]
    view_programmed(3) [OF g(1) new(1) ws(1) fit act]
  have ln: "log_half D (half_view cells s1 new) ks" using v(1) log_half_header [OF lg(3) ws(2)] by simp
  have fr: "nf_base s1 = nf_base s" "nf_half s1 = nf_half s" using wl by auto
  show ?thesis
  proof (cases r)
    case (Inl x)
    then have t: "res = Inl x" "t = s1" using run w by simp_all
    have "recovers D cells s1 (log_contents D es)"
      using recovers_either [of s1 old es ks] v lg(1,2,5) ln g(2) new(3) by simp
    then show ?thesis using t wl Inl fr v(3) by (simp add: compaction_outcome_def)
  next
    case (Inr u)
    define s2 where "s2 = snd (switch_half new (q + 1) (log_end D ks) s1)"
    have s2: "nf_active s2 = 1 - old" "nf_seq s2 = q + 1" "nf_tail s2 = log_end D ks" "nf_flash s2 = nf_flash s1"
      "nf_base s2 = nf_base s1" "nf_half s2 = nf_half s1" by (simp_all add: s2_def switch_half_def g(3))
    have v2: "half_view cells s2 x = half_view cells s1 x" for x by (simp add: half_view_def half_base_def s2)
    have g2: "geometry D cells s2" using v(3) s2 new by (simp add: geometry_def half_base_def)
    have e: "erase_half D old s2 = (res, t)" using run w Inr by (simp add: s2_def switch_half_def)
    have hn: "header_of (half_view cells s1 new) = Some (q + 1)" using v(1) ws(3) Inr header_written by simp
    have "compaction_outcome D cells steady s2 ks (log_contents D ks) res t"
      using erase_old_log [OF g2 s2(1) g(2) _ s2(3) _ _ e] v2 ln hn v(2) lg(2) s2(2) new(3) by simp
    then show ?thesis using wl Inr s2 fr lg(5) by (auto simp: compaction_outcome_def split: sum.splits)
  qed
qed

lemma compact_log:
  assumes inv: "nf_inv D cells s es" and run: "compact D s = (res, t)"
  shows "compaction_outcome D cells steady s (kept D es) (log_contents D es) res t"
proof -
  define old where "old = nf_active s"
  define new where "new = 1 - old"
  have g: "geometry D cells s" "log_half D (half_view cells s old) es" and o: "old \<le> 1"
    and ch: "chosen (header_of (half_view cells s 0)) (header_of (half_view cells s 1)) = Some (old, nf_seq s)"
    using inv by (auto simp: nf_inv_def geometry_def old_def)
  have n: "new \<le> 1" "new \<noteq> old" "old \<noteq> new" "1 - old = new" using other_half [OF o] by (simp_all add: new_def)
  have hd: "header_of (half_view cells s old) = Some (nf_seq s)"
    using chosen_valid [of "\<lambda>x. header_of (half_view cells s x)", OF ch] by simp
  have ok: "\<forall>e \<in> set es. entry_ok D e" using g(2) by (simp add: log_half_def)
  obtain r s1 where e1: "erase_half D new s = (r, s1)" by fastforce
  note el = erase_half_log [OF g(1) n(1) e1]
  have act: "nf_active s1 \<le> 1" "nf_base s1 = nf_base s" "nf_half s1 = nf_half s" "nf_seq s1 = nf_seq s" using el g(1) by (auto simp: geometry_def)
  have er: "half_view cells s1 old = half_view cells s old \<and> geometry D cells s1 \<and> log_half D (half_view cells s1 new) [] \<and>
      take 16 (half_view cells s1 new) = replicate 16 0xff"
    if p: "programmed cells s new 0 (replicate (nf_half s) 0xff) s1"
    using view_programmed(2) [OF g(1) n(1) p _ o n(3)] view_programmed(3) [OF g(1) n(1) p _ act(1)]
      new_half_erased(2,3) [OF g(1) n(1) p] by simp
  show ?thesis
  proof (cases r)
    case (Inl x)
    then have t: "res = Inl x" "t = s1" using run e1 by (simp_all add: compact_def Let_def old_def new_def)
    have "recovers D cells s1 (log_contents D es) \<and> geometry D cells s1"
    proof (cases "cells (nf_flash s1) = cells (nf_flash s)")
      case True
      then have "half_view cells s1 x = half_view cells s x" "geometry D cells s1" for x
        using g(1) act by (simp_all add: half_view_def half_base_def geometry_def)
      with ch g(2) show ?thesis by (auto simp: recovers_def)
    next
      case False
      with el Inl have "programmed cells s new 0 (replicate (nf_half s) 0xff) s1" by auto
      from er [OF this] recovers_old [of s1 old es "nf_seq s"] g(2) o hd n(4) header_erased show ?thesis by simp
    qed
    then show ?thesis using t el Inl act by (simp add: compaction_outcome_def)
  next
    case (Inr u)
    then have s1: "half_view cells s1 old = half_view cells s old" "geometry D cells s1" "log_half D (half_view cells s1 new) []"
      "take 16 (half_view cells s1 new) = replicate 16 0xff" "steady (nf_flash s) \<longrightarrow> steady (nf_flash s1)"
      using el er by auto
    obtain q s2 where c: "compact_loop (Suc (nf_half s)) D old new 16 16 s1 = (q, s2)" by fastforce
    have "length es < Suc (nf_half s)" using entries_below_half [OF g(2)] half_in_flash(2) [OF g(1) o] by simp
    note cl = compact_loop_log [OF s1(2) o n(1,3) _ this, of es "[]" q s2] 
    have loop: "same_frame s1 s2 \<and> geometry D cells s2 \<and> half_view cells s2 old = half_view cells s old \<and>
       take 16 (half_view cells s2 new) = replicate 16 0xff \<and>
       (case q of
          Inr out \<Rightarrow> log_half D (half_view cells s2 new) (kept D es) \<and> out = log_end D (kept D es) \<and>
            (steady (nf_flash s1) \<longrightarrow> steady (nf_flash s2))
        | Inl _ \<Rightarrow> \<not> steady (nf_flash s1))"
      using cl s1 g(2) c by simp
    have fr: "nf_base s2 = nf_base s" "nf_half s2 = nf_half s" using loop act by (simp_all add: same_frame_def)
    show ?thesis
    proof (cases q)
      case (Inl x)
      then have "res = Inl x" "t = s2" using run e1 Inr c by (simp_all add: compact_def Let_def old_def new_def HEADER_LEN_def)
      moreover have "recovers D cells s2 (log_contents D es)"
        using recovers_old [of s2 old es "nf_seq s"] loop g(2) o hd n(4) header_erased by simp
      ultimately show ?thesis using loop Inl s1(5) fr by (auto simp: compaction_outcome_def)
    next
      case (Inr out)
      have run2: "step_try (write_header D new (nf_seq s + 1)) (\<lambda>_. step_try (switch_half new (nf_seq s + 1) (log_end D (kept D es))) (\<lambda>_. erase_half D old)) s2 = (res, t)"
        using run e1 \<open>r = Inr u\<close> c Inr loop by (simp add: compact_def Let_def old_def new_def HEADER_LEN_def)
      have "compaction_outcome D cells steady s2 (kept D es) (log_contents D es) res t"
        using finish_log [OF _ o new_def _ _ _ _ log_contents_kept [OF ok] run2] loop Inr g(2) hd by simp
      then show ?thesis using loop Inr s1(5) fr by (auto simp: compaction_outcome_def split: sum.splits)
    qed
  qed
qed

section \<open>Formatting\<close>

lemma format_log:
  assumes "geometry D cells s" "steady (nf_flash s)"
  shows "\<exists>t. nf_format D s = (Inr (), t) \<and> nf_inv D cells t [] \<and> steady (nf_flash t) \<and> nf_base t = nf_base s \<and> nf_half t = nf_half s"
proof -
  obtain r1 s1 where e1: "erase_half D 0 s = (r1, s1)" by fastforce
  note l1 = erase_half_log [OF assms(1) _ e1]
  have s1: "r1 = Inr ()" "programmed cells s 0 0 (replicate (nf_half s) 0xff) s1" "steady (nf_flash s1)" "nf_base s1 = nf_base s"
    "nf_half s1 = nf_half s" "nf_active s1 \<le> 1"
    using l1 assms by (cases r1; auto simp: geometry_def)+
  have g1: "geometry D cells s1" using view_programmed(3) [OF assms(1) _ s1(2)] s1(6) by simp
  note v1 = new_half_erased [OF assms(1) _ s1(2)]
  obtain r2 s2 where e2: "erase_half D 1 s1 = (r2, s2)" by fastforce
  note l2 = erase_half_log [OF g1 _ e2]
  have s2: "r2 = Inr ()" "programmed cells s1 1 0 (replicate (nf_half s1) 0xff) s2" "steady (nf_flash s2)" "nf_base s2 = nf_base s1"
    "nf_half s2 = nf_half s1" using l2 s1(3) by (cases r2; auto)+
  note v2 = new_half_erased [OF g1 _ s2(2)] view_programmed(2) [OF g1 _ s2(2), of 0]
  define s3 where "s3 = s2\<lparr>nf_active := 0, nf_seq := 1\<rparr>"
  have h3: "half_view cells s3 x = half_view cells s2 x" for x by (simp add: s3_def half_view_def half_base_def)
  have g3: "geometry D cells s3" using view_programmed(3) [OF g1 _ s2(2)] l2 s1(6)
    by (auto simp: s3_def geometry_def half_base_def)
  have t3: "take 16 (half_view cells s3 0) = replicate 16 0xff" "log_half D (half_view cells s3 0) []"
    "header_of (half_view cells s3 1) = None" using h3 v1 v2 by simp_all
  obtain r4 s4 where w: "write_header D 0 1 s3 = (r4, s4)" by fastforce
  note l4 = write_header_log [OF g3 _ t3(1) w]
  have s4: "r4 = Inr ()" "programmed cells s3 0 0 (MAGIC @ le_bytes 4 (1 :: u32) @ replicate 8 0xff) s4" "steady (nf_flash s4)"
    and f4: "\<exists>f. s4 = s3\<lparr>nf_flash := f\<rparr>"
    using l4 s2(3) by (simp_all add: s3_def split: sum.splits)
  from f4 have s4f: "nf_base s4 = nf_base s3" "nf_half s4 = nf_half s3" "nf_active s4 = 0" "nf_seq s4 = 1"
    by (auto simp: s3_def)
  have fit: "0 + length (MAGIC @ le_bytes 4 (1 :: u32) @ replicate 8 0xff) \<le> nf_half s3"
    using half_holds_header [OF g3] by (simp add: MAGIC_def)
  note v4 = view_programmed [OF g3 _ s4(2) fit]
  have "log_half D (half_view cells s4 0) []" "header_of (half_view cells s4 0) = Some 1" "header_of (half_view cells s4 1) = None"
    using v4(1) v4(2) [of 1] t3 log_half_header [OF t3(2)] header_written by (simp_all add: MAGIC_def)
  then have "nf_inv D cells (s4\<lparr>nf_tail := HEADER_LEN\<rparr>) []"
    using v4(3) s4f by (simp add: nf_inv_def geometry_def half_view_def half_base_def chosen_def HEADER_LEN_def)
  then show ?thesis
    using e1 e2 w s1 s2 s4 s4f by (auto simp: nf_format_def s3_def)
qed

lemma nf_new_blank:
  assumes "region_ok D cells f base len" "steady f" "s = fresh f base len"
    and "header_of (half_view cells s 0) = None" "header_of (half_view cells s 1) = None"
  shows "\<exists>t. nf_new D f base len = Inr t \<and> nf_inv D cells t [] \<and> steady (nf_flash t) \<and> nf_base t = base \<and> nf_half t = len div 2"
proof -
  from nf_new_reads [OF assms(1,3)] obtain s2 where s2: "same_log cells steady s s2"
    "nf_new D f base len = (case nf_format D (s2\<lparr>nf_stats := (nf_stats s2)\<lparr>formatted_at_open := True\<rparr>\<rparr>) of
       (Inl e, _) \<Rightarrow> Inl e | (Inr _, t') \<Rightarrow> Inr t')"
    using assms(4,5) by (auto simp: chosen_def)
  define s3 where "s3 = s2\<lparr>nf_stats := (nf_stats s2)\<lparr>formatted_at_open := True\<rparr>\<rparr>"
  have "geometry D cells s3" "steady (nf_flash s3)"
    using fresh_geometry [OF assms(1)] same_log_geometry [OF s2(1)] s2(1) assms(2,3)
    by (simp_all add: s3_def geometry_def half_base_def same_log_def fresh_def)
  from format_log [OF this] s2 show ?thesis
    by (auto simp: s3_def same_log_def assms(3) fresh_def)
qed

section \<open>Appending\<close>

lemma header_beyond: "16 \<le> pos \<Longrightarrow> pos \<le> length v \<Longrightarrow> header_of (overwrite v pos xs) = header_of v"
  by (simp add: header_of_def overwrite_def drop_take)

lemma append_record_log:
  assumes inv: "nf_inv D cells s es" and r: "unat (fr_len r) = length data" "length data \<le> MAX_RECORD"
    and fit: "nf_tail s + fr_size D r \<le> nf_half s" and run: "append_record D r data s = (res, t)"
  shows "nf_base t = nf_base s \<and> nf_half t = nf_half s \<and>
    (case res of
       Inr _ \<Rightarrow> (\<exists>pad. nf_inv D cells t (es @ [(r, data @ pad)])) \<and> (steady (nf_flash s) \<longrightarrow> steady (nf_flash t))
     | Inl _ \<Rightarrow> \<not> steady (nf_flash s))"
proof -
  define h where "h = nf_active s"
  define e where "e = (r, data @ replicate (fr_size D r - 16 - length data) (0xff :: u8))"
  have g: "geometry D cells s" "h \<le> 1" "log_half D (half_view cells s h) es" "nf_tail s = log_end D es"
    using inv by (auto simp: nf_inv_def geometry_def h_def)
  have ok: "entry_ok D e" "fst e = r" and oct: "padded D (record_header r @ data) = entry_octets e"
    using size_facts(3) [of r] r by (simp_all add: entry_ok_def e_def padded_def entry_octets_def fr_size_def HEADER_LEN_def)
  have le: "length (entry_octets e) = fr_size D r" using length_entry_octets [OF ok(1)] ok(2) by simp
  have fit': "log_end D es + fr_size D r \<le> nf_half s" using fit g(4) by simp
  have lv: "length (half_view cells s h) = nf_half s" using half_in_flash(2) [OF g(1,2)] .
  have er: "erased (cells (nf_flash s)) (half_base s h + log_end D es) (length (padded D (record_header r @ data)))"
    using view_erased [OF g(1,2) _ fit'] log_half_free [OF g(3)] lv oct le by simp
  have al: "align D dvd half_base s h + log_end D es" using half_aligned(1) [OF g(1)] log_end_aligned by simp
  obtain r' f w where w: "step_try (cw_push D (record_header r)) (\<lambda>_. step_try (cw_push D data) (\<lambda>_. cw_flush D))
      (nf_flash s, cw_new (half_base s h + log_end D es)) = (r', f, w)"
    by (cases "step_try (cw_push D (record_header r)) (\<lambda>_. step_try (cw_push D data) (\<lambda>_. cw_flush D))
      (nf_flash s, cw_new (half_base s h + log_end D es))") auto
  note wr = write_run [OF al er w, unfolded oct]
  show ?thesis
  proof (cases r')
    case (Inl x)
    then show ?thesis using run w wr g(4) by (auto simp: append_record_def h_def)
  next
    case (Inr u)
    then have t: "res = Inr ()" "nf_flash t = f" "nf_active t = h" "nf_seq t = nf_seq s" "nf_base t = nf_base s" "nf_half t = nf_half s"
      "nf_tail t = log_end D (es @ [e])" using run w g(4) ok(2) by (auto simp: append_record_def h_def)
    have pr: "programmed cells s h (log_end D es) (entry_octets e) t" using t wr Inr by (simp add: programmed_def)
    have f2: "log_end D es + length (entry_octets e) \<le> nf_half s" using fit' le by simp
    have v: "half_view cells t h = overwrite (half_view cells s h) (log_end D es) (entry_octets e)"
      using view_programmed(1) [OF g(1,2) pr f2] .
    have gt: "geometry D cells t" using view_programmed(3) [OF g(1,2) pr f2] t(3) g(2) by simp
    have hd: "header_of (half_view cells t x) = header_of (half_view cells s x)" if "x \<le> 1" for x
    proof (cases "x = h")
      case True
      then show ?thesis using v header_beyond [of "log_end D es"] fit' lv by (simp add: log_end_def)
    next
      case False
      then show ?thesis using view_programmed(2) [OF g(1,2) pr f2 that] by simp
    qed
    have "log_half D (half_view cells t h) (es @ [e])" using v log_half_snoc [OF g(3) ok(1)] fit' ok(2) lv by simp
    then have "nf_inv D cells t (es @ [e])" using gt t inv hd by (simp add: nf_inv_def h_def)
    then show ?thesis using t wr Inr by (auto simp: e_def)
  qed
qed

lemma nf_append_log:
  assumes inv: "nf_inv D cells s es" and run: "nf_append D k fl i data s = (res, t)"
  shows "nf_base t = nf_base s \<and> nf_half t = nf_half s \<and>
    (case res of
       Inr _ \<Rightarrow> (\<exists>es' pad. es' \<in> {es, kept D es} \<and> (steady (nf_flash s) \<longrightarrow> steady (nf_flash t)) \<and> length data \<le> MAX_RECORD \<and>
          nf_inv D cells t (es' @ [(\<lparr>fr_kind = k, fr_flags = fl, fr_id = i, fr_len = of_nat (length data), fr_crc = crc16 data\<rparr>, data @ pad)]))
     | Inl x \<Rightarrow> steady (nf_flash s) \<longrightarrow>
          x = StorageFull \<and> steady (nf_flash t) \<and> (\<exists>es' \<in> {es, kept D es}. nf_inv D cells t es'))"
proof (cases "MAX_RECORD < length data")
  case True
  then show ?thesis using run inv by (auto simp: nf_append_def)
next
  case False
  define r where "r = \<lparr>fr_kind = k, fr_flags = fl, fr_id = i, fr_len = of_nat (length data), fr_crc = crc16 data\<rparr>"
  have r: "unat (fr_len r) = length data" "length data \<le> MAX_RECORD"
    using False by (simp_all add: r_def MAX_RECORD_def unat_of_nat take_bit_nat_eq_self)
  show ?thesis
  proof (cases "nf_half s < nf_tail s + fr_size D r")
    case False
    then have "append_record D r data s = (res, t)" using run r(2) by (simp add: nf_append_def r_def [symmetric] Let_def)
    from append_record_log [OF inv r _ this] False r(2) show ?thesis by (auto simp: r_def split: sum.splits)
  next
    case True
    obtain c s1 where c: "compact D s = (c, s1)" by fastforce
    note cl = compact_log [OF inv c]
    show ?thesis
    proof (cases c)
      case (Inl x)
      then have "res = Inl x" "t = s1" using run r(2) True c by (simp_all add: nf_append_def r_def [symmetric] Let_def)
      with cl Inl show ?thesis by (auto simp: compaction_outcome_def)
    next
      case (Inr u)
      then have s1: "nf_inv D cells s1 (kept D es)" "steady (nf_flash s) \<longrightarrow> steady (nf_flash s1)" "nf_base s1 = nf_base s" "nf_half s1 = nf_half s"
        using cl by (auto simp: compaction_outcome_def)
      have rest: "(if nf_half s1 < nf_tail s1 + fr_size D r then (Inl StorageFull, s1) else append_record D r data s1) = (res, t)"
        using run r(2) True c Inr by (simp add: nf_append_def r_def [symmetric] Let_def)
      show ?thesis
      proof (cases "nf_half s1 < nf_tail s1 + fr_size D r")
        case True
        then show ?thesis using rest s1 by auto
      next
        case False
        then have "append_record D r data s1 = (res, t)" using rest by simp
        from append_record_log [OF s1(1) r _ this] False s1 r(2) show ?thesis
          by (fastforce simp: r_def split: sum.splits)
      qed
    qed
  qed
qed

section \<open>The methods of the trait\<close>

lemma nf_inv_contents:
  assumes "nf_inv D cells s es"
  shows "nf_contents D cells s = log_contents D es"
proof -
  have lg: "geometry D cells s" "nf_active s \<le> 1" "log_half D (half_view cells s (nf_active s)) es"
    using assms by (auto simp: nf_inv_def geometry_def)
  have "length es < Suc (nf_half s)" using entries_below_half [OF lg(3)] half_in_flash(2) [OF lg(1,2)] by simp
  then show ?thesis using log_half_entries [OF lg(3)] by (simp only: nf_contents_def nf_log_def)
qed

lemma same_log_inv: "same_log cells steady s t \<Longrightarrow> nf_inv D cells s es \<Longrightarrow> nf_inv D cells t es"
  using same_log_simps [of cells steady s t] by (simp add: nf_inv_def same_log_def)

lemma same_log_ok:
  assumes "same_log cells steady s t" "nf_ok D cells steady s"
  shows "nf_ok D cells steady t \<and> nf_contents D cells t = nf_contents D cells s"
proof -
  from assms(2) obtain es where es: "nf_inv D cells s es" "\<forall>e \<in> set es. intact e" "steady (nf_flash s)" by (auto simp: nf_ok_def)
  note t = same_log_inv [OF assms(1) es(1)]
  show ?thesis using es t assms(1) nf_inv_contents [OF es(1)] nf_inv_contents [OF t]
    by (auto simp: nf_ok_def same_log_def)
qed

lemma kept_intact: "\<forall>e \<in> set es. entry_ok D e \<Longrightarrow> \<forall>e \<in> set (kept D es). intact e"
proof
  fix x assume ok: "\<forall>e \<in> set es. entry_ok D e" and "x \<in> set (kept D es)"
  then have "\<exists>e \<in> set es. x = recopied D e \<and> intact e"
    using kept_from_sources [of x D es 16 es] unfolding kept_def by (metis in_set_conv_decomp)
  then obtain e where "e \<in> set es" "x = recopied D e" "intact e" by blast
  with ok show "intact x" by (simp add: intact_def payload_recopied)
qed

lemma nf_append_ok:
  assumes "nf_ok D cells steady s" "nf_append D k fl i data s = (res, t)"
  shows "nf_ok D cells steady t \<and>
    (case res of
       Inr _ \<Rightarrow> (\<exists>es pad. log_contents D es = nf_contents D cells s \<and>
          nf_contents D cells t = log_contents D (es @ [(\<lparr>fr_kind = k, fr_flags = fl, fr_id = i, fr_len = of_nat (length data), fr_crc = crc16 data\<rparr>, data @ pad)])
          \<and> unat (of_nat (length data) :: u16) = length data)
     | Inl x \<Rightarrow> x = StorageFull \<and> nf_contents D cells t = nf_contents D cells s)"
proof -
  define r where "r = \<lparr>fr_kind = k, fr_flags = fl, fr_id = i, fr_len = of_nat (length data), fr_crc = crc16 data\<rparr>"
  from assms(1) obtain es where es: "nf_inv D cells s es" "\<forall>e \<in> set es. intact e" "steady (nf_flash s)" by (auto simp: nf_ok_def)
  then have ok: "\<forall>e \<in> set es. entry_ok D e" by (simp add: nf_inv_def log_half_def)
  have same: "log_contents D es' = nf_contents D cells s" "\<forall>e \<in> set es'. intact e" if "es' \<in> {es, kept D es}" for es'
    using that nf_inv_contents [OF es(1)] log_contents_kept [OF ok] kept_intact [OF ok] es(2) by auto
  note ap = nf_append_log [OF es(1) assms(2), folded r_def]
  show ?thesis
  proof (cases res)
    case (Inl x)
    with ap es(3) obtain es' where "x = StorageFull" "steady (nf_flash t)" "es' \<in> {es, kept D es}" "nf_inv D cells t es'" by auto
    with same nf_inv_contents [of t es'] Inl show ?thesis by (auto simp: nf_ok_def)
  next
    case (Inr u)
    with ap es(3) obtain es' pad where t: "es' \<in> {es, kept D es}" "steady (nf_flash t)" "length data \<le> MAX_RECORD"
      "nf_inv D cells t (es' @ [(r, data @ pad)])" by auto
    have l: "unat (of_nat (length data) :: u16) = length data" using t(3) by (simp add: MAX_RECORD_def unat_of_nat take_bit_nat_eq_self)
    then have "intact (r, data @ pad)" by (simp add: intact_def payload_def r_def)
    with same(2) [OF t(1)] have "\<forall>e \<in> set (es' @ [(r, data @ pad)]). intact e" by simp
    with t(2,4) have "nf_ok D cells steady t" unfolding nf_ok_def by blast
    with t same(1) [OF t(1)] nf_inv_contents [OF t(4)] Inr l show ?thesis unfolding r_def [symmetric] by auto
  qed
qed

lemma store_outcome:
  assumes i: "nf_ok D cells steady s" and r: "nf_store D k d s = (res, t)"
  shows "nf_ok D cells steady t \<and> (res = Inr () \<and> nf_contents D cells t = (nf_contents D cells s)(k \<mapsto> d) \<or>
       res = Inl StorageFull \<and> nf_contents D cells t = nf_contents D cells s)"
proof -
  define r' where "r' = \<lparr>fr_kind = kind_code (key_kind k), fr_flags = FLAG_SET, fr_id = key_id k,
     fr_len = of_nat (length d), fr_crc = crc16 d\<rparr>"
  note a = nf_append_ok [OF i r [unfolded nf_store_def], folded r'_def]
  show ?thesis
  proof (cases res)
    case (Inr u)
    with a obtain es pad where t: "nf_ok D cells steady t" "log_contents D es = nf_contents D cells s"
      "unat (of_nat (length d) :: u16) = length d" "nf_contents D cells t = log_contents D (es @ [(r', d @ pad)])" by auto
    with contents_store [of r' k "d @ pad" d D es] Inr show ?thesis by (simp add: r'_def fr_matches_def)
  qed (use a in simp)
qed

lemma geometry_region: "geometry D cells s \<Longrightarrow> region_ok D cells (nf_flash s) (nf_base s) (2 * nf_half s)"
  using dvd_imp_le [of "ERASE_SIZE D" "nf_half s"] by (auto simp: geometry_def region_ok_def half_base_def)

lemma fresh_view: "half_view cells (fresh (nf_flash s) (nf_base s) (2 * nf_half s)) h = half_view cells s h"
  by (simp add: half_view_def half_base_def fresh_def)

lemma reopen_inv:
  assumes "nf_inv D cells s es"
  shows "\<exists>t. nf_new D (nf_flash s) (nf_base s) (2 * nf_half s) = Inr t \<and> nf_inv D cells t es \<and>
     steady (nf_flash t) = steady (nf_flash s)"
  using nf_new_at [OF geometry_region refl, of s "nf_active s" "nf_seq s" es] assms
  by (auto simp: nf_inv_def fresh_view)

lemma reopen_recovers:
  assumes "recovers D cells t c" "geometry D cells t"
  shows "\<exists>u. nf_new D (nf_flash t) (nf_base t) (2 * nf_half t) = Inr u \<and> nf_contents D cells u = c"
proof -
  have "recovers D cells (fresh (nf_flash t) (nf_base t) (2 * nf_half t)) c"
    using assms(1) by (simp add: recovers_def fresh_view)
  from nf_new_log [OF geometry_region [OF assms(2)] this] nf_inv_contents show ?thesis by blast
qed

lemma nf_load_log:
  assumes "nf_ok D cells steady s"
  shows "\<exists>t. same_log cells steady s t \<and>
    nf_load D key buf s =
      (case nf_contents D cells s key of
         None \<Rightarrow> (Inr None, buf, t)
       | Some v \<Rightarrow> if length buf < length v then (Inl StorageBufferTooSmall, buf, t)
                   else (Inr (Some (length v)), v @ drop (length v) buf, t))"
proof -
  from assms obtain es where es: "nf_inv D cells s es" "\<forall>e \<in> set es. intact e" by (auto simp: nf_ok_def)
  then have g: "geometry D cells s" "nf_active s \<le> 1" "log_half D (half_view cells s (nf_active s)) es"
    by (auto simp: nf_inv_def geometry_def)
  obtain s1 where s1: "find_record D (nf_active s) key s = (Inr (map_option (\<lambda>(pos, e). (pos, fst e)) (decides D key es)), s1)"
    "same_log cells steady s s1" using find_record_log [OF g] by blast
  note c = nf_inv_contents [OF es(1)]
  show ?thesis
  proof (cases "decides D key es")
    case None
    then show ?thesis using s1 c by (auto simp: nf_load_def log_contents_def)
  next
    case (Some pe)
    then obtain pos e where d: "decides D key es = Some (pos, e)" by (cases pe) auto
    from decides_Some [OF d] obtain pre suf where sp: "es = pre @ e # suf" "pos = log_end D pre" by blast
    then have i: "intact e" and ok: "entry_ok D e" using es(2) g(3) by (auto simp: log_half_def)
    have lp: "length (payload e) = unat (fr_len (fst e))"
      using ok size_facts(3) [of "fst e"] by (auto simp: payload_def entry_ok_def)
    have v: "nf_contents D cells s key = Some (payload e)" using c d i by (simp add: log_contents_def)
    show ?thesis
    proof (cases "length buf < unat (fr_len (fst e))")
      case True
      then show ?thesis using s1 d v lp by (auto simp: nf_load_def)
    next
      case False
      have a1: "nf_active s1 = nf_active s" using s1(2) by (simp add: same_log_def)
      obtain s2 where s2: "read_payload D (nf_active s1) pos (fst e) buf s1 = (Inr True, payload e @ drop (unat (fr_len (fst e))) buf, s2)"
        "same_log cells steady s1 s2"
        using read_payload_log [of s1 "nf_active s1" pre e suf buf] g same_log_simps [OF s1(2)] sp False i a1 by auto
      show ?thesis using s1 d v lp False s2 same_log_trans [OF s1(2) s2(2)] by (intro exI [of _ s2]) (simp add: nf_load_def)
    qed
  qed
qed

lemma nf_load_ok:
  assumes "nf_ok D cells steady s"
  shows "\<exists>t. nf_ok D cells steady t \<and> nf_contents D cells t = nf_contents D cells s \<and>
    nf_load D key buf s =
      (case nf_contents D cells s key of
         None \<Rightarrow> (Inr None, buf, t)
       | Some v \<Rightarrow> if length buf < length v then (Inl StorageBufferTooSmall, buf, t)
                   else (Inr (Some (length v)), v @ drop (length v) buf, t))"
  using nf_load_log [OF assms] same_log_ok [OF _ assms] by blast

lemma split_Cons_ex:
  "(\<exists>pre e es'. x # es = pre @ e # es' \<and> Q pre e) \<longleftrightarrow> Q [] x \<or> (\<exists>pre e es'. es = pre @ e # es' \<and> Q (x # pre) e)"
proof
  assume "\<exists>pre e es'. x # es = pre @ e # es' \<and> Q pre e"
  then obtain pre e es' where "x # es = pre @ e # es'" "Q pre e" by blast
  then show "Q [] x \<or> (\<exists>pre e es'. es = pre @ e # es' \<and> Q (x # pre) e)" by (cases pre) auto
next
  assume "Q [] x \<or> (\<exists>pre e es'. es = pre @ e # es' \<and> Q (x # pre) e)"
  then show "\<exists>pre e es'. x # es = pre @ e # es' \<and> Q pre e"
  proof
    assume "Q [] x"
    then show ?thesis by (intro exI [of _ "[]"] exI [of _ x] exI [of _ es]) simp
  next
    assume "\<exists>pre e es'. es = pre @ e # es' \<and> Q (x # pre) e"
    then obtain pre e es' where "x # es = (x # pre) @ e # es' \<and> Q (x # pre) e" by auto
    then show ?thesis by blast
  qed
qed

lemma walk_spec_any:
  "walk_spec (\<lambda>pre e v. if P pre e then (False, True) else (True, v)) pre es v =
     (v \<or> (\<exists>pre' e es'. es = pre' @ e # es' \<and> P (pre @ pre') e))"
proof (induction es arbitrary: pre v)
  case (Cons x es)
  show ?case unfolding split_Cons_ex [of x es "\<lambda>p e. P (pre @ p) e"] using Cons.IH [of "pre @ [x]" v] by simp
qed simp

lemma nf_erase_kind_walk:
  assumes "nf_ok D cells steady s"
  shows "\<exists>t any. walk D (nf_active s)
         (\<lambda>pos r any. if fr_kind r = kind_code g
            then step_map (\<lambda>live. if live then (False, True) else (True, any)) (\<lambda>s'. is_live D (nf_active s') pos r s')
            else step_ok (True, any)) False s = (Inr any, t) \<and> same_log cells steady s t \<and>
     (\<not> any \<longrightarrow> (\<forall>k. key_kind k = g \<longrightarrow> nf_contents D cells s k = None))"
proof -
  from assms obtain es where es: "nf_inv D cells s es" by (auto simp: nf_ok_def)
  then have g: "geometry D cells s" "nf_active s \<le> 1" "log_half D (half_view cells s (nf_active s)) es"
    by (auto simp: nf_inv_def geometry_def)
  define P where "P pre e \<longleftrightarrow> fr_kind (fst e) = kind_code g \<and> live D es (log_end D pre) e" for pre and e :: log_entry
  define f where "f = (\<lambda>pos r any. if fr_kind r = kind_code g
            then step_map (\<lambda>live. if live then (False, True) else (True, any)) (\<lambda>s'. is_live D (nf_active s') pos r s')
            else step_ok (True, any))"
  have "\<exists>t. walk D (nf_active s) f False s = (Inr (walk_spec (\<lambda>pre e v. if P pre e then (False, True) else (True, v)) [] es False), t)
      \<and> same_log cells steady s t"
  proof (rule walk_log [OF g])
    fix t pre e es' v assume t: "same_log cells steady s t" "es = pre @ e # es'"
    have a: "nf_active t = nf_active s" using t(1) by (simp add: same_log_def)
    obtain u where u: "is_live D (nf_active s) (log_end D pre) (fst e) t = (Inr (live D es (log_end D pre) e), u)" "same_log cells steady t u"
      using is_live_log [of t "nf_active s" es pre e es'] g t(2) same_log_simps [OF t(1)] by auto
    show "\<exists>t'. f (log_end D pre) (fst e) v t = (Inr (if P pre e then (False, True) else (True, v)), t') \<and> same_log cells steady s t'"
      using u(1) t(1) a same_log_trans [OF t(1) u(2)] by (auto simp: f_def P_def)
  qed
  then obtain t where t: "walk D (nf_active s) f False s = (Inr (\<exists>pre e es'. es = pre @ e # es' \<and> P pre e), t)" "same_log cells steady s t"
    by (auto simp: walk_spec_any)
  have "nf_contents D cells s k = None" if "\<not> (\<exists>pre e es'. es = pre @ e # es' \<and> P pre e)" "key_kind k = g" for k
  proof (cases "decides D k es")
    case None
    then show ?thesis using nf_inv_contents [OF es] by (simp add: log_contents_def)
  next
    case (Some pe)
    obtain pos e where pe: "pe = (pos, e)" by (metis surj_pair)
    from decides_Some [OF Some [unfolded pe]] obtain pre es' where sp: "es = pre @ e # es'" "pos = log_end D pre" "fr_matches (fst e) k" by blast
    then have "P pre e" using Some pe that(2) by (simp only: P_def live_def fr_matches_def) blast
    with that(1) sp(1) show ?thesis by blast
  qed
  with t show ?thesis unfolding f_def by blast
qed

lemma nf_erase_cases:
  assumes i: "nf_ok D cells steady s" and r: "nf_erase D k s = (res, t)"
  shows "nf_ok D cells steady t \<and> nf_contents D cells t =
     (case res of Inr _ \<Rightarrow> (nf_contents D cells s)(k := None) | Inl _ \<Rightarrow> nf_contents D cells s)"
proof -
  from i obtain es where es: "nf_inv D cells s es" by (auto simp: nf_ok_def)
  then have g: "geometry D cells s" "nf_active s \<le> 1" "log_half D (half_view cells s (nf_active s)) es"
    by (auto simp: nf_inv_def geometry_def)
  obtain s1 where s1: "find_record D (nf_active s) k s = (Inr (map_option (\<lambda>(pos, e). (pos, fst e)) (decides D k es)), s1)"
    "same_log cells steady s s1" using find_record_log [OF g] by blast
  note ok1 = same_log_ok [OF s1(2) i]
  show ?thesis
  proof (cases "decides D k es")
    case None
    then have "res = Inr ()" "t = s1" using r s1(1) by (simp_all add: nf_erase_def)
    moreover have "nf_contents D cells s k = None" using None nf_inv_contents [OF es] by (simp add: log_contents_def)
    ultimately show ?thesis using ok1 by (simp add: fun_upd_idem)
  next
    case (Some x)
    then have "nf_append D (kind_code (key_kind k)) FLAG_ERASED (key_id k) [] s1 = (res, t)" using r s1(1) by (simp add: nf_erase_def)
    from nf_append_ok [OF _ this] ok1 show ?thesis
      by (cases res) (auto simp: contents_erase [where key = k] fr_matches_def)
  qed
qed

lemma nf_erase_kind_cases:
  assumes i: "nf_ok D cells steady s" and r: "nf_erase_kind D g s = (res, t)"
  shows "nf_ok D cells steady t \<and> nf_contents D cells t =
     (case res of Inr _ \<Rightarrow> (\<lambda>k. if key_kind k = g then None else nf_contents D cells s k) | Inl _ \<Rightarrow> nf_contents D cells s)"
proof -
  obtain s1 found where w: "walk D (nf_active s)
         (\<lambda>pos r any. if fr_kind r = kind_code g
            then step_map (\<lambda>live. if live then (False, True) else (True, any)) (\<lambda>s'. is_live D (nf_active s') pos r s')
            else step_ok (True, any)) False s = (Inr found, s1)"
    and s1: "same_log cells steady s s1" "\<not> found \<longrightarrow> (\<forall>k. key_kind k = g \<longrightarrow> nf_contents D cells s k = None)"
    using nf_erase_kind_walk [OF i, of g] by blast
  have rest: "(if found then nf_append D (kind_code g) FLAG_KIND_ERASED 0 [] else step_ok ()) s1 = (res, t)"
    using r w by (simp add: nf_erase_kind_def)
  note ok1 = same_log_ok [OF s1(1) i]
  show ?thesis
  proof (cases found)
    case True
    then have "nf_append D (kind_code g) FLAG_KIND_ERASED 0 [] s1 = (res, t)" using rest by simp
    from nf_append_ok [OF _ this] ok1 show ?thesis
      by (cases res) (auto simp: contents_erase_kind [where g = g])
  next
    case False
    then show ?thesis using s1(2) rest ok1 by (auto simp: fun_eq_iff)
  qed
qed

end

text \<open>Over a driver that keeps its contract and does not fail, the store keeps the contract of the trait.\<close>

sublocale nor_flash < flash: storage "nf_store D" "nf_load D" "nf_erase D" "nf_erase_kind D" "nf_ok D cells steady" "nf_contents D cells"
proof unfold_locales
  fix s k d u s' assume i: "nf_ok D cells steady s" and r: "nf_store D k d s = (Inr u, s')"
  from store_outcome [OF i r]
  show "nf_ok D cells steady s' \<and> nf_contents D cells s' = (nf_contents D cells s)(k \<mapsto> d)" by simp
next
  fix s k d e s' assume i: "nf_ok D cells steady s" and r: "nf_store D k d s = (Inl e, s')"
  from store_outcome [OF i r]
  show "nf_ok D cells steady s' \<and> nf_contents D cells s' = nf_contents D cells s" by simp
next
  fix s k and buf :: bytes assume i: "nf_ok D cells steady s" and "nf_contents D cells s k = None"
  then show "\<exists>s'. nf_load D k buf s = (Inr None, buf, s') \<and> nf_ok D cells steady s' \<and> nf_contents D cells s' = nf_contents D cells s"
    using nf_load_ok [OF i, of k buf] by auto
next
  fix s k v and buf :: bytes assume i: "nf_ok D cells steady s" and "nf_contents D cells s k = Some v" "length v \<le> length buf"
  then show "\<exists>s'. nf_load D k buf s = (Inr (Some (length v)), v @ drop (length v) buf, s') \<and> nf_ok D cells steady s' \<and>
      nf_contents D cells s' = nf_contents D cells s"
    using nf_load_ok [OF i, of k buf] by auto
next
  fix s k v and buf :: bytes assume i: "nf_ok D cells steady s" and "nf_contents D cells s k = Some v" "length buf < length v"
  then show "\<exists>buf' s'. nf_load D k buf s = (Inl StorageBufferTooSmall, buf', s') \<and> nf_ok D cells steady s' \<and>
      nf_contents D cells s' = nf_contents D cells s"
    using nf_load_ok [OF i, of k buf] by auto
next
  fix s k u s' assume i: "nf_ok D cells steady s" and r: "nf_erase D k s = (Inr u, s')"
  from nf_erase_cases [OF i r] show "nf_ok D cells steady s' \<and> nf_contents D cells s' = (nf_contents D cells s)(k := None)" by simp
next
  fix s k e s' assume i: "nf_ok D cells steady s" and r: "nf_erase D k s = (Inl e, s')"
  from nf_erase_cases [OF i r] show "nf_ok D cells steady s' \<and> nf_contents D cells s' = nf_contents D cells s" by simp
next
  fix s g u s' assume i: "nf_ok D cells steady s" and r: "nf_erase_kind D g s = (Inr u, s')"
  from nf_erase_kind_cases [OF i r]
  show "nf_ok D cells steady s' \<and> nf_contents D cells s' = (\<lambda>k. if key_kind k = g then None else nf_contents D cells s k)" by simp
next
  fix s g e s' assume i: "nf_ok D cells steady s" and r: "nf_erase_kind D g s = (Inl e, s')"
  from nf_erase_kind_cases [OF i r] show "nf_ok D cells steady s' \<and> nf_contents D cells s' = nf_contents D cells s" by simp
qed

context nor_flash
begin

lemma storage_contract: "storage (nf_store D) (nf_load D) (nf_erase D) (nf_erase_kind D) (nf_ok D cells steady) (nf_contents D cells)"
  by (rule flash.storage_axioms)

end

end
