(* ===== verification/NorFlashProperties.thy ===== *)
theory NorFlashProperties
  imports NorFlashStorage
begin

text \<open>
  The flash in memory the sources test the store with, as a driver that keeps the contract, and the
  properties of the store.
\<close>

section \<open>A NOR flash in memory\<close>

text \<open>
  \<^verbatim>\<open>RamFlash\<close>: an erase sets whole sectors to \<^verbatim>\<open>0xFF\<close>, a write only clears bits, \<^verbatim>\<open>fuel\<close> is the number
  of writes left before a simulated power loss. The assertions of the source are errors here.
\<close>

definition SECTOR :: nat where "SECTOR = 4096"

record ram_flash =
  rf_cells :: bytes
  rf_erases :: u32
  rf_fuel :: "nat option"

definition ram_read :: "nat \<Rightarrow> nat \<Rightarrow> (ram_flash, unit, bytes) step" where
  "ram_read off n f =
     (if off mod 4 = 0 \<and> n mod 4 = 0 \<and> off + n \<le> length (rf_cells f)
      then (Inr (take n (drop off (rf_cells f))), f) else (Inl (), f))"

definition ram_erase :: "nat \<Rightarrow> nat \<Rightarrow> (ram_flash, unit, unit) step" where
  "ram_erase from till f =
     (if from mod SECTOR = 0 \<and> till mod SECTOR = 0 \<and> from \<le> till \<and> till \<le> length (rf_cells f)
      then (Inr (), f\<lparr>rf_erases := rf_erases f + 1, rf_cells := overwrite (rf_cells f) from (replicate (till - from) 0xff)\<rparr>)
      else (Inl (), f))"

definition ram_write :: "nat \<Rightarrow> bytes \<Rightarrow> (ram_flash, unit, unit) step" where
  "ram_write off bs f =
     (if off mod 4 \<noteq> 0 \<or> length bs mod 4 \<noteq> 0 \<or> rf_fuel f = Some 0 then (Inl (), f)
      else let f' = f\<lparr>rf_fuel := map_option (\<lambda>n. n - 1) (rf_fuel f)\<rparr> in
        if off + length bs \<le> length (rf_cells f) \<and> list_all2 (\<lambda>c b. c AND b = b) (take (length bs) (drop off (rf_cells f))) bs
        then (Inr (), f'\<lparr>rf_cells := overwrite (rf_cells f) off bs\<rparr>)
        else (Inl (), f'))"

definition ram_driver :: "ram_flash nor_driver" where
  "ram_driver = \<lparr>READ_SIZE = 4, WRITE_SIZE = 4, ERASE_SIZE = SECTOR,
     drv_read = ram_read, drv_write = ram_write, drv_erase = ram_erase\<rparr>"

definition ram_steady :: "ram_flash \<Rightarrow> bool" where
  "ram_steady f \<longleftrightarrow> rf_fuel f = None"

lemma ram_driver_simps [simp]:
  "READ_SIZE ram_driver = 4" "WRITE_SIZE ram_driver = 4" "ERASE_SIZE ram_driver = 4096"
  "drv_read ram_driver = ram_read" "drv_write ram_driver = ram_write" "drv_erase ram_driver = ram_erase"
  "align ram_driver = 4"
  by (simp_all add: ram_driver_def SECTOR_def align_def)

lemma programmable: "list_all2 (\<lambda>c b. c AND b = b) (replicate (length bs) (0xff :: u8)) bs"
proof -
  have "0xff AND b = b" for b :: u8
  proof -
    have "(0xff :: u8) = - 1" by simp
    then show ?thesis by (simp only: and.left_neutral)
  qed
  then show ?thesis by (induction bs) simp_all
qed

interpretation ram: nor_flash ram_driver rf_cells ram_steady
proof unfold_locales
  show "\<exists>f'. drv_read ram_driver off n f = (Inr (take n (drop off (rf_cells f))), f') \<and> rf_cells f' = rf_cells f \<and> ram_steady f' = ram_steady f"
    if "READ_SIZE ram_driver dvd off" "READ_SIZE ram_driver dvd n" "off + n \<le> length (rf_cells f)" for off n f
    using that by (auto simp: ram_read_def elim!: dvdE)
  fix off and bs :: bytes and f :: ram_flash and u e f'
  assume w: "WRITE_SIZE ram_driver dvd off" "WRITE_SIZE ram_driver dvd length bs" "erased (rf_cells f) off (length bs)"
  then have ok: "off mod 4 = 0" "length bs mod 4 = 0" "off + length bs \<le> length (rf_cells f)"
    "list_all2 (\<lambda>c b. c AND b = b) (take (length bs) (drop off (rf_cells f))) bs"
    by (auto simp: erased_def programmable)
  show "rf_cells f' = overwrite (rf_cells f) off bs \<and> (ram_steady f \<longrightarrow> ram_steady f')"
    if "drv_write ram_driver off bs f = (Inr u, f')"
    using that ok by (auto simp: ram_write_def ram_steady_def Let_def split: if_splits)
  show "\<not> ram_steady f \<and> (\<exists>ws. length ws = length bs \<and> rf_cells f' = overwrite (rf_cells f) off ws)"
    if "drv_write ram_driver off bs f = (Inl e, f')"
  proof -
    have "f' = f" "\<not> ram_steady f" using that ok by (auto simp: ram_write_def ram_steady_def Let_def split: if_splits)
    moreover have "rf_cells f = overwrite (rf_cells f) off (take (length bs) (drop off (rf_cells f)))"
      using ok(3) by (simp add: overwrite_def) (metis add.commute append_take_drop_id drop_drop)
    ultimately show ?thesis using ok(3) by (intro conjI exI [of _ "take (length bs) (drop off (rf_cells f))"]) auto
  qed
next
  fix frm till and f :: ram_flash and u e f'
  assume "ERASE_SIZE ram_driver dvd frm" "ERASE_SIZE ram_driver dvd till" "frm \<le> till" "till \<le> length (rf_cells f)"
  then have ok: "ram_erase frm till f =
      (Inr (), f\<lparr>rf_erases := rf_erases f + 1, rf_cells := overwrite (rf_cells f) frm (replicate (till - frm) 0xff)\<rparr>)"
    by (auto simp: ram_erase_def SECTOR_def)
  show "rf_cells f' = overwrite (rf_cells f) frm (replicate (till - frm) 0xff) \<and> (ram_steady f \<longrightarrow> ram_steady f')"
    if "drv_erase ram_driver frm till f = (Inr u, f')" using that ok by (auto simp: ram_steady_def)
  show "\<not> ram_steady f \<and> (rf_cells f' = rf_cells f \<or> rf_cells f' = overwrite (rf_cells f) frm (replicate (till - frm) 0xff))"
    if "drv_erase ram_driver frm till f = (Inl e, f')" using that ok by simp
qed simp_all

section \<open>The contract of the trait\<close>

text \<open>
  C2: Over any driver that keeps its contract and does not fail, the log-structured store is a map from
  keys to octet strings: a store that succeeds adds exactly its record and one that fails changes nothing
  and reports that the store is full; an erase removes one key, or one kind; a load returns the
  newest record of the key, or that there is none, or that the buffer is too small. Compactions, which
  happen inside stores and erases, are not observable.
\<close>

theorem flash_store_refines_map:
  assumes "nor_flash D cells steady" "nf_ok D cells steady s"
  shows "(\<exists>res t. nf_store D k d s = (res, t) \<and> nf_ok D cells steady t \<and>
      (res = Inr () \<and> nf_contents D cells t = (nf_contents D cells s)(k \<mapsto> d) \<or>
       res = Inl StorageFull \<and> nf_contents D cells t = nf_contents D cells s)) \<and>
    (\<exists>res t. nf_erase D k s = (res, t) \<and> nf_ok D cells steady t \<and>
      nf_contents D cells t = (case res of Inr _ \<Rightarrow> (nf_contents D cells s)(k := None) | Inl _ \<Rightarrow> nf_contents D cells s)) \<and>
    (\<exists>res t. nf_erase_kind D g s = (res, t) \<and> nf_ok D cells steady t \<and>
      nf_contents D cells t = (case res of Inr _ \<Rightarrow> (\<lambda>k. if key_kind k = g then None else nf_contents D cells s k)
                               | Inl _ \<Rightarrow> nf_contents D cells s)) \<and>
    (\<exists>t. nf_ok D cells steady t \<and> nf_contents D cells t = nf_contents D cells s \<and>
      nf_load D k buf s =
        (case nf_contents D cells s k of
           None \<Rightarrow> (Inr None, buf, t)
         | Some v \<Rightarrow> if length buf < length v then (Inl StorageBufferTooSmall, buf, t)
                     else (Inr (Some (length v)), v @ drop (length v) buf, t)))"
proof (intro conjI)
  obtain res t where r: "nf_store D k d s = (res, t)" by fastforce
  have "nf_ok D cells steady t \<and> (res = Inr () \<and> nf_contents D cells t = (nf_contents D cells s)(k \<mapsto> d) \<or>
       res = Inl StorageFull \<and> nf_contents D cells t = nf_contents D cells s)"
    using nor_flash.store_outcome [OF assms r] .
  with r show "\<exists>res t. nf_store D k d s = (res, t) \<and> nf_ok D cells steady t \<and>
      (res = Inr () \<and> nf_contents D cells t = (nf_contents D cells s)(k \<mapsto> d) \<or>
       res = Inl StorageFull \<and> nf_contents D cells t = nf_contents D cells s)" by blast
next
  obtain res t where r: "nf_erase D k s = (res, t)" by fastforce
  with nor_flash.nf_erase_cases [OF assms r]
  show "\<exists>res t. nf_erase D k s = (res, t) \<and> nf_ok D cells steady t \<and>
      nf_contents D cells t = (case res of Inr _ \<Rightarrow> (nf_contents D cells s)(k := None) | Inl _ \<Rightarrow> nf_contents D cells s)" by blast
next
  obtain res t where r: "nf_erase_kind D g s = (res, t)" by fastforce
  with nor_flash.nf_erase_kind_cases [OF assms r]
  show "\<exists>res t. nf_erase_kind D g s = (res, t) \<and> nf_ok D cells steady t \<and>
      nf_contents D cells t = (case res of Inr _ \<Rightarrow> (\<lambda>k. if key_kind k = g then None else nf_contents D cells s k)
                               | Inl _ \<Rightarrow> nf_contents D cells s)" by blast
qed (rule nor_flash.nf_load_ok [OF assms])

text \<open>A flash of two sectors, all cells zero, as the tests create it, and the store opened on it.\<close>

definition blank_flash :: ram_flash where
  "blank_flash = \<lparr>rf_cells = replicate 8192 0, rf_erases = 0, rf_fuel = None\<rparr>"

lemma blank_region: "region_ok ram_driver rf_cells blank_flash 0 8192"
  by (simp add: region_ok_def blank_flash_def)

lemma open_blank: "\<exists>t. nf_new ram_driver blank_flash 0 8192 = Inr t \<and> nf_inv ram_driver rf_cells t [] \<and>
   ram_steady (nf_flash t) \<and> nf_base t = 0 \<and> nf_half t = 4096"
proof -
  have "header_of (half_view rf_cells (fresh blank_flash 0 8192) h) = None" for h
  proof -
    have "take 4 (half_view rf_cells (fresh blank_flash 0 8192) h) \<noteq> MAGIC"
    proof
      assume m: "take 4 (half_view rf_cells (fresh blank_flash 0 8192) h) = MAGIC"
      have "set (take 4 (half_view rf_cells (fresh blank_flash 0 8192) h)) \<subseteq> {0}"
        by (auto simp: half_view_def fresh_def blank_flash_def dest!: in_set_takeD in_set_dropD)
      then show False unfolding m by (simp add: MAGIC_def)
    qed
    then show ?thesis by (simp add: header_of_def)
  qed
  from ram.nf_new_blank [OF blank_region _ refl this this] show ?thesis
    by (simp add: ram_steady_def blank_flash_def)
qed

lemma open_blank_ok: "\<exists>t. nf_new ram_driver blank_flash 0 8192 = Inr t \<and> nf_ok ram_driver rf_cells ram_steady t \<and>
   nf_contents ram_driver rf_cells t = (\<lambda>_. None)"
proof -
  obtain t where t: "nf_new ram_driver blank_flash 0 8192 = Inr t" "nf_inv ram_driver rf_cells t []" "ram_steady (nf_flash t)"
    using open_blank by blast
  then have "nf_ok ram_driver rf_cells ram_steady t" by (auto simp: nf_ok_def)
  with t ram.nf_inv_contents [OF t(2)] show ?thesis by (auto simp: log_contents_def decides_def fun_eq_iff)
qed

theorem flash_store_refines_map_witness:
  "\<exists>s. nf_new ram_driver blank_flash 0 8192 = Inr s \<and>
    (\<exists>t. nf_load ram_driver (key_single NibKind) [0, 0] s = (Inr None, [0, 0], t))"
proof -
  obtain s where s: "nf_new ram_driver blank_flash 0 8192 = Inr s" "nf_ok ram_driver rf_cells ram_steady s"
    "nf_contents ram_driver rf_cells s = (\<lambda>_. None)" using open_blank_ok by blast
  from flash_store_refines_map [OF ram.nor_flash_axioms s(2), where buf = "[0, 0]" and k = "key_single NibKind"] s(1,3)
  show ?thesis by auto
qed

section \<open>Resets\<close>

text \<open>
  A reset loses nothing: opening the flash of a store again, with the region it was created with,
  gives a store with the same contents.
\<close>

theorem flash_reopen_keeps_contents:
  assumes "nor_flash D cells steady" "nf_ok D cells steady s"
  shows "\<exists>t. nf_new D (nf_flash s) (nf_base s) (2 * nf_half s) = Inr t \<and> nf_ok D cells steady t \<and>
     nf_contents D cells t = nf_contents D cells s"
proof -
  from assms(2) obtain es where es: "nf_inv D cells s es" "\<forall>e \<in> set es. intact e" "steady (nf_flash s)" by (auto simp: nf_ok_def)
  from nor_flash.reopen_inv [OF assms(1) es(1)] obtain t where t:
    "nf_new D (nf_flash s) (nf_base s) (2 * nf_half s) = Inr t" "nf_inv D cells t es" "steady (nf_flash t) = steady (nf_flash s)" by blast
  then have "nf_ok D cells steady t" using es by (auto simp: nf_ok_def)
  with t nor_flash.nf_inv_contents [OF assms(1)] es(1) show ?thesis by auto
qed

theorem flash_reopen_keeps_contents_witness:
  "\<exists>s t. nf_new ram_driver blank_flash 0 8192 = Inr s \<and>
     nf_new ram_driver (nf_flash s) (nf_base s) (2 * nf_half s) = Inr t \<and>
     nf_contents ram_driver rf_cells t = (\<lambda>_. None)"
  using open_blank_ok flash_reopen_keeps_contents [OF ram.nor_flash_axioms] by metis


text \<open>An empty store on two sectors whose driver has no write left.\<close>

definition empty_cells :: bytes where
  "empty_cells = MAGIC @ le_bytes 4 (1 :: u32) @ replicate 8184 0xff"

definition drained_store :: "ram_flash nor_flash_store" where
  "drained_store = \<lparr>nf_flash = \<lparr>rf_cells = empty_cells, rf_erases = 0, rf_fuel = Some 0\<rparr>, nf_stats = stats_default,
     nf_base = 0, nf_half = 4096, nf_active = 0, nf_seq = 1, nf_tail = 16\<rparr>"

lemma empty_halves:
  "half_view rf_cells drained_store 0 = (MAGIC @ le_bytes 4 (1 :: u32) @ replicate 8 0xff) @ replicate 4080 0xff"
  "half_view rf_cells drained_store 1 = replicate 4096 0xff"
  by (simp_all add: half_view_def half_base_def drained_store_def empty_cells_def MAGIC_def replicate_add [symmetric])

lemma drained_inv: "nf_inv ram_driver rf_cells drained_store []"
proof -
  have "log_half ram_driver (half_view rf_cells drained_store 0) []"
    unfolding log_half_def empty_halves
    by (intro conjI exI [of _ "MAGIC @ le_bytes 4 (1 :: u32) @ replicate 8 0xff"] exI [of _ 4080]) (auto simp: MAGIC_def)
  moreover have "header_of (half_view rf_cells drained_store 0) = Some 1" "header_of (half_view rf_cells drained_store 1) = None"
    unfolding empty_halves by (simp add: header_of_def MAGIC_def le_word_le_bytes, simp add: header_of_def MAGIC_def eval_simps)
  moreover have "geometry ram_driver rf_cells drained_store"
    by (simp add: geometry_def drained_store_def half_base_def empty_cells_def MAGIC_def)
  ultimately show ?thesis by (simp add: nf_inv_def drained_store_def chosen_def)
qed

lemma drained_compact: "\<exists>t. compact ram_driver drained_store = (Inl StorageIo, t)"
proof -
  define f where "f = (nf_flash drained_store)\<lparr>rf_erases := 1, rf_cells := overwrite empty_cells 4096 (replicate 4096 0xff)\<rparr>"
  define s where "s = drained_store\<lparr>nf_flash := f\<rparr>"
  have "length empty_cells = 8192" by (simp add: empty_cells_def MAGIC_def)
  then have e: "erase_half ram_driver 1 drained_store = (Inr (), s)"
    by (simp add: erase_half_def on_flash_def half_base_def drained_store_def ram_erase_def SECTOR_def s_def f_def)
  have c: "overwrite empty_cells 4096 (replicate 4096 0xff) = empty_cells"
    by (simp add: overwrite_def empty_cells_def MAGIC_def replicate_add [symmetric])
  then have "take 16 (drop 16 (rf_cells f)) = replicate 16 0xff" "length (rf_cells f) = 8192"
    by (simp_all add: f_def empty_cells_def MAGIC_def)
  then have r: "read_record ram_driver 0 16 s = (Inr None, s)"
    by (simp add: read_record_def HEADER_LEN_def s_def drained_store_def on_flash_def half_base_def ram_read_def
        TAG_RECORD_def Let_def eval_simps)
  have w: "write_header ram_driver 1 2 s = (Inl StorageIo, s)"
    by (simp add: write_header_def on_flash_def s_def f_def drained_store_def half_base_def ram_write_def)
  have "compact ram_driver drained_store = (Inl StorageIo, s)"
    unfolding compact_def Let_def compact_loop.simps using e r w
    by (simp add: drained_store_def HEADER_LEN_def)
  then show ?thesis by blast
qed


section \<open>Frame counters over flash\<close>


lemma first_store_succeeds:
  assumes "nf_inv ram_driver rf_cells s []" "ram_steady (nf_flash s)" "nf_half s = 4096"
  shows "\<exists>t. nf_store ram_driver k (le_bytes 4 (v :: u32)) s = (Inr (), t)"
proof -
  obtain res t where r: "nf_store ram_driver k (le_bytes 4 v) s = (res, t)" by fastforce
  have "nf_ok ram_driver rf_cells ram_steady s" using assms(1,2) by (auto simp: nf_ok_def)
  from ram.store_outcome [OF this r] have "res = Inr () \<or> res = Inl StorageFull" by blast
  moreover have "res \<noteq> Inl StorageFull"
  proof -
    have "nf_tail s = 16" using assms(1) by (simp add: nf_inv_def)
    then show ?thesis using r assms(3)
      by (auto simp: nf_store_def nf_append_def MAX_RECORD_def Let_def fr_size_def HEADER_LEN_def round_up_def append_record_def
          split: prod.splits sum.splits)
  qed
  ultimately show ?thesis using r by auto
qed


section \<open>A store cut in the middle\<close>

lemma crc16_bit_inj: "inj crc16_bit"
proof (rule injI)
  fix a b :: u16 assume eq: "crc16_bit a = crc16_bit b"
  have top: "(c AND 0x8000 \<noteq> 0) = bit c 15" for c :: u16
  proof -
    have "(0x8000 :: u16) = push_bit 15 1" by simp
    then show ?thesis by (metis and_exp_eq_0_iff_not_bit push_bit_of_1)
  qed
  have low: "bit (crc16_bit c) 0 = bit c 15" for c :: u16
    by (simp add: crc16_bit_def top bit_simps bit_0 even_xor_iff)
  have parity: "bit a 15 = bit b 15" using eq low by metis
  then have up: "push_bit 1 a = push_bit 1 b" using eq by (auto simp: crc16_bit_def top xor_right_cancel split: if_splits)
  show "a = b"
  proof (rule bit_word_eqI)
    fix n assume n: "n < LENGTH(16)"
    show "bit a n = bit b n"
    proof (cases "n = 15")
      case False
      then have "bit (push_bit 1 c) (Suc n) = bit c n" for c :: u16
        using n by (subst bit_push_bit_iff) (simp add: possible_bit_word)
      then show ?thesis using up by metis
    qed (use parity in simp)
  qed
qed

lemma crc16_octet_inj: "crc16_octet c x = crc16_octet d y \<Longrightarrow> c XOR push_bit 8 (ucast x) = d XOR push_bit 8 (ucast y)"
  unfolding crc16_octet_def by (rule injD [OF inj_fn [OF crc16_bit_inj]])

lemma crc16_single_octet:
  assumes "i < length data" "crc16 (data[i := b]) = crc16 data"
  shows "b = data ! i"
proof (rule foldl_single_change [OF _ _ assms(1)])
  show "foldl crc16_octet 0xffff (data[i := b]) = foldl crc16_octet 0xffff data"
    using assms(2) by (simp add: crc16_def crc16_update_def)
next
  fix x c d assume "crc16_octet c x = crc16_octet d x"
  from crc16_octet_inj [OF this] show "c = d" by (simp only: xor_right_cancel)
next
  fix c x y assume "crc16_octet c x = crc16_octet c y"
  then have "c XOR push_bit 8 (ucast x) = c XOR push_bit 8 (ucast y)" by (rule crc16_octet_inj)
  then have p: "push_bit 8 (ucast x :: u16) = push_bit 8 (ucast y)"
    by (metis xor.commute xor_right_cancel)
  show "x = y"
  proof (rule bit_word_eqI)
    fix n assume "n < LENGTH(8)"
    moreover have "bit (push_bit 8 (ucast x :: u16)) (n + 8) = bit (push_bit 8 (ucast y :: u16)) (n + 8)" using p by simp
    ultimately show "bit x n = bit y n" by (simp add: bit_push_bit_iff bit_simps)
  qed
qed

text \<open>The writer on a record of 65 octets when one write is left: the first 64 octets reach the cells.\<close>

lemma torn_write:
  assumes "length hdr = 16" "length d = 49" "rf_fuel f = Some 1" "pos mod 4 = 0" "erased (rf_cells f) pos 68"
  shows "\<exists>w. step_try (cw_push ram_driver hdr) (\<lambda>_. step_try (cw_push ram_driver d) (\<lambda>_. cw_flush ram_driver)) (f, cw_new pos) =
     (Inl StorageIo, f\<lparr>rf_fuel := Some 0, rf_cells := overwrite (rf_cells f) pos (hdr @ take 48 d)\<rparr>, w)"
proof -
  define w1 where "w1 = \<lparr>cw_buf = hdr @ replicate 48 0xff, cw_fill = 16, cw_at = pos\<rparr>"
  have c: "chunk ram_driver = 64" by (rule ram.chunk_eq)
  have p1: "cw_push ram_driver hdr (f, cw_new pos) = (Inr (), f, w1)"
    using assms(1) by (subst cw_push.simps, subst cw_push.simps)
      (auto simp: c cw_new_def CHUNK_def w1_def overwrite_def Let_def)
  define f1 where "f1 = f\<lparr>rf_fuel := Some 0, rf_cells := overwrite (rf_cells f) pos (hdr @ take 48 d)\<rparr>"
  define w2 where "w2 = \<lparr>cw_buf = hdr @ take 48 d, cw_fill = 64, cw_at = pos\<rparr>"
  define w3 where "w3 = \<lparr>cw_buf = replicate 64 0xff, cw_fill = 0, cw_at = pos + 64\<rparr>"
  define w4 where "w4 = \<lparr>cw_buf = d ! 48 # replicate 63 0xff, cw_fill = 1, cw_at = pos + 64\<rparr>"
  have e: "erased (rf_cells f) pos 64" using erased_mono [OF assms(5)] by simp
  have fl: "cw_flush ram_driver (f, w2) = (Inr (), f1, w3)"
    using assms(1-4) e programmable [of "hdr @ take 48 d"]
    by (simp add: cw_flush_def w2_def w3_def f1_def ram_write_def Let_def round_up_def CHUNK_def erased_def)
  have d48: "drop 48 d = [d ! 48]" using assms(2) by (intro nth_equalityI) simp_all
  have p2a: "cw_push ram_driver d (f, w1) = cw_push ram_driver [d ! 48] (f1, w3)"
    using assms(1,2) fl d48 by (subst cw_push.simps) (auto simp: c w1_def Let_def overwrite_def w2_def)
  have p2b: "cw_push ram_driver [d ! 48] (f1, w3) = (Inr (), f1, w4)"
    by (subst cw_push.simps, subst cw_push.simps) (simp add: c w3_def w4_def Let_def overwrite_def)
  have "cw_flush ram_driver (f1, w4) = (Inl StorageIo, f1, w4)"
    by (simp add: cw_flush_def w4_def f1_def ram_write_def Let_def)
  then show ?thesis using p1 p2a p2b by (auto simp: f1_def)
qed

lemma overwrite_pad:
  assumes "drop pos v = replicate (length v - pos) b" "pos + length xs + j \<le> length v"
  shows "overwrite v pos (xs @ replicate j b) = overwrite v pos xs"
proof -
  have "drop (pos + length xs) v = drop (length xs) (drop pos v)" by (simp add: add.commute)
  then have d: "drop (pos + length xs) v = replicate (length v - pos - length xs) b" using assms(1) by simp
  have "drop (pos + length xs + j) v = drop j (drop (pos + length xs) v)" by (simp add: ac_simps)
  also have "\<dots> = replicate (length v - pos - length xs - j) b" by (simp add: d)
  finally show ?thesis using assms(2) by (simp add: overwrite_def d add.assoc replicate_add [symmetric])
qed

lemma torn_append:
  assumes inv: "nf_inv ram_driver rf_cells s es" and fuel: "rf_fuel (nf_flash s) = Some 1"
    and d: "length d = 49" and fit: "nf_tail s + 68 \<le> nf_half s"
    and r: "r = \<lparr>fr_kind = kind_code (key_kind k), fr_flags = FLAG_SET, fr_id = key_id k, fr_len = 49, fr_crc = crc16 d\<rparr>"
  shows "\<exists>t. nf_store ram_driver k d s = (Inl StorageIo, t) \<and> nf_base t = nf_base s \<and> nf_half t = nf_half s \<and>
     nf_inv ram_driver rf_cells (t\<lparr>nf_tail := nf_tail s + 68\<rparr>) (es @ [(r, take 48 d @ replicate 4 0xff)])"
proof -
  define h where "h = nf_active s"
  define e where "e = (r, take 48 d @ replicate 4 (0xff :: u8))"
  have g: "geometry ram_driver rf_cells s" "h \<le> 1" "log_half ram_driver (half_view rf_cells s h) es" "nf_tail s = log_end ram_driver es"
    using inv by (auto simp: nf_inv_def geometry_def h_def)
  have sz: "fr_size ram_driver r = 68" by (simp add: r fr_size_def HEADER_LEN_def round_up_def)
  have ok: "entry_ok ram_driver e" using d by (simp add: entry_ok_def e_def sz) (simp add: r MAX_RECORD_def)
  have fit': "log_end ram_driver es + 68 \<le> nf_half s" using fit g(4) by simp
  have lv: "length (half_view rf_cells s h) = nf_half s" using ram.half_in_flash(2) [OF g(1,2)] .
  have fr: "drop (log_end ram_driver es) (half_view rf_cells s h) = replicate (nf_half s - log_end ram_driver es) 0xff"
    using log_half_free [OF g(3)] lv by simp
  have al: "(half_base s h + log_end ram_driver es) mod 4 = 0"
    using ram.half_aligned(1) [OF g(1), of h] ram.log_end_aligned [of es] by (simp add: mod_eq_0_iff_dvd)
  define f where "f = (nf_flash s)\<lparr>rf_fuel := Some 0, rf_cells := overwrite (rf_cells (nf_flash s)) (half_base s h + log_end ram_driver es)
      (record_header r @ take 48 d)\<rparr>"
  define t where "t = s\<lparr>nf_flash := f, nf_stats := (nf_stats s)\<lparr>stat_io_errors := saturating_add (stat_io_errors (nf_stats s)) 1\<rparr>\<rparr>"
  from torn_write [OF length_record_header d fuel al ram.view_erased [OF g(1,2) fr fit'], of r]
  have "append_record ram_driver r d s = (Inl StorageIo, t)"
    using g(4) by (auto simp: append_record_def h_def t_def f_def Let_def)
  then have st: "nf_store ram_driver k d s = (Inl StorageIo, t)"
    using d fit sz by (simp add: nf_store_def nf_append_def MAX_RECORD_def Let_def r)
  have pr: "programmed rf_cells s h (log_end ram_driver es) (record_header r @ take 48 d) t"
    by (simp add: programmed_def t_def f_def)
  have f64: "log_end ram_driver es + length (record_header r @ take 48 d) \<le> nf_half s" using fit' d by simp
  have "entry_octets e = (record_header r @ take 48 d) @ replicate 4 0xff" by (simp add: entry_octets_def e_def)
  then have v: "half_view rf_cells t h = overwrite (half_view rf_cells s h) (log_end ram_driver es) (entry_octets e)"
    using ram.view_programmed(1) [OF g(1,2) pr f64] overwrite_pad [of "log_end ram_driver es" "half_view rf_cells s h" "0xff" "record_header r @ take 48 d" 4]
      fr lv fit' d by simp
  have act: "nf_active t \<le> 1" using g(2) by (simp add: t_def h_def)
  have hd: "header_of (half_view rf_cells t x) = header_of (half_view rf_cells s x)" if "x \<le> 1" for x
    using v ram.header_beyond [of "log_end ram_driver es" "half_view rf_cells s h"] ram.view_programmed(2) [OF g(1,2) pr f64 that] fit' lv
    by (cases "x = h") (simp_all add: log_end_def)
  have "log_half ram_driver (half_view rf_cells t h) (es @ [e])"
    using v log_half_snoc [OF g(3) ok] fit' lv by (simp add: e_def sz)
  moreover have "log_end ram_driver (es @ [e]) = nf_tail s + 68" using g(4) by (simp add: e_def sz)
  ultimately have "nf_inv ram_driver rf_cells (t\<lparr>nf_tail := nf_tail s + 68\<rparr>) (es @ [e])"
    using ram.view_programmed(3) [OF g(1,2) pr f64 act] inv hd [of 0] hd [of 1]
    by (simp add: nf_inv_def geometry_def half_view_def half_base_def t_def h_def)
  with st show ?thesis by (intro exI [of _ t]) (simp add: e_def t_def)
qed

lemma load_corrupt:
  assumes "nf_inv ram_driver rf_cells s es" "decides ram_driver k es = Some (pos, e)" "\<not> intact e"
    and "unat (fr_len (fst e)) \<le> length buf"
  shows "\<exists>buf' t. nf_load ram_driver k buf s = (Inr None, buf', t)"
proof -
  have g: "geometry ram_driver rf_cells s" "nf_active s \<le> 1" "log_half ram_driver (half_view rf_cells s (nf_active s)) es"
    using assms(1) by (auto simp: nf_inv_def geometry_def)
  obtain s1 where s1: "find_record ram_driver (nf_active s) k s = (Inr (Some (pos, fst e)), s1)" "same_log rf_cells ram_steady s s1"
    using ram.find_record_log [OF g, of k] assms(2) by auto
  from decides_Some [OF assms(2)] obtain pre suf where sp: "es = pre @ e # suf" "pos = log_end ram_driver pre" by blast
  have a1: "nf_active s1 = nf_active s" using s1(2) by (simp add: same_log_def)
  from ram.read_payload_log [of s1 "nf_active s1" pre e suf buf] g same_log_simps [OF s1(2)] sp assms(3,4) a1 obtain s2 where
    "read_payload ram_driver (nf_active s1) pos (fst e) buf s1 = (Inr False, payload e @ drop (unat (fr_len (fst e))) buf, s2)" by auto
  with s1(1) assms(4) show ?thesis by (auto simp: nf_load_def)
qed


lemma one_record_store:
  "\<exists>s es. nf_inv ram_driver rf_cells s es \<and> rf_fuel (nf_flash s) = Some 1 \<and>
     nf_contents ram_driver rf_cells s (key_single NibKind) = Some [7] \<and> nf_tail s = 36 \<and> nf_half s = 4096"
proof -
  define s0 where "s0 = drained_store\<lparr>nf_flash := (nf_flash drained_store)\<lparr>rf_fuel := None\<rparr>\<rparr>"
  define r where "r = \<lparr>fr_kind = kind_code NibKind, fr_flags = FLAG_SET, fr_id = 0, fr_len = 1, fr_crc = crc16 [7]\<rparr>"
  have sz: "fr_size ram_driver r = 20" by (simp add: r_def fr_size_def HEADER_LEN_def round_up_def)
  have inv0: "nf_inv ram_driver rf_cells s0 []"
    using drained_inv by (simp add: s0_def nf_inv_def geometry_def half_view_def half_base_def)
  obtain res t where run: "append_record ram_driver r [7] s0 = (res, t)" by (cases "append_record ram_driver r [7] s0")
  have "nf_base t = nf_base s0 \<and> nf_half t = nf_half s0 \<and> (case res of
       Inr _ \<Rightarrow> (\<exists>pad. nf_inv ram_driver rf_cells t ([] @ [(r, [7] @ pad)])) \<and> (ram_steady (nf_flash s0) \<longrightarrow> ram_steady (nf_flash t))
     | Inl _ \<Rightarrow> \<not> ram_steady (nf_flash s0))"
    by (rule ram.append_record_log [OF inv0 _ _ _ run]) (simp_all add: r_def MAX_RECORD_def sz [unfolded r_def] s0_def drained_store_def)
  then obtain pad where t: "nf_inv ram_driver rf_cells t [(r, 7 # pad)]" "nf_half t = 4096"
    by (auto simp: s0_def drained_store_def ram_steady_def split: sum.splits)
  define s where "s = t\<lparr>nf_flash := (nf_flash t)\<lparr>rf_fuel := Some 1\<rparr>\<rparr>"
  have s: "nf_inv ram_driver rf_cells s [(r, 7 # pad)]"
    using t(1) by (simp add: s_def nf_inv_def geometry_def half_view_def half_base_def)
  have "decides ram_driver (key_single NibKind) ([] @ [(r, 7 # pad)]) = Some (16, (r, 7 # pad))"
    unfolding decides_snoc
    by (simp add: decide_step_def r_def fr_matches_def FLAG_SET_def FLAG_KIND_ERASED_def decides_def log_end_def key_single_def)
  then have "nf_contents ram_driver rf_cells s (key_single NibKind) = Some [7]"
    using ram.nf_inv_contents [OF s] by (simp add: log_contents_def intact_def payload_def) (simp add: r_def)
  moreover have "nf_tail s = 36" using s by (simp add: nf_inv_def log_end_def sz)
  ultimately show ?thesis using s t(2) by (intro exI [of _ s]) (auto simp: s_def)
qed


end
