(* ===== verification/NwkFrame.thy ===== *)
theory NwkFrame
  imports AuxHeader
begin

text \<open>
  The NPDU header and frame, \<^verbatim>\<open>panweave-nwk/src/frame.rs\<close>: the frame control word, the source route
  subframe, the header codec, which interprets \<open>wire_codec\<close>, and what the single octets a relay
  patches in place mean for the header.
\<close>

section \<open>Frame control\<close>

definition PROTOCOL_VERSION :: u8 where
  "PROTOCOL_VERSION = 2"

definition MAX_SOURCE_ROUTE_RELAYS :: nat where
  "MAX_SOURCE_ROUTE_RELAYS = 12"

datatype frame_type = FtData | FtCommand | FtReserved | FtInterPan

definition frame_type_from_bits :: "u16 \<Rightarrow> frame_type" where
  "frame_type_from_bits b =
     (let x = b AND 3 in
      if x = 0 then FtData else if x = 1 then FtCommand else if x = 2 then FtReserved else FtInterPan)"

definition frame_type_bits :: "frame_type \<Rightarrow> u16" where
  "frame_type_bits t = (case t of FtData \<Rightarrow> 0 | FtCommand \<Rightarrow> 1 | FtReserved \<Rightarrow> 2 | FtInterPan \<Rightarrow> 3)"

datatype discover_route = Suppress | Enable | ReservedDiscover u8

definition discover_route_from_bits :: "u16 \<Rightarrow> discover_route" where
  "discover_route_from_bits b =
     (let x = b AND 3 in if x = 0 then Suppress else if x = 1 then Enable else ReservedDiscover (ucast x))"

definition discover_route_bits :: "discover_route \<Rightarrow> u16" where
  "discover_route_bits d = (case d of Suppress \<Rightarrow> 0 | Enable \<Rightarrow> 1 | ReservedDiscover v \<Rightarrow> ucast (v AND 3))"

type_synonym frame_control = u16

definition FC_SECURITY :: u16 where
  "FC_SECURITY = 0x200"

definition FC_SOURCE_ROUTE :: u16 where
  "FC_SOURCE_ROUTE = 0x400"

definition FC_DST_IEEE :: u16 where
  "FC_DST_IEEE = 0x800"

definition FC_SRC_IEEE :: u16 where
  "FC_SRC_IEEE = 0x1000"

definition FC_END_DEVICE_INITIATOR :: u16 where
  "FC_END_DEVICE_INITIATOR = 0x2000"

definition fc_new :: "frame_type \<Rightarrow> frame_control" where
  "fc_new t = frame_type_bits t OR push_bit 2 (ucast PROTOCOL_VERSION)"

definition fc_frame_type :: "frame_control \<Rightarrow> frame_type" where
  "fc_frame_type c = frame_type_from_bits c"

definition fc_protocol_version :: "frame_control \<Rightarrow> u8" where
  "fc_protocol_version c = ucast (drop_bit 2 c AND 0xF)"

definition fc_discover_route :: "frame_control \<Rightarrow> discover_route" where
  "fc_discover_route c = discover_route_from_bits (drop_bit 6 c)"

definition fc_security :: "frame_control \<Rightarrow> bool" where
  "fc_security c \<longleftrightarrow> c AND FC_SECURITY \<noteq> 0"

definition fc_source_route :: "frame_control \<Rightarrow> bool" where
  "fc_source_route c \<longleftrightarrow> c AND FC_SOURCE_ROUTE \<noteq> 0"

definition fc_dst_ieee :: "frame_control \<Rightarrow> bool" where
  "fc_dst_ieee c \<longleftrightarrow> c AND FC_DST_IEEE \<noteq> 0"

definition fc_src_ieee :: "frame_control \<Rightarrow> bool" where
  "fc_src_ieee c \<longleftrightarrow> c AND FC_SRC_IEEE \<noteq> 0"

definition fc_end_device_initiator :: "frame_control \<Rightarrow> bool" where
  "fc_end_device_initiator c \<longleftrightarrow> c AND FC_END_DEVICE_INITIATOR \<noteq> 0"

definition fc_with_bit :: "frame_control \<Rightarrow> u16 \<Rightarrow> bool \<Rightarrow> frame_control" where
  "fc_with_bit c b v = (if v then c OR b else c AND NOT b)"

definition fc_with_discover_route :: "frame_control \<Rightarrow> discover_route \<Rightarrow> frame_control" where
  "fc_with_discover_route c d = (c AND NOT (push_bit 6 3)) OR push_bit 6 (discover_route_bits d)"

section \<open>Source route subframe and header\<close>

record source_route =
  sr_relay_index :: u8
  sr_relays :: bytes

definition relay_count :: "source_route \<Rightarrow> nat" where
  "relay_count s = length (sr_relays s) div 2"

definition sr_relay :: "source_route \<Rightarrow> nat \<Rightarrow> short_address option" where
  "sr_relay s i =
     (if 2 * i + 1 < length (sr_relays s) then Some (le_word [sr_relays s ! (2 * i), sr_relays s ! (2 * i + 1)])
      else None)"

definition next_relay :: "source_route \<Rightarrow> short_address option" where
  "next_relay s = sr_relay s (unat (sr_relay_index s))"

definition sr_encoded_len :: "source_route \<Rightarrow> nat" where
  "sr_encoded_len s = 2 + length (sr_relays s)"

record nwk_header =
  nh_frame_control :: frame_control
  nh_dst :: short_address
  nh_src :: short_address
  nh_radius :: u8
  nh_sequence :: u8
  nh_dst_ieee :: "extended_address option"
  nh_src_ieee :: "extended_address option"
  nh_source_route :: "source_route option"

definition nh_new :: "frame_type \<Rightarrow> short_address \<Rightarrow> short_address \<Rightarrow> u8 \<Rightarrow> u8 \<Rightarrow> nwk_header" where
  "nh_new t dst src radius sequence =
     \<lparr>nh_frame_control = fc_new t, nh_dst = dst, nh_src = src, nh_radius = radius, nh_sequence = sequence,
      nh_dst_ieee = None, nh_src_ieee = None, nh_source_route = None\<rparr>"

definition with_src_ieee :: "extended_address \<Rightarrow> nwk_header \<Rightarrow> nwk_header" where
  "with_src_ieee a h = h\<lparr>nh_src_ieee := Some a, nh_frame_control := fc_with_bit (nh_frame_control h) FC_SRC_IEEE True\<rparr>"

definition with_dst_ieee :: "extended_address \<Rightarrow> nwk_header \<Rightarrow> nwk_header" where
  "with_dst_ieee a h = h\<lparr>nh_dst_ieee := Some a, nh_frame_control := fc_with_bit (nh_frame_control h) FC_DST_IEEE True\<rparr>"

definition with_source_route :: "u8 \<Rightarrow> bytes \<Rightarrow> nwk_header \<Rightarrow> nwk_header" where
  "with_source_route i rs h =
     h\<lparr>nh_source_route := Some \<lparr>sr_relay_index = i, sr_relays = rs\<rparr>,
       nh_frame_control := fc_with_bit (nh_frame_control h) FC_SOURCE_ROUTE True\<rparr>"

definition secured :: "bool \<Rightarrow> nwk_header \<Rightarrow> nwk_header" where
  "secured v h = h\<lparr>nh_frame_control := fc_with_bit (nh_frame_control h) FC_SECURITY v\<rparr>"

definition with_discover_route :: "discover_route \<Rightarrow> nwk_header \<Rightarrow> nwk_header" where
  "with_discover_route d h = h\<lparr>nh_frame_control := fc_with_discover_route (nh_frame_control h) d\<rparr>"

definition with_end_device_initiator :: "bool \<Rightarrow> nwk_header \<Rightarrow> nwk_header" where
  "with_end_device_initiator v h =
     h\<lparr>nh_frame_control := fc_with_bit (nh_frame_control h) FC_END_DEVICE_INITIATOR v\<rparr>"

definition nh_encoded_len :: "nwk_header \<Rightarrow> nat" where
  "nh_encoded_len h =
     8 + (if nh_dst_ieee h \<noteq> None then 8 else 0) + (if nh_src_ieee h \<noteq> None then 8 else 0)
       + (case nh_source_route h of None \<Rightarrow> 0 | Some s \<Rightarrow> sr_encoded_len s)"

definition sr_decode :: "source_route decode" where
  "sr_decode =
     step_try r_u8 (\<lambda>count. step_try r_u8 (\<lambda>relay_index.
     if unat count \<le> unat relay_index \<and> unat count \<noteq> 0
     then step_err (InvalidField ''relay index'' (ucast relay_index))
     else step_map (\<lambda>relays. \<lparr>sr_relay_index = relay_index, sr_relays = relays\<rparr>) (r_bytes (unat count * 2))))"

definition nh_decode :: "nwk_header decode" where
  "nh_decode =
     step_try r_u16_le (\<lambda>frame_control.
     step_try r_u16_le (\<lambda>dst.
     step_try r_u16_le (\<lambda>src.
     step_try r_u8 (\<lambda>radius.
     step_try r_u8 (\<lambda>sequence.
     step_try (if fc_dst_ieee frame_control then step_map Some r_u64_le else step_ok None) (\<lambda>dst_ieee.
     step_try (if fc_src_ieee frame_control then step_map Some r_u64_le else step_ok None) (\<lambda>src_ieee.
     step_try (if fc_source_route frame_control then step_map Some sr_decode else step_ok None) (\<lambda>source_route.
     step_ok \<lparr>nh_frame_control = frame_control, nh_dst = dst, nh_src = src, nh_radius = radius,
              nh_sequence = sequence, nh_dst_ieee = dst_ieee, nh_src_ieee = src_ieee,
              nh_source_route = source_route\<rparr>))))))))"

definition sr_encode :: "source_route \<Rightarrow> encode" where
  "sr_encode s =
     (if relay_count s < 256
      then step_try (w_u8 (of_nat (relay_count s))) (\<lambda>_. step_try (w_u8 (sr_relay_index s)) (\<lambda>_. w_bytes (sr_relays s)))
      else step_err (Unrepresentable ''relay count''))"

definition nh_encode :: "nwk_header \<Rightarrow> encode" where
  "nh_encode h =
     (if fc_dst_ieee (nh_frame_control h) \<noteq> (nh_dst_ieee h \<noteq> None)
         \<or> fc_src_ieee (nh_frame_control h) \<noteq> (nh_src_ieee h \<noteq> None)
         \<or> fc_source_route (nh_frame_control h) \<noteq> (nh_source_route h \<noteq> None)
      then step_err (InvalidField ''nwk frame control presence flags'' (ucast (nh_frame_control h)))
      else
        step_try (w_u16_le (nh_frame_control h)) (\<lambda>_.
        step_try (w_u16_le (nh_dst h)) (\<lambda>_.
        step_try (w_u16_le (nh_src h)) (\<lambda>_.
        step_try (w_u8 (nh_radius h)) (\<lambda>_.
        step_try (w_u8 (nh_sequence h)) (\<lambda>_.
        step_try (case nh_dst_ieee h of Some a \<Rightarrow> w_u64_le a | None \<Rightarrow> step_ok ()) (\<lambda>_.
        step_try (case nh_src_ieee h of Some a \<Rightarrow> w_u64_le a | None \<Rightarrow> step_ok ()) (\<lambda>_.
        step_try (case nh_source_route h of Some s \<Rightarrow> sr_encode s | None \<Rightarrow> step_ok ()) (\<lambda>_.
        step_ok ())))))))))"

definition decode_prefix :: "bytes \<Rightarrow> codec_error + (nwk_header \<times> nat)" where
  "decode_prefix b = (case nh_decode (r_new b) of (Inl e, _) \<Rightarrow> Inl e | (Inr h, r) \<Rightarrow> Inr (h, r_pos r))"

record nwk_frame =
  nwf_header :: nwk_header
  nwf_payload :: bytes

definition frame_decode :: "nwk_frame decode" where
  "frame_decode = step_try nh_decode (\<lambda>h r. (Inr \<lparr>nwf_header = h, nwf_payload = fst (r_take_rest r)\<rparr>, snd (r_take_rest r)))"

definition frame_encode :: "nwk_frame \<Rightarrow> encode" where
  "frame_encode f = step_try (nh_encode (nwf_header f)) (\<lambda>_. w_bytes (nwf_payload f))"

section \<open>The header on the air\<close>

definition sr_wf :: "source_route \<Rightarrow> bool" where
  "sr_wf s \<longleftrightarrow> even (length (sr_relays s)) \<and> relay_count s < 256 \<and>
     (unat (sr_relay_index s) < relay_count s \<or> relay_count s = 0)"

definition nh_wf :: "nwk_header \<Rightarrow> bool" where
  "nh_wf h \<longleftrightarrow>
     fc_dst_ieee (nh_frame_control h) = (nh_dst_ieee h \<noteq> None) \<and>
     fc_src_ieee (nh_frame_control h) = (nh_src_ieee h \<noteq> None) \<and>
     fc_source_route (nh_frame_control h) = (nh_source_route h \<noteq> None) \<and>
     (\<forall>s. nh_source_route h = Some s \<longrightarrow> sr_wf s)"

definition sr_octets :: "source_route \<Rightarrow> bytes" where
  "sr_octets s = [of_nat (relay_count s), sr_relay_index s] @ sr_relays s"

definition nh_octets :: "nwk_header \<Rightarrow> bytes" where
  "nh_octets h =
     le_bytes 2 (nh_frame_control h) @ le_bytes 2 (nh_dst h) @ le_bytes 2 (nh_src h)
       @ [nh_radius h, nh_sequence h]
       @ (case nh_dst_ieee h of Some a \<Rightarrow> le_bytes 8 a | None \<Rightarrow> [])
       @ (case nh_src_ieee h of Some a \<Rightarrow> le_bytes 8 a | None \<Rightarrow> [])
       @ (case nh_source_route h of Some s \<Rightarrow> sr_octets s | None \<Rightarrow> [])"

lemma length_nh_octets: "length (nh_octets h) = nh_encoded_len h"
  by (simp add: nh_octets_def nh_encoded_len_def sr_octets_def sr_encoded_len_def split: option.split)

lemma emits_sr: "sr_wf s \<Longrightarrow> emits (sr_encode s) (sr_octets s)"
  by (auto simp: sr_encode_def sr_octets_def sr_wf_def intro!: emits_then)

lemma parses_sr: "sr_wf s \<Longrightarrow> parses sr_decode (sr_octets s) s"
proof -
  assume wf: "sr_wf s"
  have c: "unat (of_nat (relay_count s) :: u8) = relay_count s"
    using wf by (simp add: sr_wf_def unat_of_nat)
  have l: "length (sr_relays s) = relay_count s * 2" using wf by (auto simp: sr_wf_def relay_count_def)
  have i: "\<not> (relay_count s \<le> unat (sr_relay_index s) \<and> relay_count s \<noteq> 0)" using wf by (auto simp: sr_wf_def)
  show ?thesis
    unfolding sr_decode_def sr_octets_def append_Cons append_Nil
    by (intro parses_field(1), unfold c if_not_P [OF i]) (rule parses_map [OF parses_bytes [OF l]], simp)
qed

lemma emits_then_done: "emits m bs \<Longrightarrow> emits (step_try m (\<lambda>_. step_ok ())) bs"
  using emits_try [of m bs "step_ok ()" "[]"] emits_ok by simp

lemma emits_done_pair [emits_then]: "emits (Pair (Inr ())) []"
  using emits_ok by (simp add: step_ok_def)

lemma nh_encode_emits: "nh_wf h \<Longrightarrow> emits (nh_encode h) (nh_octets h)"
  unfolding nh_encode_def nh_octets_def nh_wf_def
  by (auto intro!: emits_then emits_then_done emits_sr split: option.split)

lemma nh_decode_parses: "nh_wf h \<Longrightarrow> parses nh_decode (nh_octets h) h"
  unfolding nh_decode_def nh_octets_def nh_wf_def
  by (auto simp: step_norm intro!: parses_then parses_try [OF parses_sr, of _ _ "[]", simplified] split: option.splits)

lemma cursor_safe_sr [safe_intros]: "cursor_safe sr_decode"
  unfolding sr_decode_def by (intro safe_intros)

lemma cursor_safe_nh [safe_intros]: "cursor_safe nh_decode"
  unfolding nh_decode_def by (intro safe_intros)

interpretation nhc: wire_codec nh_decode nh_encode nh_encoded_len nh_wf nh_octets
  by unfold_locales (simp_all add: cursor_safe_nh nh_encode_emits nh_decode_parses length_nh_octets)

lemma decode_prefix_octets: "nh_wf h \<Longrightarrow> decode_prefix (nh_octets h @ p) = Inr (h, nh_encoded_len h)"
  using nh_decode_parses [of h]
  by (auto simp: parses_def decode_prefix_def length_nh_octets [symmetric]) (simp add: r_new_def)

section \<open>Octets patched in place\<close>

text \<open>
  A relay does not encode a header again: it lowers the radius, clears flags and advances the relay
  index in the octets it received. Each patch is the encoding of the header with that field changed.
\<close>

definition clear_fc :: "u16 \<Rightarrow> nwk_header \<Rightarrow> nwk_header" where
  "clear_fc b h = h\<lparr>nh_frame_control := fc_with_bit (nh_frame_control h) b False\<rparr>"

definition with_relay_index :: "u8 \<Rightarrow> nwk_header \<Rightarrow> nwk_header" where
  "with_relay_index i h = h\<lparr>nh_source_route := map_option (\<lambda>s. s\<lparr>sr_relay_index := i\<rparr>) (nh_source_route h)\<rparr>"

lemma patch_radius: "(nh_octets h)[6 := r] = nh_octets (h\<lparr>nh_radius := r\<rparr>)"
  by (simp add: nh_octets_def list_update_append)

lemma le_bytes_2_clear:
  fixes c :: u16 and m :: u8
  shows "le_bytes 2 (c AND NOT (push_bit 8 (ucast m))) = [ucast c, ucast (drop_bit 8 c) AND NOT m]"
  unfolding le_bytes_eval by (auto intro!: bit_word_eqI simp: bit_simps)

lemma patch_fc:
  assumes "b = push_bit 8 (ucast (m :: u8))"
  shows "(nh_octets h)[1 := nh_octets h ! 1 AND NOT m] = nh_octets (clear_fc b h)"
  using le_bytes_2_clear [of "nh_frame_control h" m]
  by (simp add: nh_octets_def clear_fc_def fc_with_bit_def assms) (simp add: le_bytes_eval)

lemma patch_relay_index:
  assumes "nh_source_route h = Some s" "nh_wf h"
  shows "(nh_octets h)[8 + of_bool (fc_dst_ieee (nh_frame_control h)) * 8 + of_bool (fc_src_ieee (nh_frame_control h)) * 8 + 1 := i]
     = nh_octets (with_relay_index i h)"
  using assms by (auto simp: nh_octets_def with_relay_index_def nh_wf_def sr_octets_def relay_count_def list_update_append split: option.split)

lemma clear_fc_keeps:
  assumes "b \<in> {FC_SECURITY, FC_END_DEVICE_INITIATOR}"
  shows "fc_dst_ieee (nh_frame_control (clear_fc b h)) = fc_dst_ieee (nh_frame_control h)"
    "fc_src_ieee (nh_frame_control (clear_fc b h)) = fc_src_ieee (nh_frame_control h)"
    "fc_source_route (nh_frame_control (clear_fc b h)) = fc_source_route (nh_frame_control h)"
  using assms
  by (auto simp: clear_fc_def fc_with_bit_def fc_dst_ieee_def fc_src_ieee_def fc_source_route_def FC_SECURITY_def
      FC_END_DEVICE_INITIATOR_def FC_DST_IEEE_def FC_SRC_IEEE_def FC_SOURCE_ROUTE_def and.assoc)

lemma nh_wf_patched:
  assumes "nh_wf h"
  shows "nh_wf (h\<lparr>nh_radius := r\<rparr>)"
    and "b \<in> {FC_SECURITY, FC_END_DEVICE_INITIATOR} \<Longrightarrow> nh_wf (clear_fc b h)"
    and "nh_source_route h = Some s \<Longrightarrow> unat i < relay_count s \<Longrightarrow> nh_wf (with_relay_index i h)"
proof -
  show "nh_wf (h\<lparr>nh_radius := r\<rparr>)" using assms by (simp add: nh_wf_def)
  show "nh_wf (clear_fc b h)" if "b \<in> {FC_SECURITY, FC_END_DEVICE_INITIATOR}"
    using assms clear_fc_keeps [OF that, of h] by (simp add: nh_wf_def) (simp add: clear_fc_def)
  show "nh_wf (with_relay_index i h)" if "nh_source_route h = Some s" "unat i < relay_count s"
    using assms that by (auto simp: nh_wf_def with_relay_index_def sr_wf_def relay_count_def)
qed

end
