(* ===== verification/Tables.thy ===== *)
theory Tables
  imports Prelude "HOL-Library.Multiset"
begin

text \<open>
  The bounded tables of the network layer. Their entries are kept in a vector of fixed capacity and
  found by a key; a full table makes room by removing an entry of its choice. The contract the layer
  relies on is the locale \<open>keyed_table\<close>; \<open>evicting_table\<close> gives it for every choice of the entry to
  remove.
\<close>

section \<open>Lookup and insertion\<close>

definition table_get :: "('a \<Rightarrow> 'k) \<Rightarrow> 'k \<Rightarrow> 'a list \<Rightarrow> 'a option" where
  "table_get key k xs = List.find (\<lambda>e. key e = k) xs"

text \<open>
  \<^verbatim>\<open>insert\<close> of the routing, discovery and neighbor tables: replace the entry with the same key; when
  the vector is full remove the chosen entry first; push.
\<close>

definition table_insert :: "nat \<Rightarrow> ('a \<Rightarrow> 'k) \<Rightarrow> ('a list \<Rightarrow> nat option) \<Rightarrow> 'a \<Rightarrow> 'a list \<Rightarrow> 'a list option" where
  "table_insert cap key victim x xs =
     (case position (\<lambda>e. key e = key x) xs of
        Some pos \<Rightarrow> Some (xs[pos := x])
      | None \<Rightarrow>
          if length xs < cap then Some (xs @ [x])
          else (case victim xs of
                  None \<Rightarrow> None
                | Some v \<Rightarrow> (case vec_push cap (swap_remove v xs) x of Inl _ \<Rightarrow> None | Inr ys \<Rightarrow> Some ys)))"

definition table_remove :: "('a \<Rightarrow> 'k) \<Rightarrow> 'k \<Rightarrow> 'a list \<Rightarrow> 'a option \<times> 'a list" where
  "table_remove key k xs =
     (case position (\<lambda>e. key e = k) xs of None \<Rightarrow> (None, xs) | Some pos \<Rightarrow> (Some (xs ! pos), swap_remove pos xs))"

text \<open>\<open>arg_min_first\<close> is \<^verbatim>\<open>min_by_key\<close> over the enumerated entries: the first of the smallest.\<close>

fun arg_min_first :: "('a \<Rightarrow> 'k::linorder) \<Rightarrow> nat \<Rightarrow> 'a list \<Rightarrow> (nat \<times> 'a) option" where
  "arg_min_first f i [] = None"
| "arg_min_first f i (x # xs) =
     (case arg_min_first f (Suc i) xs of
        Some (j, y) \<Rightarrow> if f y < f x then Some (j, y) else Some (i, x)
      | None \<Rightarrow> Some (i, x))"

definition table_ok :: "nat \<Rightarrow> ('a \<Rightarrow> 'k) \<Rightarrow> 'a list \<Rightarrow> bool" where
  "table_ok cap key xs \<longleftrightarrow> distinct (map key xs) \<and> length xs \<le> cap"

named_theorems table_simps \<open>lookups in changed tables\<close>

lemma arg_min_first_valid: "arg_min_first f i xs = Some (j, x) \<Longrightarrow> i \<le> j \<and> j < i + length xs \<and> x = xs ! (j - i)"
  by (induction f i xs arbitrary: j x rule: arg_min_first.induct)
     (force split: option.splits if_splits prod.splits simp: nth_Cons')+

lemma arg_min_first_least: "arg_min_first f i xs = Some (j, x) \<Longrightarrow> y \<in> set xs \<Longrightarrow> f x \<le> f y"
proof (induction f i xs arbitrary: j x rule: arg_min_first.induct)
  case (2 f i z zs)
  show ?case
  proof (cases "arg_min_first f (Suc i) zs")
    case None
    then have "zs = []" by (cases zs) (auto split: option.splits prod.splits if_splits)
    with 2 None show ?thesis by simp
  next
    case (Some p)
    with 2 show ?thesis by (cases p) (force split: if_splits)
  qed
qed simp

lemma swap_remove_split:
  assumes "i < length xs"
  shows "\<exists>us vs. xs = us @ xs ! i # vs \<and> mset (swap_remove i xs) = mset (us @ vs)"
proof -
  have x: "xs = take i xs @ xs ! i # drop (Suc i) xs" using assms by (rule id_take_nth_drop)
  have "mset (swap_remove i xs) = mset (take i xs @ drop (Suc i) xs)"
  proof (cases "drop (Suc i) xs" rule: rev_cases)
    case Nil
    then have "Suc i = length xs" using assms by simp
    then have "length xs - Suc 0 = i" by simp
    then show ?thesis using Nil assms by (simp add: swap_remove_def butlast_list_update butlast_conv_take)
  next
    case (snoc ys y)
    define a where "a = take i xs"
    define b where "b = xs ! i"
    have xs: "xs = a @ b # ys @ [y]" and la: "length a = i" using x snoc assms by (simp_all add: a_def b_def)
    have "swap_remove (length a) (a @ b # ys @ [y]) = a @ y # ys"
      by (simp add: swap_remove_def butlast_append)
    then have "swap_remove i xs = a @ y # ys" by (simp only: xs [symmetric] la)
    then show ?thesis using snoc by (simp add: a_def)
  qed
  with x show ?thesis by blast
qed

lemma swap_remove_keys:
  assumes "i < length xs" "distinct (map key xs)"
  shows "distinct (map key (swap_remove i xs))" "set (swap_remove i xs) = set xs - {xs ! i}"
    "key ` set (swap_remove i xs) = key ` set xs - {key (xs ! i)}"
proof -
  obtain us vs where s: "xs = us @ xs ! i # vs" "mset (swap_remove i xs) = mset (us @ vs)"
    using swap_remove_split [OF assms(1)] by blast
  define x where "x = xs ! i"
  have xs: "xs = us @ x # vs" using s(1) by (simp add: x_def)
  have m: "set (swap_remove i xs) = set (us @ vs)" using s(2) by (rule mset_eq_setD)
  have "mset (map key (swap_remove i xs)) = mset (map key (us @ vs))" using s(2) by (simp only: mset_map)
  moreover have "distinct (map key (us @ vs))" using assms(2) by (simp add: xs)
  ultimately show "distinct (map key (swap_remove i xs))" using mset_eq_imp_distinct_iff by blast
  have e: "set xs = insert x (set us \<union> set vs)" by (subst xs) simp
  have "distinct (map key (us @ x # vs))" using assms(2) by (simp only: xs [symmetric])
  then have d: "key x \<notin> key ` (set us \<union> set vs)" by auto
  show "set (swap_remove i xs) = set xs - {xs ! i}" unfolding x_def [symmetric] e m using d by auto
  show "key ` set (swap_remove i xs) = key ` set xs - {key (xs ! i)}" unfolding x_def [symmetric] e m using d by auto
qed

lemma table_get_iff:
  "distinct (map key xs) \<Longrightarrow> table_get key k xs = Some e \<longleftrightarrow> e \<in> set xs \<and> key e = k"
  by (auto simp: table_get_def dest: find_SomeD intro: find_distinct_keys)

lemma table_get_None: "table_get key k xs = None \<longleftrightarrow> k \<notin> key ` set xs"
  by (simp add: table_get_def find_None_keys)

lemma table_get_cong_set:
  assumes "distinct (map key xs)" "distinct (map key ys)" "{e \<in> set xs. key e = k} = {e \<in> set ys. key e = k}"
  shows "table_get key k xs = table_get key k ys"
proof (cases "table_get key k xs")
  case None
  then have "{e \<in> set xs. key e = k} = {}" by (auto simp: table_get_None)
  then have "table_get key k ys = None" using assms(3) by (auto simp: table_get_None)
  with None show ?thesis by simp
next
  case (Some e)
  then have "e \<in> {e \<in> set ys. key e = k}" using assms by (auto simp: table_get_iff)
  then show ?thesis using Some assms(2) by (simp add: table_get_iff [symmetric])
qed

lemma table_ok_update:
  assumes "table_ok cap key xs" "pos < length xs" "key (xs ! pos) = key x"
  shows "table_ok cap key (xs[pos := x])"
    and "table_get key k (xs[pos := x]) = (if k = key x then Some x else table_get key k xs)"
proof -
  have "map key (xs[pos := x]) = map key xs"
    using assms(2,3) by (metis list_update_id map_update)
  then show ok: "table_ok cap key (xs[pos := x])" using assms(1) by (simp add: table_ok_def)
  have d: "distinct (map key xs)" "distinct (map key (xs[pos := x]))" using ok assms(1) by (simp_all add: table_ok_def)
  have "x \<in> set (xs[pos := x])" using assms(2) by (simp add: set_update_memI)
  moreover have "{e \<in> set (xs[pos := x]). key e = k} = {e \<in> set xs. key e = k}" if "k \<noteq> key x"
    using that assms(2,3) by (auto simp: in_set_conv_nth nth_list_update)
  ultimately show "table_get key k (xs[pos := x]) = (if k = key x then Some x else table_get key k xs)"
    using table_get_cong_set [OF d(2,1), of k] table_get_iff [OF d(2), of k x] by auto
qed

lemma table_get_append [table_simps]:
  "table_get key k (xs @ ys) = (case table_get key k xs of None \<Rightarrow> table_get key k ys | Some e \<Rightarrow> Some e)"
  by (simp add: table_get_def find_append split: option.split)

lemma table_get_single [table_simps]: "table_get key k [x] = (if k = key x then Some x else None)"
  by (auto simp: table_get_def)

lemma table_swap_remove:
  assumes "table_ok cap key xs" "v < length xs"
  shows "table_ok (cap - 1) key (swap_remove v xs)"
    and "table_get key k (swap_remove v xs) = (if k = key (xs ! v) then None else table_get key k xs)"
proof -
  have d: "distinct (map key xs)" using assms(1) by (simp add: table_ok_def)
  note sr = swap_remove_keys [OF assms(2) d]
  show "table_ok (cap - 1) key (swap_remove v xs)"
    using sr(1) assms by (auto simp: table_ok_def length_swap_remove intro: diff_le_mono)
  have "{e \<in> set (swap_remove v xs). key e = k} = {e \<in> set xs. key e = k}" if "k \<noteq> key (xs ! v)"
    using that by (auto simp: sr(2))
  then show "table_get key k (swap_remove v xs) = (if k = key (xs ! v) then None else table_get key k xs)"
    using table_get_cong_set [OF sr(1) d, of k] by (auto simp: table_get_None sr(3))
qed

lemma table_remove_spec:
  assumes "table_ok cap key xs" "table_remove key k xs = (r, ys)"
  shows "r = table_get key k xs" "table_ok cap key ys" "table_get key k' ys = (if k' = k then None else table_get key k' xs)"
proof (atomize (full), cases "position (\<lambda>e. key e = k) xs")
  case None
  then show "r = table_get key k xs \<and> table_ok cap key ys \<and> table_get key k' ys = (if k' = k then None else table_get key k' xs)"
    using assms position_None [of "\<lambda>e. key e = k" xs] table_get_None [of key k xs] by (auto simp: table_remove_def)
next
  case (Some pos)
  from position_Some [OF Some] have p: "pos < length xs" "key (xs ! pos) = k" by auto
  have "table_get key k xs = Some (xs ! pos)"
    using assms(1) p by (simp add: table_get_iff table_ok_def)
  moreover have "table_ok cap key ys" using table_swap_remove(1) [OF assms(1) p(1)] assms(2) Some
    by (auto simp: table_remove_def table_ok_def)
  moreover have "table_get key k' ys = (if k' = k then None else table_get key k' xs)"
    using table_swap_remove(2) [OF assms(1) p(1), of k'] assms(2) Some p(2) by (auto simp: table_remove_def)
  ultimately show "r = table_get key k xs \<and> table_ok cap key ys \<and> table_get key k' ys = (if k' = k then None else table_get key k' xs)"
    using assms(2) Some by (simp add: table_remove_def)
qed

lemma table_map:
  assumes "\<And>e. key (f e) = key e"
  shows "table_ok cap key (map f xs) = table_ok cap key xs"
    and "table_get key k (map f xs) = map_option f (table_get key k xs)"
proof -
  have "map key (map f xs) = map key xs" using assms by simp
  then show "table_ok cap key (map f xs) = table_ok cap key xs" by (simp only: table_ok_def length_map)
  show "table_get key k (map f xs) = map_option f (table_get key k xs)"
    using assms by (induction xs) (simp_all add: table_get_def)
qed

lemma table_filter:
  assumes "table_ok cap key xs"
  shows "table_ok cap key (filter P xs)"
    and "table_get key k (filter P xs) = (case table_get key k xs of Some e \<Rightarrow> if P e then Some e else None | None \<Rightarrow> None)"
proof -
  have d: "distinct (map key xs)" using assms by (simp add: table_ok_def)
  then have d': "distinct (map key (filter P xs))" by (rule distinct_map_filter)
  with assms show "table_ok cap key (filter P xs)"
    by (simp add: table_ok_def) (meson le_trans length_filter_le)
  show "table_get key k (filter P xs) = (case table_get key k xs of Some e \<Rightarrow> if P e then Some e else None | None \<Rightarrow> None)"
  proof (cases "table_get key k (filter P xs)")
    case None
    then show ?thesis using d by (auto simp: table_get_None table_get_iff split: option.splits)
  next
    case (Some e)
    then have "e \<in> set xs \<and> key e = k \<and> P e" using d' by (auto simp: table_get_iff)
    then have "table_get key k xs = Some e" using d by (simp add: table_get_iff)
    with Some show ?thesis using \<open>e \<in> set xs \<and> key e = k \<and> P e\<close> by simp
  qed
qed

lemma table_update_first:
  assumes "table_ok cap key xs" "\<And>e. key (f e) = key e"
  shows "table_ok cap key (update_first (\<lambda>e. key e = k) f xs)"
    and "table_get key k' (update_first (\<lambda>e. key e = k) f xs) =
      (if k' = k then map_option f (table_get key k xs) else table_get key k' xs)"
proof -
  have "map key (update_first (\<lambda>e. key e = k) f xs) = map key xs" using assms(2) by (intro map_update_first) simp
  then show "table_ok cap key (update_first (\<lambda>e. key e = k) f xs)" using assms(1) by (simp add: table_ok_def)
  show "table_get key k' (update_first (\<lambda>e. key e = k) f xs) =
      (if k' = k then map_option f (table_get key k xs) else table_get key k' xs)"
    using assms(2) find_update_first [of "\<lambda>e. key e = k" f xs] find_update_first_other [of "\<lambda>e. key e = k" "\<lambda>e. key e = k'" f xs]
    by (auto simp: table_get_def)
qed

section \<open>The contract\<close>

text \<open>
  What a caller may rely on after an insertion: the new entry is found under its key, at most one other
  entry is lost and only when the table was full; a refused insertion means a full table without an
  entry for the key.
\<close>

locale keyed_table =
  fixes cap :: nat and key :: "'a \<Rightarrow> 'k" and ins :: "'a \<Rightarrow> 'a list \<Rightarrow> 'a list option"
  assumes ins_ok: "table_ok cap key xs \<Longrightarrow> ins x xs = Some ys \<Longrightarrow> table_ok cap key ys"
    and ins_get: "table_ok cap key xs \<Longrightarrow> ins x xs = Some ys \<Longrightarrow> table_get key (key x) ys = Some x"
    and ins_others: "table_ok cap key xs \<Longrightarrow> ins x xs = Some ys \<Longrightarrow>
      \<exists>v. (\<forall>k. k \<noteq> key x \<longrightarrow> k \<noteq> v \<longrightarrow> table_get key k ys = table_get key k xs) \<and>
          (v \<noteq> key x \<longrightarrow> cap \<le> length xs \<and> table_get key (key x) xs = None \<and> table_get key v ys = None)"
    and ins_refused: "table_ok cap key xs \<Longrightarrow> ins x xs = None \<Longrightarrow> cap \<le> length xs \<and> table_get key (key x) xs = None"
begin

lemma ins_known:
  assumes "table_ok cap key xs" "table_get key (key x) xs = Some e"
  shows "\<exists>ys. ins x xs = Some ys \<and> table_ok cap key ys \<and> (\<forall>k. table_get key k ys = (if k = key x then Some x else table_get key k xs))"
proof -
  from ins_refused [OF assms(1), of x] assms(2) obtain ys where ys: "ins x xs = Some ys" by (cases "ins x xs") auto
  from ins_others [OF assms(1) ys] obtain v where
    v: "\<forall>k. k \<noteq> key x \<longrightarrow> k \<noteq> v \<longrightarrow> table_get key k ys = table_get key k xs" "v \<noteq> key x \<longrightarrow> table_get key (key x) xs = None" by blast
  with assms(2) have "v = key x" by auto
  with v(1) ys ins_ok [OF assms(1) ys] ins_get [OF assms(1) ys] show ?thesis by auto
qed

lemma ins_room:
  assumes "table_ok cap key xs" "length xs < cap"
  shows "\<exists>ys. ins x xs = Some ys \<and> table_ok cap key ys \<and> (\<forall>k. table_get key k ys = (if k = key x then Some x else table_get key k xs))"
proof -
  from ins_refused [OF assms(1), of x] assms(2) obtain ys where ys: "ins x xs = Some ys" by (cases "ins x xs") auto
  from ins_others [OF assms(1) ys] obtain v where
    v: "\<forall>k. k \<noteq> key x \<longrightarrow> k \<noteq> v \<longrightarrow> table_get key k ys = table_get key k xs" "v \<noteq> key x \<longrightarrow> cap \<le> length xs" by blast
  with assms(2) have "v = key x" by auto
  with v(1) ys ins_ok [OF assms(1) ys] ins_get [OF assms(1) ys] show ?thesis by auto
qed

lemma ins_other_cases:
  assumes "table_ok cap key xs" "ins x xs = Some ys" "k \<noteq> key x"
  shows "table_get key k ys = table_get key k xs \<or> table_get key k ys = None"
  using ins_others [OF assms(1,2)] assms(3) by metis

end

locale evicting_table =
  fixes cap :: nat and key :: "'a \<Rightarrow> 'k" and victim :: "'a list \<Rightarrow> nat option"
  assumes victim_valid: "victim xs = Some v \<Longrightarrow> v < length xs"
begin

lemma insert_cases:
  assumes "table_ok cap key xs" "table_insert cap key victim x xs = Some ys"
  obtains (Replaced) pos where "pos < length xs" "key (xs ! pos) = key x" "ys = xs[pos := x]"
  | (Added) "table_get key (key x) xs = None" "length xs < cap" "ys = xs @ [x]"
  | (Evicted) v where "table_get key (key x) xs = None" "cap \<le> length xs" "victim xs = Some v" "v < length xs"
      "ys = swap_remove v xs @ [x]" "length (swap_remove v xs) < cap"
proof (cases "position (\<lambda>e. key e = key x) xs")
  case (Some pos)
  then show ?thesis using that(1) assms(2) position_Some [OF Some] by (auto simp: table_insert_def)
next
  case None
  then have n: "table_get key (key x) xs = None" by (auto simp: position_None table_get_None)
  show ?thesis
  proof (cases "length xs < cap")
    case True
    then show ?thesis using that(2) n None assms(2) by (auto simp: table_insert_def)
  next
    case False
    then obtain v where v: "victim xs = Some v" using None assms(2) by (auto simp: table_insert_def split: option.splits)
    show ?thesis using that(3) [OF n _ v victim_valid [OF v]] None False v assms(2)
      by (auto simp: table_insert_def vec_push_def split: if_splits)
  qed
qed

lemma insert_None:
  assumes "table_ok cap key xs" "table_insert cap key victim x xs = None"
  shows "table_get key (key x) xs = None \<and> cap \<le> length xs \<and> (victim xs = None \<or> cap = 0)"
  using assms
  by (auto simp: table_insert_def position_None table_get_None vec_push_def table_ok_def length_swap_remove
      split: option.splits if_splits sum.splits dest: victim_valid)

end

sublocale evicting_table < keyed_table cap key "table_insert cap key victim"
proof
  fix xs x ys
  assume ok: "table_ok cap key xs"
  show "cap \<le> length xs \<and> table_get key (key x) xs = None" if "table_insert cap key victim x xs = None"
    using insert_None [OF ok that] by simp
  assume ys: "table_insert cap key victim x xs = Some ys"
  have "table_ok cap key ys \<and> table_get key (key x) ys = Some x \<and>
    (\<exists>v. (\<forall>k. k \<noteq> key x \<longrightarrow> k \<noteq> v \<longrightarrow> table_get key k ys = table_get key k xs) \<and>
         (v \<noteq> key x \<longrightarrow> cap \<le> length xs \<and> table_get key (key x) xs = None \<and> table_get key v ys = None))"
    using ok ys
  proof (cases rule: insert_cases)
    case (Replaced pos)
    then show ?thesis using table_ok_update [OF ok Replaced(1,2)] by auto
  next
    case Added
    then have "table_ok cap key ys" using ok by (auto simp: table_ok_def table_get_None)
    then show ?thesis using Added by (auto simp: table_get_append table_get_single split: option.splits)
  next
    case (Evicted v)
    note sr = table_swap_remove [OF ok Evicted(4)]
    have "key x \<notin> key ` set (swap_remove v xs)" using sr(2) [of "key x"] Evicted(1) by (simp add: table_get_None [symmetric])
    then have "table_ok cap key ys" using Evicted(5,6) sr(1) by (auto simp: table_ok_def)
    then show ?thesis using Evicted sr(2)
      by (auto simp: table_get_append table_get_single intro!: exI [of _ "key (xs ! v)"] split: option.splits)
  qed
  then show "table_ok cap key ys" "table_get key (key x) ys = Some x"
    "\<exists>v. (\<forall>k. k \<noteq> key x \<longrightarrow> k \<noteq> v \<longrightarrow> table_get key k ys = table_get key k xs) \<and>
         (v \<noteq> key x \<longrightarrow> cap \<le> length xs \<and> table_get key (key x) xs = None \<and> table_get key v ys = None)"
    by auto
qed

end
