(* ===== verification/NwkScan.thy ===== *)
theory NwkScan
  imports Tlv NwkFrame Tables
begin

text \<open>
  What the network layer scans with and what it finds: the MAC interface table
  (\<^verbatim>\<open>panweave-nwk/src/interface.rs\<close>), the global TLVs of join requests and beacons
  (\<^verbatim>\<open>panweave-nwk/src/tlv.rs\<close>), the beacon payload (\<^verbatim>\<open>panweave-nwk/src/beacon.rs\<close>) and the
  discovery table with its parent ranking (\<^verbatim>\<open>panweave-nwk/src/discovery.rs\<close>).
\<close>

unbundle bit_operations_syntax

section \<open>MAC interfaces\<close>

datatype interface_type = ZigbeeLink | TrustedLink

datatype scan_type = ActiveScan | EnhancedActiveScan

record duty_cycle_thresholds =
  dc_warning :: u16
  dc_critical :: u16
  dc_regulated :: u16

record interface_counters =
  ifc_rx_ucast :: u16
  ifc_tx_ucast_retries :: u16
  ifc_tx_ucast_failures :: u16
  ifc_tx_ucast_total :: u16

record mac_interface_entry =
  if_index :: u8
  if_state :: bool
  if_supported_channels :: "channel_mask list"
  if_channel_in_use :: "(channel_page \<times> channel) option"
  if_routers_allowed :: bool
  if_link_power_delta_transmit_rate :: u16
  if_beacons_supported :: bool
  if_enhanced_beacons_supported :: bool
  if_scan_type :: scan_type
  if_link_cost_scalar :: u8
  if_kind :: interface_type
  if_ble_connection_handle :: u16
  if_power_negotiation_supported :: bool
  if_duty_cycle :: duty_cycle_thresholds
  if_counters :: interface_counters

definition if_radio :: "u8 \<Rightarrow> channel_mask \<Rightarrow> mac_interface_entry" where
  "if_radio index supported =
     \<lparr>if_index = index, if_state = True, if_supported_channels = [supported], if_channel_in_use = None,
      if_routers_allowed = True, if_link_power_delta_transmit_rate = 16, if_beacons_supported = True,
      if_enhanced_beacons_supported = False, if_scan_type = ActiveScan, if_link_cost_scalar = 1,
      if_kind = ZigbeeLink, if_ble_connection_handle = 0, if_power_negotiation_supported = False,
      if_duty_cycle = \<lparr>dc_warning = 0, dc_critical = 0, dc_regulated = 0\<rparr>,
      if_counters = \<lparr>ifc_rx_ucast = 0, ifc_tx_ucast_retries = 0, ifc_tx_ucast_failures = 0, ifc_tx_ucast_total = 0\<rparr>\<rparr>"

definition if_trusted_link :: "u8 \<Rightarrow> u16 \<Rightarrow> mac_interface_entry" where
  "if_trusted_link index handle =
     (if_radio index 0)\<lparr>if_supported_channels := [], if_beacons_supported := False, if_kind := TrustedLink,
                         if_ble_connection_handle := handle\<rparr>"

definition if_supports :: "mac_interface_entry \<Rightarrow> channel_page \<Rightarrow> channel \<Rightarrow> bool" where
  "if_supports e page c \<longleftrightarrow> (\<exists>m \<in> set (if_supported_channels e). mask_page m = page \<and> mask_contains m c)"

definition if_supported_on :: "mac_interface_entry \<Rightarrow> channel_page \<Rightarrow> channel_mask" where
  "if_supported_on e page =
     (case List.find (\<lambda>m. mask_page m = page) (if_supported_channels e) of
        None \<Rightarrow> 0 | Some m \<Rightarrow> mask_channels_only m)"

record set_interface_request =
  sif_index :: u8
  sif_state :: bool
  sif_channel_to_use :: "(channel_page \<times> channel) option"
  sif_supported_channels :: "channel_mask list option"
  sif_routers_allowed :: bool
  sif_duty_cycle :: duty_cycle_thresholds
  sif_link_cost_scalar :: u8

datatype interface_error = UnknownInterface | LastInterface | InvalidChannel | InterfaceInvalidParameter

type_synonym interface_table = "mac_interface_entry list"

definition it_single :: "nat \<Rightarrow> channel_mask \<Rightarrow> interface_table" where
  "it_single cap supported = (if 0 < cap then [if_radio 0 supported] else [])"

definition it_enabled :: "interface_table \<Rightarrow> interface_table" where
  "it_enabled t = filter if_state t"

definition it_get :: "u8 \<Rightarrow> interface_table \<Rightarrow> mac_interface_entry option" where
  "it_get i t = table_get if_index i t"

definition it_update :: "u8 \<Rightarrow> (mac_interface_entry \<Rightarrow> mac_interface_entry) \<Rightarrow> interface_table \<Rightarrow> interface_table" where
  "it_update i f t = update_first (\<lambda>e. if_index e = i) f t"

definition it_insert :: "nat \<Rightarrow> mac_interface_entry \<Rightarrow> (interface_table, interface_error, unit) step" where
  "it_insert cap e t =
     (if 31 < if_index e then (Inl InterfaceInvalidParameter, t)
      else if it_get (if_index e) t \<noteq> None then (Inr (), it_update (if_index e) (\<lambda>_. e) t)
      else case vec_push cap t e of Inl _ \<Rightarrow> (Inl InterfaceInvalidParameter, t) | Inr t' \<Rightarrow> (Inr (), t'))"

definition it_remove :: "u8 \<Rightarrow> interface_table \<Rightarrow> bool \<times> interface_table" where
  "it_remove i t =
     (case position (\<lambda>e. if_index e = i) t of Some p \<Rightarrow> (True, swap_remove p t) | None \<Rightarrow> (False, t))"

text \<open>
  NLME-SET-INTERFACE. The channel in use is written before the other fields, as the source does; every error
  leaves the table as it was.
\<close>

definition set_interface :: "set_interface_request \<Rightarrow> (interface_table, interface_error, unit) step" where
  "set_interface q t =
     (case position (\<lambda>e. if_index e = sif_index q) t of
        None \<Rightarrow> (Inl UnknownInterface, t)
      | Some pos \<Rightarrow>
          if \<not> sif_state q then
            (if \<not> (\<exists>e \<in> set t. if_index e \<noteq> sif_index q \<and> if_state e) then (Inl LastInterface, t)
             else (Inr (), t[pos := (t ! pos)\<lparr>if_state := False, if_channel_in_use := None\<rparr>]))
          else if \<not> (1 \<le> sif_link_cost_scalar q \<and> sif_link_cost_scalar q \<le> 34) then (Inl InterfaceInvalidParameter, t)
          else
            let supported = (case sif_supported_channels q of Some m \<Rightarrow> m | None \<Rightarrow> if_supported_channels (t ! pos));
                e = t ! pos;
                chosen =
                  (if if_kind e = ZigbeeLink then
                     (case sif_channel_to_use q of
                        None \<Rightarrow> Inl InvalidChannel
                      | Some (page, c) \<Rightarrow>
                          if \<exists>m \<in> set supported. mask_page m = page \<and> mask_contains m c
                          then Inr (e\<lparr>if_channel_in_use := Some (page, c)\<rparr>) else Inl InvalidChannel)
                   else Inr e)
            in case chosen of
                 Inl err \<Rightarrow> (Inl err, t)
               | Inr e1 \<Rightarrow>
                   (Inr (), t[pos := e1\<lparr>if_supported_channels := supported, if_state := True,
                        if_routers_allowed := sif_routers_allowed q, if_link_cost_scalar := sif_link_cost_scalar q,
                        if_duty_cycle := \<lparr>dc_warning = saturating_mul (dc_warning (sif_duty_cycle q)) 10,
                                          dc_critical = saturating_mul (dc_critical (sif_duty_cycle q)) 10,
                                          dc_regulated = saturating_mul (dc_regulated (sif_duty_cycle q)) 10\<rparr>\<rparr>]))"

definition get_interface :: "u8 \<Rightarrow> (interface_table, interface_error, mac_interface_entry) step" where
  "get_interface i t =
     (case it_get i t of
        None \<Rightarrow> (Inl UnknownInterface, t)
      | Some e \<Rightarrow> (Inr e, it_update i (\<lambda>e. e\<lparr>if_counters :=
          \<lparr>ifc_rx_ucast = 0, ifc_tx_ucast_retries = 0, ifc_tx_ucast_failures = 0, ifc_tx_ucast_total = 0\<rparr>\<rparr>) t))"

definition interface_for :: "channel_page \<Rightarrow> channel \<Rightarrow> interface_table \<Rightarrow> mac_interface_entry option" where
  "interface_for page c t = List.find (\<lambda>e. if_kind e = ZigbeeLink \<and> if_supports e page c) (it_enabled t)"

definition supported_subset :: "channel_mask \<Rightarrow> interface_table \<Rightarrow> channel_mask" where
  "supported_subset chans t =
     (let page = mask_page chans in
      mask_with_page
        (foldl (\<lambda>out e. if if_kind e = ZigbeeLink then out OR (mask_channels_only chans AND if_supported_on e page) else out)
           0 (it_enabled t)) page)"

definition scaled_link_cost :: "u8 \<Rightarrow> u8 \<Rightarrow> interface_table \<Rightarrow> u8" where
  "scaled_link_cost i cost t =
     min (saturating_mul cost (case it_get i t of None \<Rightarrow> 1 | Some e \<Rightarrow> max (if_link_cost_scalar e) 1)) 7"

definition note_tx :: "u8 \<Rightarrow> u16 \<Rightarrow> bool \<Rightarrow> interface_table \<Rightarrow> interface_table" where
  "note_tx i retries failed t =
     it_update i (\<lambda>e. let c = if_counters e in e\<lparr>if_counters :=
        c\<lparr>ifc_tx_ucast_total := saturating_add (ifc_tx_ucast_total c) 1,
          ifc_tx_ucast_retries := saturating_add (ifc_tx_ucast_retries c) retries,
          ifc_tx_ucast_failures := (if failed then saturating_add (ifc_tx_ucast_failures c) 1
                                    else ifc_tx_ucast_failures c)\<rparr>\<rparr>) t"

definition note_rx :: "u8 \<Rightarrow> interface_table \<Rightarrow> interface_table" where
  "note_rx i t =
     it_update i (\<lambda>e. e\<lparr>if_counters := (if_counters e)\<lparr>ifc_rx_ucast := saturating_add (ifc_rx_ucast (if_counters e)) 1\<rparr>\<rparr>) t"

section \<open>Global TLVs\<close>

definition TAG_SUPPORTED_KEY_NEGOTIATION_METHODS :: u8 where
  "TAG_SUPPORTED_KEY_NEGOTIATION_METHODS = 65"

definition TAG_ROUTER_INFORMATION :: u8 where
  "TAG_ROUTER_INFORMATION = 70"

definition TAG_FRAGMENTATION_PARAMETERS :: u8 where
  "TAG_FRAGMENTATION_PARAMETERS = 71"

definition TAG_JOINER_ENCAPSULATION :: u8 where
  "TAG_JOINER_ENCAPSULATION = 72"

definition TAG_DEVICE_CAPABILITY_EXTENSION :: u8 where
  "TAG_DEVICE_CAPABILITY_EXTENSION = 76"

definition tlv_too_short :: "tlv \<Rightarrow> nat \<Rightarrow> tlv_error + unit" where
  "tlv_too_short t n = (if length (tlv_value t) < n then Inl (Malformed (tlv_tag t)) else Inr ())"

type_synonym router_information = u16

definition router_information_parse :: "tlv \<Rightarrow> tlv_error + router_information" where
  "router_information_parse t = res_try (tlv_too_short t 2) (\<lambda>_. Inr (le_word [tlv_value t ! 0, tlv_value t ! 1]))"

definition router_information_write :: "router_information \<Rightarrow> encode" where
  "router_information_write v = write_tlv TAG_ROUTER_INFORMATION (le_bytes 2 v)"

definition ri_hub_connectivity :: "router_information \<Rightarrow> bool" where
  "ri_hub_connectivity v \<longleftrightarrow> v AND 1 \<noteq> 0"

definition ri_long_uptime :: "router_information \<Rightarrow> bool" where
  "ri_long_uptime v \<longleftrightarrow> v AND 2 \<noteq> 0"

definition ri_preferred_parent :: "router_information \<Rightarrow> bool" where
  "ri_preferred_parent v \<longleftrightarrow> v AND 4 \<noteq> 0"

definition router_information_of :: "bytes \<Rightarrow> router_information option" where
  "router_information_of b =
     (case set_find b TAG_ROUTER_INFORMATION of
        None \<Rightarrow> None
      | Some t \<Rightarrow> (case router_information_parse t of Inl _ \<Rightarrow> None | Inr v \<Rightarrow> Some v))"

definition fragmentation_parameters_write :: "short_address \<Rightarrow> u8 \<Rightarrow> u16 \<Rightarrow> encode" where
  "fragmentation_parameters_write node options mtu =
     write_tlv_with TAG_FRAGMENTATION_PARAMETERS
       (step_try (w_u16_le node) (\<lambda>_. step_try (w_u8 options) (\<lambda>_. w_u16_le mtu)))"

definition key_negotiation_write :: "u8 \<Rightarrow> u8 \<Rightarrow> extended_address option \<Rightarrow> encode" where
  "key_negotiation_write protocols secrets source =
     write_tlv_with TAG_SUPPORTED_KEY_NEGOTIATION_METHODS
       (step_try (w_u8 protocols) (\<lambda>_. step_try (w_u8 secrets) (\<lambda>_.
          case source of Some a \<Rightarrow> w_u64_le a | None \<Rightarrow> step_ok ())))"

definition device_capability_write :: "u16 \<Rightarrow> encode" where
  "device_capability_write v = write_tlv TAG_DEVICE_CAPABILITY_EXTENSION (le_bytes 2 v)"

definition write_encapsulation :: "u8 \<Rightarrow> encode \<Rightarrow> encode" where
  "write_encapsulation tag body = write_tlv_with tag body"

definition joiner_encapsulation :: "bytes \<Rightarrow> bytes option" where
  "joiner_encapsulation b =
     (case set_find b TAG_JOINER_ENCAPSULATION of
        None \<Rightarrow> None
      | Some t \<Rightarrow> (case tlv_validate (\<lambda>_. False) (tlv_value t) of Inl _ \<Rightarrow> None | Inr v \<Rightarrow> Some v))"

section \<open>Beacon payload\<close>

record beacon_payload =
  bp_protocol_id :: u8
  bp_stack_profile :: u8
  bp_protocol_version :: u8
  bp_router_capacity :: bool
  bp_device_depth :: u8
  bp_end_device_capacity :: bool
  bp_extended_pan_id :: extended_address
  bp_tx_offset :: u32
  bp_update_id :: u8
  bp_appendix :: bytes

definition bp_new :: "extended_address \<Rightarrow> bool \<Rightarrow> bool \<Rightarrow> u8 \<Rightarrow> bytes \<Rightarrow> beacon_payload" where
  "bp_new epid rc ec update appendix =
     \<lparr>bp_protocol_id = 0, bp_stack_profile = 2, bp_protocol_version = PROTOCOL_VERSION, bp_router_capacity = rc,
      bp_device_depth = 0, bp_end_device_capacity = ec, bp_extended_pan_id = epid, bp_tx_offset = 0x00FFFFFF,
      bp_update_id = update, bp_appendix = appendix\<rparr>"

definition is_zigbee_pro :: "beacon_payload \<Rightarrow> bool" where
  "is_zigbee_pro p \<longleftrightarrow> bp_protocol_id p = 0 \<and> bp_protocol_version p = PROTOCOL_VERSION \<and> bp_stack_profile p = 2"

definition appendix_tlvs :: "beacon_payload \<Rightarrow> bytes option" where
  "appendix_tlvs p =
     (if bp_appendix p = [] then None
      else case tlv_validate (\<lambda>_. False) (bp_appendix p) of Inl _ \<Rightarrow> None | Inr b \<Rightarrow> Some b)"

definition beacon_decode :: "beacon_payload decode" where
  "beacon_decode =
     step_try r_u8 (\<lambda>pid. step_try r_u8 (\<lambda>b1. step_try r_u8 (\<lambda>b2.
     step_try r_u64_le (\<lambda>epid. step_try r_u24_le (\<lambda>off. step_try r_u8 (\<lambda>upd.
     step_map (\<lambda>app. \<lparr>bp_protocol_id = pid, bp_stack_profile = b1 AND 0x0F, bp_protocol_version = drop_bit 4 b1,
                      bp_router_capacity = (b2 AND 0x04 \<noteq> 0), bp_device_depth = drop_bit 3 b2 AND 0x0F,
                      bp_end_device_capacity = (b2 AND 0x80 \<noteq> 0), bp_extended_pan_id = epid, bp_tx_offset = off,
                      bp_update_id = upd, bp_appendix = app\<rparr>) r_rest))))))"

definition beacon_encode :: "beacon_payload \<Rightarrow> encode" where
  "beacon_encode p =
     step_try (w_u8 (bp_protocol_id p)) (\<lambda>_.
     step_try (w_u8 ((bp_stack_profile p AND 0x0F) OR push_bit 4 (bp_protocol_version p))) (\<lambda>_.
     step_try (w_u8 (push_bit 2 (of_bool (bp_router_capacity p)) OR push_bit 3 (bp_device_depth p AND 0x0F)
                     OR push_bit 7 (of_bool (bp_end_device_capacity p)))) (\<lambda>_.
     step_try (w_u64_le (bp_extended_pan_id p)) (\<lambda>_.
     step_try (w_u24_le (bp_tx_offset p)) (\<lambda>_.
     step_try (w_u8 (bp_update_id p)) (\<lambda>_. w_bytes (bp_appendix p)))))))"

section \<open>Discovery table\<close>

record candidate =
  cd_extended_pan_id :: extended_address
  cd_pan_id :: pan_id
  cd_page :: channel_page
  cd_channel :: channel
  cd_short :: short_address
  cd_extended :: "extended_address option"
  cd_lqa :: u8
  cd_update_id :: u8
  cd_router_capacity :: bool
  cd_end_device_capacity :: bool
  cd_permit_joining :: bool
  cd_pan_coordinator :: bool
  cd_router_info :: "router_information option"
  cd_r23 :: bool
  cd_appendix :: bytes
  cd_attempts :: u8

definition cd_rank :: "u8 \<Rightarrow> short_address option \<Rightarrow> candidate \<Rightarrow> u32" where
  "cd_rank current_update parent c =
     (let ri = (case cd_router_info c of Some v \<Rightarrow> v | None \<Rightarrow> 0);
          delta = cd_update_id c - current_update;
          newest = (if delta < 0x80 then ucast delta else 0)
      in push_bit 28 (of_bool (ri_hub_connectivity ri)) OR push_bit 27 (of_bool (ri_preferred_parent ri))
         OR push_bit 26 (of_bool (ri_long_uptime ri)) OR push_bit 18 newest
         OR push_bit 17 (of_bool (parent = Some (cd_short c))) OR ucast (cd_lqa c))"

type_synonym candidate_table = "candidate list"

definition cd_same :: "candidate \<Rightarrow> candidate \<Rightarrow> bool" where
  "cd_same c e \<longleftrightarrow> cd_pan_id e = cd_pan_id c \<and> cd_channel e = cd_channel c \<and> cd_short e = cd_short c"

definition dt_add :: "nat \<Rightarrow> candidate \<Rightarrow> u8 \<Rightarrow> short_address option \<Rightarrow> candidate_table \<Rightarrow> candidate_table" where
  "dt_add cap c upd parent t =
     (if \<exists>e \<in> set t. cd_same c e
      then update_first (cd_same c) (\<lambda>e. c\<lparr>cd_attempts := cd_attempts e\<rparr>) t
      else if cap \<le> length t then
        (case arg_min_first (cd_rank upd parent) 0 t of
           None \<Rightarrow> t
         | Some (i, e) \<Rightarrow> if cd_rank upd parent e < cd_rank upd parent c then t[i := c] else t)
      else t @ [c])"

record ranking =
  rk_extended_pan_id :: "extended_address option"
  rk_as_router :: bool
  rk_require_permit :: bool
  rk_good_lqa :: u8
  rk_good_only :: bool
  rk_update_id :: u8
  rk_parent :: "short_address option"
  rk_max_attempts :: u8

definition eligible :: "ranking \<Rightarrow> candidate \<Rightarrow> bool" where
  "eligible q c \<longleftrightarrow>
     (case rk_extended_pan_id q of Some e \<Rightarrow> cd_extended_pan_id c = e | None \<Rightarrow> True) \<and>
     (rk_require_permit q \<longrightarrow> cd_permit_joining c) \<and>
     (if rk_as_router q then cd_router_capacity c else cd_end_device_capacity c) \<and>
     (if rk_good_only q then rk_good_lqa q \<le> cd_lqa c else cd_lqa c < rk_good_lqa q) \<and>
     cd_attempts c < rk_max_attempts q"

text \<open>
  The insertion sort of \<^verbatim>\<open>ranked\<close>: each index sinks to the left while its rank is strictly higher; the sorted
  part is kept reversed, its last element first.
\<close>

fun sink :: "('a \<Rightarrow> u32) \<Rightarrow> 'a \<Rightarrow> 'a list \<Rightarrow> 'a list" where
  "sink r x [] = [x]"
| "sink r x (y # ys) = (if r y < r x then y # sink r x ys else x # y # ys)"

definition dt_ranked :: "ranking \<Rightarrow> candidate_table \<Rightarrow> nat list" where
  "dt_ranked q t =
     rev (foldl (\<lambda>acc i. sink (\<lambda>i. cd_rank (rk_update_id q) (rk_parent q) (t ! i)) i acc) []
            (filter (\<lambda>i. eligible q (t ! i)) [0..<length t]))"

definition dt_update :: "nat \<Rightarrow> (candidate \<Rightarrow> candidate) \<Rightarrow> candidate_table \<Rightarrow> candidate_table" where
  "dt_update i f t = (if i < length t then t[i := f (t ! i)] else t)"

end
