(* ===== verification/NwkCommand.thy ===== *)
theory NwkCommand
  imports NwkFrame
begin

text \<open>
  The NWK commands, \<^verbatim>\<open>panweave-nwk/src/command.rs\<close>: one record per command with its decoder and
  encoder, and the command frame that carries the identifier. Several commands end with all octets that
  are left, so the command frame interprets \<open>payload_codec\<close>.
\<close>

section \<open>Command identifiers and codes\<close>

datatype nwk_command_id =
    IdRouteRequest | IdRouteReply | IdNetworkStatus | IdLeave | IdRouteRecord | IdRejoinRequest
  | IdRejoinResponse | IdLinkStatus | IdNetworkReport | IdNetworkUpdate | IdEndDeviceTimeoutRequest
  | IdEndDeviceTimeoutResponse | IdLinkPowerDelta | IdCommissioningRequest | IdCommissioningResponse
  | IdUnknown u8

definition command_id_raw :: "nwk_command_id \<Rightarrow> u8" where
  "command_id_raw i =
     (case i of IdRouteRequest \<Rightarrow> 0x01 | IdRouteReply \<Rightarrow> 0x02 | IdNetworkStatus \<Rightarrow> 0x03 | IdLeave \<Rightarrow> 0x04
      | IdRouteRecord \<Rightarrow> 0x05 | IdRejoinRequest \<Rightarrow> 0x06 | IdRejoinResponse \<Rightarrow> 0x07 | IdLinkStatus \<Rightarrow> 0x08
      | IdNetworkReport \<Rightarrow> 0x09 | IdNetworkUpdate \<Rightarrow> 0x0A | IdEndDeviceTimeoutRequest \<Rightarrow> 0x0B
      | IdEndDeviceTimeoutResponse \<Rightarrow> 0x0C | IdLinkPowerDelta \<Rightarrow> 0x0D | IdCommissioningRequest \<Rightarrow> 0x0E
      | IdCommissioningResponse \<Rightarrow> 0x0F | IdUnknown v \<Rightarrow> v)"

definition command_id_from_raw :: "u8 \<Rightarrow> nwk_command_id" where
  "command_id_from_raw v =
     (if v = 0x01 then IdRouteRequest else if v = 0x02 then IdRouteReply else if v = 0x03 then IdNetworkStatus
      else if v = 0x04 then IdLeave else if v = 0x05 then IdRouteRecord else if v = 0x06 then IdRejoinRequest
      else if v = 0x07 then IdRejoinResponse else if v = 0x08 then IdLinkStatus else if v = 0x09 then IdNetworkReport
      else if v = 0x0A then IdNetworkUpdate else if v = 0x0B then IdEndDeviceTimeoutRequest
      else if v = 0x0C then IdEndDeviceTimeoutResponse else if v = 0x0D then IdLinkPowerDelta
      else if v = 0x0E then IdCommissioningRequest else if v = 0x0F then IdCommissioningResponse else IdUnknown v)"

definition requires_security :: "nwk_command_id \<Rightarrow> bool" where
  "requires_security i \<longleftrightarrow>
     (case i of IdRouteRecord \<Rightarrow> False | IdRejoinRequest \<Rightarrow> False | IdRejoinResponse \<Rightarrow> False
      | IdCommissioningRequest \<Rightarrow> False | IdCommissioningResponse \<Rightarrow> False | IdUnknown _ \<Rightarrow> False | _ \<Rightarrow> True)"

datatype many_to_one = NotManyToOne | WithRouteCache | NoRouteCache | ReservedManyToOne

definition many_from_bits :: "u8 \<Rightarrow> many_to_one" where
  "many_from_bits v =
     (let x = v AND 3 in if x = 0 then NotManyToOne else if x = 1 then WithRouteCache else if x = 2 then NoRouteCache
      else ReservedManyToOne)"

definition many_bits :: "many_to_one \<Rightarrow> u8" where
  "many_bits m = (case m of NotManyToOne \<Rightarrow> 0 | WithRouteCache \<Rightarrow> 1 | NoRouteCache \<Rightarrow> 2 | ReservedManyToOne \<Rightarrow> 3)"

definition is_many_to_one :: "many_to_one \<Rightarrow> bool" where
  "is_many_to_one m \<longleftrightarrow> m = WithRouteCache \<or> m = NoRouteCache"

datatype network_status_code =
    LegacyNoRoute | LegacyLinkFailure | LinkFailure | ParentLinkFailure | SourceRouteFailure
  | ManyToOneRouteFailure | AddressConflict | PanIdUpdate | NetworkAddressUpdate | UnknownCommand
  | PanIdConflictReport | OtherStatus u8

definition status_code_raw :: "network_status_code \<Rightarrow> u8" where
  "status_code_raw c =
     (case c of LegacyNoRoute \<Rightarrow> 0x00 | LegacyLinkFailure \<Rightarrow> 0x01 | LinkFailure \<Rightarrow> 0x02 | ParentLinkFailure \<Rightarrow> 0x09
      | SourceRouteFailure \<Rightarrow> 0x0B | ManyToOneRouteFailure \<Rightarrow> 0x0C | AddressConflict \<Rightarrow> 0x0D | PanIdUpdate \<Rightarrow> 0x0F
      | NetworkAddressUpdate \<Rightarrow> 0x10 | UnknownCommand \<Rightarrow> 0x13 | PanIdConflictReport \<Rightarrow> 0x14 | OtherStatus v \<Rightarrow> v)"

definition status_code_from_raw :: "u8 \<Rightarrow> network_status_code" where
  "status_code_from_raw v =
     (if v = 0x00 then LegacyNoRoute else if v = 0x01 then LegacyLinkFailure else if v = 0x02 then LinkFailure
      else if v = 0x09 then ParentLinkFailure else if v = 0x0B then SourceRouteFailure
      else if v = 0x0C then ManyToOneRouteFailure else if v = 0x0D then AddressConflict
      else if v = 0x0F then PanIdUpdate else if v = 0x10 then NetworkAddressUpdate
      else if v = 0x13 then UnknownCommand else if v = 0x14 then PanIdConflictReport else OtherStatus v)"

definition is_link_failure :: "network_status_code \<Rightarrow> bool" where
  "is_link_failure c \<longleftrightarrow> c = LegacyNoRoute \<or> c = LegacyLinkFailure \<or> c = LinkFailure"

text \<open>
  A \<^verbatim>\<open>MacStatus\<close> on the air is one octet, and its \<^verbatim>\<open>from_raw\<close> and \<^verbatim>\<open>raw\<close> keep it; the commands carry
  the octet.
\<close>

type_synonym mac_status = u8

section \<open>The commands\<close>

record route_request =
  rq_many_to_one :: many_to_one
  rq_id :: u8
  rq_dst :: short_address
  rq_path_cost :: u8
  rq_dst_ieee :: "extended_address option"
  rq_tlvs :: bytes

definition route_request_decode :: "route_request decode" where
  "route_request_decode =
     step_try r_u8 (\<lambda>options. step_try r_u8 (\<lambda>i. step_try r_u16_le (\<lambda>dst. step_try r_u8 (\<lambda>cost.
     step_try (if options AND 0x20 \<noteq> 0 then step_map Some r_u64_le else step_ok None) (\<lambda>ieee.
     step_map (\<lambda>tlvs. \<lparr>rq_many_to_one = many_from_bits (drop_bit 3 options), rq_id = i, rq_dst = dst,
                        rq_path_cost = cost, rq_dst_ieee = ieee, rq_tlvs = tlvs\<rparr>) r_rest)))))"

definition route_request_encode :: "route_request \<Rightarrow> encode" where
  "route_request_encode c =
     step_try (w_u8 (push_bit 3 (many_bits (rq_many_to_one c)) OR push_bit 5 (of_bool (rq_dst_ieee c \<noteq> None)))) (\<lambda>_.
     step_try (w_u8 (rq_id c)) (\<lambda>_. step_try (w_u16_le (rq_dst c)) (\<lambda>_. step_try (w_u8 (rq_path_cost c)) (\<lambda>_.
     step_try (case rq_dst_ieee c of Some a \<Rightarrow> w_u64_le a | None \<Rightarrow> step_ok ()) (\<lambda>_.
     w_bytes (rq_tlvs c))))))"

record route_reply =
  rp_id :: u8
  rp_originator :: short_address
  rp_responder :: short_address
  rp_path_cost :: u8
  rp_originator_ieee :: "extended_address option"
  rp_responder_ieee :: "extended_address option"
  rp_tlvs :: bytes

definition route_reply_decode :: "route_reply decode" where
  "route_reply_decode =
     step_try r_u8 (\<lambda>options. step_try r_u8 (\<lambda>i. step_try r_u16_le (\<lambda>orig. step_try r_u16_le (\<lambda>resp. step_try r_u8 (\<lambda>cost.
     step_try (if options AND 0x10 \<noteq> 0 then step_map Some r_u64_le else step_ok None) (\<lambda>oi.
     step_try (if options AND 0x20 \<noteq> 0 then step_map Some r_u64_le else step_ok None) (\<lambda>ri.
     step_map (\<lambda>tlvs. \<lparr>rp_id = i, rp_originator = orig, rp_responder = resp, rp_path_cost = cost,
                        rp_originator_ieee = oi, rp_responder_ieee = ri, rp_tlvs = tlvs\<rparr>) r_rest)))))))"

definition route_reply_encode :: "route_reply \<Rightarrow> encode" where
  "route_reply_encode c =
     step_try (w_u8 (push_bit 4 (of_bool (rp_originator_ieee c \<noteq> None)) OR push_bit 5 (of_bool (rp_responder_ieee c \<noteq> None)))) (\<lambda>_.
     step_try (w_u8 (rp_id c)) (\<lambda>_. step_try (w_u16_le (rp_originator c)) (\<lambda>_. step_try (w_u16_le (rp_responder c)) (\<lambda>_.
     step_try (w_u8 (rp_path_cost c)) (\<lambda>_.
     step_try (case rp_originator_ieee c of Some a \<Rightarrow> w_u64_le a | None \<Rightarrow> step_ok ()) (\<lambda>_.
     step_try (case rp_responder_ieee c of Some a \<Rightarrow> w_u64_le a | None \<Rightarrow> step_ok ()) (\<lambda>_.
     w_bytes (rp_tlvs c))))))))"

record network_status =
  ns_status :: network_status_code
  ns_dst :: short_address
  ns_tlvs :: bytes

definition network_status_decode :: "network_status decode" where
  "network_status_decode =
     step_try r_u8 (\<lambda>s. step_try r_u16_le (\<lambda>dst.
     step_map (\<lambda>tlvs. \<lparr>ns_status = status_code_from_raw s, ns_dst = dst, ns_tlvs = tlvs\<rparr>) r_rest))"

definition network_status_encode :: "network_status \<Rightarrow> encode" where
  "network_status_encode c =
     step_try (w_u8 (status_code_raw (ns_status c))) (\<lambda>_. step_try (w_u16_le (ns_dst c)) (\<lambda>_. w_bytes (ns_tlvs c)))"

record leave =
  lv_rejoin :: bool
  lv_request :: bool
  lv_remove_children :: bool

definition leave_decode :: "leave decode" where
  "leave_decode =
     step_try r_u8 (\<lambda>v. step_ok \<lparr>lv_rejoin = (v AND 0x20 \<noteq> 0), lv_request = (v AND 0x40 \<noteq> 0), lv_remove_children = (v AND 0x80 \<noteq> 0)\<rparr>)"

definition leave_encode :: "leave \<Rightarrow> encode" where
  "leave_encode c =
     w_u8 (push_bit 5 (of_bool (lv_rejoin c)) OR push_bit 6 (of_bool (lv_request c)) OR push_bit 7 (of_bool (lv_remove_children c)))"

text \<open>A list of 16-bit addresses in octets, two per address; an odd octet at the end is not an address.\<close>

fun relay_list :: "bytes \<Rightarrow> short_address list" where
  "relay_list (a # b # xs) = le_word [a, b] # relay_list xs"
| "relay_list xs = []"

type_synonym route_record = bytes

definition route_record_decode :: "route_record decode" where
  "route_record_decode = step_try r_u8 (\<lambda>count. r_bytes (unat count * 2))"

definition route_record_encode :: "route_record \<Rightarrow> encode" where
  "route_record_encode relays =
     (if length relays div 2 < 256
      then step_try (w_u8 (of_nat (length relays div 2))) (\<lambda>_. w_bytes relays)
      else step_err (Unrepresentable ''relay count''))"

record rejoin_response =
  rj_address :: short_address
  rj_status :: mac_status

definition rejoin_response_decode :: "rejoin_response decode" where
  "rejoin_response_decode = step_try r_u16_le (\<lambda>a. step_try r_u8 (\<lambda>s. step_ok \<lparr>rj_address = a, rj_status = s\<rparr>))"

definition rejoin_response_encode :: "rejoin_response \<Rightarrow> encode" where
  "rejoin_response_encode c = step_try (w_u16_le (rj_address c)) (\<lambda>_. w_u8 (rj_status c))"

record link_status_entry =
  ls_address :: short_address
  ls_incoming_cost :: u8
  ls_outgoing_cost :: u8

record link_status =
  ls_first_frame :: bool
  ls_last_frame :: bool
  ls_raw :: bytes

definition LINK_STATUS_MAX_ENTRIES :: nat where
  "LINK_STATUS_MAX_ENTRIES = 31"

fun link_status_entries_of :: "bytes \<Rightarrow> link_status_entry list" where
  "link_status_entries_of (a # b # c # xs) =
     \<lparr>ls_address = le_word [a, b], ls_incoming_cost = c AND 7, ls_outgoing_cost = drop_bit 4 c AND 7\<rparr>
       # link_status_entries_of xs"
| "link_status_entries_of xs = []"

definition link_status_entries :: "link_status \<Rightarrow> link_status_entry list" where
  "link_status_entries l = link_status_entries_of (ls_raw l)"

definition encode_entry :: "link_status_entry \<Rightarrow> bytes" where
  "encode_entry e = le_bytes 2 (ls_address e) @ [(ls_incoming_cost e AND 7) OR push_bit 4 (ls_outgoing_cost e AND 7)]"

definition link_status_decode :: "link_status decode" where
  "link_status_decode =
     step_try r_u8 (\<lambda>v. step_map (\<lambda>es. \<lparr>ls_first_frame = (v AND 0x20 \<noteq> 0), ls_last_frame = (v AND 0x40 \<noteq> 0), ls_raw = es\<rparr>)
       (r_bytes (unat (v AND 0x1F) * 3)))"

definition link_status_encode :: "link_status \<Rightarrow> encode" where
  "link_status_encode l =
     (let count = length (ls_raw l) div 3 in
      if LINK_STATUS_MAX_ENTRIES < count then step_err (Unrepresentable ''link status entry count'')
      else step_try (w_u8 (of_nat count OR push_bit 5 (of_bool (ls_first_frame l)) OR push_bit 6 (of_bool (ls_last_frame l)))) (\<lambda>_.
           w_bytes (ls_raw l)))"

record network_report =
  nr_report_id :: u8
  nr_epid :: extended_address
  nr_info :: bytes

definition network_report_decode :: "network_report decode" where
  "network_report_decode =
     step_try r_u8 (\<lambda>v. step_try r_u64_le (\<lambda>epid.
     step_map (\<lambda>info. \<lparr>nr_report_id = drop_bit 5 v, nr_epid = epid, nr_info = info\<rparr>)
       (if drop_bit 5 v = 0 then r_bytes (unat (v AND 0x1F) * 2) else r_rest)))"

definition network_report_encode :: "network_report \<Rightarrow> encode" where
  "network_report_encode c =
     (let count = (if nr_report_id c = 0 then length (nr_info c) div 2 else 0) in
      if 0x1F < count then step_err (Unrepresentable ''report count'')
      else step_try (w_u8 (of_nat count OR push_bit 5 (nr_report_id c))) (\<lambda>_.
           step_try (w_u64_le (nr_epid c)) (\<lambda>_. w_bytes (nr_info c))))"

record network_update =
  nu_update_id :: u8
  nu_epid :: extended_address
  nu_nwk_update_id :: u8
  nu_new_pan_id :: pan_id

definition network_update_decode :: "network_update decode" where
  "network_update_decode =
     step_try r_u8 (\<lambda>v. step_try r_u64_le (\<lambda>epid. step_try r_u8 (\<lambda>n.
     if drop_bit 5 v \<noteq> 0 \<or> v AND 0x1F \<noteq> 1 then step_err (Unsupported ''network update information type'')
     else step_try r_u16_le (\<lambda>p.
          step_ok \<lparr>nu_update_id = drop_bit 5 v, nu_epid = epid, nu_nwk_update_id = n, nu_new_pan_id = p\<rparr>))))"

definition network_update_encode :: "network_update \<Rightarrow> encode" where
  "network_update_encode c =
     step_try (w_u8 (1 OR push_bit 5 (nu_update_id c))) (\<lambda>_. step_try (w_u64_le (nu_epid c)) (\<lambda>_.
     step_try (w_u8 (nu_nwk_update_id c)) (\<lambda>_. w_u16_le (nu_new_pan_id c))))"

type_synonym timeout_index = u8

definition timeout_seconds :: "timeout_index \<Rightarrow> u32 option" where
  "timeout_seconds i =
     (if i = 0 then Some 10 else if i \<le> 14 then Some (60 * push_bit (unat i) 1) else None)"

definition timeout_is_valid :: "timeout_index \<Rightarrow> bool" where
  "timeout_is_valid i \<longleftrightarrow> i \<le> 14"

record timeout_request =
  tq_timeout :: timeout_index
  tq_configuration :: u8

definition timeout_request_decode :: "timeout_request decode" where
  "timeout_request_decode = step_try r_u8 (\<lambda>t. step_try r_u8 (\<lambda>c. step_ok \<lparr>tq_timeout = t, tq_configuration = c\<rparr>))"

definition timeout_request_encode :: "timeout_request \<Rightarrow> encode" where
  "timeout_request_encode c = step_try (w_u8 (tq_timeout c)) (\<lambda>_. w_u8 (tq_configuration c))"

datatype timeout_response_status = TimeoutSuccess | IncorrectValue | UnsupportedFeature | OtherTimeout u8

definition timeout_status_raw :: "timeout_response_status \<Rightarrow> u8" where
  "timeout_status_raw s = (case s of TimeoutSuccess \<Rightarrow> 0 | IncorrectValue \<Rightarrow> 1 | UnsupportedFeature \<Rightarrow> 2 | OtherTimeout v \<Rightarrow> v)"

definition timeout_status_from_raw :: "u8 \<Rightarrow> timeout_response_status" where
  "timeout_status_from_raw v =
     (if v = 0 then TimeoutSuccess else if v = 1 then IncorrectValue else if v = 2 then UnsupportedFeature else OtherTimeout v)"

record timeout_response =
  ts_status :: timeout_response_status
  ts_parent_info :: u8

definition timeout_response_decode :: "timeout_response decode" where
  "timeout_response_decode =
     step_try r_u8 (\<lambda>s. step_try r_u8 (\<lambda>p. step_ok \<lparr>ts_status = timeout_status_from_raw s, ts_parent_info = p\<rparr>))"

definition timeout_response_encode :: "timeout_response \<Rightarrow> encode" where
  "timeout_response_encode c = step_try (w_u8 (timeout_status_raw (ts_status c))) (\<lambda>_. w_u8 (ts_parent_info c))"

datatype power_delta_type = PdNotification | PdRequest | PdResponse | PdReserved

record link_power_delta =
  pd_kind :: power_delta_type
  pd_raw :: bytes

definition link_power_delta_decode :: "link_power_delta decode" where
  "link_power_delta_decode =
     step_try r_u8 (\<lambda>v. step_try r_u8 (\<lambda>count. step_map (\<lambda>es.
       \<lparr>pd_kind = (let x = v AND 3 in if x = 0 then PdNotification else if x = 1 then PdRequest
                   else if x = 2 then PdResponse else PdReserved), pd_raw = es\<rparr>) (r_bytes (unat count * 3))))"

definition link_power_delta_encode :: "link_power_delta \<Rightarrow> encode" where
  "link_power_delta_encode c =
     (if length (pd_raw c) div 3 < 256
      then step_try (w_u8 (case pd_kind c of PdNotification \<Rightarrow> 0 | PdRequest \<Rightarrow> 1 | PdResponse \<Rightarrow> 2 | PdReserved \<Rightarrow> 3)) (\<lambda>_.
           step_try (w_u8 (of_nat (length (pd_raw c) div 3))) (\<lambda>_. w_bytes (pd_raw c)))
      else step_err (Unrepresentable ''power list count''))"

datatype commissioning_type = InitialJoin | CommRejoin | EstablishTrustedLink | OtherCommissioning u8

definition commissioning_raw :: "commissioning_type \<Rightarrow> u8" where
  "commissioning_raw t = (case t of InitialJoin \<Rightarrow> 0 | CommRejoin \<Rightarrow> 1 | EstablishTrustedLink \<Rightarrow> 2 | OtherCommissioning v \<Rightarrow> v)"

definition commissioning_from_raw :: "u8 \<Rightarrow> commissioning_type" where
  "commissioning_from_raw v =
     (if v = 0 then InitialJoin else if v = 1 then CommRejoin else if v = 2 then EstablishTrustedLink else OtherCommissioning v)"

record commissioning_request =
  cq_kind :: commissioning_type
  cq_capability :: mac_capability
  cq_tlvs :: bytes

definition commissioning_request_decode :: "commissioning_request decode" where
  "commissioning_request_decode =
     step_try r_u8 (\<lambda>k. step_try r_u8 (\<lambda>c.
     step_map (\<lambda>tlvs. \<lparr>cq_kind = commissioning_from_raw k, cq_capability = c, cq_tlvs = tlvs\<rparr>) r_rest))"

definition commissioning_request_encode :: "commissioning_request \<Rightarrow> encode" where
  "commissioning_request_encode c =
     step_try (w_u8 (commissioning_raw (cq_kind c))) (\<lambda>_. step_try (w_u8 (cq_capability c)) (\<lambda>_. w_bytes (cq_tlvs c)))"

record commissioning_response =
  cr_address :: short_address
  cr_status :: mac_status
  cr_tlvs :: bytes

definition commissioning_response_decode :: "commissioning_response decode" where
  "commissioning_response_decode =
     step_try r_u16_le (\<lambda>a. step_try r_u8 (\<lambda>s. step_map (\<lambda>tlvs. \<lparr>cr_address = a, cr_status = s, cr_tlvs = tlvs\<rparr>) r_rest))"

definition commissioning_response_encode :: "commissioning_response \<Rightarrow> encode" where
  "commissioning_response_encode c =
     step_try (w_u16_le (cr_address c)) (\<lambda>_. step_try (w_u8 (cr_status c)) (\<lambda>_. w_bytes (cr_tlvs c)))"

section \<open>The command frame\<close>

datatype nwk_command =
    RouteRequest route_request
  | RouteReply route_reply
  | NetworkStatus network_status
  | Leave leave
  | RouteRecord route_record
  | RejoinRequest mac_capability
  | RejoinResponse rejoin_response
  | LinkStatus link_status
  | NetworkReport network_report
  | NetworkUpdate network_update
  | EndDeviceTimeoutRequest timeout_request
  | EndDeviceTimeoutResponse timeout_response
  | LinkPowerDelta link_power_delta
  | CommissioningRequest commissioning_request
  | CommissioningResponse commissioning_response
  | UnknownCmd u8 bytes

definition command_id :: "nwk_command \<Rightarrow> nwk_command_id" where
  "command_id c =
     (case c of RouteRequest _ \<Rightarrow> IdRouteRequest | RouteReply _ \<Rightarrow> IdRouteReply | NetworkStatus _ \<Rightarrow> IdNetworkStatus
      | Leave _ \<Rightarrow> IdLeave | RouteRecord _ \<Rightarrow> IdRouteRecord | RejoinRequest _ \<Rightarrow> IdRejoinRequest
      | RejoinResponse _ \<Rightarrow> IdRejoinResponse | LinkStatus _ \<Rightarrow> IdLinkStatus | NetworkReport _ \<Rightarrow> IdNetworkReport
      | NetworkUpdate _ \<Rightarrow> IdNetworkUpdate | EndDeviceTimeoutRequest _ \<Rightarrow> IdEndDeviceTimeoutRequest
      | EndDeviceTimeoutResponse _ \<Rightarrow> IdEndDeviceTimeoutResponse | LinkPowerDelta _ \<Rightarrow> IdLinkPowerDelta
      | CommissioningRequest _ \<Rightarrow> IdCommissioningRequest | CommissioningResponse _ \<Rightarrow> IdCommissioningResponse
      | UnknownCmd i _ \<Rightarrow> IdUnknown i)"

definition command_decode_body :: "nwk_command_id \<Rightarrow> nwk_command decode" where
  "command_decode_body i =
     (case i of
        IdRouteRequest \<Rightarrow> step_map RouteRequest route_request_decode
      | IdRouteReply \<Rightarrow> step_map RouteReply route_reply_decode
      | IdNetworkStatus \<Rightarrow> step_map NetworkStatus network_status_decode
      | IdLeave \<Rightarrow> step_map Leave leave_decode
      | IdRouteRecord \<Rightarrow> step_map RouteRecord route_record_decode
      | IdRejoinRequest \<Rightarrow> step_map RejoinRequest r_u8
      | IdRejoinResponse \<Rightarrow> step_map RejoinResponse rejoin_response_decode
      | IdLinkStatus \<Rightarrow> step_map LinkStatus link_status_decode
      | IdNetworkReport \<Rightarrow> step_map NetworkReport network_report_decode
      | IdNetworkUpdate \<Rightarrow> step_map NetworkUpdate network_update_decode
      | IdEndDeviceTimeoutRequest \<Rightarrow> step_map EndDeviceTimeoutRequest timeout_request_decode
      | IdEndDeviceTimeoutResponse \<Rightarrow> step_map EndDeviceTimeoutResponse timeout_response_decode
      | IdLinkPowerDelta \<Rightarrow> step_map LinkPowerDelta link_power_delta_decode
      | IdCommissioningRequest \<Rightarrow> step_map CommissioningRequest commissioning_request_decode
      | IdCommissioningResponse \<Rightarrow> step_map CommissioningResponse commissioning_response_decode
      | IdUnknown v \<Rightarrow> step_map (UnknownCmd v) r_rest)"

definition command_decode :: "nwk_command decode" where
  "command_decode = step_try r_u8 (\<lambda>v. command_decode_body (command_id_from_raw v))"

definition command_encode_body :: "nwk_command \<Rightarrow> encode" where
  "command_encode_body c =
     (case c of
        RouteRequest x \<Rightarrow> route_request_encode x
      | RouteReply x \<Rightarrow> route_reply_encode x
      | NetworkStatus x \<Rightarrow> network_status_encode x
      | Leave x \<Rightarrow> leave_encode x
      | RouteRecord x \<Rightarrow> route_record_encode x
      | RejoinRequest x \<Rightarrow> w_u8 x
      | RejoinResponse x \<Rightarrow> rejoin_response_encode x
      | LinkStatus x \<Rightarrow> link_status_encode x
      | NetworkReport x \<Rightarrow> network_report_encode x
      | NetworkUpdate x \<Rightarrow> network_update_encode x
      | EndDeviceTimeoutRequest x \<Rightarrow> timeout_request_encode x
      | EndDeviceTimeoutResponse x \<Rightarrow> timeout_response_encode x
      | LinkPowerDelta x \<Rightarrow> link_power_delta_encode x
      | CommissioningRequest x \<Rightarrow> commissioning_request_encode x
      | CommissioningResponse x \<Rightarrow> commissioning_response_encode x
      | UnknownCmd _ p \<Rightarrow> w_bytes p)"

definition command_encode :: "nwk_command \<Rightarrow> encode" where
  "command_encode c = step_try (w_u8 (command_id_raw (command_id c))) (\<lambda>_. command_encode_body c)"

definition command_encoded_len :: "nwk_command \<Rightarrow> nat" where
  "command_encoded_len c =
     1 + (case c of
        RouteRequest x \<Rightarrow> 5 + (if rq_dst_ieee x \<noteq> None then 8 else 0) + length (rq_tlvs x)
      | RouteReply x \<Rightarrow> 7 + (if rp_originator_ieee x \<noteq> None then 8 else 0) + (if rp_responder_ieee x \<noteq> None then 8 else 0) + length (rp_tlvs x)
      | NetworkStatus x \<Rightarrow> 3 + length (ns_tlvs x)
      | Leave _ \<Rightarrow> 1
      | RouteRecord x \<Rightarrow> 1 + length x
      | RejoinRequest _ \<Rightarrow> 1
      | RejoinResponse _ \<Rightarrow> 3
      | LinkStatus x \<Rightarrow> 1 + length (ls_raw x)
      | NetworkReport x \<Rightarrow> 9 + length (nr_info x)
      | NetworkUpdate _ \<Rightarrow> 12
      | EndDeviceTimeoutRequest _ \<Rightarrow> 2
      | EndDeviceTimeoutResponse _ \<Rightarrow> 2
      | LinkPowerDelta x \<Rightarrow> 2 + length (pd_raw x)
      | CommissioningRequest x \<Rightarrow> 2 + length (cq_tlvs x)
      | CommissioningResponse x \<Rightarrow> 3 + length (cr_tlvs x)
      | UnknownCmd _ p \<Rightarrow> length p)"

section \<open>The octets of a command\<close>

definition command_body_octets :: "nwk_command \<Rightarrow> bytes" where
  "command_body_octets c =
     (case c of
        RouteRequest x \<Rightarrow>
          [push_bit 3 (many_bits (rq_many_to_one x)) OR push_bit 5 (of_bool (rq_dst_ieee x \<noteq> None)), rq_id x] @ le_bytes 2 (rq_dst x)
            @ [rq_path_cost x] @ (case rq_dst_ieee x of Some a \<Rightarrow> le_bytes 8 a | None \<Rightarrow> []) @ rq_tlvs x
      | RouteReply x \<Rightarrow>
          [push_bit 4 (of_bool (rp_originator_ieee x \<noteq> None)) OR push_bit 5 (of_bool (rp_responder_ieee x \<noteq> None)), rp_id x]
            @ le_bytes 2 (rp_originator x) @ le_bytes 2 (rp_responder x) @ [rp_path_cost x]
            @ (case rp_originator_ieee x of Some a \<Rightarrow> le_bytes 8 a | None \<Rightarrow> [])
            @ (case rp_responder_ieee x of Some a \<Rightarrow> le_bytes 8 a | None \<Rightarrow> []) @ rp_tlvs x
      | NetworkStatus x \<Rightarrow> status_code_raw (ns_status x) # le_bytes 2 (ns_dst x) @ ns_tlvs x
      | Leave x \<Rightarrow> [push_bit 5 (of_bool (lv_rejoin x)) OR push_bit 6 (of_bool (lv_request x)) OR push_bit 7 (of_bool (lv_remove_children x))]
      | RouteRecord x \<Rightarrow> of_nat (length x div 2) # x
      | RejoinRequest x \<Rightarrow> [x]
      | RejoinResponse x \<Rightarrow> le_bytes 2 (rj_address x) @ [rj_status x]
      | LinkStatus x \<Rightarrow>
          (of_nat (length (ls_raw x) div 3) OR push_bit 5 (of_bool (ls_first_frame x)) OR push_bit 6 (of_bool (ls_last_frame x))) # ls_raw x
      | NetworkReport x \<Rightarrow>
          (of_nat (if nr_report_id x = 0 then length (nr_info x) div 2 else 0) OR push_bit 5 (nr_report_id x))
            # le_bytes 8 (nr_epid x) @ nr_info x
      | NetworkUpdate x \<Rightarrow> (1 OR push_bit 5 (nu_update_id x)) # le_bytes 8 (nu_epid x) @ [nu_nwk_update_id x] @ le_bytes 2 (nu_new_pan_id x)
      | EndDeviceTimeoutRequest x \<Rightarrow> [tq_timeout x, tq_configuration x]
      | EndDeviceTimeoutResponse x \<Rightarrow> [timeout_status_raw (ts_status x), ts_parent_info x]
      | LinkPowerDelta x \<Rightarrow>
          [case pd_kind x of PdNotification \<Rightarrow> 0 | PdRequest \<Rightarrow> 1 | PdResponse \<Rightarrow> 2 | PdReserved \<Rightarrow> 3, of_nat (length (pd_raw x) div 3)] @ pd_raw x
      | CommissioningRequest x \<Rightarrow> [commissioning_raw (cq_kind x), cq_capability x] @ cq_tlvs x
      | CommissioningResponse x \<Rightarrow> le_bytes 2 (cr_address x) @ [cr_status x] @ cr_tlvs x
      | UnknownCmd _ p \<Rightarrow> p)"

definition command_octets :: "nwk_command \<Rightarrow> bytes" where
  "command_octets c = command_id_raw (command_id c) # command_body_octets c"

text \<open>
  The commands that survive the air: counted lists whose length fits the count, and codes spelled by
  their own constructor.
\<close>

definition command_wf :: "nwk_command \<Rightarrow> bool" where
  "command_wf c \<longleftrightarrow>
     (case c of
        NetworkStatus x \<Rightarrow> status_code_from_raw (status_code_raw (ns_status x)) = ns_status x
      | RouteRecord x \<Rightarrow> even (length x) \<and> length x < 512
      | LinkStatus x \<Rightarrow> 3 dvd length (ls_raw x) \<and> length (ls_raw x) \<le> 93
      | NetworkReport x \<Rightarrow> nr_report_id x < 8 \<and> (nr_report_id x = 0 \<longrightarrow> even (length (nr_info x)) \<and> length (nr_info x) < 64)
      | NetworkUpdate x \<Rightarrow> nu_update_id x = 0
      | EndDeviceTimeoutResponse x \<Rightarrow> timeout_status_from_raw (timeout_status_raw (ts_status x)) = ts_status x
      | LinkPowerDelta x \<Rightarrow> 3 dvd length (pd_raw x) \<and> length (pd_raw x) < 768
      | CommissioningRequest x \<Rightarrow> commissioning_from_raw (commissioning_raw (cq_kind x)) = cq_kind x
      | UnknownCmd i _ \<Rightarrow> command_id_from_raw i = IdUnknown i
      | _ \<Rightarrow> True)"

lemma command_id_from_raw_raw: "command_wf c \<Longrightarrow> command_id_from_raw (command_id_raw (command_id c)) = command_id c"
  by (cases c) (simp_all add: command_id_def command_id_raw_def command_id_from_raw_def command_wf_def)

lemma length_command_octets: "length (command_octets c) = command_encoded_len c"
  by (cases c) (simp_all add: command_octets_def command_body_octets_def command_encoded_len_def split: option.split)

lemma emits_body: "command_wf c \<Longrightarrow> emits (command_encode_body c) (command_body_octets c)"
  by (cases c)
    (auto simp: command_encode_body_def command_body_octets_def command_wf_def route_request_encode_def route_reply_encode_def
      network_status_encode_def leave_encode_def route_record_encode_def rejoin_response_encode_def link_status_encode_def
      network_report_encode_def network_update_encode_def timeout_request_encode_def timeout_response_encode_def
      link_power_delta_encode_def commissioning_request_encode_def commissioning_response_encode_def Let_def
      LINK_STATUS_MAX_ENTRIES_def intro!: emits_then split: option.split)

lemma emits_command: "command_wf c \<Longrightarrow> emits (command_encode c) (command_octets c)"
  unfolding command_encode_def command_octets_def by (intro emits_field(1) emits_body)

lemma less_32_bits: "(c :: u8) < 32 \<Longrightarrow> bit c n \<Longrightarrow> n < 5"
proof -
  assume "c < 32" "bit c n"
  then have "unat c < 2 ^ 5" by (simp add: word_less_nat_alt)
  then have "take_bit 5 c = c" by (metis take_bit_nat_eq_self unsigned_take_bit_eq word_unat_eq_iff)
  with \<open>bit c n\<close> show "n < 5" by (metis bit_take_bit_iff)
qed

lemma count_octet:
  fixes c x :: u8
  assumes "c < 32"
  shows "(c OR push_bit 5 x) AND 0x1F = c" "drop_bit 5 (c OR push_bit 5 x) = take_bit 3 x"
proof -
  have m: "(0x1F :: u8) = mask 5" by (simp add: mask_eq_exp_minus_1)
  show "(c OR push_bit 5 x) AND 0x1F = c"
    unfolding m using less_32_bits [OF assms] by (auto intro!: bit_word_eqI simp: bit_simps)
  have "\<not> bit c (5 + n)" for n using less_32_bits [OF assms, of "5 + n"] by auto
  then show "drop_bit 5 (c OR push_bit 5 x) = take_bit 3 x"
    by (auto intro!: bit_word_eqI simp: bit_simps)
qed

lemma of_nat_count: "n < 32 \<Longrightarrow> (of_nat n :: u8) < 32" "n < 256 \<Longrightarrow> unat (of_nat n :: u8) = n"
  by (simp_all add: word_less_nat_alt unat_of_nat)

lemma reads_route_request: "reads_all route_request_decode (command_body_octets (RouteRequest x)) x"
  unfolding route_request_decode_def command_body_octets_def
  by (cases "rq_many_to_one x"; cases "rq_dst_ieee x")
     (auto simp: step_norm many_bits_def many_from_bits_def intro!: reads_then)

lemma reads_route_reply: "reads_all route_reply_decode (command_body_octets (RouteReply x)) x"
  unfolding route_reply_decode_def command_body_octets_def
  by (cases "rp_originator_ieee x"; cases "rp_responder_ieee x") (auto simp: step_norm intro!: reads_then)

lemma reads_leave: "reads_all leave_decode (command_body_octets (Leave x)) x"
  unfolding leave_decode_def command_body_octets_def
  by (cases x; cases "lv_rejoin x"; cases "lv_request x"; cases "lv_remove_children x") (auto intro!: reads_then)

lemma reads_route_record:
  assumes "even (length x)" "length x < 512"
  shows "reads_all route_record_decode (command_body_octets (RouteRecord x)) x"
proof -
  have "length x = unat (of_nat (length x div 2) :: u8) * 2" using assms by (subst of_nat_count(2)) auto
  then show ?thesis unfolding route_record_decode_def command_body_octets_def nwk_command.case
    by (intro reads_then reads_parses parses_bytes)
qed

lemma reads_link_status:
  assumes "3 dvd length (ls_raw x)" "length (ls_raw x) \<le> 93"
  shows "reads_all link_status_decode (command_body_octets (LinkStatus x)) x"
proof -
  define c where "c = (of_nat (length (ls_raw x) div 3) :: u8)"
  define f where "f = (of_bool (ls_first_frame x) OR push_bit 1 (of_bool (ls_last_frame x)) :: u8)"
  define v where "v = c OR push_bit 5 f"
  have c: "c < 32" "unat c * 3 = length (ls_raw x)"
    using assms unfolding c_def by (simp_all add: of_nat_count)
  have v: "v = c OR push_bit 5 (of_bool (ls_first_frame x)) OR push_bit 6 (of_bool (ls_last_frame x))"
    by (simp add: v_def f_def push_bit_or or.assoc push_bit_push_bit)
  have d: "drop_bit 5 v = f" using count_octet(2) [OF c(1), of f] unfolding v_def
    by (cases "ls_first_frame x"; cases "ls_last_frame x") (simp_all add: f_def)
  have b: "(v AND 0x20 \<noteq> 0) = ls_first_frame x" "(v AND 0x40 \<noteq> 0) = ls_last_frame x"
  proof -
    have "(v AND 0x20 \<noteq> 0) = bit v 5" "(v AND 0x40 \<noteq> 0) = bit v 6"
      by (simp_all add: and_exp_eq_0_iff_not_bit [of v 5, simplified] and_exp_eq_0_iff_not_bit [of v 6, simplified])
    moreover have "bit v 5 = bit f 0" "bit v 6 = bit f 1" unfolding d [symmetric] by (simp_all add: bit_drop_bit_eq)
    ultimately show "(v AND 0x20 \<noteq> 0) = ls_first_frame x" "(v AND 0x40 \<noteq> 0) = ls_last_frame x"
      by (cases "ls_first_frame x"; cases "ls_last_frame x"; simp add: f_def bit_simps)+
  qed
  have "reads_all link_status_decode (v # ls_raw x) x"
    unfolding link_status_decode_def
    by (intro reads_then reads_map [OF reads_parses [OF parses_bytes]])
       (simp_all add: b, simp add: v_def count_octet(1) [OF c(1)] c(2))
  then show ?thesis by (simp add: command_body_octets_def v c_def)
qed

lemma reads_network_report:
  assumes "nr_report_id x < 8" "nr_report_id x = 0 \<longrightarrow> even (length (nr_info x)) \<and> length (nr_info x) < 64"
  shows "reads_all network_report_decode (command_body_octets (NetworkReport x)) x"
proof -
  define n where "n = (if nr_report_id x = 0 then length (nr_info x) div 2 else 0)"
  have c: "(of_nat n :: u8) < 32" using assms(2) by (intro of_nat_count) (auto simp: n_def)
  have "unat (nr_report_id x) < 2 ^ 3" using assms(1) by (simp add: word_less_nat_alt)
  then have t: "take_bit 3 (nr_report_id x) = nr_report_id x"
    by (metis take_bit_nat_eq_self unsigned_take_bit_eq word_unat_eq_iff)
  have l: "nr_report_id x = 0 \<Longrightarrow> length (nr_info x) = unat (of_nat n :: u8) * 2"
    using assms(2) by (subst of_nat_count(2)) (auto simp: n_def)
  have m: "reads_all (step_map (\<lambda>info. \<lparr>nr_report_id = nr_report_id x, nr_epid = nr_epid x, nr_info = info\<rparr>)
       (if nr_report_id x = 0 then r_bytes (unat (of_nat n :: u8) * 2) else r_rest)) (nr_info x) x"
    using l by (auto intro!: reads_then reads_map [OF reads_parses [OF parses_bytes]])
  have "reads_all network_report_decode ((of_nat n OR push_bit 5 (nr_report_id x)) # le_bytes 8 (nr_epid x) @ nr_info x) x"
    unfolding network_report_decode_def
    by (intro reads_field, unfold count_octet [OF c] t) (rule m)
  then show ?thesis by (simp add: command_body_octets_def n_def)
qed

lemma reads_power_delta:
  assumes "3 dvd length (pd_raw x)" "length (pd_raw x) < 768"
  shows "reads_all link_power_delta_decode (command_body_octets (LinkPowerDelta x)) x"
proof -
  have "length (pd_raw x) = unat (of_nat (length (pd_raw x) div 3) :: u8) * 3"
    using assms by (subst of_nat_count(2)) auto
  then show ?thesis unfolding link_power_delta_decode_def command_body_octets_def
    by (cases "pd_kind x") (auto intro!: reads_then reads_map [OF reads_parses [OF parses_bytes]])
qed

lemma reads_plain:
  "reads_all rejoin_response_decode (command_body_octets (RejoinResponse a)) a"
  "reads_all timeout_request_decode (command_body_octets (EndDeviceTimeoutRequest b)) b"
  "reads_all commissioning_response_decode (command_body_octets (CommissioningResponse c)) c"
  "nu_update_id d = 0 \<Longrightarrow> reads_all network_update_decode (command_body_octets (NetworkUpdate d)) d"
  "status_code_from_raw (status_code_raw (ns_status e)) = ns_status e \<Longrightarrow>
     reads_all network_status_decode (command_body_octets (NetworkStatus e)) e"
  "timeout_status_from_raw (timeout_status_raw (ts_status f)) = ts_status f \<Longrightarrow>
     reads_all timeout_response_decode (command_body_octets (EndDeviceTimeoutResponse f)) f"
  "commissioning_from_raw (commissioning_raw (cq_kind g)) = cq_kind g \<Longrightarrow>
     reads_all commissioning_request_decode (command_body_octets (CommissioningRequest g)) g"
  by (auto simp: command_body_octets_def rejoin_response_decode_def timeout_request_decode_def commissioning_response_decode_def
      network_update_decode_def network_status_decode_def timeout_response_decode_def commissioning_request_decode_def intro!: reads_then)

lemma reads_opaque:
  "reads_all (step_map RejoinRequest r_u8) (command_body_octets (RejoinRequest a)) (RejoinRequest a)"
  "reads_all (step_map (UnknownCmd i) r_rest) (command_body_octets (UnknownCmd i p)) (UnknownCmd i p)"
  by (auto simp: command_body_octets_def intro!: reads_map [OF reads_parses [OF parses_u8]] reads_then)

lemma reads_body:
  assumes "command_wf c"
  shows "reads_all (command_decode_body (command_id c)) (command_body_octets c) c"
  using assms
  by (cases c; simp only: command_wf_def nwk_command.case command_id_def command_decode_body_def nwk_command_id.case)
     (auto intro!: reads_map [OF reads_route_request] reads_map [OF reads_route_reply] reads_map [OF reads_leave]
        reads_map [OF reads_route_record] reads_map [OF reads_link_status] reads_map [OF reads_network_report]
        reads_map [OF reads_power_delta] reads_map [OF reads_plain(1)] reads_map [OF reads_plain(2)]
        reads_map [OF reads_plain(3)] reads_map [OF reads_plain(4)] reads_map [OF reads_plain(5)]
        reads_map [OF reads_plain(6)] reads_map [OF reads_plain(7)] reads_opaque)

lemma reads_command: "command_wf c \<Longrightarrow> reads_all command_decode (command_octets c) c"
  unfolding command_decode_def command_octets_def
  by (intro reads_field(1)) (simp add: command_id_from_raw_raw reads_body)

lemmas command_decoders =
  route_request_decode_def route_reply_decode_def network_status_decode_def leave_decode_def route_record_decode_def
  rejoin_response_decode_def link_status_decode_def network_report_decode_def network_update_decode_def
  timeout_request_decode_def timeout_response_decode_def link_power_delta_decode_def commissioning_request_decode_def
  commissioning_response_decode_def

lemma cursor_safe_command_body [safe_intros]: "cursor_safe (command_decode_body i)"
  by (cases i; simp only: command_decode_body_def nwk_command_id.case command_decoders) (intro safe_intros)+

lemma cursor_safe_command [safe_intros]: "cursor_safe command_decode"
  unfolding command_decode_def by (intro safe_intros)

interpretation cmdc: payload_codec command_decode command_encode command_encoded_len command_wf command_octets
  by unfold_locales (simp_all add: cursor_safe_command emits_command reads_command length_command_octets)

lemma link_status_entries_encode:
  assumes "\<forall>e \<in> set es. ls_incoming_cost e < 8 \<and> ls_outgoing_cost e < 8"
  shows "link_status_entries_of (concat (map encode_entry es)) = es"
  using assms
proof (induction es)
  case (Cons e es)
  have small: "take_bit 3 c = c" if "c < 8" for c :: u8
  proof -
    have "unat c < 2 ^ 3" using that by (simp add: word_less_nat_alt)
    then show ?thesis by (metis take_bit_nat_eq_self unsigned_take_bit_eq word_unat_eq_iff)
  qed
  have seven: "c AND 7 = take_bit 3 c" for c :: u8
    by (simp add: take_bit_eq_mask mask_eq_exp_minus_1)
  have in': "((a AND 7) OR push_bit 4 (b AND 7)) AND 7 = take_bit 3 a" for a b :: u8
    unfolding seven by (auto intro!: bit_word_eqI simp: bit_simps)
  have out: "drop_bit 4 ((a AND 7) OR push_bit 4 (b AND 7)) AND 7 = take_bit 3 b" for a b :: u8
    unfolding seven by (auto intro!: bit_word_eqI simp: bit_simps)
  have a: "le_word [ucast (ls_address e), ucast (drop_bit 8 (ls_address e))] = ls_address e"
    using le_word_le_bytes [where n = 2 and w = "ls_address e"] by (simp add: le_bytes_eval)
  define w where "w = (ls_incoming_cost e AND 7) OR push_bit 4 (ls_outgoing_cost e AND 7)"
  have w: "w AND 7 = ls_incoming_cost e" "drop_bit 4 w AND 7 = ls_outgoing_cost e"
    using Cons.prems unfolding w_def in' out by (simp_all add: small)
  have "link_status_entries_of (encode_entry e @ xs) = e # link_status_entries_of xs" for xs
    using a unfolding encode_entry_def w_def [symmetric] by (simp add: le_bytes_eval w)
  then show ?case using Cons by simp
qed simp

text \<open>
  C34: Command frames survive the air. A command whose lists and codes are representable is encoded, behind
  its NPDU header, into exactly the announced number of octets; a receiver finds the header and its
  length, and decoding the octets behind it returns the command.
\<close>

theorem nwk_command_roundtrip:
  assumes "nh_wf h" "command_wf c" "nh_encoded_len h \<le> length out" "command_encoded_len c \<le> length p"
  shows "\<exists>hs cs. encode_to_slice nh_encode h out = (Inr (nh_encoded_len h), hs) \<and>
     encode_to_slice command_encode c p = (Inr (command_encoded_len c), cs) \<and>
     (let npdu = take (nh_encoded_len h) hs @ take (command_encoded_len c) cs in
      decode_prefix npdu = Inr (h, nh_encoded_len h) \<and>
      decode_exact command_decode (drop (nh_encoded_len h) npdu) = Inr c)"
  using nhc.encode_fits [OF assms(1,3)] cmdc.encode_fits [OF assms(2,4)] decode_prefix_octets [OF assms(1)]
    cmdc.decode_octets [OF assms(2)]
  by (auto simp: Let_def length_nh_octets length_command_octets)

theorem nwk_command_roundtrip_witness:
  "\<exists>hs cs. encode_to_slice nh_encode (nh_new FtCommand 0xFFFC 1 30 7) (replicate 20 0) = (Inr 8, hs) \<and>
     encode_to_slice command_encode (RouteRecord [1, 0, 2, 0]) (replicate 20 0) = (Inr 6, cs) \<and>
     decode_exact command_decode (drop 8 (take 8 hs @ take 6 cs)) = Inr (RouteRecord [1, 0, 2, 0])"
proof -
  have wf: "nh_wf (nh_new FtCommand 0xFFFC 1 30 7)"
    by (simp add: nh_wf_def nh_new_def fc_new_def frame_type_bits_def PROTOCOL_VERSION_def fc_dst_ieee_def fc_src_ieee_def
        fc_source_route_def FC_DST_IEEE_def FC_SRC_IEEE_def FC_SOURCE_ROUTE_def)
  have l: "nh_encoded_len (nh_new FtCommand 0xFFFC 1 30 7) = 8" by (simp add: nh_encoded_len_def nh_new_def)
  have c: "command_wf (RouteRecord [1, 0, 2, 0])" "command_encoded_len (RouteRecord [1, 0, 2, 0]) = 6"
    by (simp_all add: command_wf_def command_encoded_len_def)
  show ?thesis
    using nwk_command_roundtrip [OF wf c(1), of "replicate 20 0" "replicate 20 0"] unfolding l c(2) Let_def by auto
qed

end
