(* ===== verification/Neighbor.thy ===== *)
theory Neighbor
  imports NwkCommand Tables
begin

text \<open>
  The neighbor table, \<^verbatim>\<open>panweave-nwk/src/neighbor.rs\<close>: relationships, link costs, the filter of link
  quality samples, and the table with eviction of stale routers and aging of children. The table
  interprets \<open>evicting_table\<close> with the extended address as its key.
\<close>

section \<open>Relationships and link quality\<close>

datatype relationship =
    Parent | Child | Sibling | NoRelationship | PreviousChild | UnauthenticatedChild
  | UnauthorizedChildRelayAllowed | LostChild | ChildAddressConflict | BackboneMeshSibling

definition relationship_raw :: "relationship \<Rightarrow> u8" where
  "relationship_raw r =
     (case r of Parent \<Rightarrow> 0 | Child \<Rightarrow> 1 | Sibling \<Rightarrow> 2 | NoRelationship \<Rightarrow> 3 | PreviousChild \<Rightarrow> 4
      | UnauthenticatedChild \<Rightarrow> 5 | UnauthorizedChildRelayAllowed \<Rightarrow> 6 | LostChild \<Rightarrow> 7
      | ChildAddressConflict \<Rightarrow> 8 | BackboneMeshSibling \<Rightarrow> 9)"

definition is_child :: "relationship \<Rightarrow> bool" where
  "is_child r \<longleftrightarrow> r \<in> {Child, UnauthenticatedChild, UnauthorizedChildRelayAllowed, ChildAddressConflict}"

definition is_authenticated_child :: "relationship \<Rightarrow> bool" where
  "is_authenticated_child r \<longleftrightarrow> r = Child"

definition link_cost_from_lqa :: "u8 \<Rightarrow> u8" where
  "link_cost_from_lqa lqa =
     (if 193 \<le> lqa then 1 else if 129 \<le> lqa then 2 else if 97 \<le> lqa then 3 else if 65 \<le> lqa then 4
      else if 33 \<le> lqa then 5 else if 17 \<le> lqa then 6 else 7)"

record lqa_filter =
  lq_samples :: "u8 list"
  lq_count :: u8
  lq_next :: u8

definition lqa_new :: "u8 \<Rightarrow> lqa_filter" where
  "lqa_new x = \<lparr>lq_samples = [x, 0, 0], lq_count = 1, lq_next = 1\<rparr>"

definition lqa_push :: "u8 \<Rightarrow> lqa_filter \<Rightarrow> lqa_filter" where
  "lqa_push x f =
     f\<lparr>lq_samples := (lq_samples f)[unat (lq_next f mod 3) := x], lq_next := (lq_next f + 1) mod 3,
       lq_count := min (lq_count f + 1) 3\<rparr>"

definition lqa_value :: "lqa_filter \<Rightarrow> u8" where
  "lqa_value f =
     (if lq_count f = 0 then 0 else if lq_count f = 1 then lq_samples f ! 0
      else if lq_count f = 2 then min (lq_samples f ! 0) (lq_samples f ! 1)
      else sort (lq_samples f) ! 1)"

section \<open>Entries\<close>

record neighbor_entry =
  ne_extended :: extended_address
  ne_short :: short_address
  ne_device_type :: logical_device_type
  ne_rx_on_when_idle :: bool
  ne_end_device_configuration :: u8
  ne_timeout_counter_secs :: u32
  ne_device_timeout_secs :: u32
  ne_relationship :: relationship
  ne_transmit_failure :: u8
  ne_lqa :: lqa_filter
  ne_outgoing_cost :: u8
  ne_age :: u8
  ne_keepalive_received :: bool
  ne_router_age :: u16
  ne_security_timer_secs :: u16
  ne_router_connectivity :: u8
  ne_router_neighbor_set_diversity :: u8
  ne_router_outbound_activity :: u8
  ne_router_inbound_activity :: u8
  ne_last_key_sequence :: "u8 option"
  ne_last_rssi_dbm :: "int option"
  ne_link :: "u8 option"

definition ne_new :: "extended_address \<Rightarrow> short_address \<Rightarrow> logical_device_type \<Rightarrow> bool \<Rightarrow> relationship \<Rightarrow> u8 \<Rightarrow> neighbor_entry" where
  "ne_new ext short dt rx rel lqa =
     \<lparr>ne_extended = ext, ne_short = short, ne_device_type = dt, ne_rx_on_when_idle = rx,
      ne_end_device_configuration = 0, ne_timeout_counter_secs = 0, ne_device_timeout_secs = 0,
      ne_relationship = rel, ne_transmit_failure = 0, ne_lqa = lqa_new lqa, ne_outgoing_cost = 0, ne_age = 0,
      ne_keepalive_received = False, ne_router_age = 0, ne_security_timer_secs = 0, ne_router_connectivity = 0,
      ne_router_neighbor_set_diversity = 0, ne_router_outbound_activity = 0, ne_router_inbound_activity = 0,
      ne_last_key_sequence = None, ne_last_rssi_dbm = None, ne_link = None\<rparr>"

definition incoming_cost :: "neighbor_entry \<Rightarrow> u8" where
  "incoming_cost e = link_cost_from_lqa (lqa_value (ne_lqa e))"

definition path_cost :: "neighbor_entry \<Rightarrow> u8" where
  "path_cost e = (if ne_outgoing_cost e = 0 then 7 else max (incoming_cost e) (ne_outgoing_cost e))"

definition ne_is_end_device :: "neighbor_entry \<Rightarrow> bool" where
  "ne_is_end_device e \<longleftrightarrow> ne_device_type e = EndDevice"

definition ne_is_router :: "neighbor_entry \<Rightarrow> bool" where
  "ne_is_router e \<longleftrightarrow> \<not> ne_is_end_device e"

definition ne_set_timeout :: "timeout_index \<Rightarrow> neighbor_entry \<Rightarrow> neighbor_entry" where
  "ne_set_timeout i e =
     (case timeout_seconds i of None \<Rightarrow> e
      | Some s \<Rightarrow> e\<lparr>ne_device_timeout_secs := s, ne_timeout_counter_secs := s\<rparr>)"

section \<open>The table\<close>

record neighbor_table =
  nt_entries :: "neighbor_entry list"
  nt_added :: u32
  nt_removed :: u32
  nt_stale :: u32

datatype neighbor_table_error = NtFull

definition nt_new :: neighbor_table where
  "nt_new = \<lparr>nt_entries = [], nt_added = 0, nt_removed = 0, nt_stale = 0\<rparr>"

definition by_extended :: "extended_address \<Rightarrow> neighbor_table \<Rightarrow> neighbor_entry option" where
  "by_extended a t = table_get ne_extended a (nt_entries t)"

definition by_short :: "short_address \<Rightarrow> neighbor_table \<Rightarrow> neighbor_entry option" where
  "by_short a t = table_get ne_short a (nt_entries t)"

text \<open>\<^verbatim>\<open>by_extended_mut\<close> and \<^verbatim>\<open>by_short_mut\<close> followed by assignments to the entry found.\<close>

definition update_extended :: "extended_address \<Rightarrow> (neighbor_entry \<Rightarrow> neighbor_entry) \<Rightarrow> neighbor_table \<Rightarrow> neighbor_table" where
  "update_extended a f t = t\<lparr>nt_entries := update_first (\<lambda>e. ne_extended e = a) f (nt_entries t)\<rparr>"

definition update_short :: "short_address \<Rightarrow> (neighbor_entry \<Rightarrow> neighbor_entry) \<Rightarrow> neighbor_table \<Rightarrow> neighbor_table" where
  "update_short a f t = t\<lparr>nt_entries := update_first (\<lambda>e. ne_short e = a) f (nt_entries t)\<rparr>"

definition nt_parent :: "neighbor_table \<Rightarrow> neighbor_entry option" where
  "nt_parent t = List.find (\<lambda>e. ne_relationship e = Parent) (nt_entries t)"

definition neighbor_victim :: "u8 \<Rightarrow> neighbor_entry list \<Rightarrow> nat option" where
  "neighbor_victim limit es =
     position (\<lambda>e. ne_is_router e \<and> limit < ne_age e \<and> ne_relationship e \<noteq> Parent \<and> \<not> is_child (ne_relationship e)) es"

definition nt_insert :: "nat \<Rightarrow> neighbor_entry \<Rightarrow> u8 \<Rightarrow> (neighbor_table, neighbor_table_error, unit) step" where
  "nt_insert cap e limit t =
     (case table_insert cap ne_extended (neighbor_victim limit) e (nt_entries t) of
        None \<Rightarrow> (Inl NtFull, t)
      | Some es \<Rightarrow>
          (Inr (), t\<lparr>nt_entries := es,
             nt_added := (if by_extended (ne_extended e) t \<noteq> None then nt_added t else saturating_add (nt_added t) 1)\<rparr>))"

definition remove_extended :: "extended_address \<Rightarrow> neighbor_table \<Rightarrow> neighbor_entry option \<times> neighbor_table" where
  "remove_extended a t =
     (case table_remove ne_extended a (nt_entries t) of
        (None, _) \<Rightarrow> (None, t)
      | (Some e, es) \<Rightarrow> (Some e, t\<lparr>nt_entries := es, nt_removed := saturating_add (nt_removed t) 1\<rparr>))"

definition remove_short :: "short_address \<Rightarrow> neighbor_table \<Rightarrow> neighbor_entry option \<times> neighbor_table" where
  "remove_short a t =
     (case table_remove ne_short a (nt_entries t) of
        (None, _) \<Rightarrow> (None, t)
      | (Some e, es) \<Rightarrow> (Some e, t\<lparr>nt_entries := es, nt_removed := saturating_add (nt_removed t) 1\<rparr>))"

definition nt_retain :: "(neighbor_entry \<Rightarrow> bool) \<Rightarrow> neighbor_table \<Rightarrow> neighbor_table" where
  "nt_retain P t =
     t\<lparr>nt_entries := filter P (nt_entries t),
       nt_removed := saturating_add (nt_removed t) (u32_try_from (length (nt_entries t) - length (filter P (nt_entries t))))\<rparr>"

definition child_count :: "neighbor_table \<Rightarrow> nat" where
  "child_count t = length (filter (\<lambda>e. is_child (ne_relationship e)) (nt_entries t))"

definition router_child_count :: "neighbor_table \<Rightarrow> nat" where
  "router_child_count t = length (filter (\<lambda>e. is_child (ne_relationship e) \<and> ne_is_router e) (nt_entries t))"

definition end_device_children :: "neighbor_table \<Rightarrow> neighbor_entry list" where
  "end_device_children t = filter (\<lambda>e. is_child (ne_relationship e) \<and> ne_is_end_device e) (nt_entries t)"

definition routers :: "neighbor_table \<Rightarrow> neighbor_entry list" where
  "routers t = filter ne_is_router (nt_entries t)"

text \<open>One link status period: what happens to a router entry, and whether it went stale now.\<close>

definition tick_router :: "u8 \<Rightarrow> neighbor_entry \<Rightarrow> neighbor_entry \<times> bool" where
  "tick_router limit e =
     (if ne_is_router e \<and> ne_link e = None
      then let e1 = e\<lparr>ne_age := saturating_add (ne_age e) 1, ne_router_age := saturating_add (ne_router_age e) 1,
                      ne_router_outbound_activity := saturating_sub (ne_router_outbound_activity e) 1,
                      ne_router_inbound_activity := saturating_sub (ne_router_inbound_activity e) 1\<rparr> in
           if limit < ne_age e1 \<and> ne_outgoing_cost e1 \<noteq> 0 then (e1\<lparr>ne_outgoing_cost := 0\<rparr>, True) else (e1, False)
      else (e, False))"

definition link_status_tick :: "u8 \<Rightarrow> neighbor_table \<Rightarrow> nat \<times> neighbor_table" where
  "link_status_tick limit t =
     (let stale = length (filter (\<lambda>e. snd (tick_router limit e)) (nt_entries t)) in
      (stale, t\<lparr>nt_entries := map (\<lambda>e. fst (tick_router limit e)) (nt_entries t),
                nt_stale := saturating_add (nt_stale t) (u32_try_from stale)\<rparr>))"

definition u16_try_from :: "u32 \<Rightarrow> u16" where
  "u16_try_from n = (if unat n < 2 ^ 16 then ucast n else - 1)"

definition age_keep :: "u32 \<Rightarrow> neighbor_entry \<Rightarrow> bool" where
  "age_keep secs e \<longleftrightarrow>
     \<not> (ne_security_timer_secs e \<noteq> 0 \<and> saturating_sub (ne_security_timer_secs e) (u16_try_from secs) = 0
        \<and> ne_relationship e \<in> {UnauthenticatedChild, UnauthorizedChildRelayAllowed}) \<and>
     \<not> (is_authenticated_child (ne_relationship e) \<and> ne_is_end_device e
        \<and> saturating_sub (ne_timeout_counter_secs e) secs = 0 \<and> ne_device_timeout_secs e \<noteq> 0)"

definition age_entry :: "u32 \<Rightarrow> neighbor_entry \<Rightarrow> neighbor_entry" where
  "age_entry secs e =
     (let e1 = (if ne_security_timer_secs e \<noteq> 0
                then e\<lparr>ne_security_timer_secs := saturating_sub (ne_security_timer_secs e) (u16_try_from secs)\<rparr> else e) in
      if is_authenticated_child (ne_relationship e1) \<and> ne_is_end_device e1
      then e1\<lparr>ne_timeout_counter_secs := saturating_sub (ne_timeout_counter_secs e1) secs\<rparr> else e1)"

text \<open>The addresses of the removed children go to a vector of capacity \<open>m\<close>; a push into a full one is ignored.\<close>

definition push_all :: "nat \<Rightarrow> 'a list \<Rightarrow> 'a list \<Rightarrow> 'a list" where
  "push_all m v xs = foldl (\<lambda>v x. if length v < m then v @ [x] else v) v xs"

definition age_children :: "nat \<Rightarrow> u32 \<Rightarrow> extended_address list \<Rightarrow> neighbor_table \<Rightarrow> extended_address list \<times> neighbor_table" where
  "age_children m secs expired t =
     (if secs = 0 then (expired, t)
      else let out = push_all m expired (map ne_extended (filter (\<lambda>e. \<not> age_keep secs e) (nt_entries t))) in
           (out, t\<lparr>nt_entries := map (age_entry secs) (filter (age_keep secs) (nt_entries t)),
                   nt_removed := saturating_add (nt_removed t) (u32_try_from (length out))\<rparr>))"

section \<open>The table contract\<close>

interpretation nbt: evicting_table cap ne_extended "neighbor_victim limit" for cap limit
  by unfold_locales (auto simp: neighbor_victim_def dest: position_Some)

definition nt_ok :: "nat \<Rightarrow> neighbor_table \<Rightarrow> bool" where
  "nt_ok cap t \<longleftrightarrow> table_ok cap ne_extended (nt_entries t)"

lemma tick_router_extended [simp]: "ne_extended (fst (tick_router l e)) = ne_extended e"
  by (simp add: tick_router_def Let_def)

lemma age_entry_extended [simp]: "ne_extended (age_entry s e) = ne_extended e"
  by (simp add: age_entry_def Let_def)

lemma nt_insert_ok: "nt_ok cap t \<Longrightarrow> nt_ok cap (snd (nt_insert cap e l t))"
  using nbt.ins_ok by (auto simp: nt_ok_def nt_insert_def split: option.splits)

lemma nt_ok_ops:
  assumes "nt_ok cap t"
  shows "nt_ok cap (snd (remove_extended a t))" "nt_ok cap (nt_retain P t)" "nt_ok cap (snd (link_status_tick l t))"
    "nt_ok cap (snd (age_children m s x t))"
    "(\<And>e. ne_extended (f e) = ne_extended e) \<Longrightarrow> nt_ok cap (update_extended a f t)"
  using assms table_remove_spec(2) [of cap ne_extended "nt_entries t" a]
  by (auto simp: nt_ok_def remove_extended_def nt_retain_def link_status_tick_def age_children_def update_extended_def Let_def
      table_map(1) table_filter(1) table_update_first(1) split: prod.splits option.splits)


definition full_house :: neighbor_table where
  "full_house = \<lparr>nt_entries = [ne_new 1 1 EndDevice False Child 200, (ne_new 2 2 Router True Sibling 200)\<lparr>ne_age := 9\<rparr>],
     nt_added = 2, nt_removed = 0, nt_stale = 0\<rparr>"


section \<open>The link quality filter\<close>

definition lqa_state :: "u8 list \<Rightarrow> lqa_filter \<Rightarrow> bool" where
  "lqa_state xs f \<longleftrightarrow> xs \<noteq> [] \<and> length (lq_samples f) = 3 \<and> lq_next f = of_nat (length xs mod 3) \<and>
     lq_count f = of_nat (min (length xs) 3) \<and>
     (\<forall>i. i < length xs \<longrightarrow> length xs \<le> i + 3 \<longrightarrow> lq_samples f ! (i mod 3) = xs ! i)"

lemma lqa_state_new: "lqa_state [x] (lqa_new x)"
  by (simp add: lqa_state_def lqa_new_def)

lemma lqa_state_push:
  assumes "lqa_state xs f"
  shows "lqa_state (xs @ [x]) (lqa_push x f)"
proof -
  define n where "n = length xs"
  have st: "xs \<noteq> []" "length (lq_samples f) = 3" "lq_next f = of_nat (n mod 3)" "lq_count f = of_nat (min n 3)"
    "\<And>i. i < n \<Longrightarrow> n \<le> i + 3 \<Longrightarrow> lq_samples f ! (i mod 3) = xs ! i"
    using assms by (auto simp: lqa_state_def n_def)
  have m: "n mod 3 < 3" by simp
  then have "n mod 3 = 0 \<or> n mod 3 = 1 \<or> n mod 3 = 2" by linarith
  then have nx: "unat (lq_next f mod 3) = n mod 3" "(lq_next f + 1) mod 3 = of_nat (Suc n mod 3)"
    using st(3) by (auto simp: mod_Suc)
  have "min n 3 = n \<or> min n 3 = 3" by auto
  moreover have "0 < n" using st(1) by (simp add: n_def)
  ultimately have "n = 1 \<or> n = 2 \<or> 3 \<le> n" by linarith
  then have ct: "min (lq_count f + 1) 3 = of_nat (min (Suc n) 3)" using st(4) by (auto simp: min_def)
  have "(lq_samples f)[n mod 3 := x] ! (i mod 3) = (xs @ [x]) ! i" if "i < Suc n" "Suc n \<le> i + 3" for i
  proof (cases "i = n")
    case True
    then show ?thesis using st(2) by (simp add: n_def)
  next
    case False
    then have "i mod 3 \<noteq> n mod 3" using that by presburger
    then show ?thesis using that False st(5) [of i] by (simp add: nth_append n_def)
  qed
  then show ?thesis using st(2) nx ct by (simp add: lqa_state_def lqa_push_def n_def)
qed

lemma lqa_state_pushes: "lqa_state xs f \<Longrightarrow> lqa_state (xs @ ys) (fold lqa_push ys f)"
proof (induction ys arbitrary: xs f)
  case (Cons y ys)
  from Cons.IH [OF lqa_state_push [OF Cons.prems, of y]] show ?case by simp
qed simp

lemma three: "length s = 3 \<Longrightarrow> s = [s ! 0, s ! 1, s ! 2]"
  by (auto simp: numeral_3_eq_3 numeral_2_eq_2 length_Suc_conv)

lemma lqa_state_samples:
  assumes "lqa_state xs f" "3 \<le> length xs"
  shows "mset (lq_samples f) = mset (drop (length xs - 3) xs)"
proof -
  define k where "k = length xs - 3"
  have k: "length xs = k + 3" using assms(2) by (simp add: k_def)
  have s: "length (lq_samples f) = 3" "\<And>i. k \<le> i \<Longrightarrow> i < k + 3 \<Longrightarrow> lq_samples f ! (i mod 3) = xs ! i"
    using assms(1) k by (auto simp: lqa_state_def)
  have d: "drop k xs = [xs ! k, xs ! (k + 1), xs ! (k + 2)]"
    using three [of "drop k xs"] k by simp
  note v = s(2) [of k] s(2) [of "k + 1"] s(2) [of "k + 2"]
  have "k mod 3 = 0 \<and> (k + 1) mod 3 = 1 \<and> (k + 2) mod 3 = 2 \<or> k mod 3 = 1 \<and> (k + 1) mod 3 = 2 \<and> (k + 2) mod 3 = 0 \<or>
    k mod 3 = 2 \<and> (k + 1) mod 3 = 0 \<and> (k + 2) mod 3 = 1" by presburger
  then show ?thesis unfolding k_def [symmetric] d
    by (elim disjE conjE) (subst three [OF s(1)], use v in simp)+
qed

text \<open>
  The link quality of a neighbor is the median of its last three samples. However many samples the
  filter has seen, once there are three of them its value is the middle one of the last three in order
  of size, so one outlier among three frames never decides a link cost.
\<close>

theorem lqa_value_median:
  assumes "2 \<le> length xs"
  shows "lqa_value (fold lqa_push xs (lqa_new x)) = sort (drop (length xs - 2) (x # xs)) ! 1"
proof -
  define f where "f = fold lqa_push xs (lqa_new x)"
  have st: "lqa_state (x # xs) f" using lqa_state_pushes [OF lqa_state_new, of x xs] by (simp add: f_def)
  have "mset (lq_samples f) = mset (drop (length xs - 2) (x # xs))"
    using lqa_state_samples [OF st] assms by (simp add: numeral_3_eq_3 numeral_2_eq_2)
  then have "sort (lq_samples f) = sort (drop (length xs - 2) (x # xs))" by (metis sorted_list_of_multiset_mset)
  moreover have "lq_count f = 3" using st assms by (simp add: lqa_state_def)
  ultimately show ?thesis by (simp add: lqa_value_def f_def)
qed

theorem lqa_value_median_witness:
  "lqa_value (fold lqa_push [10, 180, 190, 5] (lqa_new 200)) = 180"
  using lqa_value_median [of "[10, 180, 190, 5]" 200] by simp

section \<open>Aging of children\<close>

lemma push_all_take: "push_all m v xs = v @ take (m - length v) xs"
proof (induction xs arbitrary: v)
  case Nil
  then show ?case by (simp add: push_all_def)
next
  case (Cons x xs)
  then have "push_all m v (x # xs) = push_all m (if length v < m then v @ [x] else v) xs" by (simp add: push_all_def)
  also have "\<dots> = v @ take (m - length v) (x # xs)"
    unfolding Cons.IH by (cases "length v < m") (auto simp: take_Cons')
  finally show ?case .
qed

lemma age_children_get:
  assumes "nt_ok cap t" "secs \<noteq> 0"
  shows "by_extended a (snd (age_children m secs out t)) =
     (case by_extended a t of Some e \<Rightarrow> if age_keep secs e then Some (age_entry secs e) else None | None \<Rightarrow> None)"
  using assms table_filter(2) [of cap ne_extended "nt_entries t" a "age_keep secs"]
  by (simp add: nt_ok_def by_extended_def age_children_def Let_def table_map(2) split: option.splits)

lemma age_children_out:
  assumes "secs \<noteq> 0"
  shows "fst (age_children m secs [] t) = take m (map ne_extended (filter (\<lambda>e. \<not> age_keep secs e) (nt_entries t)))"
  using assms by (simp add: age_children_def push_all_take Let_def)

text \<open>
  C36: A child that times out is removed without a trace when too many time out together. If more children
  expire in one aging step than the vector for their addresses holds, some device that was in the table
  is no longer in it and yet is not among the addresses handed out, so no later clean-up of its address
  and its frame counter can happen.
\<close>

theorem aging_beyond_capacity_is_silent:
  assumes "nt_ok cap t" "secs \<noteq> 0" "m < length (filter (\<lambda>e. \<not> age_keep secs e) (nt_entries t))"
  shows "\<exists>a. by_extended a t \<noteq> None \<and> by_extended a (snd (age_children m secs [] t)) = None \<and>
     a \<notin> set (fst (age_children m secs [] t))"
proof -
  define gone where "gone = filter (\<lambda>e. \<not> age_keep secs e) (nt_entries t)"
  have d: "distinct (map ne_extended (nt_entries t))" using assms(1) by (simp add: nt_ok_def table_ok_def)
  then have dg: "distinct (map ne_extended gone)" unfolding gone_def by (rule distinct_map_filter)
  define e where "e = gone ! m"
  have m: "m < length gone" using assms(3) by (simp add: gone_def)
  then have "e \<in> set gone" by (simp add: e_def)
  then have e: "e \<in> set (nt_entries t)" "\<not> age_keep secs e" by (auto simp: gone_def)
  then have g: "by_extended (ne_extended e) t = Some e" using d by (simp add: by_extended_def table_get_iff)
  have "ne_extended e \<notin> set (take m (map ne_extended gone))"
    using m dg by (auto simp: e_def in_set_conv_nth distinct_conv_nth)
  then show ?thesis using g e(2) age_children_get [OF assms(1,2)] age_children_out [OF assms(2)]
    by (intro exI [of _ "ne_extended e"]) (simp add: gone_def)
qed

definition crowd :: neighbor_table where
  "crowd = \<lparr>nt_entries = map (\<lambda>i. (ne_new i (ucast i) EndDevice False Child 200)\<lparr>ne_timeout_counter_secs := 10,
     ne_device_timeout_secs := 10\<rparr>) [1, 2, 3, 4, 5, 6, 7, 8, 9], nt_added = 9, nt_removed = 0, nt_stale = 0\<rparr>"

theorem aging_beyond_capacity_is_silent_witness:
  "\<exists>a. by_extended a crowd \<noteq> None \<and> by_extended a (snd (age_children 8 10 [] crowd)) = None \<and>
     a \<notin> set (fst (age_children 8 10 [] crowd))"
proof -
  have "nt_ok 16 crowd" by (simp add: nt_ok_def table_ok_def crowd_def ne_new_def)
  moreover have "8 < length (filter (\<lambda>e. \<not> age_keep 10 e) (nt_entries crowd))"
    by (simp add: crowd_def ne_new_def age_keep_def is_authenticated_child_def ne_is_end_device_def saturating_sub_def)
  ultimately show ?thesis by (intro aging_beyond_capacity_is_silent [of 16]) simp_all
qed

end
