(* ===== verification/Routing.thy ===== *)
theory Routing
  imports NwkFrame Tables
begin

text \<open>
  The routing, route discovery and route record tables, \<^verbatim>\<open>panweave-nwk/src/routing.rs\<close>. The first two
  interpret \<open>evicting_table\<close>, the third one, which drops its oldest entry, \<open>keyed_table\<close>.
\<close>

section \<open>Routing table\<close>

datatype route_status = Active | DiscoveryUnderway | DiscoveryFailed | Inactive | ValidationUnderway

definition route_status_raw :: "route_status \<Rightarrow> u8" where
  "route_status_raw s =
     (case s of Active \<Rightarrow> 0 | DiscoveryUnderway \<Rightarrow> 1 | DiscoveryFailed \<Rightarrow> 2 | Inactive \<Rightarrow> 3 | ValidationUnderway \<Rightarrow> 4)"

record route_entry =
  re_destination :: short_address
  re_status :: route_status
  re_no_route_cache :: bool
  re_many_to_one :: bool
  re_route_record_required :: bool
  re_expired :: bool
  re_next_hop :: short_address
  re_sequence :: u16
  re_sequence_valid :: bool
  re_path_cost :: u8
  re_total_usage :: u32
  re_recent_activity :: u8
  re_many_to_one_deadline :: "instant option"

definition re_new :: "short_address \<Rightarrow> short_address \<Rightarrow> route_status \<Rightarrow> u8 \<Rightarrow> route_entry" where
  "re_new dst hop st activity =
     \<lparr>re_destination = dst, re_status = st, re_no_route_cache = False, re_many_to_one = False,
      re_route_record_required = False, re_expired = False, re_next_hop = hop, re_sequence = 0,
      re_sequence_valid = False, re_path_cost = 0xFF, re_total_usage = 0, re_recent_activity = activity,
      re_many_to_one_deadline = None\<rparr>"

definition re_touch :: "route_entry \<Rightarrow> route_entry" where
  "re_touch e = e\<lparr>re_total_usage := saturating_add (re_total_usage e) 1, re_recent_activity := saturating_add (re_recent_activity e) 1\<rparr>"

type_synonym routing_table = "route_entry list"

definition rt_get :: "short_address \<Rightarrow> routing_table \<Rightarrow> route_entry option" where
  "rt_get d t = table_get re_destination d t"

text \<open>\<^verbatim>\<open>get_mut\<close> followed by assignments to the entry found.\<close>

definition rt_update :: "short_address \<Rightarrow> (route_entry \<Rightarrow> route_entry) \<Rightarrow> routing_table \<Rightarrow> routing_table" where
  "rt_update d f t = update_first (\<lambda>e. re_destination e = d) f t"

text \<open>\<^verbatim>\<open>min_by_key\<close> keeps the first of several entries with the least key.\<close>

definition less_used :: "route_entry \<Rightarrow> route_entry \<Rightarrow> bool" where
  "less_used a b \<longleftrightarrow> re_recent_activity a < re_recent_activity b
     \<or> re_recent_activity a = re_recent_activity b \<and> re_total_usage a < re_total_usage b"

fun least_used :: "nat \<Rightarrow> routing_table \<Rightarrow> (nat \<times> route_entry) option" where
  "least_used i [] = None"
| "least_used i (e # es) =
     (case least_used (Suc i) es of
        None \<Rightarrow> if re_status e = DiscoveryUnderway then None else Some (i, e)
      | Some (j, f) \<Rightarrow> if re_status e = DiscoveryUnderway \<or> less_used f e then Some (j, f) else Some (i, e))"

definition evictable :: "routing_table \<Rightarrow> nat option" where
  "evictable t = map_option fst (least_used 0 t)"

definition has_capacity_for :: "nat \<Rightarrow> short_address \<Rightarrow> routing_table \<Rightarrow> bool" where
  "has_capacity_for cap d t \<longleftrightarrow> rt_get d t \<noteq> None \<or> length t < cap \<or> evictable t \<noteq> None"

definition rt_insert :: "nat \<Rightarrow> route_entry \<Rightarrow> routing_table \<Rightarrow> routing_table option" where
  "rt_insert cap e t = table_insert cap re_destination evictable e t"

definition rt_remove :: "short_address \<Rightarrow> routing_table \<Rightarrow> route_entry option \<times> routing_table" where
  "rt_remove d t = table_remove re_destination d t"

definition invalidate_via :: "short_address \<Rightarrow> routing_table \<Rightarrow> nat \<times> routing_table" where
  "invalidate_via hop t =
     (length (filter (\<lambda>e. re_next_hop e = hop \<and> re_status e = Active) t),
      map (\<lambda>e. if re_next_hop e = hop \<and> re_status e = Active then e\<lparr>re_status := Inactive\<rparr> else e) t)"

definition rt_link_status_tick :: "routing_table \<Rightarrow> routing_table" where
  "rt_link_status_tick t = map (\<lambda>e. e\<lparr>re_recent_activity := saturating_sub (re_recent_activity e) 1\<rparr>) t"

definition expire_many_to_one :: "instant \<Rightarrow> routing_table \<Rightarrow> routing_table" where
  "expire_many_to_one now t =
     map (\<lambda>e. if re_many_to_one e \<and> (case re_many_to_one_deadline e of Some d \<Rightarrow> has_reached now d | None \<Rightarrow> False)
              then e\<lparr>re_expired := True\<rparr> else e) t"

definition incoming_route_is_suitable :: "route_entry option \<Rightarrow> u8 \<Rightarrow> bool" where
  "incoming_route_is_suitable existing cost \<longleftrightarrow>
     (case existing of None \<Rightarrow> True | Some e \<Rightarrow> re_status e = Active \<longrightarrow> cost < re_path_cost e)"

section \<open>Route discovery table\<close>

record discovery_entry =
  de_request_id :: u8
  de_source :: short_address
  de_sender :: short_address
  de_forward_cost :: u8
  de_residual_cost :: u8
  de_expires :: instant
  de_destination :: short_address
  de_local :: bool
  de_confirmed :: bool

definition de_key :: "discovery_entry \<Rightarrow> short_address \<times> u8" where
  "de_key e = (de_source e, de_request_id e)"

type_synonym discovery_table = "discovery_entry list"

definition rd_get :: "short_address \<Rightarrow> u8 \<Rightarrow> discovery_table \<Rightarrow> discovery_entry option" where
  "rd_get s i t = table_get de_key (s, i) t"

definition rd_update :: "short_address \<Rightarrow> u8 \<Rightarrow> (discovery_entry \<Rightarrow> discovery_entry) \<Rightarrow> discovery_table \<Rightarrow> discovery_table" where
  "rd_update s i f t = update_first (\<lambda>e. de_key e = (s, i)) f t"

definition rd_victim :: "instant \<Rightarrow> discovery_table \<Rightarrow> nat option" where
  "rd_victim now t = position (\<lambda>e. has_reached now (de_expires e)) t"

definition rd_insert :: "nat \<Rightarrow> discovery_entry \<Rightarrow> instant \<Rightarrow> discovery_table \<Rightarrow> discovery_table option" where
  "rd_insert cap e now t = table_insert cap de_key (rd_victim now) e t"

definition rd_expire :: "nat \<Rightarrow> instant \<Rightarrow> discovery_table \<Rightarrow> discovery_entry list \<times> discovery_table" where
  "rd_expire m now t =
     (take m (filter (\<lambda>e. has_reached now (de_expires e)) t), filter (\<lambda>e. \<not> has_reached now (de_expires e)) t)"

definition rd_remove :: "short_address \<Rightarrow> u8 \<Rightarrow> discovery_table \<Rightarrow> discovery_entry option \<times> discovery_table" where
  "rd_remove s i t = table_remove de_key (s, i) t"

definition any_pending_for :: "short_address \<Rightarrow> discovery_table \<Rightarrow> bool" where
  "any_pending_for d t \<longleftrightarrow> (\<exists>e \<in> set t. de_destination e = d)"

section \<open>Route record table\<close>

record source_route_entry =
  sre_destination :: short_address
  sre_relays :: "short_address list"

type_synonym source_route_table = "source_route_entry list"

definition srt_get :: "short_address \<Rightarrow> source_route_table \<Rightarrow> source_route_entry option" where
  "srt_get d t = table_get sre_destination d t"

definition srt_insert :: "nat \<Rightarrow> source_route_entry \<Rightarrow> source_route_table \<Rightarrow> source_route_table option" where
  "srt_insert cap e t =
     (case position (\<lambda>x. sre_destination x = sre_destination e) t of
        Some pos \<Rightarrow> Some (t[pos := e])
      | None \<Rightarrow> (case vec_push cap (if length t < cap then t else drop 1 t) e of Inl _ \<Rightarrow> None | Inr t' \<Rightarrow> Some t'))"

definition store_from_record :: "nat \<Rightarrow> short_address \<Rightarrow> short_address list \<Rightarrow> source_route_table \<Rightarrow> bool \<times> source_route_table" where
  "store_from_record cap d relays t =
     (if MAX_SOURCE_ROUTE_RELAYS < length relays then (False, t)
      else case srt_insert cap \<lparr>sre_destination = d, sre_relays = relays\<rparr> t of
             Some t' \<Rightarrow> (True, t')
           | None \<Rightarrow> (False, if length t < cap then t else drop 1 t))"

definition srt_remove :: "short_address \<Rightarrow> source_route_table \<Rightarrow> bool \<times> source_route_table" where
  "srt_remove d t = (let t' = filter (\<lambda>e. sre_destination e \<noteq> d) t in (length t \<noteq> length t', t'))"

section \<open>The table contracts\<close>

lemma least_used_valid:
  "least_used i t = Some (j, e) \<Longrightarrow> i \<le> j \<and> j < i + length t \<and> t ! (j - i) = e \<and> re_status e \<noteq> DiscoveryUnderway"
proof (induction t arbitrary: i j e)
  case (Cons x t)
  show ?case
  proof (cases "least_used (Suc i) t")
    case None
    then show ?thesis using Cons.prems by (auto split: if_splits)
  next
    case (Some p)
    obtain k f where p: "p = (k, f)" by force
    note ih = Cons.IH [OF Some [unfolded p]]
    have "k - i = Suc (k - Suc i)" using ih by linarith
    then have "(x # t) ! (k - i) = f" using ih by simp
    then show ?thesis using Cons.prems Some p ih by (auto split: if_splits)
  qed
qed simp

lemma evictable_valid:
  assumes "evictable t = Some v"
  shows "v < length t" "re_status (t ! v) \<noteq> DiscoveryUnderway"
  using assms least_used_valid [of 0 t v] by (auto simp: evictable_def)

lemma least_used_None: "least_used i t = None \<longleftrightarrow> (\<forall>e \<in> set t. re_status e = DiscoveryUnderway)"
proof (induction t arbitrary: i)
  case (Cons x t)
  then have "least_used (Suc i) t = None \<longleftrightarrow> (\<forall>e \<in> set t. re_status e = DiscoveryUnderway)" by blast
  then show ?case by (cases "least_used (Suc i) t") (auto split: if_splits)
qed simp

lemma less_used_order:
  "less_used a b \<Longrightarrow> \<not> less_used b a"
  "\<not> less_used a b \<Longrightarrow> \<not> less_used b c \<Longrightarrow> \<not> less_used a c"
  by (auto simp: less_used_def)

lemma least_used_least:
  "least_used i t = Some (j, e) \<Longrightarrow> f \<in> set t \<Longrightarrow> re_status f \<noteq> DiscoveryUnderway \<Longrightarrow> \<not> less_used f e"
proof (induction t arbitrary: i j e)
  case (Cons x t)
  show ?case
  proof (cases "least_used (Suc i) t")
    case None
    then have "f \<notin> set t" using Cons.prems(3) by (auto simp: least_used_None)
    then show ?thesis using Cons.prems None less_used_order(1) by (auto split: if_splits)
  next
    case (Some p)
    obtain k g where p: "p = (k, g)" by force
    have "f \<in> set t \<Longrightarrow> \<not> less_used f g" using Cons.IH Some p Cons.prems(3) by blast
    then have t: "f \<in> set t \<Longrightarrow> \<not> less_used f g" .
    show ?thesis
    proof (cases "re_status x = DiscoveryUnderway \<or> less_used g x")
      case True
      then have "e = g" using Cons.prems(1) Some p by simp
      then show ?thesis using True t Cons.prems(2,3) less_used_order(1) by (auto dest: less_used_order(1))
    next
      case False
      then have "e = x" using Cons.prems(1) Some p by simp
      then show ?thesis using False t Cons.prems(2) less_used_order(2) [of f g x] less_used_order(1) [of x x] by auto
    qed
  qed
qed simp

interpretation rtt: evicting_table cap re_destination evictable for cap
  by unfold_locales (rule evictable_valid(1))

interpretation rdt: evicting_table cap de_key "rd_victim now" for cap now
  by unfold_locales (auto simp: rd_victim_def dest: position_Some)

lemma table_get_drop:
  assumes "table_ok cap key t" "t = x # xs"
  shows "table_get key k xs = (if k = key x then None else table_get key k t)"
  using assms by (auto simp: table_ok_def table_get_def find_None_keys)

interpretation srt: keyed_table cap sre_destination "srt_insert cap" for cap
proof
  fix xs :: source_route_table and x
  assume ok: "table_ok cap sre_destination xs"
  show "cap \<le> length xs \<and> table_get sre_destination (sre_destination x) xs = None" if "srt_insert cap x xs = None"
    using that ok by (auto simp: srt_insert_def vec_push_def position_None table_get_None table_ok_def split: option.splits sum.splits if_splits)
  fix ys assume ys: "srt_insert cap x xs = Some ys"
  have "table_ok cap sre_destination ys \<and> table_get sre_destination (sre_destination x) ys = Some x \<and>
    (\<exists>v. (\<forall>k. k \<noteq> sre_destination x \<longrightarrow> k \<noteq> v \<longrightarrow> table_get sre_destination k ys = table_get sre_destination k xs) \<and>
         (v \<noteq> sre_destination x \<longrightarrow> cap \<le> length xs \<and> table_get sre_destination (sre_destination x) xs = None \<and> table_get sre_destination v ys = None))"
  proof (cases "position (\<lambda>y. sre_destination y = sre_destination x) xs")
    case (Some pos)
    from position_Some [OF Some] have p: "pos < length xs" "sre_destination (xs ! pos) = sre_destination x" by auto
    show ?thesis using table_ok_update [OF ok p] ys Some by (auto simp: srt_insert_def)
  next
    case None
    then have n: "sre_destination x \<notin> sre_destination ` set xs" by (auto simp: position_None)
    show ?thesis
    proof (cases "length xs < cap")
      case True
      then have "ys = xs @ [x]" using ys None by (simp add: srt_insert_def vec_push_def)
      moreover have "table_get sre_destination (sre_destination x) xs = None" using n by (simp add: table_get_None)
      ultimately show ?thesis using n True ok
        by (auto simp: table_ok_def table_get_append table_get_single split: option.splits)
    next
      case False
      then obtain y zs where xs: "xs = y # zs" using ys None ok
        by (cases xs) (auto simp: srt_insert_def vec_push_def table_ok_def split: if_splits)
      have ys': "ys = zs @ [x]" using ys None False xs by (auto simp: srt_insert_def vec_push_def split: if_splits)
      note g = table_get_drop [OF ok xs]
      have ok': "table_ok cap sre_destination ys" using ok n by (auto simp: table_ok_def ys' xs)
      have "table_get sre_destination (sre_destination x) zs = None" using n by (simp add: table_get_None xs)
      then have "table_get sre_destination (sre_destination x) ys = Some x" by (simp add: ys' table_simps)
      moreover have "table_get sre_destination k ys = table_get sre_destination k xs"
        if "k \<noteq> sre_destination x" "k \<noteq> sre_destination y" for k
        using that by (simp add: ys' table_simps g split: option.split)
      moreover have "table_get sre_destination (sre_destination y) ys = None" using g n by (simp add: ys' table_simps) (auto simp: xs)
      ultimately show ?thesis using ok' False n
        by (intro conjI exI [of _ "sre_destination y"]) (auto simp: table_get_None)
    qed
  qed
  then show "table_ok cap sre_destination ys" "table_get sre_destination (sre_destination x) ys = Some x"
    "\<exists>v. (\<forall>k. k \<noteq> sre_destination x \<longrightarrow> k \<noteq> v \<longrightarrow> table_get sre_destination k ys = table_get sre_destination k xs) \<and>
         (v \<noteq> sre_destination x \<longrightarrow> cap \<le> length xs \<and> table_get sre_destination (sre_destination x) xs = None \<and> table_get sre_destination v ys = None)"
    by auto
qed

end
