(* ===== verification/NwkMaps.thy ===== *)
theory NwkMaps
  imports Types Tables
begin

text \<open>
  Three smaller tables of the network layer: the broadcast transaction table
  (\<^verbatim>\<open>panweave-nwk/src/broadcast.rs\<close>), the address map with stochastic address assignment
  (\<^verbatim>\<open>address_map.rs\<close>) and the joining list (\<^verbatim>\<open>joining_list.rs\<close>).
\<close>

section \<open>Broadcast transactions\<close>

definition PASSIVE_ACK_TRACKED :: nat where
  "PASSIVE_ACK_TRACKED = 16"

record broadcast_record =
  br_source :: short_address
  br_sequence :: u8
  br_expires :: instant
  br_awaiting :: "short_address list"
  br_retries :: u8
  br_next_tx :: "instant option"
  br_relay_pending :: bool

definition br_key :: "broadcast_record \<Rightarrow> short_address \<times> u8" where
  "br_key r = (br_source r, br_sequence r)"

definition passive_ack :: "short_address \<Rightarrow> broadcast_record \<Rightarrow> broadcast_record" where
  "passive_ack n r = r\<lparr>br_awaiting := filter (\<lambda>x. x \<noteq> n) (br_awaiting r)\<rparr>"

definition fully_acknowledged :: "broadcast_record \<Rightarrow> bool" where
  "fully_acknowledged r \<longleftrightarrow> br_awaiting r = []"

type_synonym broadcast_table = "broadcast_record list"

definition btt_get :: "short_address \<Rightarrow> u8 \<Rightarrow> broadcast_table \<Rightarrow> broadcast_record option" where
  "btt_get s q t = table_get br_key (s, q) t"

definition btt_update :: "short_address \<Rightarrow> u8 \<Rightarrow> (broadcast_record \<Rightarrow> broadcast_record) \<Rightarrow> broadcast_table \<Rightarrow> broadcast_table" where
  "btt_update s q f t = update_first (\<lambda>r. br_key r = (s, q)) f t"

text \<open>The table does not look for a record of the same broadcast: its callers do.\<close>

definition btt_insert :: "nat \<Rightarrow> broadcast_record \<Rightarrow> instant \<Rightarrow> broadcast_table \<Rightarrow> broadcast_table option" where
  "btt_insert cap r now t =
     (if length t < cap then Some (t @ [r])
      else case position (\<lambda>x. has_reached now (br_expires x)) t of
             None \<Rightarrow> None
           | Some pos \<Rightarrow> (case vec_push cap (swap_remove pos t) r of Inl _ \<Rightarrow> None | Inr t' \<Rightarrow> Some t'))"

definition btt_expire :: "instant \<Rightarrow> broadcast_table \<Rightarrow> broadcast_table" where
  "btt_expire now t = filter (\<lambda>r. \<not> has_reached now (br_expires r)) t"

definition btt_next_deadline :: "broadcast_table \<Rightarrow> instant option" where
  "btt_next_deadline t =
     (case concat (map (\<lambda>r. br_expires r # (case br_next_tx r of None \<Rightarrow> [] | Some x \<Rightarrow> [x])) t) of
        [] \<Rightarrow> None | x # xs \<Rightarrow> Some (foldl min x xs))"

text \<open>
  Inserting a broadcast that is not in the table: it is found afterwards, a record that has not expired is
  never lost, and the insertion is refused only when the table is full of records that have not expired.
\<close>

lemma btt_insert_new:
  assumes "table_ok cap br_key t" "table_get br_key (br_key r) t = None" "btt_insert cap r now t = Some t'"
  shows "table_ok cap br_key t' \<and> table_get br_key (br_key r) t' = Some r \<and>
    (\<forall>k x. table_get br_key k t = Some x \<longrightarrow> \<not> has_reached now (br_expires x) \<longrightarrow> table_get br_key k t' = Some x) \<and>
    (\<forall>k x. table_get br_key k t' = Some x \<longrightarrow> k \<noteq> br_key r \<longrightarrow> table_get br_key k t = Some x)"
proof (cases "length t < cap")
  case True
  then have t': "t' = t @ [r]" using assms(3) by (simp add: btt_insert_def)
  have "br_key r \<notin> br_key ` set t" using assms(2) by (simp add: table_get_None)
  then have "table_ok cap br_key t'" using assms(1) True by (auto simp: table_ok_def t')
  then show ?thesis
    using assms(2) by (auto simp: t' table_simps split: option.splits)
next
  case False
  then obtain pos where p: "position (\<lambda>x. has_reached now (br_expires x)) t = Some pos"
    and t': "t' = swap_remove pos t @ [r]" "length (swap_remove pos t) < cap"
    using assms(3) by (auto simp: btt_insert_def vec_push_def split: option.splits if_splits)
  from position_Some [OF p] have pos: "pos < length t" "has_reached now (br_expires (t ! pos))" by auto
  note sr = table_swap_remove [OF assms(1) pos(1)]
  have "br_key r \<notin> br_key ` set (swap_remove pos t)"
    using assms(2) sr(2) [of "br_key r"] by (simp add: table_get_None [symmetric])
  then have ok: "table_ok cap br_key t'" using sr(1) t' by (auto simp: table_ok_def)
  have "t ! pos = x" if "table_get br_key (br_key (t ! pos)) t = Some x" for x
    using that assms(1) pos(1) by (auto simp: table_ok_def table_get_iff distinct_map dest: inj_onD)
  then show ?thesis
    using ok assms(2) pos(2) by (auto simp: t' table_simps sr(2) split: option.splits if_splits)
qed

lemma btt_insert_refused:
  assumes "table_ok cap br_key t" "btt_insert cap r now t = None"
  shows "cap \<le> length t \<and> (\<forall>x \<in> set t. \<not> has_reached now (br_expires x))"
proof -
  have "\<not> length t < cap" using assms(2) by (auto simp: btt_insert_def)
  moreover have "position (\<lambda>x. has_reached now (br_expires x)) t = None"
  proof (cases "position (\<lambda>x. has_reached now (br_expires x)) t")
    case (Some pos)
    with position_Some [OF Some] assms have False
      by (auto simp: btt_insert_def vec_push_def length_swap_remove table_ok_def split: if_splits)
    then show ?thesis ..
  qed
  ultimately show ?thesis by (auto simp: position_None)
qed

section \<open>Address map\<close>

type_synonym address_map = "(extended_address \<times> short_address) list"

datatype address_map_update = AmUnchanged | AmAdded | AmShortChanged short_address | AmConflict extended_address | AmFull

definition short_for :: "extended_address \<Rightarrow> address_map \<Rightarrow> short_address option" where
  "short_for e m = map_option snd (table_get fst e m)"

definition extended_for :: "short_address \<Rightarrow> address_map \<Rightarrow> extended_address option" where
  "extended_for s m = map_option fst (table_get snd s m)"

definition am_record :: "nat \<Rightarrow> extended_address \<Rightarrow> short_address \<Rightarrow> address_map \<Rightarrow> address_map_update \<times> address_map" where
  "am_record cap ext short m =
     (case extended_for short m of
        Some other \<Rightarrow> if other \<noteq> ext then (AmConflict other, m) else (AmUnchanged, m)
      | None \<Rightarrow>
          (case short_for ext m of
             Some old \<Rightarrow> (AmShortChanged old, update_first (\<lambda>e. fst e = ext) (\<lambda>e. (fst e, short)) m)
           | None \<Rightarrow> (case vec_push cap m (ext, short) of Inr m' \<Rightarrow> (AmAdded, m') | Inl _ \<Rightarrow> (AmFull, m))))"

definition am_remove_extended :: "extended_address \<Rightarrow> address_map \<Rightarrow> address_map" where
  "am_remove_extended e m = filter (\<lambda>x. fst x \<noteq> e) m"

definition am_remove_short :: "short_address \<Rightarrow> address_map \<Rightarrow> address_map" where
  "am_remove_short s m = filter (\<lambda>x. snd x \<noteq> s) m"

definition contains_short :: "short_address \<Rightarrow> address_map \<Rightarrow> bool" where
  "contains_short s m \<longleftrightarrow> (\<exists>e \<in> set m. snd e = s)"

text \<open>The generator is a parameter: a step on its own state that yields the next 16 random bits.\<close>

fun allocate_draws :: "nat \<Rightarrow> ('g \<Rightarrow> u16 \<times> 'g) \<Rightarrow> (short_address \<Rightarrow> bool) \<Rightarrow> 'g \<Rightarrow> short_address option \<times> 'g" where
  "allocate_draws 0 rng in_use g = (None, g)"
| "allocate_draws (Suc n) rng in_use g =
     (case rng g of (c, g') \<Rightarrow> if is_assignable c \<and> \<not> in_use c then (Some c, g') else allocate_draws n rng in_use g')"

definition allocate_stochastic :: "('g \<Rightarrow> u16 \<times> 'g) \<Rightarrow> (short_address \<Rightarrow> bool) \<Rightarrow> 'g \<Rightarrow> short_address option \<times> 'g" where
  "allocate_stochastic rng in_use g = allocate_draws 64 rng in_use g"

text \<open>The map relates extended and short addresses one to one.\<close>

definition am_ok :: "nat \<Rightarrow> address_map \<Rightarrow> bool" where
  "am_ok cap m \<longleftrightarrow> distinct (map fst m) \<and> distinct (map snd m) \<and> length m \<le> cap"

lemma am_lookup:
  assumes "am_ok cap m"
  shows "short_for e m = Some s \<longleftrightarrow> (e, s) \<in> set m" "extended_for s m = Some e \<longleftrightarrow> (e, s) \<in> set m"
  using assms table_get_iff [of fst m e] table_get_iff [of snd m s]
  by (auto simp: am_ok_def short_for_def extended_for_def)

lemma am_record_cases:
  assumes "am_ok cap m" "am_record cap ext short m = (u, m')"
  obtains (Conflict) other where "u = AmConflict other" "other \<noteq> ext" "(other, short) \<in> set m" "m' = m"
  | (Unchanged) "u = AmUnchanged" "(ext, short) \<in> set m" "m' = m"
  | (Changed) old where "u = AmShortChanged old" "(ext, old) \<in> set m" "short \<notin> snd ` set m"
      "m' = update_first (\<lambda>e. fst e = ext) (\<lambda>e. (fst e, short)) m"
  | (Added) "u = AmAdded" "ext \<notin> fst ` set m" "short \<notin> snd ` set m" "length m < cap" "m' = m @ [(ext, short)]"
  | (Full) "u = AmFull" "ext \<notin> fst ` set m" "short \<notin> snd ` set m" "cap \<le> length m" "m' = m"
proof (cases "extended_for short m")
  case (Some other)
  then have "(other, short) \<in> set m" using am_lookup(2) [OF assms(1)] by blast
  moreover have "u = (if other \<noteq> ext then AmConflict other else AmUnchanged)" "m' = m"
    using Some assms(2) by (auto simp: am_record_def split: if_splits)
  ultimately show ?thesis using that(1) [of other] that(2) by (cases "other = ext") simp_all
next
  case None
  then have s: "short \<notin> snd ` set m" by (simp add: extended_for_def table_get_None)
  show ?thesis
  proof (cases "short_for ext m")
    case (Some old)
    then have "(ext, old) \<in> set m" using am_lookup(1) [OF assms(1)] by blast
    moreover have "u = AmShortChanged old" "m' = update_first (\<lambda>e. fst e = ext) (\<lambda>e. (fst e, short)) m"
      using None Some assms(2) by (simp_all add: am_record_def)
    ultimately show ?thesis using that(3) s by blast
  next
    case None': None
    then have "ext \<notin> fst ` set m" by (simp add: short_for_def table_get_None)
    moreover have "u = (if length m < cap then AmAdded else AmFull)" "m' = (if length m < cap then m @ [(ext, short)] else m)"
      using None None' assms(2) by (auto simp: am_record_def vec_push_def split: if_splits)
    ultimately show ?thesis using that(4,5) s by (cases "length m < cap") simp_all
  qed
qed

lemma update_first_snd:
  assumes "distinct (map fst m)" "distinct (map snd m)" "short \<notin> snd ` set m"
  shows "distinct (map snd (update_first (\<lambda>e. fst e = ext) (\<lambda>e. (fst e, short)) m)) \<and>
     set (update_first (\<lambda>e. fst e = ext) (\<lambda>e. (fst e, short)) m) =
       {x \<in> set m. fst x \<noteq> ext} \<union> (if ext \<in> fst ` set m then {(ext, short)} else {})"
  using assms by (induction m) (auto simp: image_iff)

lemma am_record_ok:
  assumes "am_ok cap m" "am_record cap ext short m = (u, m')"
  shows "am_ok cap m'"
  using assms
proof (cases rule: am_record_cases)
  case (Changed old)
  have "map fst m' = map fst m" unfolding Changed(4) by (rule map_update_first) simp
  then show ?thesis using assms(1) Changed update_first_snd [of m short ext] by (simp add: am_ok_def)
qed (use assms in \<open>auto simp: am_ok_def\<close>)



lemma allocate_draws_sound: "allocate_draws n rng in_use g = (Some a, g') \<Longrightarrow> is_assignable a \<and> \<not> in_use a"
  by (induction n arbitrary: g) (auto split: prod.splits if_splits)

section \<open>Joining list\<close>

datatype joining_policy = AllJoin | IeeeListJoin | NoJoin

definition joining_policy_raw :: "joining_policy \<Rightarrow> u8" where
  "joining_policy_raw p = (case p of AllJoin \<Rightarrow> 0 | IeeeListJoin \<Rightarrow> 1 | NoJoin \<Rightarrow> 2)"

definition joining_policy_from_raw :: "u8 \<Rightarrow> joining_policy option" where
  "joining_policy_from_raw v =
     (if v = 0 then Some AllJoin else if v = 1 then Some IeeeListJoin else if v = 2 then Some NoJoin else None)"

record joining_list =
  jl_policy :: joining_policy
  jl_update_id :: u8
  jl_list :: "extended_address list"

definition jl_new :: joining_list where
  "jl_new = \<lparr>jl_policy = AllJoin, jl_update_id = 0, jl_list = []\<rparr>"

definition jl_allows :: "extended_address \<Rightarrow> joining_list \<Rightarrow> bool" where
  "jl_allows d j = (case jl_policy j of AllJoin \<Rightarrow> True | IeeeListJoin \<Rightarrow> d \<in> set (jl_list j) | NoJoin \<Rightarrow> False)"

definition jl_set_policy :: "joining_policy \<Rightarrow> joining_list \<Rightarrow> joining_list" where
  "jl_set_policy p j = (if jl_policy j \<noteq> p then j\<lparr>jl_policy := p, jl_update_id := jl_update_id j + 1\<rparr> else j)"

definition jl_clear :: "joining_list \<Rightarrow> joining_list" where
  "jl_clear j = (if jl_list j \<noteq> [] then j\<lparr>jl_list := [], jl_update_id := jl_update_id j + 1\<rparr> else j)"

fun jl_apply_entries :: "nat \<Rightarrow> nat \<Rightarrow> extended_address list \<Rightarrow> bool \<Rightarrow> extended_address list \<Rightarrow> (bool + bool) \<times> extended_address list" where
  "jl_apply_entries cap i [] changed l = (Inr changed, l)"
| "jl_apply_entries cap i (e # es) changed l =
     (if i < length l then jl_apply_entries cap (Suc i) es (changed \<or> l ! i \<noteq> e) (l[i := e])
      else if i = length l then
        (if length l < cap then jl_apply_entries cap (Suc i) es True (l @ [e]) else (Inl changed, l))
      else (Inl changed, l))"

definition jl_apply :: "nat \<Rightarrow> joining_policy \<Rightarrow> u8 \<Rightarrow> u8 \<Rightarrow> extended_address list \<Rightarrow> joining_list \<Rightarrow> bool \<times> joining_list" where
  "jl_apply cap p tot start es j =
     (let j1 = jl_set_policy p j in
      if tot = 0 then (True, jl_clear j1)
      else case jl_apply_entries cap (unat start) es False (jl_list j1) of
             (Inl _, l) \<Rightarrow> (False, j1\<lparr>jl_list := l\<rparr>)
           | (Inr changed, l) \<Rightarrow> (True, j1\<lparr>jl_list := l, jl_update_id := (if changed then jl_update_id j1 + 1 else jl_update_id j1)\<rparr>))"

definition jl_add :: "nat \<Rightarrow> extended_address \<Rightarrow> joining_list \<Rightarrow> bool \<times> joining_list" where
  "jl_add cap d j =
     (if d \<in> set (jl_list j) then (True, j)
      else if length (jl_list j) < cap then (True, j\<lparr>jl_list := jl_list j @ [d], jl_update_id := jl_update_id j + 1\<rparr>)
      else (False, j))"

definition jl_remove :: "extended_address \<Rightarrow> joining_list \<Rightarrow> bool \<times> joining_list" where
  "jl_remove d j =
     (let l = filter (\<lambda>x. x \<noteq> d) (jl_list j) in
      if length l \<noteq> length (jl_list j) then (True, j\<lparr>jl_list := l, jl_update_id := jl_update_id j + 1\<rparr>)
      else (False, j\<lparr>jl_list := l\<rparr>))"

text \<open>
  A list that does not fit is applied up to the entry that failed, and the update identifier then stays as
  it was although the list changed.
\<close>

lemma joining_list_partial_apply:
  "jl_apply 1 AllJoin 2 0 [7, 8] jl_new = (False, jl_new\<lparr>jl_list := [7]\<rparr>)"
  by (simp add: jl_apply_def jl_set_policy_def jl_new_def Let_def)

end
