(* ===== verification/NwkState.thy ===== *)
theory NwkState
  imports NwkScan Neighbor Routing NwkMaps NwkSecurity
begin

text \<open>
  The state of the network layer, \<^verbatim>\<open>panweave-nwk/src/layer/mod.rs\<close> and \<^verbatim>\<open>panweave-nwk/src/nib.rs\<close>: the
  information base, the configuration, the tables and queues of \<^verbatim>\<open>Nwk\<close>, the actions and events it produces, and
  the operations the other modules of the layer share. The block cipher, the random generator and the capacities
  (the type parameters of \<^verbatim>\<open>Nwk\<close>) are an environment record that every operation takes.
\<close>

section \<open>Statuses, errors, kinds of transmission\<close>

datatype nwk_status =
    NsSuccess | NsInvalidParameter | NsInvalidRequest | NsNotPermitted | NsStartupFailure | NsAlreadyPresent
  | NsSyncFailure | NsNeighborTableFull | NsUnknownDevice | NsUnsupportedAttribute | NsNoNetworks
  | NsMaxFrameCounter | NsNoKey | NsBadCcmOutput | NsRouteDiscoveryFailed | NsRouteError | NsBtTableFull
  | NsFrameNotBuffered | NsInvalidInterface | NsMissingTlv | NsInvalidTlv | NsUnknown u8

datatype nwk_error =
    ErrInvalidRequest | ErrInvalidParameter | ErrFrameTooLong | ErrBusy | ErrSecurity nwk_status
  | ErrRouteError | ErrNotJoined | ErrCounterPending

datatype tx_status = TxSuccess | TxNoAck | TxChannelAccessFailure | TxTransactionExpired | TxRadioError

definition mac_status_to_nwk :: "tx_status \<Rightarrow> nwk_status" where
  "mac_status_to_nwk t =
     (case t of TxSuccess \<Rightarrow> NsSuccess | TxNoAck \<Rightarrow> NsUnknown 0xE9 | TxChannelAccessFailure \<Rightarrow> NsUnknown 0xE1
      | TxTransactionExpired \<Rightarrow> NsUnknown 0xF0 | TxRadioError \<Rightarrow> NsUnknown 0xE3)"

datatype scan_kind = ScanActive | ScanEnergy

datatype mac_address = MacNone | MacShort short_address | MacExtended extended_address

record eb_filter =
  eb_permit_joining_on :: bool
  eb_link_quality :: "u8 option"
  eb_percent :: "u8 option"

record enhanced_beacon_request =
  ebr_filter :: "eb_filter option"
  ebr_rejoin :: "(extended_address \<times> short_address) option"
  ebr_tx_power :: "int option"

definition ebr_joining :: "int option \<Rightarrow> enhanced_beacon_request" where
  "ebr_joining p =
     \<lparr>ebr_filter = Some \<lparr>eb_permit_joining_on = True, eb_link_quality = None, eb_percent = None\<rparr>,
      ebr_rejoin = None, ebr_tx_power = p\<rparr>"

definition ebr_rejoining :: "extended_address \<Rightarrow> short_address \<Rightarrow> int option \<Rightarrow> enhanced_beacon_request" where
  "ebr_rejoining epid a p = \<lparr>ebr_filter = None, ebr_rejoin = Some (epid, a), ebr_tx_power = p\<rparr>"

datatype join_method =
    JmMacAssociation | JmRejoinUnsecured | JmRejoinSecured | JmCommissioningJoin
  | JmCommissioningRejoinUnsecured | JmCommissioningRejoinSecured

definition update_device_status :: "join_method \<Rightarrow> u8" where
  "update_device_status m =
     (case m of JmMacAssociation \<Rightarrow> 0x01 | JmCommissioningJoin \<Rightarrow> 0x01 | JmRejoinUnsecured \<Rightarrow> 0x03
      | JmCommissioningRejoinUnsecured \<Rightarrow> 0x03 | JmRejoinSecured \<Rightarrow> 0x00 | JmCommissioningRejoinSecured \<Rightarrow> 0x00)"

definition jm_is_secured :: "join_method \<Rightarrow> bool" where
  "jm_is_secured m \<longleftrightarrow> m = JmRejoinSecured \<or> m = JmCommissioningRejoinSecured"

datatype tx_kind =
    TkData | TkCommand | TkLeave "extended_address option" | TkJoinRequest
  | TkJoinResponse extended_address join_method | TkRouteReply short_address | TkTimeoutRequest

section \<open>Actions and events\<close>

type_synonym tx_handle = u16
type_synonym tx_id = u16

datatype nwk_action =
    MacData tx_handle short_address bytes bool bool
  | TrustedLinkData tx_handle u8 bytes bool
  | MacDataDeferred tx_handle short_address
  | MacScan scan_kind channel_mask u8 "enhanced_beacon_request option"
  | MacAssociate pan_id short_address channel_page channel mac_capability
  | MacAssociateResponse extended_address short_address mac_status
  | MacStart pan_id channel_page channel short_address bool bool
  | MacSetPermit bool
  | MacSetBeaconPayload bytes
  | MacSetShortAddress short_address
  | MacSetPanId pan_id
  | MacSetChannel channel_page channel
  | MacSetCoordinator short_address extended_address
  | MacSetRxOnWhenIdle bool
  | MacPoll
  | MacAdjustTxPower short_address extended_address int int
  | MacResetTxPower
  | Persist
  | CounterReservation u32

datatype nwk_event =
    EvDataConfirm tx_id nwk_status
  | EvDiscoveryConfirm nwk_status
  | EvFormationConfirm nwk_status
  | EvJoinConfirm nwk_status short_address extended_address bool bool
  | EvTrustCenterLinked extended_address u8
  | EvJoinIndication extended_address short_address mac_capability join_method bytes
  | EvStartRouterConfirm nwk_status
  | EvLeaveIndication "extended_address option" "short_address option" bool bool
  | EvLeaveConfirm "extended_address option" "short_address option" nwk_status
  | EvNetworkStatus short_address network_status_code
  | EvRouteDiscoveryConfirm short_address nwk_status
  | EvPermitJoining bool
  | EvChildRemoved extended_address
  | EvAuthenticationTimeout
  | EvLostChild extended_address
  | EvPanIdChanged pan_id
  | EvParentInformationUpdated
  | EvLinkPowerDelta short_address power_delta_type "int option"
  | EvKeySwitched "key_sequence option" key_sequence
  | EvEnergyScanConfirm channel_mask "u8 list"

section \<open>Information base and configuration\<close>

type_synonym parent_information = u8

record nib =
  nib_sequence_number :: u8
  nib_passive_ack_timeout :: duration
  nib_max_broadcast_retries :: u8
  nib_max_children :: u8
  nib_max_routers :: u8
  nib_broadcast_delivery_time :: duration
  nib_capability_information :: mac_capability
  nib_manager_addr :: short_address
  nib_max_source_route :: u8
  nib_update_id :: u8
  nib_network_address :: short_address
  nib_stack_profile :: u8
  nib_extended_pan_id :: extended_address
  nib_pan_id :: pan_id
  nib_channel_page :: channel_page
  nib_channel :: channel
  nib_is_concentrator :: bool
  nib_concentrator_radius :: u8
  nib_concentrator_discovery_time_secs :: u32
  nib_security_level :: security_level
  nib_all_fresh :: bool
  nib_link_status_period :: duration
  nib_router_age_limit :: u8
  nib_leave_request_allowed :: bool
  nib_leave_request_without_rejoin_allowed :: bool
  nib_parent_information :: parent_information
  nib_link_power_delta_transmit_rate :: u16
  nib_end_device_timeout_default :: timeout_index
  nib_end_device_timeout :: timeout_index
  nib_ieee_address :: extended_address
  nib_good_parent_lqa :: u8
  nib_max_initial_join_parent_attempts :: u8
  nib_max_rejoin_parent_attempts :: u8
  nib_hub_connectivity :: bool
  nib_preferred_parent :: bool
  nib_next_pan_id :: pan_id
  nib_next_channel_change :: channel_mask
  nib_pan_id_conflict_count :: u16
  nib_routing_sequence_number :: u16
  nib_tx_total :: u16
  nib_tx_failures :: u16
  nib_device_type :: logical_device_type
  nib_joined :: bool
  nib_authenticated :: bool
  nib_router_started :: bool
  nib_rx_on_when_idle :: bool
  nib_parent_address :: short_address
  nib_parent_ieee :: extended_address
  nib_depth :: u8

text \<open>The times of \<^verbatim>\<open>nib::constants\<close>, in milliseconds.\<close>

definition ROUTE_DISCOVERY_TIME :: duration where
  "ROUTE_DISCOVERY_TIME = 0x2710"

definition MAX_BROADCAST_JITTER :: duration where
  "MAX_BROADCAST_JITTER = 0x40"

definition RREQ_RETRY_INTERVAL :: duration where
  "RREQ_RETRY_INTERVAL = 0xFE"

definition MIN_RREQ_JITTER :: duration where
  "MIN_RREQ_JITTER = 2"

definition MAX_RREQ_JITTER :: duration where
  "MAX_RREQ_JITTER = 128"

definition UNICAST_RETRIES :: u8 where
  "UNICAST_RETRIES = 3"

definition UNICAST_RETRY_DELAY :: duration where
  "UNICAST_RETRY_DELAY = 50"

definition MIN_ROUTER_BOOTSTRAP_JITTER :: duration where
  "MIN_ROUTER_BOOTSTRAP_JITTER = 500"

definition MAX_ROUTER_BOOTSTRAP_JITTER :: duration where
  "MAX_ROUTER_BOOTSTRAP_JITTER = 1000"

definition DEFAULT_RADIUS :: u8 where
  "DEFAULT_RADIUS = 30"

definition SECURITY_TIMEOUT :: duration where
  "SECURITY_TIMEOUT = 10000"

definition response_wait_time :: duration where
  "response_wait_time = from_symbols_2_4ghz (32 * 960)"

definition nib_new :: "logical_device_type \<Rightarrow> extended_address \<Rightarrow> nib" where
  "nib_new dt ieee =
     \<lparr>nib_sequence_number = 0, nib_passive_ack_timeout = 500, nib_max_broadcast_retries = 2,
      nib_max_children = 16, nib_max_routers = 16, nib_broadcast_delivery_time = 9000,
      nib_capability_information = (case dt of EndDevice \<Rightarrow> 0x88 | _ \<Rightarrow> 0x8E),
      nib_manager_addr = 0, nib_max_source_route = 12, nib_update_id = 0, nib_network_address = 0xFFFE,
      nib_stack_profile = 2, nib_extended_pan_id = 0, nib_pan_id = 0xFFFF, nib_channel_page = 0, nib_channel = 11,
      nib_is_concentrator = False, nib_concentrator_radius = 0, nib_concentrator_discovery_time_secs = 0,
      nib_security_level = EncMic32, nib_all_fresh = True, nib_link_status_period = 15000, nib_router_age_limit = 3,
      nib_leave_request_allowed = True, nib_leave_request_without_rejoin_allowed = True,
      nib_parent_information = 0, nib_link_power_delta_transmit_rate = 16, nib_end_device_timeout_default = 8,
      nib_end_device_timeout = 8, nib_ieee_address = ieee, nib_good_parent_lqa = 75,
      nib_max_initial_join_parent_attempts = 3, nib_max_rejoin_parent_attempts = 3, nib_hub_connectivity = False,
      nib_preferred_parent = False, nib_next_pan_id = 0xFFFF, nib_next_channel_change = 0,
      nib_pan_id_conflict_count = 0, nib_routing_sequence_number = 0, nib_tx_total = 0, nib_tx_failures = 0,
      nib_device_type = dt, nib_joined = False, nib_authenticated = False, nib_router_started = False,
      nib_rx_on_when_idle = is_routing_capable dt, nib_parent_address = 0xFFFE, nib_parent_ieee = 0, nib_depth = 0\<rparr>"

definition is_router_or_coordinator :: "nib \<Rightarrow> bool" where
  "is_router_or_coordinator n \<longleftrightarrow> is_routing_capable (nib_device_type n)"

definition nib_is_coordinator :: "nib \<Rightarrow> bool" where
  "nib_is_coordinator n \<longleftrightarrow> nib_device_type n = Coordinator"

definition nib_is_end_device :: "nib \<Rightarrow> bool" where
  "nib_is_end_device n \<longleftrightarrow> nib_device_type n = EndDevice"

definition clear_for_leave :: "nib \<Rightarrow> nib" where
  "clear_for_leave n =
     n\<lparr>nib_manager_addr := 0, nib_update_id := 0, nib_network_address := 0xFFFE, nib_extended_pan_id := 0,
       nib_is_concentrator := False, nib_concentrator_radius := 0, nib_pan_id := 0xFFFF, nib_tx_total := 0,
       nib_tx_failures := 0, nib_parent_information := 0, nib_parent_address := 0xFFFE, nib_parent_ieee := 0,
       nib_joined := False, nib_authenticated := False, nib_router_started := False, nib_depth := 0\<rparr>"

record nwk_config =
  cfg_security_enabled :: bool
  cfg_passive_ack :: bool
  cfg_concentrator :: bool
  cfg_concentrator_discovery_time_secs :: u32
  cfg_concentrator_radius :: u8
  cfg_hub_connectivity :: bool
  cfg_keepalive_methods :: u8
  cfg_r23_beacon_appendix :: bool
  cfg_power_control :: bool
  cfg_optimal_rssi_dbm :: int
  cfg_end_device_power_delta_rate_secs :: u16
  cfg_enhanced_beacon_requests :: bool

definition config_default :: nwk_config where
  "config_default =
     \<lparr>cfg_security_enabled = True, cfg_passive_ack = True, cfg_concentrator = False,
      cfg_concentrator_discovery_time_secs = 0, cfg_concentrator_radius = 0, cfg_hub_connectivity = False,
      cfg_keepalive_methods = 0x03, cfg_r23_beacon_appendix = True, cfg_power_control = False,
      cfg_optimal_rssi_dbm = - 65, cfg_end_device_power_delta_rate_secs = 16, cfg_enhanced_beacon_requests = False\<rparr>"

section \<open>The parts of the layer's state\<close>

definition MAX_NPDU :: nat where
  "MAX_NPDU = 116"

definition MAX_JOINER_TLVS :: nat where
  "MAX_JOINER_TLVS = 64"

definition MAX_BEACON_APPENDIX :: nat where
  "MAX_BEACON_APPENDIX = 37"

record survey_counts =
  sv_total :: u8
  sv_on_network :: u8
  sv_potential_parents :: u8
  sv_other_networks :: u8

record pending_tx =
  pt_id :: tx_id
  pt_frame :: bytes
  pt_header_len :: nat
  pt_dst :: short_address
  pt_next_hop :: short_address
  pt_mac_handle :: "tx_handle option"
  pt_retries_left :: u8
  pt_retry_at :: "instant option"
  pt_awaiting_route :: bool
  pt_secure :: bool
  pt_indirect :: bool
  pt_relayed_from :: "short_address option"
  pt_source_route :: bool
  pt_kind :: tx_kind
  pt_created :: instant

record broadcast_buf =
  bb_source :: short_address
  bb_sequence :: u8
  bb_frame :: bytes
  bb_plaintext :: "(bytes \<times> nat \<times> bool) option"

record pending_rreq =
  prq_frame :: bytes
  prq_due :: instant
  prq_retries_left :: u8
  prq_interval :: duration

datatype scan_purpose = SpDiscovery | SpFormationEnergy | SpFormationActive | SpPanIdConflict | SpEnergyDetect

record scan_state =
  sc_purpose :: scan_purpose
  sc_channels :: channel_mask
  sc_duration :: u8
  sc_only_permit_join :: bool

record formation_state =
  fo_channels :: channel_mask
  fo_energy :: "u8 list"
  fo_networks_per_channel :: "u8 list"
  fo_seen_pan_ids :: "pan_id list"
  fo_distributed :: bool
  fo_pan_id :: "pan_id option"
  fo_short :: "short_address option"

record join_params =
  jp_extended_pan_id :: "extended_address option"
  jp_rejoin :: bool
  jp_as_router :: bool
  jp_secure :: bool
  jp_capability :: mac_capability
  jp_require_permit :: bool

datatype join_phase =
    SelectParent | Associating | RequestSent | AwaitingResponse instant bool | AwaitingKey instant

record parent_snapshot =
  ps_short :: short_address
  ps_extended :: "extended_address option"
  ps_pan_id :: pan_id
  ps_extended_pan_id :: extended_address
  ps_page :: channel_page
  ps_channel :: channel
  ps_r23 :: bool
  ps_update_id :: u8
  ps_lqa :: u8

record join_state =
  js_params :: join_params
  js_secure :: bool
  js_candidates :: "nat list"
  js_next :: nat
  js_pass :: u8
  js_current :: "parent_snapshot option"
  js_phase :: join_phase
  js_attempts :: u8
  js_used_commissioning :: bool

record power_request =
  pr_next_poll :: instant
  pr_polls_left :: u8

record nwk_stats =
  st_malformed :: u32
  st_security_failures :: u32
  st_replays :: u32
  st_relayed :: u32
  st_broadcasts_relayed :: u32
  st_route_requests :: u32
  st_unknown_commands :: u32
  st_no_route :: u32
  st_broadcasts_sent :: u32
  st_broadcasts_received :: u32
  st_route_discoveries :: u32
  st_join_indications :: u32
  st_children_moved :: u32
  st_pending_full :: u32
  st_pending_high_water :: u32

section \<open>Environment and state\<close>

text \<open>
  The environment: the block cipher, the random generator as a step on its state, and the capacities of
  \<^verbatim>\<open>NwkDims\<close>. \<open>env_below n\<close> is \<^verbatim>\<open>Rng::below\<close>, a value under \<open>n\<close> (0 when \<open>n\<close> is 0).
\<close>

record 'g nwk_env =
  env_aes :: cipher_fn
  env_below :: "u32 \<Rightarrow> 'g \<Rightarrow> u32 \<times> 'g"
  env_u8 :: "'g \<Rightarrow> u8 \<times> 'g"
  env_u16 :: "'g \<Rightarrow> u16 \<times> 'g"
  env_u64 :: "'g \<Rightarrow> u64 \<times> 'g"
  cap_neighbors :: nat
  cap_routes :: nat
  cap_address_map :: nat
  cap_route_discoveries :: nat
  cap_broadcasts :: nat
  cap_discovery :: nat
  cap_joining_list :: nat
  cap_interfaces :: nat
  cap_actions :: nat
  cap_events :: nat
  cap_pending_tx :: nat
  cap_broadcast_buffers :: nat
  cap_pending_rreq :: nat

record 'g nwk =
  nw_nib :: nib
  nw_config :: nwk_config
  nw_neighbors :: neighbor_table
  nw_routes :: routing_table
  nw_source_routes :: source_route_table
  nw_address_map :: address_map
  nw_security :: nwk_security
  nw_rdt :: discovery_table
  nw_btt :: broadcast_table
  nw_discovery :: candidate_table
  nw_survey :: survey_counts
  nw_joining_list :: joining_list
  nw_interfaces :: interface_table
  nw_rng :: 'g
  nw_actions :: "nwk_action list"
  nw_events :: "nwk_event list"
  nw_pending :: "pending_tx list"
  nw_bcast_bufs :: "broadcast_buf list"
  nw_pending_rreq :: "pending_rreq list"
  nw_scan :: "scan_state option"
  nw_formation :: "formation_state option"
  nw_join :: "join_state option"
  nw_permit_until :: "instant option"
  nw_beacon_appendix :: bytes
  nw_link_status_due :: "instant option"
  nw_power_delta_due :: "instant option"
  nw_power_request :: "power_request option"
  nw_child_age_last :: instant
  nw_now :: instant
  nw_rreq_id :: u8
  nw_next_tx_id :: tx_id
  nw_next_mac_handle :: tx_handle
  nw_operating_since :: "instant option"
  nw_pan_id_update :: "(pan_id \<times> u8 \<times> instant) option"
  nw_keepalive_due :: "instant option"
  nw_timeout_request_deadline :: "instant option"
  nw_pending_joiner_tlvs :: "bytes option"
  nw_distributed_network :: bool
  nw_trust_center :: "extended_address option"
  nw_rx_link :: "(u8 \<times> extended_address \<times> bool \<times> short_address) option"
  nw_virtual_device :: bool
  nw_leaving_rejoin :: "bool option"
  nw_stats :: nwk_stats

definition nwk_new :: "'g nwk_env \<Rightarrow> nib \<Rightarrow> nwk_config \<Rightarrow> 'g \<Rightarrow> 'g nwk" where
  "nwk_new E n0 config g0 =
     (let (seq, g1) = env_u8 E g0; (rreq, g2) = env_u8 E g1 in
      \<lparr>nw_nib = n0\<lparr>nib_sequence_number := seq, nib_is_concentrator := cfg_concentrator config,
                   nib_concentrator_radius := cfg_concentrator_radius config,
                   nib_concentrator_discovery_time_secs := cfg_concentrator_discovery_time_secs config,
                   nib_hub_connectivity := cfg_hub_connectivity config\<rparr>,
       nw_config = config, nw_neighbors = nt_new, nw_routes = [], nw_source_routes = [], nw_address_map = [],
       nw_security = ns_new (cap_neighbors E), nw_rdt = [], nw_btt = [], nw_discovery = [],
       nw_survey = \<lparr>sv_total = 0, sv_on_network = 0, sv_potential_parents = 0, sv_other_networks = 0\<rparr>,
       nw_joining_list = jl_new, nw_interfaces = it_single (cap_interfaces E) 0x07FFF800, nw_rng = g2,
       nw_actions = [], nw_events = [], nw_pending = [], nw_bcast_bufs = [], nw_pending_rreq = [],
       nw_scan = None, nw_formation = None, nw_join = None, nw_permit_until = None, nw_beacon_appendix = [],
       nw_link_status_due = None, nw_power_delta_due = None, nw_power_request = None, nw_child_age_last = 0,
       nw_now = 0, nw_rreq_id = rreq, nw_next_tx_id = 1, nw_next_mac_handle = 1, nw_operating_since = None,
       nw_pan_id_update = None, nw_keepalive_due = None, nw_timeout_request_deadline = None,
       nw_pending_joiner_tlvs = None, nw_distributed_network = False, nw_trust_center = None, nw_rx_link = None,
       nw_virtual_device = False, nw_leaving_rejoin = None,
       nw_stats = \<lparr>st_malformed = 0, st_security_failures = 0, st_replays = 0, st_relayed = 0,
          st_broadcasts_relayed = 0, st_route_requests = 0, st_unknown_commands = 0, st_no_route = 0,
          st_broadcasts_sent = 0, st_broadcasts_received = 0, st_route_discoveries = 0, st_join_indications = 0,
          st_children_moved = 0, st_pending_full = 0, st_pending_high_water = 0\<rparr>\<rparr>)"

section \<open>Shared operations\<close>

definition upd_nib :: "(nib \<Rightarrow> nib) \<Rightarrow> 'g nwk \<Rightarrow> 'g nwk" where
  "upd_nib f s = s\<lparr>nw_nib := f (nw_nib s)\<rparr>"

definition upd_stats :: "(nwk_stats \<Rightarrow> nwk_stats) \<Rightarrow> 'g nwk \<Rightarrow> 'g nwk" where
  "upd_stats f s = s\<lparr>nw_stats := f (nw_stats s)\<rparr>"

text \<open>
  The queues drop their oldest entry when they are full (a debug build asserts instead); a queue without capacity
  keeps nothing.
\<close>

definition push_bounded :: "nat \<Rightarrow> 'a \<Rightarrow> 'a list \<Rightarrow> 'a list" where
  "push_bounded cap x q = (if length q < cap then q @ [x] else if cap = 0 then [] else drop 1 q @ [x])"

definition push_action :: "'g nwk_env \<Rightarrow> nwk_action \<Rightarrow> 'g nwk \<Rightarrow> 'g nwk" where
  "push_action E a s = s\<lparr>nw_actions := push_bounded (cap_actions E) a (nw_actions s)\<rparr>"

definition push_event :: "'g nwk_env \<Rightarrow> nwk_event \<Rightarrow> 'g nwk \<Rightarrow> 'g nwk" where
  "push_event E e s = s\<lparr>nw_events := push_bounded (cap_events E) e (nw_events s)\<rparr>"

definition next_action :: "'g nwk \<Rightarrow> nwk_action option \<times> 'g nwk" where
  "next_action s = (case nw_actions s of [] \<Rightarrow> (None, s) | a # q \<Rightarrow> (Some a, s\<lparr>nw_actions := q\<rparr>))"

definition next_event :: "'g nwk \<Rightarrow> nwk_event option \<times> 'g nwk" where
  "next_event s = (case nw_events s of [] \<Rightarrow> (None, s) | e # q \<Rightarrow> (Some e, s\<lparr>nw_events := q\<rparr>))"

definition alloc_tx_id :: "'g nwk \<Rightarrow> tx_id \<times> 'g nwk" where
  "alloc_tx_id s = (nw_next_tx_id s, s\<lparr>nw_next_tx_id := max (nw_next_tx_id s + 1) 1\<rparr>)"

definition alloc_mac_handle :: "'g nwk \<Rightarrow> tx_handle \<times> 'g nwk" where
  "alloc_mac_handle s = (nw_next_mac_handle s, s\<lparr>nw_next_mac_handle := max (nw_next_mac_handle s + 1) 1\<rparr>)"

definition next_sequence :: "'g nwk \<Rightarrow> u8 \<times> 'g nwk" where
  "next_sequence s =
     (nib_sequence_number (nw_nib s), upd_nib (\<lambda>n. n\<lparr>nib_sequence_number := nib_sequence_number n + 1\<rparr>) s)"

definition next_routing_sequence :: "'g nwk \<Rightarrow> 'g nwk" where
  "next_routing_sequence s = upd_nib (\<lambda>n. n\<lparr>nib_routing_sequence_number := nib_routing_sequence_number n + 1\<rparr>) s"

definition jitter :: "'g nwk_env \<Rightarrow> duration \<Rightarrow> duration \<Rightarrow> 'g nwk \<Rightarrow> duration \<times> 'g nwk" where
  "jitter E lo hi s =
     (let span = saturating_sub hi lo in
      if span = 0 then (lo, s)
      else let (off, g) = env_below E (u32_try_from (unat (span + 1))) (nw_rng s)
           in (lo + ucast off, s\<lparr>nw_rng := g\<rparr>))"

definition nw_maybe_reserve_counter :: "'g nwk_env \<Rightarrow> 'g nwk \<Rightarrow> 'g nwk" where
  "nw_maybe_reserve_counter E s =
     (let (r, sec) = ns_start_counter_reservation (nw_security s); s1 = s\<lparr>nw_security := sec\<rparr>
      in case r of Some b \<Rightarrow> push_action E (CounterReservation b) s1 | None \<Rightarrow> s1)"

definition nw_commit_counter_reservation :: "u32 \<Rightarrow> 'g nwk \<Rightarrow> 'g nwk" where
  "nw_commit_counter_reservation r s = s\<lparr>nw_security := ns_commit_counter_reservation r (nw_security s)\<rparr>"

definition nw_abort_counter_reservation :: "'g nwk \<Rightarrow> 'g nwk" where
  "nw_abort_counter_reservation s = s\<lparr>nw_security := ns_abort_counter_reservation (nw_security s)\<rparr>"

definition warm_start :: "'g nwk \<Rightarrow> 'g nwk" where
  "warm_start s =
     (let n = nw_nib s;
          s1 = (if nib_network_address n \<noteq> 0xFFFE \<and> nib_pan_id n \<noteq> 0xFFFF \<and> nk_has_active (ns_keys (nw_security s))
                then upd_nib (\<lambda>n. n\<lparr>nib_joined := True, nib_authenticated := True\<rparr>) s else s)
      in s1\<lparr>nw_neighbors := (nw_neighbors s1)\<lparr>nt_entries :=
           map (\<lambda>e. if is_child (ne_relationship e) \<and> ne_is_end_device e
                    then e\<lparr>ne_timeout_counter_secs := ne_device_timeout_secs e, ne_keepalive_received := False\<rparr> else e)
             (nt_entries (nw_neighbors s1))\<rparr>\<rparr>)"

definition is_operational :: "'g nwk \<Rightarrow> bool" where
  "is_operational s \<longleftrightarrow> nib_joined (nw_nib s) \<and> nib_authenticated (nw_nib s)"

definition in_broadcast_group :: "short_address \<Rightarrow> 'g nwk \<Rightarrow> bool" where
  "in_broadcast_group a s \<longleftrightarrow>
     (case short_kind a of
        BroadcastAll \<Rightarrow> True
      | BroadcastRxOnWhenIdle \<Rightarrow> nib_rx_on_when_idle (nw_nib s)
      | BroadcastRouters \<Rightarrow> is_router_or_coordinator (nw_nib s)
      | _ \<Rightarrow> False)"

definition ensure_neighbor :: "'g nwk_env \<Rightarrow> neighbor_entry \<Rightarrow> 'g nwk \<Rightarrow> bool \<times> 'g nwk" where
  "ensure_neighbor E e s =
     (let (r, t) = nt_insert (cap_neighbors E) e (nib_router_age_limit (nw_nib s)) (nw_neighbors s)
      in (\<not> isl r, s\<lparr>nw_neighbors := t\<rparr>))"

end
