(* ===== verification/NwkTx.thy ===== *)
theory NwkTx
  imports NwkState
begin

text \<open>
  The transmission path, \<^verbatim>\<open>panweave-nwk/src/layer/tx.rs\<close>: NPDU construction, security, the routing decision, the
  queue of pending unicasts and relaying; and the part of \<^verbatim>\<open>panweave-nwk/src/layer/route.rs\<close> that originates
  traffic (route requests, route records), which the transmission path calls. A loop that may not end returns an
  option: \<open>None\<close> stands for a loop that never returns.
\<close>

section \<open>Frames\<close>

definition INITIAL_RREQ_RETRIES :: u8 where
  "INITIAL_RREQ_RETRIES = 3"

definition RREQ_RETRIES :: u8 where
  "RREQ_RETRIES = 2"

definition COUNTER_RETRY_DELAY :: duration where
  "COUNTER_RETRY_DELAY = 2"

definition track_pending :: "'g nwk_env \<Rightarrow> pending_tx \<Rightarrow> ('g nwk, nwk_error, unit) step" where
  "track_pending E entry s =
     (let r = vec_push (cap_pending_tx E) (nw_pending s) entry;
          s1 = (case r of
                  Inr p \<Rightarrow> s\<lparr>nw_pending := p\<rparr>
                | Inl _ \<Rightarrow> upd_stats (\<lambda>t. t\<lparr>st_pending_full := saturating_add (st_pending_full t) 1\<rparr>) s);
          used = u32_try_from (length (nw_pending s1));
          s2 = upd_stats (\<lambda>t. t\<lparr>st_pending_high_water := max (st_pending_high_water t) used\<rparr>) s1
      in (case r of Inr _ \<Rightarrow> Inr () | Inl _ \<Rightarrow> Inl ErrBusy, s2))"

definition pending_counts :: "'g nwk \<Rightarrow> nat \<times> nat" where
  "pending_counts s = (length (nw_pending s), length (filter pt_indirect (nw_pending s)))"

definition max_payload :: "nat \<Rightarrow> bool \<Rightarrow> nat" where
  "max_payload header_len secure = MAX_NPDU - (if secure then header_len + 14 + 4 else header_len)"

definition build_npdu :: "nwk_header \<Rightarrow> bytes \<Rightarrow> nwk_error + (bytes \<times> nat)" where
  "build_npdu h payload =
     (let header_len = nh_encoded_len h; tot = header_len + length payload in
      if MAX_NPDU < tot then Inl ErrFrameTooLong
      else case nh_encode h (w_new (replicate tot 0)) of
             (Inl _, _) \<Rightarrow> Inl ErrInvalidParameter
           | (Inr _, w) \<Rightarrow>
               (case w_bytes payload w of
                  (Inl _, _) \<Rightarrow> Inl ErrFrameTooLong
                | (Inr _, w') \<Rightarrow> Inr (w_buf w', header_len)))"

definition build_command :: "nwk_header \<Rightarrow> nwk_command \<Rightarrow> nwk_error + (bytes \<times> nat)" where
  "build_command h cmd =
     (case encode_to_slice command_encode cmd (replicate MAX_NPDU 0) of
        (Inl _, _) \<Rightarrow> Inl ErrFrameTooLong
      | (Inr n, payload) \<Rightarrow> build_npdu h (take n payload))"

definition link_copy :: "bytes \<Rightarrow> nwk_error + bytes" where
  "link_copy plaintext =
     (if MAX_NPDU < length plaintext then Inl ErrFrameTooLong
      else Inr (set_octet 1 (\<lambda>b. b AND NOT 0x02) plaintext))"

text \<open>
  The header of the plaintext is \<open>header_len\<close> long (every caller has it from the encoder or the decoder); the
  buffer is filled header, auxiliary header, payload, MIC.
\<close>

definition finalize_frame :: "'g nwk_env \<Rightarrow> bytes \<Rightarrow> nat \<Rightarrow> bool \<Rightarrow> ('g nwk, nwk_error, bytes) step" where
  "finalize_frame E plaintext header_len secure s =
     (if \<not> secure then (if MAX_NPDU < length plaintext then (Inl ErrFrameTooLong, s) else (Inr plaintext, s))
      else
        let aux_len = 14;
            payload_len = length plaintext - header_len;
            level = nib_security_level (nw_nib s);
            tot = header_len + aux_len + payload_len + mic_len level
        in if MAX_NPDU < tot then (Inl ErrFrameTooLong, s)
           else
             let out = set_octet 1 (\<lambda>b. b OR 0x02)
                         (take header_len plaintext @ replicate aux_len 0 @ drop header_len plaintext
                          @ replicate (mic_len level) 0)
             in case secure_outgoing (env_aes E) header_len payload_len level (nib_ieee_address (nw_nib s))
                       (nw_security s) out of
                  (Inr n, sec, out') \<Rightarrow> (Inr (take n out'), nw_maybe_reserve_counter E (s\<lparr>nw_security := sec\<rparr>))
                | (Inl FrameCounterUnavailable, sec, _) \<Rightarrow>
                    (let s1 = nw_maybe_reserve_counter E (s\<lparr>nw_security := sec\<rparr>) in
                     if oc_next (nk_outgoing (ns_keys (nw_security s1))) = - 1
                     then (Inl (ErrSecurity NsMaxFrameCounter), s1) else (Inl ErrCounterPending, s1))
                | (Inl NoKey, sec, _) \<Rightarrow> (Inl (ErrSecurity NsNoKey), s\<lparr>nw_security := sec\<rparr>)
                | (Inl _, sec, _) \<Rightarrow> (Inl (ErrSecurity NsBadCcmOutput), s\<lparr>nw_security := sec\<rparr>))"

section \<open>Routing decision\<close>

datatype route_decision = Direct short_address | NextHop short_address | Discover | NoRoute

definition last_resort :: "short_address \<Rightarrow> bool \<Rightarrow> 'g nwk \<Rightarrow> route_decision" where
  "last_resort dst discover s =
     (if discover then Discover else if by_short dst (nw_neighbors s) \<noteq> None then Direct dst else NoRoute)"

definition route_unicast :: "short_address \<Rightarrow> bool \<Rightarrow> 'g nwk \<Rightarrow> route_decision \<times> 'g nwk" where
  "route_unicast dst discover s =
     (let nib = nw_nib s; n = by_short dst (nw_neighbors s) in
      if nib_is_end_device nib then
        (if nib_parent_address nib = 0xFFFE then NoRoute else Direct (nib_parent_address nib), s)
      else if (case n of Some e \<Rightarrow> is_child (ne_relationship e) | None \<Rightarrow> False) then (Direct dst, s)
      else if (case n of Some e \<Rightarrow> ne_is_router e \<and> ne_outgoing_cost e \<noteq> 0 \<and> ne_transmit_failure e < 3
                       | None \<Rightarrow> False)
      then (Direct dst, s)
      else case rt_get dst (nw_routes s) of
             Some e \<Rightarrow>
               if re_status e = Active then
                 (NextHop (re_next_hop e),
                  s\<lparr>nw_routes := rt_update dst re_touch (nw_routes s),
                    nw_neighbors := update_short (re_next_hop e) (\<lambda>x. x\<lparr>ne_router_outbound_activity :=
                      saturating_add (ne_router_outbound_activity x) 1\<rparr>) (nw_neighbors s)\<rparr>)
               else if re_status e = DiscoveryUnderway then (Discover, s)
               else (last_resort dst discover s, s)
           | None \<Rightarrow> (last_resort dst discover s, s))"

definition next_hop_for :: "short_address \<Rightarrow> 'g nwk \<Rightarrow> short_address option \<times> 'g nwk" where
  "next_hop_for dst s =
     (case route_unicast dst False s of
        (Direct h, s') \<Rightarrow> (Some h, s') | (NextHop h, s') \<Rightarrow> (Some h, s') | (_, s') \<Rightarrow> (None, s'))"

section \<open>Handing a frame to the MAC\<close>

definition trusted_link_to :: "short_address \<Rightarrow> 'g nwk \<Rightarrow> u8 option" where
  "trusted_link_to hop s =
     (case Option.bind (by_short hop (nw_neighbors s)) ne_link of
        Some l \<Rightarrow> Some l
      | None \<Rightarrow> (case nw_rx_link s of
                   Some (link, _, _, src) \<Rightarrow> if src = hop then Some link else None
                 | None \<Rightarrow> None))"

definition transmit_pending :: "'g nwk_env \<Rightarrow> pending_tx \<Rightarrow> ('g nwk, nwk_error, unit) step" where
  "transmit_pending E entry s =
     (case trusted_link_to (pt_next_hop entry) s of
        Some link \<Rightarrow>
          (case link_copy (pt_frame entry) of
             Inl e \<Rightarrow> (Inl e, s)
           | Inr frame \<Rightarrow>
               let (handle, s1) = alloc_mac_handle s;
                   entry' = entry\<lparr>pt_mac_handle := Some handle, pt_awaiting_route := False, pt_retry_at := None,
                                  pt_indirect := False\<rparr>
               in step_try (track_pending E entry')
                    (\<lambda>_ t. (Inr (), push_action E (TrustedLinkData handle link frame (pt_secure entry)) t)) s1)
      | None \<Rightarrow>
          if pt_indirect entry then
            let (handle, s1) = alloc_mac_handle s;
                entry' = entry\<lparr>pt_mac_handle := Some handle, pt_awaiting_route := False, pt_retry_at := None\<rparr>
            in step_try (track_pending E entry')
                 (\<lambda>_ t. (Inr (), push_action E (MacDataDeferred handle (pt_next_hop entry)) t)) s1
          else
            case finalize_frame E (pt_frame entry) (pt_header_len entry) (pt_secure entry) s of
              (Inl ErrCounterPending, s1) \<Rightarrow>
                track_pending E (entry\<lparr>pt_mac_handle := None,
                  pt_retry_at := Some (instant_add (nw_now s1) COUNTER_RETRY_DELAY)\<rparr>) s1
            | (Inl e, s1) \<Rightarrow> (Inl e, s1)
            | (Inr on_air, s1) \<Rightarrow>
                let (handle, s2) = alloc_mac_handle s1;
                    entry' = entry\<lparr>pt_mac_handle := Some handle, pt_awaiting_route := False, pt_retry_at := None\<rparr>
                in step_try (track_pending E entry')
                     (\<lambda>_ t. (Inr (), push_action E (MacData handle (pt_next_hop entry) on_air True (pt_indirect entry))
                        (upd_nib (\<lambda>n. n\<lparr>nib_tx_total := saturating_add (nib_tx_total n) 1\<rparr>) t))) s2)"

definition pending_new :: "tx_id \<Rightarrow> bytes \<Rightarrow> nat \<Rightarrow> short_address \<Rightarrow> short_address \<Rightarrow> u8 \<Rightarrow> bool \<Rightarrow> bool \<Rightarrow> tx_kind \<Rightarrow> instant \<Rightarrow> pending_tx" where
  "pending_new i frame header_len dst hop retries secure indirect k now =
     \<lparr>pt_id = i, pt_frame = frame, pt_header_len = header_len, pt_dst = dst, pt_next_hop = hop,
      pt_mac_handle = None, pt_retries_left = retries, pt_retry_at = None, pt_awaiting_route = False,
      pt_secure = secure, pt_indirect = indirect, pt_relayed_from = None, pt_source_route = False,
      pt_kind = k, pt_created = now\<rparr>"

definition send_command_unicast ::
  "'g nwk_env \<Rightarrow> nwk_header \<Rightarrow> nwk_command \<Rightarrow> short_address \<Rightarrow> bool \<Rightarrow> bool \<Rightarrow> tx_kind \<Rightarrow> ('g nwk, nwk_error, unit) step" where
  "send_command_unicast E h cmd mac_dst secure indirect k s =
     (case build_command h cmd of
        Inl e \<Rightarrow> (Inl e, s)
      | Inr (frame, header_len) \<Rightarrow>
          let (i, s1) = alloc_tx_id s in
          transmit_pending E (pending_new i frame header_len (nh_dst h) mac_dst UNICAST_RETRIES
            (secure \<and> cfg_security_enabled (nw_config s1)) indirect k (nw_now s1)) s1)"

definition send_command_broadcast_once :: "'g nwk_env \<Rightarrow> nwk_header \<Rightarrow> nwk_command \<Rightarrow> bool \<Rightarrow> ('g nwk, nwk_error, unit) step" where
  "send_command_broadcast_once E h cmd secure s =
     (case build_command h cmd of
        Inl e \<Rightarrow> (Inl e, s)
      | Inr (frame, header_len) \<Rightarrow>
          (case finalize_frame E frame header_len (secure \<and> cfg_security_enabled (nw_config s)) s of
             (Inl ErrCounterPending, s1) \<Rightarrow> (Inr (), s1)
           | (Inl e, s1) \<Rightarrow> (Inl e, s1)
           | (Inr on_air, s1) \<Rightarrow>
               let (handle, s2) = alloc_mac_handle s1;
                   mac_dst = (if nib_is_end_device (nw_nib s2) then nib_parent_address (nw_nib s2) else 0xFFFF)
               in (Inr (), push_action E (MacData handle mac_dst on_air False False) s2)))"

text \<open>A command header of this node: its source, its IEEE address and the security bit of the configuration.\<close>

definition command_header :: "'g nwk \<Rightarrow> short_address \<Rightarrow> u8 \<Rightarrow> u8 \<Rightarrow> nwk_header" where
  "command_header s dst radius seq =
     secured (cfg_security_enabled (nw_config s))
       (with_src_ieee (nib_ieee_address (nw_nib s))
          (nh_new FtCommand dst (nib_network_address (nw_nib s)) radius seq))"

section \<open>Route requests and route records\<close>

text \<open>
  The while loop over the route requests: an entry that is not due or waits for the frame counter is left, one
  with retries left is rescheduled, the last transmission removes it. \<open>service_rreq_at\<close> handles entry \<open>i\<close> and
  says whether the index moves on.
\<close>

definition service_rreq_at :: "'g nwk_env \<Rightarrow> instant \<Rightarrow> nat \<Rightarrow> 'g nwk \<Rightarrow> bool \<times> 'g nwk" where
  "service_rreq_at E now i s =
     (let p = nw_pending_rreq s ! i in
      if \<not> has_reached now (prq_due p) then (True, s)
      else
        let frame = prq_frame p;
            header_len = (case decode_prefix frame of Inr (_, n) \<Rightarrow> n | Inl _ \<Rightarrow> 0);
            (r, s1) = finalize_frame E frame header_len (cfg_security_enabled (nw_config s)) s
        in if r = Inl ErrCounterPending then
             (True, s1\<lparr>nw_pending_rreq := (nw_pending_rreq s1)[i := (nw_pending_rreq s1 ! i)\<lparr>prq_due :=
                instant_add now COUNTER_RETRY_DELAY\<rparr>]\<rparr>)
           else
             let s2 = (case r of
                         Inr on_air \<Rightarrow> (let (handle, t) = alloc_mac_handle s1
                                        in push_action E (MacData handle 0xFFFF on_air False False) t)
                       | Inl _ \<Rightarrow> s1);
                 q = nw_pending_rreq s2 ! i
             in if 0 < prq_retries_left q then
                  let (j, s3) = jitter E MIN_RREQ_JITTER MAX_RREQ_JITTER s2
                  in (True, s3\<lparr>nw_pending_rreq := (nw_pending_rreq s3)[i := q\<lparr>prq_retries_left := prq_retries_left q - 1,
                        prq_due := instant_add (instant_add now (prq_interval q)) j\<rparr>]\<rparr>)
                else (False, s2\<lparr>nw_pending_rreq := swap_remove i (nw_pending_rreq s2)\<rparr>))"

lemma finalize_frame_keeps_rreq [simp]:
  "nw_pending_rreq (snd (finalize_frame E p n b s)) = nw_pending_rreq s"
  by (auto simp: finalize_frame_def nw_maybe_reserve_counter_def push_action_def Let_def
      split: sum.split security_error.split option.split prod.split)

lemma service_rreq_at_measure:
  assumes "i < length (nw_pending_rreq s)" and "service_rreq_at E now i s = (b, s')"
  shows "length (nw_pending_rreq s') - (if b then Suc i else i) < length (nw_pending_rreq s) - i"
proof -
  obtain r s1 where f: "finalize_frame E (prq_frame (nw_pending_rreq s ! i))
      (case decode_prefix (prq_frame (nw_pending_rreq s ! i)) of Inr (_, n) \<Rightarrow> n | Inl _ \<Rightarrow> 0)
      (cfg_security_enabled (nw_config s)) s = (r, s1)" by (meson surj_pair)
  then have "nw_pending_rreq s1 = nw_pending_rreq s"
    by (metis finalize_frame_keeps_rreq snd_conv)
  with assms f show ?thesis
    by (auto simp: service_rreq_at_def Let_def jitter_def push_action_def alloc_mac_handle_def swap_remove_def
        split: if_splits sum.splits prod.splits)
qed

function service_rreq_from :: "'g nwk_env \<Rightarrow> instant \<Rightarrow> nat \<Rightarrow> 'g nwk \<Rightarrow> 'g nwk" where
  "service_rreq_from E now i s =
     (if i < length (nw_pending_rreq s)
      then case service_rreq_at E now i s of (b, s') \<Rightarrow> service_rreq_from E now (if b then Suc i else i) s'
      else s)"
  by pat_completeness auto
termination
  by (relation "measure (\<lambda>(E, now, i, s). length (nw_pending_rreq s) - i)")
     (auto dest!: service_rreq_at_measure [OF _ sym])

declare service_rreq_from.simps [simp del]

definition service_route_requests :: "'g nwk_env \<Rightarrow> instant \<Rightarrow> 'g nwk \<Rightarrow> 'g nwk" where
  "service_route_requests E now s = service_rreq_from E now 0 s"

definition queue_rreq :: "'g nwk_env \<Rightarrow> bytes \<Rightarrow> u8 \<Rightarrow> duration \<Rightarrow> bool \<Rightarrow> ('g nwk, nwk_error, unit) step" where
  "queue_rreq E frame retries interval immediate s =
     (let (j, s1) = jitter E MIN_RREQ_JITTER MAX_RREQ_JITTER s;
          due = (if immediate then nw_now s1 else instant_add (nw_now s1) (j * 2))
      in case vec_push (cap_pending_rreq E) (nw_pending_rreq s1)
                \<lparr>prq_frame = frame, prq_due = due, prq_retries_left = retries, prq_interval = interval\<rparr> of
           Inl _ \<Rightarrow> (Inl ErrBusy, s1)
         | Inr q \<Rightarrow>
             let s2 = s1\<lparr>nw_pending_rreq := q\<rparr>
             in (Inr (), if immediate then service_route_requests E (nw_now s2) s2 else s2))"

definition send_route_record :: "'g nwk_env \<Rightarrow> short_address \<Rightarrow> short_address option \<Rightarrow> 'g nwk \<Rightarrow> 'g nwk" where
  "send_route_record E concentrator on_behalf_of s =
     (let my = nib_network_address (nw_nib s) in
      case rt_get concentrator (nw_routes s) of
        None \<Rightarrow> s
      | Some route \<Rightarrow>
          let src = (case on_behalf_of of Some a \<Rightarrow> a | None \<Rightarrow> my);
              (seq, s1) = next_sequence s;
              h = (command_header s1 concentrator DEFAULT_RADIUS seq)\<lparr>nh_src := src\<rparr>;
              relays = (if on_behalf_of \<noteq> None then le_bytes 2 my else []);
              (r, s2) = send_command_unicast E h (RouteRecord relays) (re_next_hop route) True False TkCommand s1
          in (case r of
                Inr _ \<Rightarrow> s2\<lparr>nw_routes := rt_update concentrator (\<lambda>x. x\<lparr>re_route_record_required := False\<rparr>) (nw_routes s2)\<rparr>
              | Inl _ \<Rightarrow> s2))"

definition discovery_route :: "'g nwk_env \<Rightarrow> short_address \<Rightarrow> ('g nwk, nwk_error, unit) step" where
  "discovery_route E dst s =
     (case rt_get dst (nw_routes s) of
        Some e \<Rightarrow>
          if re_status e = Active then (Inr (), s)
          else (Inr (), s\<lparr>nw_routes := rt_update dst (\<lambda>x. x\<lparr>re_status := DiscoveryUnderway\<rparr>) (nw_routes s)\<rparr>)
      | None \<Rightarrow>
          (case rt_insert (cap_routes E) (re_new dst 0xFFFE DiscoveryUnderway (nib_router_age_limit (nw_nib s))) (nw_routes s) of
             None \<Rightarrow> (Inl ErrBusy, s)
           | Some t \<Rightarrow> (Inr (), s\<lparr>nw_routes := t\<rparr>)))"

text \<open>The identifier and the discovery table entry of a discovery this node starts.\<close>

definition own_discovery :: "short_address \<Rightarrow> bool \<Rightarrow> 'g nwk \<Rightarrow> discovery_entry \<times> 'g nwk" where
  "own_discovery dst confirmed s =
     (let s1 = upd_stats (\<lambda>t. t\<lparr>st_route_discoveries := saturating_add (st_route_discoveries t) 1\<rparr>) s;
          i = nw_rreq_id s1 + 1;
          s2 = next_routing_sequence (s1\<lparr>nw_rreq_id := i\<rparr>);
          my = nib_network_address (nw_nib s2)
      in (\<lparr>de_request_id = i, de_source = my, de_sender = my, de_forward_cost = 0, de_residual_cost = 0xFF,
           de_expires = instant_add (nw_now s2) ROUTE_DISCOVERY_TIME, de_destination = dst, de_local = True,
           de_confirmed = confirmed\<rparr>, s2))"

definition start_route_discovery :: "'g nwk_env \<Rightarrow> short_address \<Rightarrow> u8 option \<Rightarrow> ('g nwk, nwk_error, unit) step" where
  "start_route_discovery E dst radius s =
     (if \<not> is_router_or_coordinator (nw_nib s) then (Inl ErrInvalidRequest, s)
      else if any_pending_for dst (nw_rdt s)
              \<and> (case rt_get dst (nw_routes s) of Some r \<Rightarrow> re_status r = DiscoveryUnderway | None \<Rightarrow> False)
      then (Inr (), s)
      else step_try (discovery_route E dst) (\<lambda>_ s1.
        let (entry, s2) = own_discovery dst False s1 in
        case rd_insert (cap_route_discoveries E) entry (nw_now s2) (nw_rdt s2) of
          None \<Rightarrow> (Inl ErrBusy, s2)
        | Some rdt \<Rightarrow>
            let s3 = s2\<lparr>nw_rdt := rdt\<rparr>;
                dst_ieee = extended_for dst (nw_address_map s3);
                (seq, s4) = next_sequence s3;
                h = command_header s4 0xFFFC (case radius of Some x \<Rightarrow> x | None \<Rightarrow> DEFAULT_RADIUS) seq;
                cmd = RouteRequest \<lparr>rq_many_to_one = NotManyToOne, rq_id = de_request_id entry, rq_dst = dst,
                        rq_path_cost = 0, rq_dst_ieee = dst_ieee, rq_tlvs = []\<rparr>
            in case build_command h cmd of
                 Inl e \<Rightarrow> (Inl e, s4)
               | Inr (frame, _) \<Rightarrow> queue_rreq E frame INITIAL_RREQ_RETRIES RREQ_RETRY_INTERVAL True s4) s)"

definition start_many_to_one :: "'g nwk_env \<Rightarrow> u8 option \<Rightarrow> bool \<Rightarrow> ('g nwk, nwk_error, unit) step" where
  "start_many_to_one E radius no_cache s =
     (let (entry, s1) = own_discovery 0xFFFC True s;
          s2 = (case rd_insert (cap_route_discoveries E) entry (nw_now s1) (nw_rdt s1) of
                  None \<Rightarrow> s1 | Some rdt \<Rightarrow> s1\<lparr>nw_rdt := rdt\<rparr>);
          rad = (case radius of
                   Some x \<Rightarrow> x
                 | None \<Rightarrow> if nib_concentrator_radius (nw_nib s2) = 0 then DEFAULT_RADIUS
                           else nib_concentrator_radius (nw_nib s2));
          (seq, s3) = next_sequence s2;
          h = command_header s3 0xFFFC rad seq;
          cmd = RouteRequest \<lparr>rq_many_to_one = (if no_cache then NoRouteCache else WithRouteCache),
                  rq_id = de_request_id entry, rq_dst = 0xFFFC, rq_path_cost = 0, rq_dst_ieee = None, rq_tlvs = []\<rparr>
      in case build_command h cmd of
           Inl e \<Rightarrow> (Inl e, s3)
         | Inr (frame, _) \<Rightarrow>
             step_try (queue_rreq E frame 0 RREQ_RETRY_INTERVAL True)
               (\<lambda>_ t. (Inr (), push_event E (EvRouteDiscoveryConfirm 0xFFFC NsSuccess) t)) s3)"

definition route_discovery :: "'g nwk_env \<Rightarrow> short_address option \<Rightarrow> u8 option \<Rightarrow> bool \<Rightarrow> ('g nwk, nwk_error, unit) step" where
  "route_discovery E dst radius no_cache s =
     (if \<not> is_router_or_coordinator (nw_nib s) \<or> \<not> nib_joined (nw_nib s) then (Inl ErrInvalidRequest, s)
      else case dst of
             Some d \<Rightarrow> if is_broadcast d then (Inl ErrInvalidRequest, s) else start_route_discovery E d radius s
           | None \<Rightarrow> start_many_to_one E radius no_cache (upd_nib (\<lambda>n. n\<lparr>nib_is_concentrator := True\<rparr>) s))"

section \<open>Queueing unicasts\<close>

definition sleepy_child :: "short_address \<Rightarrow> 'g nwk \<Rightarrow> bool" where
  "sleepy_child h s =
     (case by_short h (nw_neighbors s) of
        Some n \<Rightarrow> is_child (ne_relationship n) \<and> ne_is_end_device n \<and> \<not> ne_rx_on_when_idle n
      | None \<Rightarrow> False)"

definition wants_route_record :: "short_address \<Rightarrow> 'g nwk \<Rightarrow> bool" where
  "wants_route_record dst s =
     (case rt_get dst (nw_routes s) of Some r \<Rightarrow> re_many_to_one r \<and> re_route_record_required r | None \<Rightarrow> False)"

definition await_route :: "'g nwk_env \<Rightarrow> pending_tx \<Rightarrow> ('g nwk, nwk_error, unit) step" where
  "await_route E entry =
     step_try (track_pending E (entry\<lparr>pt_awaiting_route := True\<rparr>)) (\<lambda>_. start_route_discovery E (pt_dst entry) None)"

definition via_hop :: "short_address \<Rightarrow> pending_tx \<Rightarrow> 'g nwk \<Rightarrow> pending_tx" where
  "via_hop h entry s = (let e = entry\<lparr>pt_next_hop := h\<rparr> in if sleepy_child h s then e\<lparr>pt_indirect := True\<rparr> else e)"

definition enqueue_unicast :: "'g nwk_env \<Rightarrow> pending_tx \<Rightarrow> ('g nwk, nwk_error, unit) step" where
  "enqueue_unicast E entry s =
     (let discover = (pt_frame entry \<noteq> [] \<and> drop_bit 6 (hd (pt_frame entry)) AND 3 = 1 \<and> pt_kind entry = TkData);
          (d, s1) = route_unicast (pt_dst entry) discover s;
          forward = (\<lambda>h.
            let s2 = (if pt_kind entry = TkData \<and> pt_relayed_from entry = None \<and> wants_route_record (pt_dst entry) s1
                      then send_route_record E (pt_dst entry) None s1 else s1)
            in transmit_pending E (via_hop h entry s1) s2)
      in case d of
           Direct h \<Rightarrow> forward h
         | NextHop h \<Rightarrow> forward h
         | Discover \<Rightarrow> await_route E entry s1
         | NoRoute \<Rightarrow> (Inl ErrRouteError, upd_stats (\<lambda>t. t\<lparr>st_no_route := saturating_add (st_no_route t) 1\<rparr>) s1))"

definition send_network_status :: "'g nwk_env \<Rightarrow> short_address \<Rightarrow> short_address \<Rightarrow> network_status_code \<Rightarrow> 'g nwk \<Rightarrow> 'g nwk" where
  "send_network_status E dst about code s =
     (if \<not> nib_joined (nw_nib s) then s
      else
        let (seq, s1) = next_sequence s;
            h = command_header s1 dst DEFAULT_RADIUS seq
        in case build_command h (NetworkStatus \<lparr>ns_status = code, ns_dst = about, ns_tlvs = []\<rparr>) of
             Inl _ \<Rightarrow> s1
           | Inr (frame, header_len) \<Rightarrow>
               let (i, s2) = alloc_tx_id s1
               in snd (enqueue_unicast E (pending_new i frame header_len dst dst 1
                    (cfg_security_enabled (nw_config s2)) False TkCommand (nw_now s2)) s2))"

section \<open>The queue of pending unicasts\<close>

text \<open>Retries and expired waits: the index stays where an entry was removed.\<close>

definition service_pending_at :: "'g nwk_env \<Rightarrow> instant \<Rightarrow> nat \<Rightarrow> 'g nwk \<Rightarrow> bool \<times> 'g nwk" where
  "service_pending_at E now i s =
     (let p = nw_pending s ! i; s1 = s\<lparr>nw_pending := swap_remove i (nw_pending s)\<rparr> in
      if (case pt_retry_at p of Some t \<Rightarrow> has_reached now t | None \<Rightarrow> False)
      then (False, snd (transmit_pending E p s1))
      else if pt_awaiting_route p \<and> has_reached now (instant_add (pt_created p) ROUTE_DISCOVERY_TIME)
      then
        let s2 = upd_stats (\<lambda>t. t\<lparr>st_no_route := saturating_add (st_no_route t) 1\<rparr>) s1
        in (False, if pt_kind p = TkData \<and> pt_relayed_from p = None
                   then push_event E (EvDataConfirm (pt_id p) NsRouteDiscoveryFailed) s2 else s2)
      else (True, s))"

partial_function (option) service_pending_from :: "'g nwk_env \<Rightarrow> instant \<Rightarrow> nat \<Rightarrow> 'g nwk \<Rightarrow> 'g nwk option" where
  "service_pending_from E now i s =
     (if i < length (nw_pending s)
      then case service_pending_at E now i s of (b, s') \<Rightarrow> service_pending_from E now (if b then Suc i else i) s'
      else Some s)"

definition service_pending :: "'g nwk_env \<Rightarrow> instant \<Rightarrow> 'g nwk \<Rightarrow> 'g nwk option" where
  "service_pending E now s = service_pending_from E now 0 s"

partial_function (option) release_from :: "'g nwk_env \<Rightarrow> short_address \<Rightarrow> nat \<Rightarrow> 'g nwk \<Rightarrow> 'g nwk option" where
  "release_from E dst i s =
     (if i < length (nw_pending s)
      then let p = nw_pending s ! i in
           if pt_awaiting_route p \<and> pt_dst p = dst
           then release_from E dst i (snd (enqueue_unicast E p (s\<lparr>nw_pending := swap_remove i (nw_pending s)\<rparr>)))
           else release_from E dst (Suc i) s
      else Some s)"

definition release_waiting :: "'g nwk_env \<Rightarrow> short_address \<Rightarrow> 'g nwk \<Rightarrow> 'g nwk option" where
  "release_waiting E dst s = release_from E dst 0 s"

definition fail_pending :: "'g nwk_env \<Rightarrow> short_address \<Rightarrow> pending_tx \<Rightarrow> 'g nwk \<Rightarrow> 'g nwk" where
  "fail_pending E dst p s =
     (if pt_kind p = TkData \<and> pt_relayed_from p = None
      then push_event E (EvDataConfirm (pt_id p) NsRouteDiscoveryFailed) s
      else case pt_relayed_from p of
             Some src \<Rightarrow> send_network_status E src dst LinkFailure s
           | None \<Rightarrow> s)"

partial_function (option) fail_from :: "'g nwk_env \<Rightarrow> short_address \<Rightarrow> nat \<Rightarrow> 'g nwk \<Rightarrow> 'g nwk option" where
  "fail_from E dst i s =
     (if i < length (nw_pending s)
      then let p = nw_pending s ! i in
           if pt_awaiting_route p \<and> pt_dst p = dst
           then fail_from E dst i (fail_pending E dst p (s\<lparr>nw_pending := swap_remove i (nw_pending s)\<rparr>))
           else fail_from E dst (Suc i) s
      else Some s)"

definition fail_waiting :: "'g nwk_env \<Rightarrow> short_address \<Rightarrow> 'g nwk \<Rightarrow> 'g nwk option" where
  "fail_waiting E dst s = fail_from E dst 0 s"

definition pending_deadline :: "'g nwk \<Rightarrow> instant option" where
  "pending_deadline s =
     (case List.map_filter (\<lambda>p. case pt_retry_at p of
                                   Some t \<Rightarrow> Some t
                                 | None \<Rightarrow> if pt_awaiting_route p then Some (instant_add (pt_created p) ROUTE_DISCOVERY_TIME)
                                           else None) (nw_pending s) of
        [] \<Rightarrow> None | x # xs \<Rightarrow> Some (foldl min x xs))"

definition add_route :: "'g nwk_env \<Rightarrow> short_address \<Rightarrow> short_address \<Rightarrow> 'g nwk \<Rightarrow> bool \<times> 'g nwk" where
  "add_route E dst hop s =
     (case rt_insert (cap_routes E) (re_new dst hop Active (nib_router_age_limit (nw_nib s))) (nw_routes s) of
        Some t \<Rightarrow> (True, s\<lparr>nw_routes := t\<rparr>) | None \<Rightarrow> (False, s))"

section \<open>Relaying\<close>

definition relay_source_routed :: "'g nwk_env \<Rightarrow> pending_tx \<Rightarrow> u8 \<Rightarrow> ('g nwk, nwk_error, unit) step" where
  "relay_source_routed E entry relay_index s =
     (case decode_prefix (pt_frame entry) of
        Inl _ \<Rightarrow> (Inl ErrInvalidParameter, s)
      | Inr (h, _) \<Rightarrow>
          (case nh_source_route h of
             None \<Rightarrow> (Inl ErrInvalidParameter, s)
           | Some sr \<Rightarrow>
               (let my = nib_network_address (nw_nib s);
                    routed =
                      (if relay_index = 0 then Inr (entry\<lparr>pt_next_hop := nh_dst h\<rparr>)
                       else if sr_relay sr (unat relay_index) \<noteq> Some my then Inl ErrInvalidParameter
                       else
                         let next_index = relay_index - 1 in
                         case sr_relay sr (unat next_index) of
                           None \<Rightarrow> Inl ErrInvalidParameter
                         | Some hop \<Rightarrow>
                             let off = 8 + (if fc_dst_ieee (nh_frame_control h) then 8 else 0)
                                         + (if fc_src_ieee (nh_frame_control h) then 8 else 0) + 1
                             in Inr (entry\<lparr>pt_next_hop := hop, pt_frame := set_octet off (\<lambda>_. next_index) (pt_frame entry)\<rparr>))
                in case routed of
                     Inl e \<Rightarrow> (Inl e, s)
                   | Inr e1 \<Rightarrow>
                       let e2 = (case by_short (nh_dst h) (nw_neighbors s) of
                                   Some n \<Rightarrow> if is_child (ne_relationship n)
                                              then e1\<lparr>pt_next_hop := nh_dst h,
                                                      pt_indirect := (ne_is_end_device n \<and> \<not> ne_rx_on_when_idle n)\<rparr>
                                              else e1
                                 | None \<Rightarrow> e1);
                           s1 = s\<lparr>nw_routes := rt_update (nh_src h)
                                  (\<lambda>r. if \<not> re_no_route_cache r then r\<lparr>re_route_record_required := False\<rparr> else r) (nw_routes s)\<rparr>
                       in transmit_pending E e2 s1)))"

definition from_child_end_device :: "short_address \<Rightarrow> 'g nwk \<Rightarrow> bool" where
  "from_child_end_device a s =
     (case by_short a (nw_neighbors s) of
        Some n \<Rightarrow> is_child (ne_relationship n) \<and> ne_is_end_device n | None \<Rightarrow> False)"

definition relay_unicast :: "'g nwk_env \<Rightarrow> bytes \<Rightarrow> nwk_header \<Rightarrow> bool \<Rightarrow> ('g nwk, nwk_error, unit) step" where
  "relay_unicast E plaintext h secure s =
     (let parsed_len = (case decode_prefix plaintext of Inr (_, n) \<Rightarrow> n | Inl _ \<Rightarrow> 0) in
      if MAX_NPDU < length plaintext then (Inl ErrFrameTooLong, s)
      else
        let frame = set_octet 1 (\<lambda>b. b AND NOT 0x20) (set_octet 6 (\<lambda>r. saturating_sub r 1) plaintext);
            from_child = from_child_end_device (nh_src h) s;
            (i, s1) = alloc_tx_id s;
            entry = (pending_new i frame parsed_len (nh_dst h) (nh_dst h) UNICAST_RETRIES secure False TkData (nw_now s1))
                      \<lparr>pt_relayed_from := Some (nh_src h), pt_source_route := nh_source_route h \<noteq> None\<rparr>;
            s2 = upd_stats (\<lambda>t. t\<lparr>st_relayed := saturating_add (st_relayed t) 1\<rparr>) s1
        in case nh_source_route h of
             Some sr \<Rightarrow> relay_source_routed E entry (sr_relay_index sr) s2
           | None \<Rightarrow>
               let discover = (fc_discover_route (nh_frame_control h) = Enable \<and> from_child);
                   (d, s3) = route_unicast (pt_dst entry) discover s2;
                   forward = (\<lambda>hop.
                     let s4 = (if from_child \<and> wants_route_record (pt_dst entry) s3
                               then send_route_record E (pt_dst entry) (Some (nh_src h)) s3 else s3)
                     in transmit_pending E (via_hop hop entry s3) s4)
               in case d of
                    Direct hop \<Rightarrow> forward hop
                  | NextHop hop \<Rightarrow> forward hop
                  | Discover \<Rightarrow> await_route E entry s3
                  | NoRoute \<Rightarrow>
                      (Inl ErrRouteError, send_network_status E (nh_src h) (nh_dst h) LinkFailure
                         (upd_stats (\<lambda>t. t\<lparr>st_no_route := saturating_add (st_no_route t) 1\<rparr>) s3)))"

section \<open>What sending leaves alone\<close>

text \<open>
  Handing frames to the MAC changes the queues, the frame counter, the statistics and the sequence numbers; the rest
  of the information base, the clock, the configuration, the tables of broadcasts and the join in progress stay.
\<close>

definition nib_core :: "nib \<Rightarrow> nib" where
  "nib_core n = n\<lparr>nib_tx_total := 0, nib_sequence_number := 0\<rparr>"

definition tx_keeps :: "'g nwk \<Rightarrow> 'g nwk \<Rightarrow> bool" where
  "tx_keeps s t \<longleftrightarrow>
     nib_core (nw_nib t) = nib_core (nw_nib s) \<and> nw_config t = nw_config s \<and> nw_now t = nw_now s \<and> nw_join t = nw_join s
     \<and> nw_neighbors t = nw_neighbors s \<and> nw_btt t = nw_btt s \<and> nw_bcast_bufs t = nw_bcast_bufs s \<and> nw_rx_link t = nw_rx_link s
     \<and> nw_pending_rreq t = nw_pending_rreq s"

named_theorems keeps_intros

lemma tx_keeps_refl [simp, keeps_intros]: "tx_keeps s s"
  by (simp add: tx_keeps_def)

lemma tx_keeps_trans: "tx_keeps s t \<Longrightarrow> tx_keeps t u \<Longrightarrow> tx_keeps s u"
  by (simp add: tx_keeps_def)

lemma tx_keeps_push_action [keeps_intros]: "tx_keeps s t \<Longrightarrow> tx_keeps s (push_action E a t)"
  by (simp add: tx_keeps_def push_action_def)

lemma tx_keeps_reserve [keeps_intros]: "tx_keeps s t \<Longrightarrow> tx_keeps s (nw_maybe_reserve_counter E t)"
  by (simp add: tx_keeps_def nw_maybe_reserve_counter_def push_action_def Let_def split: prod.split option.split)

lemma tx_keeps_security [simp]: "tx_keeps s (t\<lparr>nw_security := x\<rparr>) = tx_keeps s t"
  by (simp add: tx_keeps_def)

lemma tx_keeps_finalize: "tx_keeps s (snd (finalize_frame E p n b s))"
  by (auto simp: finalize_frame_def Let_def intro!: tx_keeps_reserve split: prod.split sum.split security_error.split)

lemma tx_keeps_track: "tx_keeps s (snd (track_pending E p s))"
  by (simp add: track_pending_def upd_stats_def Let_def tx_keeps_def split: sum.split)

lemma tx_keeps_handle [keeps_intros]: "alloc_mac_handle s = (h, t) \<Longrightarrow> tx_keeps s t"
  by (auto simp: tx_keeps_def alloc_mac_handle_def)

lemma tx_keeps_tx_id [keeps_intros]: "alloc_tx_id s = (h, t) \<Longrightarrow> tx_keeps s t"
  by (auto simp: tx_keeps_def alloc_tx_id_def)

lemma tx_keeps_sequence [keeps_intros]: "next_sequence s = (h, t) \<Longrightarrow> tx_keeps s t"
  by (auto simp: tx_keeps_def next_sequence_def upd_nib_def nib_core_def)

lemma track_action_keeps:
  "tx_keeps s (snd (step_try (track_pending E p) (\<lambda>_ t. (Inr (), f t)) s))" if "\<And>t. tx_keeps t (f t)"
  using tx_keeps_track[of s E p] that
  by (auto simp: step_try_def split: prod.split sum.split intro: tx_keeps_trans)

lemma tx_keeps_transmit: "tx_keeps s (snd (transmit_pending E p s))"
proof -
  obtain h t where h: "alloc_mac_handle s = (h, t)" by (meson surj_pair)
  obtain r u where f: "finalize_frame E (pt_frame p) (pt_header_len p) (pt_secure p) s = (r, u)" by (meson surj_pair)
  have k: "tx_keeps s u" using tx_keeps_finalize[of s E "pt_frame p" "pt_header_len p" "pt_secure p"] f by simp
  obtain h' t' where h': "alloc_mac_handle u = (h', t')" by (meson surj_pair)
  have 1: "tx_keeps s t" "tx_keeps s t'" using h h' k tx_keeps_handle tx_keeps_trans by blast+
  have 2: "tx_keeps t (upd_nib (\<lambda>n. n\<lparr>nib_tx_total := saturating_add (nib_tx_total n) 1\<rparr>) t)" for t :: "'a nwk"
    by (simp add: tx_keeps_def upd_nib_def nib_core_def)
  have 3: "tx_keeps s (snd (step_try (track_pending E q) (\<lambda>_ t. (Inr (), push_action E a t)) t))" for q a
    by (rule tx_keeps_trans[OF 1(1) track_action_keeps]) (simp add: tx_keeps_push_action)
  have 4: "tx_keeps s (snd (step_try (track_pending E q) (\<lambda>_ t. (Inr (), push_action E a
      (upd_nib (\<lambda>n. n\<lparr>nib_tx_total := saturating_add (nib_tx_total n) 1\<rparr>) t))) t'))" for q a
    by (rule tx_keeps_trans[OF 1(2) track_action_keeps]) (simp add: tx_keeps_push_action 2)
  have 5: "tx_keeps s (snd (track_pending E q u))" for q
    by (rule tx_keeps_trans[OF k tx_keeps_track])
  show ?thesis
    unfolding transmit_pending_def h f h' Let_def
    by (auto simp: h' k 3 4 5 split: option.split sum.split nwk_error.split)
qed

lemma tx_keeps_command_unicast [keeps_intros]:
  assumes "tx_keeps s t"
  shows "tx_keeps s (snd (send_command_unicast E h c m b i k t))"
proof -
  obtain x u where u: "alloc_tx_id t = (x, u)" by (meson surj_pair)
  then have "tx_keeps s u" using assms tx_keeps_tx_id tx_keeps_trans by blast
  then have "tx_keeps s (snd (transmit_pending E p u))" for p using tx_keeps_transmit tx_keeps_trans by blast
  with assms u show ?thesis by (auto simp: send_command_unicast_def Let_def split: sum.split)
qed

end
