(* ===== verification/NwkBroadcast.thy ===== *)
theory NwkBroadcast
  imports NwkTx
begin

text \<open>
  Broadcasts, \<^verbatim>\<open>panweave-nwk/src/layer/bcast.rs\<close>: transaction records, passive acknowledgement, jittered relaying
  and retransmission; the address conflicts of \<^verbatim>\<open>panweave-nwk/src/layer/join.rs\<close>, which a received broadcast may
  reveal and which are announced by one; and the data request of \<^verbatim>\<open>panweave-nwk/src/layer/tx.rs\<close>.
\<close>

section \<open>Transmission\<close>

abbreviation (input) MAC_SUCCESS :: mac_status where
  "MAC_SUCCESS \<equiv> 0x00"

abbreviation (input) MAC_PAN_AT_CAPACITY :: mac_status where
  "MAC_PAN_AT_CAPACITY \<equiv> 0x01"

abbreviation (input) MAC_PAN_ACCESS_DENIED :: mac_status where
  "MAC_PAN_ACCESS_DENIED \<equiv> 0x02"

definition octet_or :: "u8 \<Rightarrow> nat \<Rightarrow> bytes \<Rightarrow> u8" where
  "octet_or d i b = (if i < length b then b ! i else d)"

definition passive_ack_set :: "short_address \<Rightarrow> 'g nwk \<Rightarrow> short_address list" where
  "passive_ack_set exclude s =
     (if \<not> cfg_passive_ack (nw_config s) then []
      else push_all PASSIVE_ACK_TRACKED []
             (map ne_short (filter (\<lambda>n. ne_short n \<noteq> exclude \<and> ne_outgoing_cost n \<noteq> 0 \<and> is_unicast (ne_short n))
                (routers (nw_neighbors s)))))"

definition bb_of :: "short_address \<Rightarrow> u8 \<Rightarrow> broadcast_buf \<Rightarrow> bool" where
  "bb_of src q b \<longleftrightarrow> bb_source b = src \<and> bb_sequence b = q"

definition store_broadcast_buf :: "'g nwk_env \<Rightarrow> broadcast_buf \<Rightarrow> 'g nwk \<Rightarrow> 'g nwk" where
  "store_broadcast_buf E b s =
     (let bufs = nw_bcast_bufs s; cap = cap_broadcast_buffers E; same = bb_of (bb_source b) (bb_sequence b) in
      if \<exists>x \<in> set bufs. same x then s\<lparr>nw_bcast_bufs := update_first same (\<lambda>_. b) bufs\<rparr>
      else let kept = (if length bufs < cap then bufs else drop 1 bufs)
           in s\<lparr>nw_bcast_bufs := (case vec_push cap kept b of Inr v \<Rightarrow> v | Inl _ \<Rightarrow> kept)\<rparr>)"

text \<open>The links that get a copy of a broadcast, each once and four at most.\<close>

definition broadcast_links :: "short_address \<Rightarrow> 'g nwk \<Rightarrow> u8 list" where
  "broadcast_links src s =
     foldl (\<lambda>links n. case ne_link n of
                        Some l \<Rightarrow> if ne_short n \<noteq> src \<and> l \<notin> set links then push_all 4 links [l] else links
                      | None \<Rightarrow> links) [] (nt_entries (nw_neighbors s))"

definition sleepy_children :: "short_address \<Rightarrow> 'g nwk \<Rightarrow> short_address list" where
  "sleepy_children src s =
     push_all 8 [] (map ne_short (filter (\<lambda>n. \<not> ne_rx_on_when_idle n \<and> ne_short n \<noteq> src)
       (end_device_children (nw_neighbors s))))"

definition send_link_copy :: "'g nwk_env \<Rightarrow> bytes \<Rightarrow> bool \<Rightarrow> u8 \<Rightarrow> 'g nwk \<Rightarrow> 'g nwk" where
  "send_link_copy E plaintext secure link s =
     (case link_copy plaintext of
        Inl _ \<Rightarrow> s
      | Inr frame \<Rightarrow> let (handle, s1) = alloc_mac_handle s in push_action E (TrustedLinkData handle link frame secure) s1)"

definition send_child_copy :: "'g nwk_env \<Rightarrow> bytes \<Rightarrow> (bytes \<times> nat \<times> bool) option \<Rightarrow> short_address \<Rightarrow> 'g nwk \<Rightarrow> 'g nwk" where
  "send_child_copy E on_air own child s =
     (case own of
        Some (plaintext, header_len, secure) \<Rightarrow>
          let (i, s1) = alloc_tx_id s
          in snd (transmit_pending E (pending_new i plaintext header_len child child 0 secure True TkCommand (nw_now s1)) s1)
      | None \<Rightarrow>
          let (handle, s1) = alloc_mac_handle s in push_action E (MacData handle child on_air True True) s1)"

definition transmit_broadcast ::
  "'g nwk_env \<Rightarrow> short_address \<Rightarrow> u8 \<Rightarrow> bytes \<Rightarrow> short_address \<Rightarrow> bool \<Rightarrow> (bytes \<times> nat \<times> bool) option \<Rightarrow> 'g nwk \<Rightarrow> 'g nwk" where
  "transmit_broadcast E src q on_air dst first own s =
     (let (handle, s0) = alloc_mac_handle s;
          s1 = push_action E (MacData handle 0xFFFF on_air False False) s0;
          s2 = (case own of
                  Some (plaintext, _, secure) \<Rightarrow>
                    if first then fold (send_link_copy E plaintext secure) (broadcast_links src s1) s1 else s1
                | None \<Rightarrow> s1);
          sleepy = (if first \<and> short_kind dst = BroadcastAll then sleepy_children src s2 else []);
          s3 = fold (send_child_copy E on_air own) sleepy s2;
          s4 = s3\<lparr>nw_btt := btt_update src q (\<lambda>r. r\<lparr>br_next_tx :=
                 (if br_retries r < nib_max_broadcast_retries (nw_nib s3)
                  then Some (instant_add (nw_now s3) (nib_passive_ack_timeout (nw_nib s3))) else None)\<rparr>) (nw_btt s3)\<rparr>
      in if \<exists>b \<in> set (nw_bcast_bufs s4). bb_of src q b
         then s4\<lparr>nw_bcast_bufs := update_first (bb_of src q) (\<lambda>b. b\<lparr>bb_frame := on_air, bb_plaintext := None\<rparr>) (nw_bcast_bufs s4)\<rparr>
         else store_broadcast_buf E \<lparr>bb_source = src, bb_sequence = q, bb_frame = on_air, bb_plaintext = None\<rparr> s4)"

definition broadcast_record_of :: "short_address \<Rightarrow> u8 \<Rightarrow> short_address \<Rightarrow> instant option \<Rightarrow> bool \<Rightarrow> 'g nwk \<Rightarrow> broadcast_record" where
  "broadcast_record_of src q exclude next_tx relay s =
     \<lparr>br_source = src, br_sequence = q,
      br_expires = instant_add (nw_now s) (nib_broadcast_delivery_time (nw_nib s)),
      br_awaiting = passive_ack_set exclude s, br_retries = 0, br_next_tx = next_tx, br_relay_pending = relay\<rparr>"

definition originate_broadcast :: "'g nwk_env \<Rightarrow> bytes \<Rightarrow> nat \<Rightarrow> bool \<Rightarrow> ('g nwk, nwk_error, unit) step" where
  "originate_broadcast E plaintext header_len secure s0 =
     (let src = le_word [octet_or 0 4 plaintext, octet_or 0 5 plaintext];
          q = octet_or 0 7 plaintext;
          dst = le_word [octet_or 0xFF 2 plaintext, octet_or 0xFF 3 plaintext];
          s = upd_stats (\<lambda>t. t\<lparr>st_broadcasts_sent := saturating_add (st_broadcasts_sent t) 1\<rparr>) s0;
          ed = nib_is_end_device (nw_nib s)
      in case (if ed then Option.bind (by_short (nib_parent_address (nw_nib s)) (nw_neighbors s)) ne_link else None) of
           Some link \<Rightarrow>
             (case link_copy plaintext of
                Inl e \<Rightarrow> (Inl e, s)
              | Inr frame \<Rightarrow>
                  let (handle, s1) = alloc_mac_handle s in (Inr (), push_action E (TrustedLinkData handle link frame secure) s1))
         | None \<Rightarrow>
             (case finalize_frame E plaintext header_len secure s of
                (Inl ErrCounterPending, s1) \<Rightarrow>
                  if ed then (Inl ErrBusy, s1)
                  else (case btt_insert (cap_broadcasts E)
                               (broadcast_record_of src q 0xFFFE (Some (instant_add (nw_now s1) COUNTER_RETRY_DELAY)) True s1)
                               (nw_now s1) (nw_btt s1) of
                          None \<Rightarrow> (Inl ErrBusy, s1)
                        | Some t \<Rightarrow>
                            (Inr (), store_broadcast_buf E \<lparr>bb_source = src, bb_sequence = q, bb_frame = [],
                               bb_plaintext = Some (plaintext, header_len, secure)\<rparr> (s1\<lparr>nw_btt := t\<rparr>)))
              | (Inl e, s1) \<Rightarrow> (Inl e, s1)
              | (Inr on_air, s1) \<Rightarrow>
                  if ed then
                    let (handle, s2) = alloc_mac_handle s1
                    in (Inr (), push_action E (MacData handle (nib_parent_address (nw_nib s2)) on_air True False) s2)
                  else (case btt_insert (cap_broadcasts E) (broadcast_record_of src q 0xFFFE None True s1) (nw_now s1) (nw_btt s1) of
                          None \<Rightarrow> (Inl ErrBusy, s1)
                        | Some t \<Rightarrow>
                            (Inr (), transmit_broadcast E src q on_air dst True (Some (plaintext, header_len, secure))
                               (s1\<lparr>nw_btt := t\<rparr>)))))"

section \<open>Data requests\<close>

definition data_request_aliased ::
  "'g nwk_env \<Rightarrow> short_address \<Rightarrow> bytes \<Rightarrow> u8 option \<Rightarrow> bool \<Rightarrow> bool \<Rightarrow> (short_address \<times> u8) option \<Rightarrow> ('g nwk, nwk_error, tx_id) step" where
  "data_request_aliased E dst payload radius discover secure alias s =
     (if \<not> nib_joined (nw_nib s) then (Inl ErrNotJoined, s)
      else if (case alias of Some (a, _) \<Rightarrow> \<not> is_unicast a | None \<Rightarrow> False) then (Inl ErrInvalidParameter, s)
      else if dst = 0xFFFE \<or> short_kind dst = Reserved then (Inl ErrInvalidParameter, s)
      else
        let sec = (secure \<and> cfg_security_enabled (nw_config s));
            rad = max (case radius of Some r \<Rightarrow> r | None \<Rightarrow> DEFAULT_RADIUS) 1;
            ((src, seq), s1) = (case alias of
               Some a \<Rightarrow> (a, s)
             | None \<Rightarrow> (let (q, t) = next_sequence s in ((nib_network_address (nw_nib t), q), t)));
            nib = nw_nib s1;
            h0 = with_discover_route (if discover \<and> is_unicast dst then Enable else Suppress)
                   (secured sec (nh_new FtData dst src rad seq));
            h1 = (if nib_is_end_device nib \<and> nib_parent_information nib \<noteq> 0 then with_end_device_initiator True h0 else h0);
            h2 = (if \<not> nib_authenticated nib \<and> alias = None then with_src_ieee (nib_ieee_address nib) h1 else h1)
        in if is_broadcast dst then
             (case build_npdu h2 payload of
                Inl e \<Rightarrow> (Inl e, s1)
              | Inr (frame, header_len) \<Rightarrow>
                  let (i, s2) = alloc_tx_id s1
                  in step_try (originate_broadcast E frame header_len sec)
                       (\<lambda>_ t. (Inr i, push_event E (EvDataConfirm i NsSuccess) t)) s2)
           else
             let route = (if cfg_concentrator (nw_config s1) \<and> alias = None
                          then case srt_get dst (nw_source_routes s1) of Some r \<Rightarrow> sre_relays r | None \<Rightarrow> [] else []);
                 (i, s2) = alloc_tx_id s1
             in if route \<noteq> [] then
                  let relays = concat (map (le_bytes 2) route);
                      index = saturating_sub (if length route < 256 then of_nat (length route) else 1) 1
                  in case build_npdu (with_source_route index relays h2) payload of
                       Inl e \<Rightarrow> (Inl e, s2)
                     | Inr (frame, header_len) \<Rightarrow>
                         step_map (\<lambda>_. i) (transmit_pending E ((pending_new i frame header_len dst (last route) UNICAST_RETRIES
                           sec False TkData (nw_now s2))\<lparr>pt_source_route := True\<rparr>)) s2
                else case build_npdu h2 payload of
                       Inl e \<Rightarrow> (Inl e, s2)
                     | Inr (frame, header_len) \<Rightarrow>
                         step_map (\<lambda>_. i) (enqueue_unicast E (pending_new i frame header_len dst dst UNICAST_RETRIES
                           sec False TkData (nw_now s2))) s2)"

definition data_request :: "'g nwk_env \<Rightarrow> short_address \<Rightarrow> bytes \<Rightarrow> u8 option \<Rightarrow> bool \<Rightarrow> bool \<Rightarrow> ('g nwk, nwk_error, tx_id) step" where
  "data_request E dst payload radius discover secure s = data_request_aliased E dst payload radius discover secure None s"

section \<open>Address conflicts\<close>

definition address_in_use :: "'g nwk \<Rightarrow> short_address \<Rightarrow> bool" where
  "address_in_use s a \<longleftrightarrow>
     a = nib_network_address (nw_nib s) \<or> by_short a (nw_neighbors s) \<noteq> None \<or> contains_short a (nw_address_map s)"

definition allocate_address :: "'g nwk_env \<Rightarrow> 'g nwk \<Rightarrow> short_address option \<times> 'g nwk" where
  "allocate_address E s =
     (let (r, g) = allocate_stochastic (env_u16 E) (address_in_use s) (nw_rng s) in (r, s\<lparr>nw_rng := g\<rparr>))"

definition note_pair :: "'g nwk_env \<Rightarrow> extended_address \<Rightarrow> short_address \<Rightarrow> 'g nwk \<Rightarrow> 'g nwk" where
  "note_pair E ext short s = s\<lparr>nw_address_map := snd (am_record (cap_address_map E) ext short (nw_address_map s))\<rparr>"

definition broadcast_address_conflict :: "'g nwk_env \<Rightarrow> short_address \<Rightarrow> 'g nwk \<Rightarrow> 'g nwk" where
  "broadcast_address_conflict E about s =
     (let (seq, s1) = next_sequence s;
          h = command_header s1 0xFFFD DEFAULT_RADIUS seq
      in case build_command h (NetworkStatus \<lparr>ns_status = AddressConflict, ns_dst = about, ns_tlvs = []\<rparr>) of
           Inl _ \<Rightarrow> s1
         | Inr (frame, header_len) \<Rightarrow> snd (originate_broadcast E frame header_len (cfg_security_enabled (nw_config s1)) s1))"

definition on_local_address_conflict :: "'g nwk_env \<Rightarrow> 'g nwk \<Rightarrow> 'g nwk" where
  "on_local_address_conflict E s =
     (if nib_is_coordinator (nw_nib s) \<or> \<not> is_router_or_coordinator (nw_nib s) then s
      else
        let old = nib_network_address (nw_nib s); (r, s1) = allocate_address E s in
        case r of
          None \<Rightarrow> s1
        | Some new \<Rightarrow>
            let s2 = upd_nib (\<lambda>n. n\<lparr>nib_network_address := new\<rparr>) s1;
                s3 = push_action E Persist (push_action E (MacSetShortAddress new) s2);
                s4 = broadcast_address_conflict E old s3
            in push_event E (EvNetworkStatus new NetworkAddressUpdate) s4)"

definition reassign_child_address :: "'g nwk_env \<Rightarrow> extended_address \<Rightarrow> 'g nwk \<Rightarrow> 'g nwk" where
  "reassign_child_address E child s =
     (case allocate_address E s of
        (None, s1) \<Rightarrow> s1
      | (Some new, s1) \<Rightarrow>
          (case by_extended child (nw_neighbors s1) of
             None \<Rightarrow> s1
           | Some n \<Rightarrow>
               let old = ne_short n;
                   s2 = note_pair E child new
                          (s1\<lparr>nw_neighbors := update_extended child (\<lambda>e. e\<lparr>ne_short := new\<rparr>) (nw_neighbors s1)\<rparr>);
                   (seq, s3) = next_sequence s2;
                   h = with_dst_ieee child (command_header s3 old 1 seq);
                   s4 = snd (send_command_unicast E h (RejoinResponse \<lparr>rj_address = new, rj_status = MAC_SUCCESS\<rparr>) old True
                          (\<not> ne_rx_on_when_idle n) TkCommand s3)
               in push_action E Persist s4))"

definition end_device_child_at :: "short_address \<Rightarrow> 'g nwk \<Rightarrow> extended_address option" where
  "end_device_child_at a s =
     (case by_short a (nw_neighbors s) of
        Some n \<Rightarrow> if is_child (ne_relationship n) \<and> ne_is_end_device n then Some (ne_extended n) else None
      | None \<Rightarrow> None)"

definition on_remote_address_conflict :: "'g nwk_env \<Rightarrow> short_address \<Rightarrow> 'g nwk \<Rightarrow> 'g nwk" where
  "on_remote_address_conflict E a s =
     (if \<not> is_router_or_coordinator (nw_nib s) then s
      else case end_device_child_at a s of
             Some child \<Rightarrow> reassign_child_address E child s
           | None \<Rightarrow> broadcast_address_conflict E a s)"

definition on_address_conflict_reported :: "'g nwk_env \<Rightarrow> short_address \<Rightarrow> 'g nwk \<Rightarrow> 'g nwk" where
  "on_address_conflict_reported E a s =
     (if a = nib_network_address (nw_nib s) then on_local_address_conflict E s
      else case end_device_child_at a s of
             Some child \<Rightarrow> reassign_child_address E child s
           | None \<Rightarrow> s)"

definition note_address :: "'g nwk_env \<Rightarrow> extended_address \<Rightarrow> short_address \<Rightarrow> bool \<Rightarrow> 'g nwk \<Rightarrow> 'g nwk" where
  "note_address E ext short sec s =
     (if \<not> is_valid_device_address ext \<or> \<not> is_unicast short then s
      else
        let recorded = (\<lambda>t. let (u, m) = am_record (cap_address_map E) ext short (nw_address_map t);
                                t' = t\<lparr>nw_address_map := m\<rparr>
                            in case u of
                                 AmConflict _ \<Rightarrow> if sec then on_remote_address_conflict E short t' else t'
                               | _ \<Rightarrow> t')
        in case by_extended ext (nw_neighbors s) of
             Some n \<Rightarrow>
               recorded (if ne_short n \<noteq> short \<and> sec
                         then s\<lparr>nw_neighbors := update_extended ext (\<lambda>e. e\<lparr>ne_short := short\<rparr>) (nw_neighbors s)\<rparr> else s)
           | None \<Rightarrow>
               (case by_short short (nw_neighbors s) of
                  Some n \<Rightarrow>
                    if ne_extended n \<noteq> ext \<and> is_valid_device_address (ne_extended n) \<and> sec
                    then on_remote_address_conflict E short s else recorded s
                | None \<Rightarrow> recorded s))"

definition on_device_announce :: "'g nwk_env \<Rightarrow> extended_address \<Rightarrow> short_address \<Rightarrow> 'g nwk \<Rightarrow> 'g nwk" where
  "on_device_announce E ieee short s =
     (if \<not> is_valid_device_address ieee \<or> \<not> is_unicast short \<or> ieee = nib_ieee_address (nw_nib s) then s
      else if is_router_or_coordinator (nw_nib s)
              \<and> (case by_extended ieee (nw_neighbors s) of
                   Some n \<Rightarrow> ne_short n \<noteq> short \<and> ne_relationship n = LostChild
                 | None \<Rightarrow> False)
      then reassign_child_address E ieee s
      else note_address E ieee short True s)"

section \<open>Reception and timers\<close>

definition relay_plaintext :: "bytes \<Rightarrow> nat \<Rightarrow> nat \<Rightarrow> nat \<Rightarrow> bytes option" where
  "relay_plaintext buf header_len payload_start payload_end =
     (let p = (case slice buf 0 header_len of Some b \<Rightarrow> b | None \<Rightarrow> [])
              @ (case slice buf payload_start payload_end of Some b \<Rightarrow> b | None \<Rightarrow> [])
      in if length p \<le> MAX_NPDU then Some p else None)"

definition on_broadcast_received ::
  "'g nwk_env \<Rightarrow> short_address \<Rightarrow> u8 \<Rightarrow> short_address \<Rightarrow> u8 \<Rightarrow> short_address \<Rightarrow> bytes \<Rightarrow> nat \<Rightarrow> nat \<Rightarrow> nat \<Rightarrow> bool \<Rightarrow> 'g nwk \<Rightarrow> bool \<times> 'g nwk" where
  "on_broadcast_received E src q dst radius mac_src buf header_len payload_start payload_end sec s =
     (if \<not> in_broadcast_group dst s then (False, s)
      else if btt_get src q (nw_btt s) \<noteq> None
      then (False, s\<lparr>nw_btt := btt_update src q (passive_ack mac_src) (nw_btt s)\<rparr>)
      else if src = nib_network_address (nw_nib s) then
        (let long_enough = (case nw_operating_since s of
               Some t \<Rightarrow> has_reached (nw_now s) (instant_add t (nib_broadcast_delivery_time (nw_nib s)))
             | None \<Rightarrow> False)
         in (False, if long_enough \<and> sec \<and> is_router_or_coordinator (nw_nib s) then on_local_address_conflict E s else s))
      else if nib_is_end_device (nw_nib s) then (True, s)
      else case btt_insert (cap_broadcasts E) (broadcast_record_of src q mac_src None False s) (nw_now s) (nw_btt s) of
             None \<Rightarrow> (False, s)
           | Some t \<Rightarrow>
               let s1 = upd_stats (\<lambda>x. x\<lparr>st_broadcasts_received := saturating_add (st_broadcasts_received x) 1\<rparr>) (s\<lparr>nw_btt := t\<rparr>)
               in if \<not> (is_router_or_coordinator (nw_nib s1) \<and> nib_router_started (nw_nib s1) \<and> 1 < radius) then (True, s1)
                  else case relay_plaintext buf header_len payload_start payload_end of
                         None \<Rightarrow> (True, s1)
                       | Some p \<Rightarrow>
                           let plaintext = set_octet 1 (\<lambda>b. b AND NOT 0x22) (set_octet 6 (\<lambda>_. radius - 1) p);
                               (j, s2) = jitter E 0 MAX_BROADCAST_JITTER s1;
                               s3 = s2\<lparr>nw_btt := btt_update src q (\<lambda>r. r\<lparr>br_relay_pending := True,
                                      br_next_tx := Some (instant_add (nw_now s2) j), br_retries := 0\<rparr>) (nw_btt s2)\<rparr>;
                               s4 = store_broadcast_buf E \<lparr>bb_source = src, bb_sequence = q, bb_frame = [],
                                      bb_plaintext = Some (plaintext, header_len, sec)\<rparr> s3
                           in (True, upd_stats (\<lambda>x. x\<lparr>st_broadcasts_relayed := saturating_add (st_broadcasts_relayed x) 1\<rparr>) s4))"

definition drop_bufs :: "short_address \<Rightarrow> u8 \<Rightarrow> 'g nwk \<Rightarrow> 'g nwk" where
  "drop_bufs src q s = s\<lparr>nw_bcast_bufs := filter (\<lambda>b. \<not> bb_of src q b) (nw_bcast_bufs s)\<rparr>"

text \<open>
  One due broadcast of \<^verbatim>\<open>service_broadcasts\<close>: finished when it was acknowledged or its retries are used up; a parked
  plaintext is secured first, and waits again when the frame counter is not available.
\<close>

definition retransmit_broadcast :: "'g nwk_env \<Rightarrow> short_address \<Rightarrow> u8 \<Rightarrow> bool \<Rightarrow> (bytes \<times> nat \<times> bool) option \<Rightarrow> 'g nwk \<Rightarrow> 'g nwk" where
  "retransmit_broadcast E src q first own s =
     (case List.find (bb_of src q) (nw_bcast_bufs s) of
        Some b \<Rightarrow>
          if bb_frame b \<noteq> []
          then transmit_broadcast E src q (bb_frame b) (le_word [octet_or 0xFF 2 (bb_frame b), octet_or 0xFF 3 (bb_frame b)]) first own s
          else s\<lparr>nw_btt := btt_update src q (\<lambda>r. r\<lparr>br_next_tx := None\<rparr>) (nw_btt s)\<rparr>
      | None \<Rightarrow> s\<lparr>nw_btt := btt_update src q (\<lambda>r. r\<lparr>br_next_tx := None\<rparr>) (nw_btt s)\<rparr>)"

definition service_broadcast :: "'g nwk_env \<Rightarrow> instant \<Rightarrow> u8 \<Rightarrow> short_address \<times> u8 \<Rightarrow> 'g nwk \<Rightarrow> 'g nwk" where
  "service_broadcast E now retries_max key s =
     (let (src, q) = key in
      case btt_get src q (nw_btt s) of
        None \<Rightarrow> s
      | Some r \<Rightarrow>
          let first = br_relay_pending r in
          if \<not> first \<and> (fully_acknowledged r \<or> retries_max \<le> br_retries r)
          then drop_bufs src q (s\<lparr>nw_btt := btt_update src q (\<lambda>x. x\<lparr>br_next_tx := None\<rparr>) (nw_btt s)\<rparr>)
          else
            let s1 = s\<lparr>nw_btt := btt_update src q (\<lambda>x. x\<lparr>br_retries := (if first then br_retries x else br_retries x + 1),
                   br_relay_pending := False\<rparr>) (nw_btt s)\<rparr>;
                own = Option.bind (List.find (bb_of src q) (nw_bcast_bufs s1)) bb_plaintext
            in case own of
                 None \<Rightarrow> retransmit_broadcast E src q first own s1
               | Some (plain, header_len, secure) \<Rightarrow>
                   (case finalize_frame E plain header_len secure s1 of
                      (Inr on_air, s2) \<Rightarrow>
                        retransmit_broadcast E src q first own
                          (s2\<lparr>nw_bcast_bufs := update_first (bb_of src q) (\<lambda>b. b\<lparr>bb_frame := on_air, bb_plaintext := None\<rparr>) (nw_bcast_bufs s2)\<rparr>)
                    | (Inl ErrCounterPending, s2) \<Rightarrow>
                        s2\<lparr>nw_btt := btt_update src q (\<lambda>x. x\<lparr>br_relay_pending := True,
                             br_next_tx := Some (instant_add now COUNTER_RETRY_DELAY)\<rparr>) (nw_btt s2)\<rparr>
                    | (Inl _, s2) \<Rightarrow> drop_bufs src q s2))"

definition due_broadcasts :: "instant \<Rightarrow> 'g nwk \<Rightarrow> (short_address \<times> u8) list" where
  "due_broadcasts now s =
     push_all 8 [] (map br_key (filter (\<lambda>r. case br_next_tx r of Some t \<Rightarrow> has_reached now t | None \<Rightarrow> False) (nw_btt s)))"

definition service_broadcasts :: "'g nwk_env \<Rightarrow> instant \<Rightarrow> 'g nwk \<Rightarrow> 'g nwk" where
  "service_broadcasts E now s =
     (let s1 = fold (service_broadcast E now (nib_max_broadcast_retries (nw_nib s))) (due_broadcasts now s) s;
          s2 = s1\<lparr>nw_btt := btt_expire now (nw_btt s1)\<rparr>
      in s2\<lparr>nw_bcast_bufs := filter (\<lambda>b. btt_get (bb_source b) (bb_sequence b) (nw_btt s2) \<noteq> None) (nw_bcast_bufs s2)\<rparr>)"

end
