(* ===== verification/NwkPower.thy ===== *)
theory NwkPower
  imports NwkBroadcast
begin

text \<open>
  Procedures of the network layer that joining and the timers share: the context of a received command
  (\<^verbatim>\<open>panweave-nwk/src/layer/rx.rs\<close>), the beacon payload and permit joining (\<^verbatim>\<open>panweave-nwk/src/layer/join.rs\<close>), power
  negotiation (\<^verbatim>\<open>panweave-nwk/src/layer/power.rs\<close>) and the end device timeout and keepalives
  (\<^verbatim>\<open>panweave-nwk/src/layer/maint.rs\<close>).
\<close>

record command_context =
  cc_src :: short_address
  cc_dst :: short_address
  cc_src_ieee :: "extended_address option"
  cc_dst_ieee :: "extended_address option"
  cc_mac_src :: short_address
  cc_lqi :: u8
  cc_rssi_dbm :: int
  cc_secured :: bool
  cc_secured_by :: "extended_address option"
  cc_radius :: u8
  cc_sequence :: u8

section \<open>Beacon payload and permit joining\<close>

definition has_neighbor_slot :: "'g nwk_env \<Rightarrow> 'g nwk \<Rightarrow> bool" where
  "has_neighbor_slot E s \<longleftrightarrow> length (nt_entries (nw_neighbors s)) < cap_neighbors E"

definition router_information_bits :: "'g nwk \<Rightarrow> router_information" where
  "router_information_bits s =
     (if nib_hub_connectivity (nw_nib s) then 0x0001 else 0)
     OR (if nib_preferred_parent (nw_nib s) then 0x0004 else 0)
     OR (if (case nw_operating_since s of
               Some t \<Rightarrow> has_reached (nw_now s) (instant_add t (from_secs (24 * 3600))) | None \<Rightarrow> False) then 0x0002 else 0)
     OR (if cfg_keepalive_methods (nw_config s) AND 0x01 \<noteq> 0 then 0x0020 else 0)
     OR (if cfg_keepalive_methods (nw_config s) AND 0x02 \<noteq> 0 then 0x0040 else 0)"

definition update_beacon_payload :: "'g nwk_env \<Rightarrow> 'g nwk \<Rightarrow> 'g nwk" where
  "update_beacon_payload E s =
     (if \<not> is_router_or_coordinator (nw_nib s) then s
      else
        let room = (child_count (nw_neighbors s) < unat (nib_max_children (nw_nib s)) \<and> has_neighbor_slot E s);
            router_capacity = (router_child_count (nw_neighbors s) < unat (nib_max_routers (nw_nib s)) \<and> room);
            w0 = snd (w_bytes (nw_beacon_appendix s) (w_new (replicate MAX_BEACON_APPENDIX 0)));
            has_router_info = (case tlv_validate (\<lambda>_. False) (nw_beacon_appendix s) of
                                 Inl _ \<Rightarrow> False | Inr b \<Rightarrow> set_find b TAG_ROUTER_INFORMATION \<noteq> None);
            w1 = (if cfg_r23_beacon_appendix (nw_config s) \<and> \<not> has_router_info
                  then snd (router_information_write (router_information_bits s) w0) else w0);
            payload = bp_new (nib_extended_pan_id (nw_nib s)) router_capacity room (nib_update_id (nw_nib s))
                        (take (w_pos w1) (w_buf w1))
        in case encode_to_slice beacon_encode payload (replicate 52 0) of
             (Inl _, _) \<Rightarrow> s
           | (Inr n, out) \<Rightarrow> push_action E (MacSetBeaconPayload (take n out)) s)"

text \<open>
  The TLVs of the network wide appendix: those of a well-formed set with a global tag, until one does not fit. The
  writer keeps what the failed write left, its position moves by what was written.
\<close>

fun write_global_tlvs :: "tlv list \<Rightarrow> writer \<Rightarrow> writer" where
  "write_global_tlvs [] w = w"
| "write_global_tlvs (t # ts) w =
     (if \<not> is_global_tag (tlv_tag t) then write_global_tlvs ts w
      else case write_tlv (tlv_tag t) (tlv_value t) w of
             (Inl _, w') \<Rightarrow> w'
           | (Inr _, w') \<Rightarrow> write_global_tlvs ts w')"

definition set_network_wide_beacon_appendix :: "'g nwk_env \<Rightarrow> bytes \<Rightarrow> 'g nwk \<Rightarrow> 'g nwk" where
  "set_network_wide_beacon_appendix E tlvs s =
     (let appendix = (case tlv_validate (\<lambda>_. False) tlvs of
            Inl _ \<Rightarrow> []
          | Inr b \<Rightarrow> (let w = write_global_tlvs (set_iter b) (w_new (replicate MAX_BEACON_APPENDIX 0))
                      in take (w_pos w) (w_buf w)))
      in update_beacon_payload E (s\<lparr>nw_beacon_appendix := appendix\<rparr>))"

definition permit_joining_active :: "'g nwk \<Rightarrow> bool" where
  "permit_joining_active s \<longleftrightarrow> (case nw_permit_until s of Some t \<Rightarrow> nw_now s < t | None \<Rightarrow> False)"

definition is_permitting_joins :: "'g nwk \<Rightarrow> bool" where
  "is_permitting_joins s \<longleftrightarrow> (case nw_permit_until s of Some t \<Rightarrow> \<not> has_reached (nw_now s) t | None \<Rightarrow> False)"

definition permit_joining :: "'g nwk_env \<Rightarrow> u8 \<Rightarrow> ('g nwk, nwk_error, unit) step" where
  "permit_joining E secs s =
     (if \<not> is_router_or_coordinator (nw_nib s) then (Inl ErrInvalidRequest, s)
      else
        let until = (if secs = 0 then None else if secs = 255 then Some (- 1)
                     else Some (instant_add (nw_now s) (from_secs (ucast secs))))
        in (Inr (), push_event E (EvPermitJoining (secs \<noteq> 0)) (push_action E (MacSetPermit (secs \<noteq> 0))
              (s\<lparr>nw_permit_until := until\<rparr>))))"

definition note_channel_in_use :: "'g nwk \<Rightarrow> 'g nwk" where
  "note_channel_in_use s =
     (let page = nib_channel_page (nw_nib s); c = nib_channel (nw_nib s) in
      case interface_for page c (nw_interfaces s) of
        None \<Rightarrow> s
      | Some e \<Rightarrow> s\<lparr>nw_interfaces := it_update (if_index e) (\<lambda>x. x\<lparr>if_channel_in_use := Some (page, c)\<rparr>) (nw_interfaces s)\<rparr>)"

definition change_channel :: "'g nwk_env \<Rightarrow> channel \<Rightarrow> u8 \<Rightarrow> 'g nwk \<Rightarrow> 'g nwk" where
  "change_channel E c update_id s =
     (let s1 = note_channel_in_use (upd_nib (\<lambda>n. n\<lparr>nib_channel := c\<rparr>) s);
          s2 = upd_nib (\<lambda>n. n\<lparr>nib_update_id := update_id, nib_next_channel_change := 0\<rparr>) s1;
          s3 = push_action E MacResetTxPower (push_action E (MacSetChannel (nib_channel_page (nw_nib s2)) c) s2);
          s4 = (if is_router_or_coordinator (nw_nib s3) then update_beacon_payload E s3 else s3)
      in push_action E Persist s4)"

section \<open>Power negotiation\<close>

definition ENTRIES_PER_FRAME :: nat where
  "ENTRIES_PER_FRAME = 24"

definition MAX_POWER_JITTER :: duration where
  "MAX_POWER_JITTER = 10000"

definition REQUEST_POLLS :: u8 where
  "REQUEST_POLLS = 3"

definition pi_mac_data_poll_keepalive :: "parent_information \<Rightarrow> bool" where
  "pi_mac_data_poll_keepalive p \<longleftrightarrow> p AND 1 \<noteq> 0"

definition pi_timeout_request_keepalive :: "parent_information \<Rightarrow> bool" where
  "pi_timeout_request_keepalive p \<longleftrightarrow> p AND 2 \<noteq> 0"

definition pi_power_negotiation :: "parent_information \<Rightarrow> bool" where
  "pi_power_negotiation p \<longleftrightarrow> p AND 4 \<noteq> 0"

definition power_delta_active :: "'g nwk \<Rightarrow> bool" where
  "power_delta_active s \<longleftrightarrow>
     cfg_power_control (nw_config s) \<and> nib_joined (nw_nib s) \<and> nib_authenticated (nw_nib s)
     \<and> nib_link_power_delta_transmit_rate (nw_nib s) \<noteq> 0
     \<and> (if nib_is_end_device (nw_nib s) then pi_power_negotiation (nib_parent_information (nw_nib s))
        else nib_router_started (nw_nib s))"

definition schedule_power_delta :: "'g nwk_env \<Rightarrow> 'g nwk \<Rightarrow> 'g nwk" where
  "schedule_power_delta E s =
     (let rate = from_secs (ucast (nib_link_power_delta_transmit_rate (nw_nib s)));
          (j, s1) = jitter E 0 MAX_POWER_JITTER s
      in s1\<lparr>nw_power_delta_due := Some (instant_add (instant_add (nw_now s1) rate) j)\<rparr>)"

definition refresh_power_delta_schedule :: "'g nwk_env \<Rightarrow> 'g nwk \<Rightarrow> 'g nwk" where
  "refresh_power_delta_schedule E s =
     (if \<not> power_delta_active s then s\<lparr>nw_power_delta_due := None, nw_power_request := None\<rparr>
      else if nw_power_delta_due s = None then schedule_power_delta E s else s)"

text \<open>\<^verbatim>\<open>i8::saturating_sub\<close>; an \<^verbatim>\<open>i8\<close> is an integer between -128 and 127.\<close>

definition power_delta_for :: "int \<Rightarrow> 'g nwk \<Rightarrow> int" where
  "power_delta_for rssi s = max (- 128) (min 127 (cfg_optimal_rssi_dbm (nw_config s) - rssi))"

definition power_entry :: "short_address \<Rightarrow> int \<Rightarrow> bytes" where
  "power_entry a d = le_bytes 2 a @ [word_of_int d]"

fun power_entries :: "bytes \<Rightarrow> (short_address \<times> int) list" where
  "power_entries (a # b # c # xs) = (le_word [a, b], sint c) # power_entries xs"
| "power_entries xs = []"

fun chunks :: "nat \<Rightarrow> 'a list \<Rightarrow> 'a list list" where
  "chunks n xs = (if n = 0 \<or> xs = [] then [] else take n xs # chunks n (drop n xs))"

declare chunks.simps [simp del]

definition broadcast_power_delta :: "'g nwk_env \<Rightarrow> (short_address \<times> int) list \<Rightarrow> 'g nwk \<Rightarrow> 'g nwk" where
  "broadcast_power_delta E chunk s =
     (let cmd = LinkPowerDelta \<lparr>pd_kind = PdNotification, pd_raw = concat (map (\<lambda>(a, d). power_entry a d) chunk)\<rparr>;
          (seq, s1) = next_sequence s
      in snd (send_command_broadcast_once E (command_header s1 0xFFFD 1 seq) cmd True s1))"

definition send_power_delta :: "'g nwk_env \<Rightarrow> 'g nwk \<Rightarrow> 'g nwk" where
  "send_power_delta E s =
     (if nib_is_end_device (nw_nib s) then
        (case Option.bind (nt_parent (nw_neighbors s)) ne_last_rssi_dbm of
           None \<Rightarrow> s
         | Some rssi \<Rightarrow>
             let parent = nib_parent_address (nw_nib s);
                 kind = (if nib_rx_on_when_idle (nw_nib s) then PdNotification else PdRequest);
                 cmd = LinkPowerDelta \<lparr>pd_kind = kind, pd_raw = power_entry parent (power_delta_for rssi s)\<rparr>;
                 (seq, s1) = next_sequence s;
                 h0 = command_header s1 parent 1 seq;
                 h = (if nib_parent_ieee (nw_nib s1) \<noteq> 0 then with_dst_ieee (nib_parent_ieee (nw_nib s1)) h0 else h0);
                 (r, s2) = send_command_unicast E h cmd parent True False TkCommand s1
             in if \<not> isl r \<and> kind = PdRequest
                then s2\<lparr>nw_power_request := Some \<lparr>pr_next_poll = instant_add (nw_now s2) response_wait_time,
                                                  pr_polls_left = REQUEST_POLLS\<rparr>\<rparr>
                else s2)
      else
        let entries = push_all (cap_neighbors E) [] (List.map_filter (\<lambda>n.
              if \<not> ne_rx_on_when_idle n \<or> \<not> is_unicast (ne_short n) then None
              else map_option (\<lambda>rssi. (ne_short n, power_delta_for rssi s)) (ne_last_rssi_dbm n)) (nt_entries (nw_neighbors s)))
        in fold (broadcast_power_delta E) (chunks ENTRIES_PER_FRAME entries) s)"

definition service_power_delta :: "'g nwk_env \<Rightarrow> instant \<Rightarrow> 'g nwk \<Rightarrow> 'g nwk" where
  "service_power_delta E now s =
     (let s1 = (if (case nw_power_delta_due s of Some t \<Rightarrow> has_reached now t | None \<Rightarrow> False)
                then (if power_delta_active s then schedule_power_delta E (send_power_delta E s)
                      else s\<lparr>nw_power_delta_due := None\<rparr>)
                else s)
      in case nw_power_request s1 of
           None \<Rightarrow> s1
         | Some r \<Rightarrow>
             if \<not> has_reached now (pr_next_poll r) then s1
             else if pr_polls_left r = 0 then push_action E MacResetTxPower (s1\<lparr>nw_power_request := None\<rparr>)
             else push_action E MacPoll (s1\<lparr>nw_power_request := Some \<lparr>pr_next_poll = instant_add now response_wait_time,
                    pr_polls_left = pr_polls_left r - 1\<rparr>\<rparr>))"

definition power_deadline :: "'g nwk \<Rightarrow> instant option" where
  "power_deadline s =
     (case (nw_power_delta_due s, map_option pr_next_poll (nw_power_request s)) of
        (Some a, Some b) \<Rightarrow> Some (min a b) | (None, b) \<Rightarrow> b | (a, None) \<Rightarrow> a)"

definition on_link_power_delta :: "'g nwk_env \<Rightarrow> command_context \<Rightarrow> link_power_delta \<Rightarrow> 'g nwk \<Rightarrow> 'g nwk" where
  "on_link_power_delta E ctx cmd s =
     (if \<not> cfg_power_control (nw_config s) \<or> \<not> cc_secured ctx \<or> pd_kind cmd = PdReserved then s
      else if pd_kind cmd \<noteq> PdNotification \<and> is_broadcast (cc_dst ctx) then s
      else case by_short (cc_src ctx) (nw_neighbors s) of
        None \<Rightarrow> s
      | Some n \<Rightarrow>
          let extended = (case cc_src_ieee ctx of Some e \<Rightarrow> e | None \<Rightarrow> ne_extended n);
              mine = map_option snd (List.find (\<lambda>(a, _). a = nib_network_address (nw_nib s)) (power_entries (pd_raw cmd)));
              end_device = nib_is_end_device (nw_nib s)
          in if mine = None \<and> end_device then s
             else
               let s1 = s\<lparr>nw_neighbors := update_short (cc_src ctx) (\<lambda>x. x\<lparr>ne_last_rssi_dbm := Some (cc_rssi_dbm ctx)\<rparr>) (nw_neighbors s)\<rparr>;
                   applies = (\<not> (end_device \<and> \<not> nib_rx_on_when_idle (nw_nib s1) \<and> pd_kind cmd \<noteq> PdResponse));
                   s2 = (case mine of
                           Some d \<Rightarrow> if applies then push_action E (MacAdjustTxPower (cc_src ctx) extended d (cc_rssi_dbm ctx)) s1 else s1
                         | None \<Rightarrow> s1);
                   s3 = (if pd_kind cmd = PdResponse then s2\<lparr>nw_power_request := None\<rparr> else s2);
                   s4 = push_event E (EvLinkPowerDelta (cc_src ctx) (pd_kind cmd) mine) s3
               in if end_device \<or> ne_device_type n \<noteq> EndDevice \<or> pd_kind cmd = PdResponse then s4
                  else
                    let rsp = LinkPowerDelta \<lparr>pd_kind = PdResponse,
                                pd_raw = power_entry (cc_src ctx) (power_delta_for (cc_rssi_dbm ctx) s4)\<rparr>;
                        (seq, s5) = next_sequence s4;
                        h0 = command_header s5 (cc_src ctx) 1 seq;
                        h = (if extended \<noteq> 0 then with_dst_ieee extended h0 else h0)
                    in snd (send_command_unicast E h rsp (cc_src ctx) True (\<not> ne_rx_on_when_idle n) TkCommand s5))"

section \<open>End device timeout and keepalives\<close>

definition update_parent :: "(neighbor_entry \<Rightarrow> neighbor_entry) \<Rightarrow> 'g nwk \<Rightarrow> 'g nwk" where
  "update_parent f s =
     s\<lparr>nw_neighbors := (nw_neighbors s)\<lparr>nt_entries :=
        update_first (\<lambda>n. ne_relationship n = Parent) f (nt_entries (nw_neighbors s))\<rparr>\<rparr>"

definition parent_link_failure :: "'g nwk_env \<Rightarrow> 'g nwk \<Rightarrow> 'g nwk" where
  "parent_link_failure E s = push_event E (EvNetworkStatus (nib_parent_address (nw_nib s)) ParentLinkFailure) s"

definition send_end_device_timeout_request :: "'g nwk_env \<Rightarrow> 'g nwk \<Rightarrow> 'g nwk" where
  "send_end_device_timeout_request E s =
     (if \<not> nib_is_end_device (nw_nib s) \<or> \<not> nib_joined (nw_nib s) then s
      else
        let parent = nib_parent_address (nw_nib s);
            (seq, s1) = next_sequence s;
            h = with_dst_ieee (nib_parent_ieee (nw_nib s1)) (command_header s1 parent 1 seq);
            cmd = EndDeviceTimeoutRequest \<lparr>tq_timeout = nib_end_device_timeout (nw_nib s1), tq_configuration = 0\<rparr>
        in snd (send_command_unicast E h cmd parent True False TkTimeoutRequest s1))"

definition on_timeout_request_sent :: "'g nwk_env \<Rightarrow> bool \<Rightarrow> 'g nwk \<Rightarrow> 'g nwk" where
  "on_timeout_request_sent E ok s =
     (if ok then
        let s1 = s\<lparr>nw_timeout_request_deadline := Some (instant_add (nw_now s) response_wait_time)\<rparr>
        in if \<not> nib_rx_on_when_idle (nw_nib s1) then push_action E MacPoll s1 else s1
      else if pi_timeout_request_keepalive (nib_parent_information (nw_nib s)) then parent_link_failure E s else s)"

definition on_end_device_timeout_request :: "'g nwk_env \<Rightarrow> command_context \<Rightarrow> timeout_request \<Rightarrow> 'g nwk \<Rightarrow> 'g nwk" where
  "on_end_device_timeout_request E ctx q s =
     (if \<not> is_router_or_coordinator (nw_nib s) \<or> \<not> cc_secured ctx then s
      else case by_short (cc_src ctx) (nw_neighbors s) of
        None \<Rightarrow> s
      | Some n \<Rightarrow>
          if \<not> ne_is_end_device n \<or> \<not> is_child (ne_relationship n) then s
          else
            let status = (if \<not> timeout_is_valid (tq_timeout q) then IncorrectValue
                          else if tq_configuration q \<noteq> 0 then UnsupportedFeature else TimeoutSuccess);
                s1 = (if status = TimeoutSuccess
                      then s\<lparr>nw_neighbors := update_short (cc_src ctx) (\<lambda>x.
                             let x1 = (ne_set_timeout (tq_timeout q) x)\<lparr>ne_end_device_configuration := tq_configuration q,
                                        ne_keepalive_received := True\<rparr>
                             in if ne_relationship x1 = UnauthenticatedChild
                                then x1\<lparr>ne_relationship := Child, ne_security_timer_secs := 0\<rparr> else x1) (nw_neighbors s)\<rparr>
                      else s);
                info = (cfg_keepalive_methods (nw_config s1) AND 0x03) OR (if cfg_power_control (nw_config s1) then 0x04 else 0);
                (seq, s2) = next_sequence s1;
                h = with_dst_ieee (ne_extended n) (command_header s2 (cc_src ctx) 1 seq);
                sleepy = (case by_short (cc_src ctx) (nw_neighbors s2) of Some x \<Rightarrow> \<not> ne_rx_on_when_idle x | None \<Rightarrow> False);
                s3 = snd (send_command_unicast E h (EndDeviceTimeoutResponse \<lparr>ts_status = status, ts_parent_info = info\<rparr>)
                       (cc_src ctx) True sleepy TkCommand s2)
            in push_action E Persist s3)"

definition keepalive_period :: "'g nwk \<Rightarrow> duration" where
  "keepalive_period s =
     from_secs (max (ucast ((case timeout_seconds (nib_end_device_timeout (nw_nib s)) of Some x \<Rightarrow> x | None \<Rightarrow> 256 * 60) div 3)) 1)"

definition on_end_device_timeout_response :: "'g nwk_env \<Rightarrow> command_context \<Rightarrow> timeout_response \<Rightarrow> 'g nwk \<Rightarrow> 'g nwk" where
  "on_end_device_timeout_response E ctx r s =
     (if \<not> nib_is_end_device (nw_nib s) \<or> \<not> cc_secured ctx \<or> cc_src ctx \<noteq> nib_parent_address (nw_nib s) then s
      else
        let s1 = s\<lparr>nw_timeout_request_deadline := None\<rparr> in
        if ts_status r = TimeoutSuccess then
          let s2 = upd_nib (\<lambda>n. n\<lparr>nib_parent_information := ts_parent_info r,
                 nib_link_power_delta_transmit_rate :=
                   (if \<not> pi_power_negotiation (ts_parent_info r) then 0
                    else if nib_link_power_delta_transmit_rate n = 0 then cfg_end_device_power_delta_rate_secs (nw_config s1)
                    else nib_link_power_delta_transmit_rate n)\<rparr>) s1;
              s3 = refresh_power_delta_schedule E s2;
              secs = (case timeout_seconds (nib_end_device_timeout (nw_nib s3)) of Some x \<Rightarrow> x | None \<Rightarrow> 256 * 60);
              s4 = update_parent (\<lambda>p. p\<lparr>ne_device_timeout_secs := secs, ne_timeout_counter_secs := secs\<rparr>) s3;
              s5 = s4\<lparr>nw_keepalive_due := Some (instant_add (nw_now s4) (keepalive_period s4))\<rparr>
          in push_event E EvParentInformationUpdated (push_action E Persist s5)
        else upd_nib (\<lambda>n. n\<lparr>nib_parent_information := 0\<rparr>) s1)"

definition send_keepalive :: "'g nwk_env \<Rightarrow> 'g nwk \<Rightarrow> 'g nwk" where
  "send_keepalive E s =
     (let s1 = s\<lparr>nw_keepalive_due := Some (instant_add (nw_now s) (keepalive_period s))\<rparr>;
          info = nib_parent_information (nw_nib s1);
          s2 = (if pi_mac_data_poll_keepalive info then push_action E MacPoll s1
                else if pi_timeout_request_keepalive info then send_end_device_timeout_request E s1 else s1)
      in update_parent (\<lambda>p. p\<lparr>ne_timeout_counter_secs := ne_device_timeout_secs p\<rparr>) s2)"

definition on_mac_poll_indication :: "'g nwk_env \<Rightarrow> mac_address \<Rightarrow> 'g nwk \<Rightarrow> 'g nwk" where
  "on_mac_poll_indication E device s =
     (if \<not> is_router_or_coordinator (nw_nib s) then s
      else
        let refreshed = (\<lambda>n. if cfg_keepalive_methods (nw_config s) AND 0x01 \<noteq> 0
                             then n\<lparr>ne_timeout_counter_secs := ne_device_timeout_secs n, ne_keepalive_received := True\<rparr> else n) in
        case device of
          MacNone \<Rightarrow> s
        | MacExtended e \<Rightarrow>
            (case by_extended e (nw_neighbors s) of
               Some n \<Rightarrow> if is_child (ne_relationship n)
                          then s\<lparr>nw_neighbors := update_extended e refreshed (nw_neighbors s)\<rparr> else s
             | None \<Rightarrow> s)
        | MacShort a \<Rightarrow>
            (case by_short a (nw_neighbors s) of
               Some n \<Rightarrow> if is_child (ne_relationship n)
                          then s\<lparr>nw_neighbors := update_short a refreshed (nw_neighbors s)\<rparr> else s
             | None \<Rightarrow>
                 if nib_joined (nw_nib s) then
                   let (seq, s1) = next_sequence s
                   in snd (send_command_unicast E (command_header s1 a 1 seq)
                        (Leave \<lparr>lv_rejoin = True, lv_request = True, lv_remove_children = False\<rparr>) a True True TkCommand s1)
                 else s))"

definition on_mac_poll_confirm :: "'g nwk_env \<Rightarrow> bool \<Rightarrow> 'g nwk \<Rightarrow> 'g nwk" where
  "on_mac_poll_confirm E success s =
     (if \<not> success \<and> nib_is_end_device (nw_nib s) \<and> nib_joined (nw_nib s) then parent_link_failure E s else s)"

end
