(* ===== verification/NwkJoin.thy ===== *)
theory NwkJoin
  imports NwkPower
begin

text \<open>
  Discovery, formation, joining as a child and accepting children, leaving, and the PAN identifier change:
  \<^verbatim>\<open>panweave-nwk/src/layer/join.rs\<close>. The channels of an energy scan are ordered by a stable sort, one of the orders
  that \<^verbatim>\<open>sort_unstable_by_key\<close> may produce.
\<close>

section \<open>Scans\<close>

record superframe_spec =
  sf_beacon_order :: u8
  sf_superframe_order :: u8
  sf_final_cap_slot :: u8
  sf_battery_life_extension :: bool
  sf_pan_coordinator :: bool
  sf_association_permit :: bool

record mac_beacon =
  mb_superframe :: superframe_spec
  mb_pending_short :: u8
  mb_pending_extended :: u8
  mb_payload :: bytes

definition mac_extended :: "mac_address \<Rightarrow> extended_address option" where
  "mac_extended a = (case a of MacExtended e \<Rightarrow> Some e | _ \<Rightarrow> None)"

definition MAX_APPENDIX :: nat where
  "MAX_APPENDIX = 24"

definition DISCOVERY_TABLE_SIZE :: nat where
  "DISCOVERY_TABLE_SIZE = 6"

definition network_discovery_with :: "'g nwk_env \<Rightarrow> channel_mask \<Rightarrow> u8 \<Rightarrow> bool \<Rightarrow> bool option \<Rightarrow> ('g nwk, nwk_error, unit) step" where
  "network_discovery_with E chans dur only_permit enhanced s =
     (if nw_scan s \<noteq> None then (Inl ErrBusy, s)
      else
        let cs = supported_subset chans (nw_interfaces s) in
        if mask_is_empty cs then (Inl ErrInvalidParameter, s)
        else
          let s1 = push_action E MacResetTxPower (s\<lparr>nw_discovery := [],
                     nw_survey := \<lparr>sv_total = 0, sv_on_network = 0, sv_potential_parents = 0, sv_other_networks = 0\<rparr>\<rparr>);
              s2 = s1\<lparr>nw_scan := Some \<lparr>sc_purpose = SpDiscovery, sc_channels = cs, sc_duration = dur, sc_only_permit_join = only_permit\<rparr>\<rparr>;
              ebr = (case enhanced of
                       Some b \<Rightarrow> b
                     | None \<Rightarrow> cfg_enhanced_beacon_requests (nw_config s2)
                               \<or> (\<exists>i \<in> set (it_enabled (nw_interfaces s2)). if_scan_type i = EnhancedActiveScan));
              request = (if \<not> ebr then None
                         else if nib_extended_pan_id (nw_nib s2) \<noteq> 0 \<and> \<not> only_permit
                         then Some (ebr_rejoining (nib_extended_pan_id (nw_nib s2)) (nib_network_address (nw_nib s2)) None)
                         else Some (ebr_joining None))
          in (Inr (), push_action E (MacScan ScanActive cs dur request) s2))"

definition network_discovery :: "'g nwk_env \<Rightarrow> channel_mask \<Rightarrow> u8 \<Rightarrow> bool \<Rightarrow> ('g nwk, nwk_error, unit) step" where
  "network_discovery E chans dur only_permit s = network_discovery_with E chans dur only_permit None s"

definition energy_scan :: "'g nwk_env \<Rightarrow> channel_mask \<Rightarrow> u8 \<Rightarrow> ('g nwk, nwk_error, unit) step" where
  "energy_scan E chans dur s =
     (if nw_scan s \<noteq> None then (Inl ErrBusy, s)
      else
        let cs = supported_subset chans (nw_interfaces s) in
        if mask_is_empty cs \<or> 5 < dur then (Inl ErrInvalidParameter, s)
        else (Inr (), push_action E (MacScan ScanEnergy cs dur None)
               (s\<lparr>nw_scan := Some \<lparr>sc_purpose = SpEnergyDetect, sc_channels = cs, sc_duration = dur, sc_only_permit_join = False\<rparr>\<rparr>)))"

definition report_pan_id_conflict :: "'g nwk \<Rightarrow> 'g nwk" where
  "report_pan_id_conflict s =
     (if \<not> nib_joined (nw_nib s) \<or> \<not> is_router_or_coordinator (nw_nib s) then s
      else upd_nib (\<lambda>n. n\<lparr>nib_pan_id_conflict_count := saturating_add (nib_pan_id_conflict_count n) 1\<rparr>) s)"

definition upd_survey :: "(survey_counts \<Rightarrow> survey_counts) \<Rightarrow> 'g nwk \<Rightarrow> 'g nwk" where
  "upd_survey f s = s\<lparr>nw_survey := f (nw_survey s)\<rparr>"

definition count_other :: "bool \<Rightarrow> 'g nwk \<Rightarrow> 'g nwk" where
  "count_other surveying s =
     (if surveying then upd_survey (\<lambda>v. v\<lparr>sv_other_networks := saturating_add (sv_other_networks v) 1\<rparr>) s else s)"

definition candidate_of :: "pan_id \<Rightarrow> mac_address \<Rightarrow> short_address \<Rightarrow> mac_beacon \<Rightarrow> beacon_payload \<Rightarrow> channel \<Rightarrow> channel_page \<Rightarrow> u8 \<Rightarrow> candidate" where
  "candidate_of src_pan src short b payload c page lqi =
     (let appendix = appendix_tlvs payload; info = Option.bind appendix router_information_of in
      \<lparr>cd_extended_pan_id = bp_extended_pan_id payload, cd_pan_id = src_pan, cd_page = page, cd_channel = c,
       cd_short = short, cd_extended = mac_extended src, cd_lqa = lqi, cd_update_id = bp_update_id payload,
       cd_router_capacity = bp_router_capacity payload, cd_end_device_capacity = bp_end_device_capacity payload,
       cd_permit_joining = sf_association_permit (mb_superframe b), cd_pan_coordinator = sf_pan_coordinator (mb_superframe b),
       cd_router_info = info, cd_r23 = (appendix \<noteq> None \<and> info \<noteq> None), cd_appendix = take MAX_APPENDIX (bp_appendix payload),
       cd_attempts = 0\<rparr>)"

definition note_formation_beacon :: "pan_id \<Rightarrow> channel \<Rightarrow> formation_state \<Rightarrow> formation_state" where
  "note_formation_beacon src_pan c f =
     f\<lparr>fo_networks_per_channel := (if unat c < length (fo_networks_per_channel f)
          then (fo_networks_per_channel f)[unat c := saturating_add (fo_networks_per_channel f ! unat c) 1]
          else fo_networks_per_channel f),
       fo_seen_pan_ids := (if src_pan \<in> set (fo_seen_pan_ids f) then fo_seen_pan_ids f
                           else push_all 16 (fo_seen_pan_ids f) [src_pan])\<rparr>"

definition on_mac_beacon :: "'g nwk_env \<Rightarrow> pan_id \<Rightarrow> mac_address \<Rightarrow> mac_beacon \<Rightarrow> channel \<Rightarrow> channel_page \<Rightarrow> u8 \<Rightarrow> 'g nwk \<Rightarrow> 'g nwk" where
  "on_mac_beacon E src_pan src b c page lqi s0 =
     (let surveying = (case nw_scan s0 of Some x \<Rightarrow> sc_purpose x = SpDiscovery | None \<Rightarrow> False);
          s = (if surveying then upd_survey (\<lambda>v. v\<lparr>sv_total := saturating_add (sv_total v) 1\<rparr>) s0 else s0)
      in case decode_exact beacon_decode (mb_payload b) of
           Inl _ \<Rightarrow> count_other surveying s
         | Inr payload \<Rightarrow>
             if mb_payload b = [] \<or> \<not> is_zigbee_pro payload then count_other surveying s
             else
               let nib = nw_nib s;
                   s1 = (if \<not> surveying then s
                         else if nib_joined nib \<and> bp_extended_pan_id payload = nib_extended_pan_id nib
                         then upd_survey (\<lambda>v. v\<lparr>sv_on_network := saturating_add (sv_on_network v) 1,
                                sv_potential_parents := (if bp_end_device_capacity payload then saturating_add (sv_potential_parents v) 1
                                                         else sv_potential_parents v)\<rparr>) s
                         else count_other True s)
               in case map_option sc_purpose (nw_scan s1) of
                    Some SpDiscovery \<Rightarrow>
                      if (case nw_scan s1 of Some x \<Rightarrow> sc_only_permit_join x | None \<Rightarrow> False)
                         \<and> \<not> sf_association_permit (mb_superframe b) then s1
                      else if nib_extended_pan_id nib \<noteq> 0 \<and> bp_extended_pan_id payload \<noteq> nib_extended_pan_id nib then s1
                      else (case src of
                              MacShort short \<Rightarrow>
                                s1\<lparr>nw_discovery := dt_add (cap_discovery E) (candidate_of src_pan src short b payload c page lqi)
                                     (nib_update_id nib) (if nib_is_end_device nib then Some (nib_parent_address nib) else None) (nw_discovery s1)\<rparr>
                            | _ \<Rightarrow> s1)
                  | Some SpFormationActive \<Rightarrow> s1\<lparr>nw_formation := map_option (note_formation_beacon src_pan c) (nw_formation s1)\<rparr>
                  | Some SpPanIdConflict \<Rightarrow>
                      let s2 = s1\<lparr>nw_formation := map_option (note_formation_beacon src_pan c) (nw_formation s1)\<rparr>
                      in if src_pan = nib_pan_id nib \<and> bp_extended_pan_id payload \<noteq> nib_extended_pan_id nib
                         then report_pan_id_conflict s2 else s2
                  | _ \<Rightarrow>
                      if nib_joined nib \<and> src_pan = nib_pan_id nib \<and> bp_extended_pan_id payload \<noteq> nib_extended_pan_id nib
                         \<and> is_router_or_coordinator nib
                      then report_pan_id_conflict s1 else s1)"

section \<open>Formation\<close>

definition network_formation_with ::
  "'g nwk_env \<Rightarrow> channel_mask \<Rightarrow> u8 \<Rightarrow> bool \<Rightarrow> pan_id option \<Rightarrow> short_address option \<Rightarrow> ('g nwk, nwk_error, unit) step" where
  "network_formation_with E chans dur distributed pan short s =
     (if (case pan of Some p \<Rightarrow> \<not> is_valid_for_formation p | None \<Rightarrow> False) then (Inl ErrInvalidParameter, s)
      else if (case short of Some a \<Rightarrow> \<not> is_unicast a | None \<Rightarrow> False) then (Inl ErrInvalidParameter, s)
      else if nib_joined (nw_nib s) \<or> nw_scan s \<noteq> None then (Inl ErrInvalidRequest, s)
      else
        let cs = supported_subset chans (nw_interfaces s) in
        if mask_is_empty cs then (Inl ErrInvalidParameter, s)
        else if \<not> distributed \<and> nib_device_type (nw_nib s) \<noteq> Coordinator then (Inl ErrInvalidRequest, s)
        else if distributed \<and> \<not> is_router_or_coordinator (nw_nib s) then (Inl ErrInvalidRequest, s)
        else
          let single = (length (mask_iter cs) = 1);
              s1 = s\<lparr>nw_formation := Some \<lparr>fo_channels = cs, fo_energy = replicate 27 0, fo_networks_per_channel = replicate 27 0,
                       fo_seen_pan_ids = [], fo_distributed = distributed, fo_pan_id = pan, fo_short = short\<rparr>,
                     nw_scan := Some \<lparr>sc_purpose = (if single then SpFormationActive else SpFormationEnergy), sc_channels = cs,
                       sc_duration = dur, sc_only_permit_join = False\<rparr>\<rparr>
          in (Inr (), push_action E (MacScan (if single then ScanActive else ScanEnergy) cs dur None) s1))"

definition network_formation :: "'g nwk_env \<Rightarrow> channel_mask \<Rightarrow> u8 \<Rightarrow> bool \<Rightarrow> ('g nwk, nwk_error, unit) step" where
  "network_formation E chans dur distributed s = network_formation_with E chans dur distributed None None s"

definition best_channel :: "formation_state \<Rightarrow> (channel \<times> u8 \<times> u8) option" where
  "best_channel f =
     foldl (\<lambda>best c.
        let n = fo_networks_per_channel f ! unat c; e = fo_energy f ! unat c in
        case best of
          None \<Rightarrow> Some (c, n, e)
        | Some (_, bn, be) \<Rightarrow> if n < bn \<or> (n = bn \<and> e < be) then Some (c, n, e) else best) None (mask_iter (fo_channels f))"

fun draw_pan_id :: "nat \<Rightarrow> ('g \<Rightarrow> u16 \<times> 'g) \<Rightarrow> (pan_id \<Rightarrow> bool) \<Rightarrow> 'g \<Rightarrow> pan_id option \<times> 'g" where
  "draw_pan_id 0 rng ok g = (None, g)"
| "draw_pan_id (Suc n) rng ok g =
     (let (p, g') = rng g in if is_valid_for_formation p \<and> ok p then (Some p, g') else draw_pan_id n rng ok g')"

definition formation_failed :: "'g nwk_env \<Rightarrow> 'g nwk \<Rightarrow> 'g nwk" where
  "formation_failed E s = push_event E (EvFormationConfirm NsStartupFailure) s"

definition finish_formation :: "'g nwk_env \<Rightarrow> 'g nwk \<Rightarrow> 'g nwk" where
  "finish_formation E s0 =
     (case nw_formation s0 of
        None \<Rightarrow> s0
      | Some f \<Rightarrow>
          let s = s0\<lparr>nw_formation := None\<rparr> in
          case best_channel f of
            None \<Rightarrow> formation_failed E s
          | Some (c, _, _) \<Rightarrow>
              let (pan, s1) = (case fo_pan_id f of
                    Some p \<Rightarrow> (Some p, s)
                  | None \<Rightarrow> (let (r, g) = draw_pan_id 16 (env_u16 E) (\<lambda>p. p \<notin> set (fo_seen_pan_ids f)) (nw_rng s)
                             in (r, s\<lparr>nw_rng := g\<rparr>)))
              in case pan of
                   None \<Rightarrow> formation_failed E s1
                 | Some pan_id \<Rightarrow>
                     let (short, s2) =
                           (if \<not> fo_distributed f then (0, s1)
                            else case fo_short f of
                              Some a \<Rightarrow> (a, s1)
                            | None \<Rightarrow> (let (r, g) = allocate_stochastic (env_u16 E) (\<lambda>_. False) (nw_rng s1)
                                       in (case r of Some a \<Rightarrow> a | None \<Rightarrow> 1, s1\<lparr>nw_rng := g\<rparr>)));
                         s3 = (if nib_extended_pan_id (nw_nib s2) \<noteq> 0 then s2
                               else if fo_distributed f
                               then (let (v, g) = env_u64 E (nw_rng s2)
                                     in upd_nib (\<lambda>n. n\<lparr>nib_extended_pan_id := v OR 1\<rparr>) (s2\<lparr>nw_rng := g\<rparr>))
                               else upd_nib (\<lambda>n. n\<lparr>nib_extended_pan_id := nib_ieee_address n\<rparr>) s2);
                         s4 = note_channel_in_use (upd_nib (\<lambda>n. n\<lparr>nib_pan_id := pan_id, nib_channel := c\<rparr>) s3);
                         s5 = upd_nib (\<lambda>n. n\<lparr>nib_network_address := short, nib_joined := True, nib_authenticated := True,
                                nib_router_started := True, nib_depth := 0\<rparr>) s4;
                         s6 = refresh_power_delta_schedule E (s5\<lparr>nw_operating_since := Some (nw_now s5),
                                nw_link_status_due := Some (instant_add (nw_now s5) (nib_link_status_period (nw_nib s5)))\<rparr>);
                         s7 = push_action E (MacStart pan_id (nib_channel_page (nw_nib s6)) c short (\<not> fo_distributed f) True)
                                (s6\<lparr>nw_child_age_last := nw_now s6\<rparr>)
                     in push_event E (EvFormationConfirm NsSuccess) (push_action E Persist (update_beacon_payload E s7)))"

section \<open>Joining: the child's side\<close>

definition upd_join :: "(join_state \<Rightarrow> join_state) \<Rightarrow> 'g nwk \<Rightarrow> 'g nwk" where
  "upd_join f s = s\<lparr>nw_join := map_option f (nw_join s)\<rparr>"

definition max_parent_attempts :: "join_state \<Rightarrow> 'g nwk \<Rightarrow> u8" where
  "max_parent_attempts j s =
     (if jp_rejoin (js_params j) then nib_max_rejoin_parent_attempts (nw_nib s)
      else nib_max_initial_join_parent_attempts (nw_nib s))"

definition finish_join :: "'g nwk_env \<Rightarrow> nwk_status \<Rightarrow> 'g nwk \<Rightarrow> 'g nwk" where
  "finish_join E status s =
     (let rejoin = (case nw_join s of Some j \<Rightarrow> jp_rejoin (js_params j) | None \<Rightarrow> False);
          s1 = s\<lparr>nw_join := None\<rparr>;
          s2 = (if \<not> rejoin
                then push_action E (MacSetPanId 0xFFFF) (upd_nib (\<lambda>n. n\<lparr>nib_pan_id := 0xFFFF, nib_network_address := 0xFFFE\<rparr>) s1)
                else s1)
      in push_event E (EvJoinConfirm status (nib_network_address (nw_nib s2)) (nib_extended_pan_id (nw_nib s2)) rejoin False) s2)"

definition rank_candidates :: "bool \<Rightarrow> 'g nwk \<Rightarrow> 'g nwk" where
  "rank_candidates good_only s =
     (case nw_join s of
        None \<Rightarrow> s
      | Some j \<Rightarrow>
          let p = js_params j;
              q = \<lparr>rk_extended_pan_id = jp_extended_pan_id p, rk_as_router = jp_as_router p,
                   rk_require_permit = jp_require_permit p, rk_good_lqa = nib_good_parent_lqa (nw_nib s),
                   rk_good_only = good_only, rk_update_id = nib_update_id (nw_nib s),
                   rk_parent = (if nib_is_end_device (nw_nib s) \<and> jp_rejoin p then Some (nib_parent_address (nw_nib s)) else None),
                   rk_max_attempts = max_parent_attempts j s\<rparr>
          in upd_join (\<lambda>j. j\<lparr>js_candidates := take DISCOVERY_TABLE_SIZE (dt_ranked q (nw_discovery s)), js_next := 0\<rparr>) s)"

text \<open>
  The first half of \<^verbatim>\<open>try_next_parent\<close>: rank the candidates of the current pass when there are none left, move on to
  the marginal ones, give up when these are used up too, and tune to the chosen parent.
\<close>

definition refill_candidates :: "join_state \<Rightarrow> 'g nwk \<Rightarrow> 'g nwk" where
  "refill_candidates j s =
     (if js_next j < length (js_candidates j) \<or> js_pass j \<noteq> 0 then s
      else
        let s1 = (if js_next j = 0 \<and> js_candidates j = [] then rank_candidates True s else s)
        in case nw_join s1 of
             Some j1 \<Rightarrow> if length (js_candidates j1) \<le> js_next j1
                         then rank_candidates False (upd_join (\<lambda>j. j\<lparr>js_pass := 1\<rparr>) s1) else s1
           | None \<Rightarrow> s1)"

definition snapshot_of :: "candidate \<Rightarrow> parent_snapshot" where
  "snapshot_of c =
     \<lparr>ps_short = cd_short c, ps_extended = cd_extended c, ps_pan_id = cd_pan_id c, ps_extended_pan_id = cd_extended_pan_id c,
      ps_page = cd_page c, ps_channel = cd_channel c, ps_r23 = cd_r23 c, ps_update_id = cd_update_id c, ps_lqa = cd_lqa c\<rparr>"

definition select_parent :: "'g nwk_env \<Rightarrow> 'g nwk \<Rightarrow> (join_state \<times> parent_snapshot) option \<times> 'g nwk" where
  "select_parent E s =
     (case nw_join s of
        None \<Rightarrow> (None, s)
      | Some j \<Rightarrow>
          if max_parent_attempts j s \<le> js_attempts j then (None, finish_join E NsNoNetworks s)
          else
            let s1 = refill_candidates j s in
            case nw_join s1 of
              None \<Rightarrow> (None, s1)
            | Some j1 \<Rightarrow>
                if length (js_candidates j1) \<le> js_next j1
                then (None, finish_join E (if nw_discovery s1 = [] then NsNoNetworks else NsNotPermitted) s1)
                else
                  let i = js_candidates j1 ! js_next j1;
                      j2 = j1\<lparr>js_next := js_next j1 + 1, js_attempts := js_attempts j1 + 1\<rparr>
                  in if length (nw_discovery s1) \<le> i then (None, s1\<lparr>nw_join := Some j2\<rparr>)
                     else
                       let snap = snapshot_of (nw_discovery s1 ! i);
                           j3 = j2\<lparr>js_current := Some snap\<rparr>;
                           s2 = s1\<lparr>nw_join := Some j3,
                                   nw_discovery := dt_update i (\<lambda>c. c\<lparr>cd_attempts := saturating_add (cd_attempts c) 1\<rparr>) (nw_discovery s1)\<rparr>;
                           s3 = push_action E (MacSetChannel (ps_page snap) (ps_channel snap)) s2
                       in (Some (j3, snap), upd_nib (\<lambda>n. n\<lparr>nib_channel := ps_channel snap, nib_channel_page := ps_page snap\<rparr>) s3))"

definition ensure_self_address :: "'g nwk_env \<Rightarrow> 'g nwk \<Rightarrow> short_address \<times> 'g nwk" where
  "ensure_self_address E s =
     (let a = nib_network_address (nw_nib s) in
      if is_unicast a \<and> a \<noteq> 0 then (a, s)
      else let (r, g) = allocate_stochastic (env_u16 E) (\<lambda>_. False) (nw_rng s);
               b = (case r of Some x \<Rightarrow> x | None \<Rightarrow> 0x1000)
           in (b, upd_nib (\<lambda>n. n\<lparr>nib_network_address := b\<rparr>) (s\<lparr>nw_rng := g\<rparr>)))"

definition announce_self :: "'g nwk_env \<Rightarrow> parent_snapshot \<Rightarrow> 'g nwk \<Rightarrow> short_address \<times> 'g nwk" where
  "announce_self E p s =
     (let (my, s1) = ensure_self_address E s
      in (my, push_action E (MacSetShortAddress my) (push_action E (MacSetPanId (ps_pan_id p))
            (upd_nib (\<lambda>n. n\<lparr>nib_pan_id := ps_pan_id p\<rparr>) s1))))"

definition to_parent :: "parent_snapshot \<Rightarrow> nwk_header \<Rightarrow> nwk_header" where
  "to_parent p h = (case ps_extended p of Some e \<Rightarrow> with_dst_ieee e h | None \<Rightarrow> h)"

text \<open>
  The two requests, up to their transmission: the result says whether the frame was accepted. What follows a refused
  one is \<^verbatim>\<open>on_join_request_sent(false)\<close>, added below.
\<close>

definition rejoin_request :: "'g nwk_env \<Rightarrow> parent_snapshot \<Rightarrow> bool \<Rightarrow> mac_capability \<Rightarrow> 'g nwk \<Rightarrow> bool \<times> 'g nwk" where
  "rejoin_request E p secure capability s =
     (let (my, s1) = announce_self E p s;
          (seq, s2) = next_sequence s1;
          h = to_parent p (secured (secure \<and> cfg_security_enabled (nw_config s2))
                (with_src_ieee (nib_ieee_address (nw_nib s2)) (nh_new FtCommand (ps_short p) my 1 seq)));
          (r, s3) = send_command_unicast E h (RejoinRequest capability) (ps_short p) secure False TkJoinRequest
                      (upd_join (\<lambda>j. j\<lparr>js_phase := RequestSent\<rparr>) s2)
      in (\<not> isl r, s3))"

definition joiner_tlvs :: "short_address \<Rightarrow> bool \<Rightarrow> bool \<Rightarrow> extended_address \<Rightarrow> bytes" where
  "joiner_tlvs my rejoin virtual_device ieee =
     (let (_, w) = write_encapsulation TAG_JOINER_ENCAPSULATION
            (step_try (fragmentation_parameters_write my 0 0x80) (\<lambda>_.
             step_try (if \<not> rejoin \<or> virtual_device then key_negotiation_write 0x03 0x02 (Some ieee) else step_ok ()) (\<lambda>_.
             if virtual_device then device_capability_write 0x0001 else step_ok ())))
            (w_new (replicate 40 0))
      in take (w_pos w) (w_buf w))"

definition commissioning_request :: "'g nwk_env \<Rightarrow> parent_snapshot \<Rightarrow> bool \<Rightarrow> bool \<Rightarrow> mac_capability \<Rightarrow> 'g nwk \<Rightarrow> bool \<times> 'g nwk" where
  "commissioning_request E p rejoin secure capability s =
     (let (my, s1) = announce_self E p s;
          (seq, s2) = next_sequence s1;
          h = to_parent p (secured (rejoin \<and> secure \<and> cfg_security_enabled (nw_config s2))
                (with_src_ieee (nib_ieee_address (nw_nib s2)) (nh_new FtCommand (ps_short p) my 1 seq)));
          cmd = CommissioningRequest \<lparr>cq_kind = (if rejoin then CommRejoin else InitialJoin), cq_capability = capability,
                  cq_tlvs = joiner_tlvs my rejoin (nw_virtual_device s2) (nib_ieee_address (nw_nib s2))\<rparr>;
          (r, s3) = send_command_unicast E h cmd (ps_short p) (rejoin \<and> secure) False TkJoinRequest
                      (upd_join (\<lambda>j. j\<lparr>js_phase := RequestSent\<rparr>) s2)
      in (\<not> isl r, s3))"

definition start_attach :: "'g nwk_env \<Rightarrow> join_state \<Rightarrow> parent_snapshot \<Rightarrow> 'g nwk \<Rightarrow> bool \<times> 'g nwk" where
  "start_attach E j snap s =
     (let p = js_params j in
      if ps_r23 snap
      then commissioning_request E snap (jp_rejoin p) (js_secure j) (jp_capability p) (upd_join (\<lambda>j. j\<lparr>js_used_commissioning := True\<rparr>) s)
      else if jp_rejoin p then rejoin_request E snap (js_secure j) (jp_capability p) s
      else (True, push_action E (MacAssociate (ps_pan_id snap) (ps_short snap) (ps_page snap) (ps_channel snap) (jp_capability p))
              (push_action E (MacSetPanId (ps_pan_id snap))
                (upd_nib (\<lambda>n. n\<lparr>nib_pan_id := ps_pan_id snap\<rparr>) (upd_join (\<lambda>j. j\<lparr>js_phase := Associating\<rparr>) s)))))"

text \<open>The mutual recursion of \<^verbatim>\<open>try_next_parent\<close> and \<^verbatim>\<open>on_join_request_sent\<close> ends with the attempts.\<close>

definition attempts_left :: "'g nwk \<Rightarrow> nat" where
  "attempts_left s =
     (case nw_join s of None \<Rightarrow> 0 | Some j \<Rightarrow> unat (max_parent_attempts j s) - unat (js_attempts j))"

definition attach_once :: "'g nwk_env \<Rightarrow> 'g nwk \<Rightarrow> bool \<times> 'g nwk" where
  "attach_once E s =
     (case select_parent E s of
        (None, s1) \<Rightarrow> (False, s1)
      | (Some (j, snap), s1) \<Rightarrow> (let (sent, s2) = start_attach E j snap s1 in (\<not> sent, s2)))"

lemma nib_core_field:
  assumes "nib_core n = nib_core m" and "\<And>k. f (nib_core k) = f k"
  shows "f n = f m"
  using assms by metis

lemma attempts_left_keeps: "tx_keeps s t \<Longrightarrow> attempts_left t = attempts_left s"
proof -
  assume k: "tx_keeps s t"
  then have n: "nib_core (nw_nib t) = nib_core (nw_nib s)" and j: "nw_join t = nw_join s" by (auto simp: tx_keeps_def)
  have "nib_max_rejoin_parent_attempts (nw_nib t) = nib_max_rejoin_parent_attempts (nw_nib s)"
    "nib_max_initial_join_parent_attempts (nw_nib t) = nib_max_initial_join_parent_attempts (nw_nib s)"
    by (rule nib_core_field[OF n], simp add: nib_core_def)+
  with j show ?thesis by (simp add: attempts_left_def max_parent_attempts_def split: option.split)
qed

lemma attempts_left_send: "attempts_left (snd (send_command_unicast E h c m b i k s)) = attempts_left s"
  by (rule attempts_left_keeps) (intro keeps_intros)

lemma attempts_left_simps [simp]:
  "attempts_left (push_action E a s) = attempts_left s"
  "attempts_left (upd_nib (\<lambda>n. n\<lparr>nib_pan_id := x\<rparr>) s) = attempts_left s"
  "attempts_left (upd_nib (\<lambda>n. n\<lparr>nib_channel := y, nib_channel_page := z\<rparr>) s) = attempts_left s"
  "attempts_left (upd_join (\<lambda>j. j\<lparr>js_phase := ph\<rparr>) s) = attempts_left s"
  "attempts_left (upd_join (\<lambda>j. j\<lparr>js_used_commissioning := b\<rparr>) s) = attempts_left s"
  "attempts_left (upd_join (\<lambda>j. j\<lparr>js_pass := v\<rparr>) s) = attempts_left s"
  "attempts_left (rank_candidates good s) = attempts_left s"
  "attempts_left (refill_candidates j s) = attempts_left s"
  "attempts_left (snd (announce_self E p s)) = attempts_left s"
  "attempts_left (snd (next_sequence s)) = attempts_left s"
  by (auto simp: attempts_left_def push_action_def upd_nib_def upd_join_def rank_candidates_def refill_candidates_def
      announce_self_def ensure_self_address_def next_sequence_def max_parent_attempts_def Let_def option.map_comp o_def
      split: option.split prod.split)

lemma attempts_left_attach: "attempts_left (snd (start_attach E j p s)) = attempts_left s"
  by (simp add: attempts_left_send start_attach_def commissioning_request_def rejoin_request_def Let_def case_prod_beta)

text \<open>Ranking the candidates touches neither the attempts nor the information base.\<close>

definition join_view :: "'g nwk \<Rightarrow> (join_params \<times> u8) option \<times> nib" where
  "join_view s = (map_option (\<lambda>j. (js_params j, js_attempts j)) (nw_join s), nw_nib s)"

lemma join_view_rank [simp]: "join_view (rank_candidates g s) = join_view s"
  by (simp add: join_view_def rank_candidates_def upd_join_def Let_def option.map_comp o_def split: option.split)

lemma join_view_pass [simp]: "join_view (upd_join (\<lambda>j. j\<lparr>js_pass := v\<rparr>) s) = join_view s"
  by (simp add: join_view_def upd_join_def option.map_comp o_def)

lemma join_view_refill: "join_view (refill_candidates j s) = join_view s"
  by (simp add: refill_candidates_def Let_def split: option.split)

lemma select_parent_progress:
  assumes "select_parent E s = (Some x, t)"
  shows "attempts_left t < attempts_left s"
proof -
  obtain j where j: "nw_join s = Some j" and a: "js_attempts j < max_parent_attempts j s"
    using assms by (auto simp: select_parent_def not_le split: option.splits if_splits)
  obtain j1 where j1: "nw_join (refill_candidates j s) = Some j1" "js_attempts j1 = js_attempts j"
    "js_params j1 = js_params j" "nw_nib (refill_candidates j s) = nw_nib s"
    using join_view_refill[of j s] j by (auto simp: join_view_def)
  have "unat (js_attempts j + 1) = Suc (unat (js_attempts j))"
    using a unsigned_less[of "max_parent_attempts j s", where ?'a = nat] by (simp add: unat_word_ariths word_less_nat_alt)
  with assms j j1 a show ?thesis
    by (auto simp: select_parent_def Let_def attempts_left_def max_parent_attempts_def word_less_nat_alt
        push_action_def upd_nib_def split: if_splits)
qed

lemma attach_once_progress: "attach_once E s = (True, t) \<Longrightarrow> attempts_left t < attempts_left s"
  by (auto simp: attach_once_def Let_def dest!: select_parent_progress split: option.splits prod.splits)
     (metis (no_types, lifting) attempts_left_attach snd_conv)

definition request_sent :: "'g nwk \<Rightarrow> bool" where
  "request_sent s \<longleftrightarrow> (case nw_join s of Some j \<Rightarrow> js_phase j = RequestSent | None \<Rightarrow> False)"

function try_next_parent :: "'g nwk_env \<Rightarrow> 'g nwk \<Rightarrow> 'g nwk" where
  "try_next_parent E s =
     (case attach_once E s of
        (True, s1) \<Rightarrow> if request_sent s1 then try_next_parent E s1 else s1
      | (False, s1) \<Rightarrow> s1)"
  by pat_completeness auto
termination
  by (relation "measure (\<lambda>(E, s). attempts_left s)") (auto dest!: attach_once_progress[OF sym])

declare try_next_parent.simps [simp del]

end
