(* ===== verification/NwkAttach.thy ===== *)
theory NwkAttach
  imports NwkJoin
begin

text \<open>
  The rest of \<^verbatim>\<open>panweave-nwk/src/layer/join.rs\<close>: completing a join, the network key, the parent's side of joining and
  rejoining, leaving, and the PAN identifier change.
\<close>

section \<open>Leaving\<close>

definition remove_child :: "'g nwk_env \<Rightarrow> extended_address \<Rightarrow> 'g nwk \<Rightarrow> 'g nwk" where
  "remove_child E child s =
     (case remove_extended child (nw_neighbors s) of
        (None, t) \<Rightarrow> s\<lparr>nw_neighbors := t\<rparr>
      | (Some n, t) \<Rightarrow>
          let s1 = s\<lparr>nw_neighbors := t, nw_routes := snd (rt_remove (ne_short n) (nw_routes s)),
                     nw_address_map := am_remove_extended child (nw_address_map s),
                     nw_security := (nw_security s)\<lparr>ns_incoming := incoming_remove child (ns_incoming (nw_security s))\<rparr>\<rparr>
          in push_event E (EvChildRemoved child) (push_action E Persist (update_beacon_payload E s1)))"

definition local_leave :: "'g nwk_env \<Rightarrow> bool \<Rightarrow> 'g nwk \<Rightarrow> 'g nwk" where
  "local_leave E rejoin s =
     (let s1 = s\<lparr>nw_join := None, nw_pending := [], nw_bcast_bufs := [], nw_pending_rreq := [], nw_rdt := [], nw_btt := [],
                 nw_routes := [], nw_source_routes := [], nw_permit_until := None, nw_link_status_due := None,
                 nw_power_delta_due := None, nw_power_request := None, nw_operating_since := None, nw_keepalive_due := None\<rparr>;
          s2 = (if rejoin
                then upd_nib (\<lambda>n. n\<lparr>nib_joined := False, nib_authenticated := False, nib_router_started := False\<rparr>)
                       (s1\<lparr>nw_neighbors := nt_retain (\<lambda>n. ne_relationship n = Parent) (nw_neighbors s1)\<rparr>)
                else push_action E (MacSetShortAddress 0xFFFE) (push_action E (MacSetPanId 0xFFFF)
                       (upd_nib clear_for_leave (s1\<lparr>nw_neighbors := (nw_neighbors s1)\<lparr>nt_entries := []\<rparr>, nw_address_map := [],
                          nw_security := clear_keys (nw_security s1)\<rparr>))))
      in push_action E Persist (push_action E (MacSetPermit False) s2))"

definition on_leave_sent :: "'g nwk_env \<Rightarrow> extended_address option \<Rightarrow> nwk_status \<Rightarrow> 'g nwk \<Rightarrow> 'g nwk" where
  "on_leave_sent E device status s =
     (case device of
        None \<Rightarrow>
          let rejoin = (case nw_leaving_rejoin s of Some b \<Rightarrow> b | None \<Rightarrow> False)
          in local_leave E rejoin (push_event E (EvLeaveConfirm None None status) (s\<lparr>nw_leaving_rejoin := None\<rparr>))
      | Some child \<Rightarrow>
          let short = map_option ne_short (by_extended child (nw_neighbors s))
          in push_event E (EvLeaveConfirm (Some child) short status) (remove_child E child s))"

definition nlme_leave :: "'g nwk_env \<Rightarrow> extended_address option \<Rightarrow> bool \<Rightarrow> bool \<Rightarrow> ('g nwk, nwk_error, unit) step" where
  "nlme_leave E device rejoin remove_children s =
     (if \<not> nib_joined (nw_nib s) then (Inl ErrInvalidRequest, s)
      else case (case device of Some d \<Rightarrow> if d = nib_ieee_address (nw_nib s) then None else Some d | None \<Rightarrow> None) of
        None \<Rightarrow>
          let (seq, s1) = next_sequence s;
              ed = nib_is_end_device (nw_nib s1);
              dst = (if ed then nib_parent_address (nw_nib s1) else 0xFFFF);
              h = command_header s1 dst 1 seq;
              cmd = Leave \<lparr>lv_rejoin = rejoin, lv_request = False, lv_remove_children = (remove_children \<and> \<not> ed)\<rparr>;
              s2 = s1\<lparr>nw_leaving_rejoin := Some rejoin\<rparr>
          in if ed then
               (let (r, s3) = send_command_unicast E h cmd dst True False (TkLeave None) s2
                in (Inr (), if isl r then on_leave_sent E None NsSuccess s3 else s3))
             else (Inr (), on_leave_sent E None NsSuccess (snd (send_command_broadcast_once E h cmd True s2)))
      | Some child \<Rightarrow>
          if \<not> is_router_or_coordinator (nw_nib s) then (Inl ErrInvalidRequest, s)
          else case by_extended child (nw_neighbors s) of
            None \<Rightarrow> (Inl ErrInvalidParameter, s)
          | Some n \<Rightarrow>
              if \<not> is_child (ne_relationship n) then (Inl ErrInvalidParameter, s)
              else if ne_relationship n = UnauthenticatedChild
              then (Inr (), push_event E (EvLeaveConfirm (Some child) (Some (ne_short n)) NsSuccess) (remove_child E child s))
              else
                let (seq, s1) = next_sequence s;
                    h = with_dst_ieee child (command_header s1 (ne_short n) 1 seq);
                    cmd = Leave \<lparr>lv_rejoin = rejoin, lv_request = True, lv_remove_children = remove_children\<rparr>
                in send_command_unicast E h cmd (ne_short n) True (ne_is_end_device n \<and> \<not> ne_rx_on_when_idle n) (TkLeave (Some child)) s1)"

definition own_leave_indication :: "'g nwk_env \<Rightarrow> bool \<Rightarrow> 'g nwk \<Rightarrow> 'g nwk" where
  "own_leave_indication E rejoin s = push_event E (EvLeaveIndication None None False rejoin) s"

definition on_leave_command :: "'g nwk_env \<Rightarrow> command_context \<Rightarrow> leave \<Rightarrow> 'g nwk \<Rightarrow> 'g nwk" where
  "on_leave_command E ctx lv s =
     (if \<not> cc_secured ctx then s
      else if \<not> lv_request lv then
        (case cc_src_ieee ctx of
           None \<Rightarrow> s
         | Some src_ieee \<Rightarrow>
             if (case by_extended src_ieee (nw_neighbors s) of Some n \<Rightarrow> ne_relationship n = Parent | None \<Rightarrow> False)
                \<and> lv_remove_children lv
             then
               let s1 = push_event E (EvLeaveIndication (Some src_ieee) (Some (cc_src ctx)) False (lv_rejoin lv)) s
               in if is_router_or_coordinator (nw_nib s1)
                  then snd (nlme_leave E None (lv_rejoin lv) (lv_remove_children lv) s1)
                  else local_leave E (lv_rejoin lv) (own_leave_indication E (lv_rejoin lv) s1)
             else
               let child = (case by_extended src_ieee (nw_neighbors s) of Some n \<Rightarrow> is_child (ne_relationship n) | None \<Rightarrow> False);
                   s1 = push_event E (EvLeaveIndication (Some src_ieee) (Some (cc_src ctx)) child (lv_rejoin lv)) s
               in if child then remove_child E src_ieee s1
                  else s1\<lparr>nw_neighbors := snd (remove_extended src_ieee (nw_neighbors s1)),
                          nw_address_map := am_remove_extended src_ieee (nw_address_map s1)\<rparr>)
      else if nib_is_coordinator (nw_nib s) \<or> is_broadcast (cc_dst ctx) then s
      else if is_router_or_coordinator (nw_nib s) then
        (if \<not> nib_leave_request_allowed (nw_nib s) then s
         else if \<not> lv_rejoin lv \<and> \<not> nib_leave_request_without_rejoin_allowed (nw_nib s) then s
         else snd (nlme_leave E None (lv_rejoin lv) (lv_remove_children lv) (own_leave_indication E (lv_rejoin lv) s)))
      else if \<not> (case by_short (cc_mac_src ctx) (nw_neighbors s) of Some n \<Rightarrow> ne_relationship n = Parent | None \<Rightarrow> False) then s
      else local_leave E (lv_rejoin lv) (own_leave_indication E (lv_rejoin lv) s))"

definition send_leave_to_unknown_child :: "'g nwk_env \<Rightarrow> short_address \<Rightarrow> 'g nwk \<Rightarrow> 'g nwk" where
  "send_leave_to_unknown_child E target s =
     (let (seq, s1) = next_sequence s
      in snd (send_command_unicast E (command_header s1 target 1 seq)
           (Leave \<lparr>lv_rejoin = True, lv_request = True, lv_remove_children = False\<rparr>) target True False TkCommand s1))"

section \<open>Completing a join\<close>

definition after_authenticated :: "'g nwk_env \<Rightarrow> 'g nwk \<Rightarrow> 'g nwk" where
  "after_authenticated E s =
     (let s1 = s\<lparr>nw_child_age_last := nw_now s\<rparr>;
          s2 = (if nib_is_end_device (nw_nib s1) then send_end_device_timeout_request E s1 else s1)
      in refresh_power_delta_schedule E s2)"

definition mark_authenticated :: "'g nwk_env \<Rightarrow> 'g nwk \<Rightarrow> 'g nwk" where
  "mark_authenticated E s =
     (let s1 = update_parent (\<lambda>n. n\<lparr>ne_security_timer_secs := 0\<rparr>) (upd_nib (\<lambda>n. n\<lparr>nib_authenticated := True\<rparr>) s);
          s2 = (case nw_join s1 of
                  Some j \<Rightarrow> (case js_phase j of AwaitingKey _ \<Rightarrow> s1\<lparr>nw_join := None, nw_discovery := []\<rparr> | _ \<Rightarrow> s1)
                | None \<Rightarrow> s1)
      in after_authenticated E s2)"

definition authorize_without_network_key :: "'g nwk_env \<Rightarrow> 'g nwk \<Rightarrow> 'g nwk" where
  "authorize_without_network_key E s =
     (if nib_joined (nw_nib s) \<and> \<not> nib_authenticated (nw_nib s) then mark_authenticated E s else s)"

definition set_network_key :: "'g nwk_env \<Rightarrow> key_sequence \<Rightarrow> key128 \<Rightarrow> bool \<Rightarrow> 'g nwk \<Rightarrow> 'g nwk" where
  "set_network_key E sequence key active s =
     (if \<not> active
      then nw_maybe_reserve_counter E (push_action E Persist (s\<lparr>nw_security := install_key sequence key (nw_security s)\<rparr>))
      else
        let s1 = push_action E Persist (nw_maybe_reserve_counter E (s\<lparr>nw_security := install_active_key sequence key (nw_security s)\<rparr>))
        in if nib_joined (nw_nib s1) \<and> \<not> nib_authenticated (nw_nib s1) then mark_authenticated E s1 else s1)"

definition switch_network_key :: "'g nwk_env \<Rightarrow> key_sequence \<Rightarrow> 'g nwk \<Rightarrow> bool \<times> 'g nwk" where
  "switch_network_key E sequence s =
     (let previous = map_option nk_sequence (nk_active_slot (ns_keys (nw_security s)));
          (ok, sec) = switch_key sequence (nw_security s);
          s1 = s\<lparr>nw_security := sec\<rparr>
      in (ok, if ok
              then push_event E (EvKeySwitched (case previous of Some p \<Rightarrow> if p = sequence then None else Some p | None \<Rightarrow> None) sequence)
                     (push_action E Persist (nw_maybe_reserve_counter E s1))
              else s1))"

definition finish_join_success :: "'g nwk_env \<Rightarrow> bool \<Rightarrow> bool \<Rightarrow> 'g nwk \<Rightarrow> 'g nwk" where
  "finish_join_success E rejoin sec s =
     (let s1 = push_action E Persist (s\<lparr>nw_join := None, nw_discovery := [], nw_child_age_last := nw_now s\<rparr>)
      in after_authenticated E (push_event E
           (EvJoinConfirm NsSuccess (nib_network_address (nw_nib s1)) (nib_extended_pan_id (nw_nib s1)) rejoin sec) s1))"

definition parent_entry :: "extended_address \<Rightarrow> short_address \<Rightarrow> u8 \<Rightarrow> neighbor_entry" where
  "parent_entry ext short lqa =
     (ne_new ext short (if short = 0 then Coordinator else Router) True Parent lqa)\<lparr>ne_outgoing_cost := 1\<rparr>"

definition complete_join :: "'g nwk_env \<Rightarrow> parent_snapshot \<Rightarrow> short_address \<Rightarrow> bool \<Rightarrow> 'g nwk \<Rightarrow> 'g nwk" where
  "complete_join E p short sec s =
     (case nw_join s of
        None \<Rightarrow> s
      | Some j \<Rightarrow>
          let rejoin = jp_rejoin (js_params j);
              parent_ext = (case ps_extended p of Some e \<Rightarrow> e | None \<Rightarrow> 0);
              s1 = note_channel_in_use (upd_nib (\<lambda>n. n\<lparr>nib_network_address := short, nib_pan_id := ps_pan_id p,
                     nib_extended_pan_id := ps_extended_pan_id p, nib_update_id := ps_update_id p,
                     nib_channel := ps_channel p, nib_channel_page := ps_page p\<rparr>) s);
              s2 = upd_nib (\<lambda>n. n\<lparr>nib_parent_address := ps_short p, nib_parent_ieee := parent_ext, nib_joined := True,
                     nib_authenticated := sec, nib_router_started := False\<rparr>) s1;
              s3 = s2\<lparr>nw_operating_since := Some (nw_now s2)\<rparr>;
              e = parent_entry parent_ext (ps_short p) (ps_lqa p);
              e' = (if sec then e else e\<lparr>ne_security_timer_secs := 10\<rparr>);
              kept = nt_retain (\<lambda>n. ne_relationship n \<noteq> Parent
                       \<and> (parent_ext = 0 \<or> ne_short n \<noteq> ps_short p \<or> ne_extended n = parent_ext)) (nw_neighbors s3);
              s4 = snd (ensure_neighbor E e' (s3\<lparr>nw_neighbors := kept\<rparr>));
              s5 = fold (push_action E) [MacSetPanId (ps_pan_id p), MacSetShortAddress short,
                     MacSetCoordinator (ps_short p) parent_ext, MacSetRxOnWhenIdle (nib_rx_on_when_idle (nw_nib s4))] s4;
              s6 = s5\<lparr>nw_power_delta_due := None, nw_power_request := None\<rparr>
          in if sec then finish_join_success E rejoin True s6
             else push_event E (EvJoinConfirm NsSuccess short (ps_extended_pan_id p) rejoin False)
                    (push_action E Persist (upd_join (\<lambda>j. j\<lparr>js_phase := AwaitingKey (instant_add (nw_now s6) SECURITY_TIMEOUT)\<rparr>) s6)))"

definition on_join_request_sent :: "'g nwk_env \<Rightarrow> bool \<Rightarrow> 'g nwk \<Rightarrow> 'g nwk" where
  "on_join_request_sent E ok s =
     (case nw_join s of
        None \<Rightarrow> s
      | Some j \<Rightarrow>
          if js_phase j \<noteq> RequestSent then s
          else if \<not> ok then try_next_parent E s
          else
            let s1 = upd_join (\<lambda>j. j\<lparr>js_phase := AwaitingResponse (instant_add (nw_now s) response_wait_time) False\<rparr>) s
            in if cap_rx_on_when_idle (jp_capability (js_params j)) then s1
               else push_action E MacPoll (push_action E (MacSetCoordinator
                      (case js_current j of Some c \<Rightarrow> ps_short c | None \<Rightarrow> 0xFFFE)
                      (case Option.bind (js_current j) ps_extended of Some e \<Rightarrow> e | None \<Rightarrow> 0)) s1))"

definition send_commissioning_request :: "'g nwk_env \<Rightarrow> parent_snapshot \<Rightarrow> bool \<Rightarrow> bool \<Rightarrow> mac_capability \<Rightarrow> 'g nwk \<Rightarrow> 'g nwk" where
  "send_commissioning_request E p rejoin secure capability s =
     (let (sent, s1) = commissioning_request E p rejoin secure capability s
      in if sent then s1 else on_join_request_sent E False s1)"

definition new_join :: "join_params \<Rightarrow> bool \<Rightarrow> parent_snapshot option \<Rightarrow> bool \<Rightarrow> join_state" where
  "new_join params secure current commissioning =
     \<lparr>js_params = params, js_secure = secure, js_candidates = [], js_next = 0, js_pass = 0, js_current = current,
      js_phase = SelectParent, js_attempts = 0, js_used_commissioning = commissioning\<rparr>"

definition nlme_join :: "'g nwk_env \<Rightarrow> join_params \<Rightarrow> ('g nwk, nwk_error, unit) step" where
  "nlme_join E params s =
     (if nw_join s \<noteq> None then (Inl ErrBusy, s)
      else if \<not> jp_rejoin params \<and> nib_joined (nw_nib s) then (Inl ErrInvalidRequest, s)
      else if jp_rejoin params \<and> jp_secure params \<and> \<not> nk_has_active (ns_keys (nw_security s)) then (Inl ErrInvalidRequest, s)
      else
        let s1 = upd_nib (\<lambda>n. n\<lparr>nib_capability_information := jp_capability params,
               nib_rx_on_when_idle := cap_rx_on_when_idle (jp_capability params), nib_parent_information := 0\<rparr>) s;
            s2 = s1\<lparr>nw_join := Some (new_join params (jp_rejoin params \<and> jp_secure params) None False)\<rparr>
        in (Inr (), if nw_scan s2 = None then try_next_parent E s2 else s2))"

definition join_via_trusted_link ::
  "'g nwk_env \<Rightarrow> u8 \<Rightarrow> extended_address \<Rightarrow> short_address \<Rightarrow> pan_id \<Rightarrow> extended_address \<Rightarrow> join_params \<Rightarrow> ('g nwk, nwk_error, unit) step" where
  "join_via_trusted_link E link parent parent_short pan epid params s =
     (if nw_join s \<noteq> None \<or> nw_scan s \<noteq> None then (Inl ErrInvalidRequest, s)
      else if \<not> jp_rejoin params \<and> nib_joined (nw_nib s) then (Inl ErrInvalidRequest, s)
      else
        let e = (parent_entry parent parent_short 255)\<lparr>ne_link := Some link\<rparr>;
            kept = nt_retain (\<lambda>n. ne_relationship n \<noteq> Parent \<and> ne_extended n \<noteq> parent) (nw_neighbors s);
            (ok, s1) = ensure_neighbor E e (s\<lparr>nw_neighbors := kept\<rparr>)
        in if \<not> ok then (Inl ErrBusy, s1)
           else
             let s2 = upd_nib (\<lambda>n. n\<lparr>nib_extended_pan_id := epid\<rparr>) s1;
                 snap = \<lparr>ps_short = parent_short, ps_extended = Some parent, ps_pan_id = pan, ps_extended_pan_id = epid,
                         ps_page = nib_channel_page (nw_nib s2), ps_channel = nib_channel (nw_nib s2), ps_r23 = True,
                         ps_update_id = nib_update_id (nw_nib s2), ps_lqa = 255\<rparr>;
                 s3 = s2\<lparr>nw_join := Some (new_join params (jp_secure params) (Some snap) True), nw_virtual_device := True\<rparr>
             in (Inr (), send_commissioning_request E snap (jp_rejoin params) (jp_secure params) (jp_capability params) s3))"

definition on_mac_associate_confirm :: "'g nwk_env \<Rightarrow> short_address \<Rightarrow> mac_status \<Rightarrow> 'g nwk \<Rightarrow> 'g nwk" where
  "on_mac_associate_confirm E short status s =
     (case nw_join s of
        None \<Rightarrow> s
      | Some j \<Rightarrow>
          if js_phase j \<noteq> Associating then s
          else case js_current j of
                 None \<Rightarrow> s
               | Some p \<Rightarrow> if status = MAC_SUCCESS \<and> is_unicast short then complete_join E p short False s
                           else try_next_parent E s)"

definition start_router :: "'g nwk_env \<Rightarrow> ('g nwk, nwk_error, unit) step" where
  "start_router E s =
     (if \<not> is_router_or_coordinator (nw_nib s) \<or> \<not> nib_joined (nw_nib s) \<or> \<not> nib_authenticated (nw_nib s)
      then (Inl ErrInvalidRequest, s)
      else
        let s1 = upd_nib (\<lambda>n. n\<lparr>nib_router_started := True\<rparr>) s;
            n = nw_nib s1;
            s2 = update_beacon_payload E (push_action E (MacStart (nib_pan_id n) (nib_channel_page n) (nib_channel n)
                   (nib_network_address n) (nib_is_coordinator n) True) s1);
            s3 = s2\<lparr>nw_neighbors := (nw_neighbors s2)\<lparr>nt_entries :=
                   map (\<lambda>e. if ne_relationship e = Parent then e\<lparr>ne_relationship := Sibling\<rparr> else e) (nt_entries (nw_neighbors s2))\<rparr>\<rparr>;
            (j, s4) = jitter E MIN_ROUTER_BOOTSTRAP_JITTER MAX_ROUTER_BOOTSTRAP_JITTER s3;
            s5 = refresh_power_delta_schedule E (s4\<lparr>nw_link_status_due := Some (instant_add (nw_now s4) j)\<rparr>)
        in (Inr (), push_event E (EvStartRouterConfirm NsSuccess) s5))"

definition service_join :: "'g nwk_env \<Rightarrow> instant \<Rightarrow> 'g nwk \<Rightarrow> 'g nwk" where
  "service_join E now s =
     (case nw_join s of
        None \<Rightarrow> s
      | Some j \<Rightarrow>
          (case js_phase j of
             AwaitingResponse deadline polled \<Rightarrow>
               if has_reached now deadline then try_next_parent E s
               else if \<not> polled \<and> \<not> cap_rx_on_when_idle (jp_capability (js_params j))
                       \<and> saturating_duration_until now deadline \<le> duration_div response_wait_time 2
               then push_action E MacPoll (upd_join (\<lambda>j. j\<lparr>js_phase := AwaitingResponse deadline True\<rparr>) s)
               else s
           | AwaitingKey deadline \<Rightarrow>
               if has_reached now deadline
               then local_leave E False (push_event E (EvJoinConfirm NsNoKey (nib_network_address (nw_nib s))
                      (nib_extended_pan_id (nw_nib s)) False False) (push_event E EvAuthenticationTimeout (s\<lparr>nw_join := None\<rparr>)))
               else s
           | _ \<Rightarrow> s))"

definition join_deadline :: "'g nwk \<Rightarrow> instant option" where
  "join_deadline s =
     (case nw_join s of
        None \<Rightarrow> None
      | Some j \<Rightarrow> (case js_phase j of AwaitingResponse d _ \<Rightarrow> Some d | AwaitingKey d \<Rightarrow> Some d | _ \<Rightarrow> None))"

definition STATUS_ADDRESS_CONFLICT :: mac_status where
  "STATUS_ADDRESS_CONFLICT = 0xF0"

definition accept_join_response :: "'g nwk_env \<Rightarrow> command_context \<Rightarrow> short_address \<Rightarrow> mac_status \<Rightarrow> 'g nwk \<Rightarrow> 'g nwk" where
  "accept_join_response E ctx address status s =
     (case nw_join s of
        None \<Rightarrow> s
      | Some j \<Rightarrow>
          (case js_current j of
             None \<Rightarrow> s
           | Some p \<Rightarrow>
               if (case js_phase j of AwaitingResponse _ _ \<Rightarrow> False | _ \<Rightarrow> True) then s
               else if (case cc_dst_ieee ctx of Some d \<Rightarrow> d \<noteq> nib_ieee_address (nw_nib s) | None \<Rightarrow> False) then s
               else if (case (ps_extended p, cc_src_ieee ctx) of (Some x, Some y) \<Rightarrow> x \<noteq> y | _ \<Rightarrow> False) then s
               else if cc_src ctx \<noteq> ps_short p then s
               else if \<not> cc_secured ctx \<and> js_secure j then s
               else if status = MAC_SUCCESS
               then complete_join E (if ps_extended p = None then p\<lparr>ps_extended := cc_src_ieee ctx\<rparr> else p) address (cc_secured ctx) s
               else if status = STATUS_ADDRESS_CONFLICT
               then try_next_parent E (upd_join (\<lambda>j. j\<lparr>js_next := js_next j - 1\<rparr>) (upd_nib (\<lambda>n. n\<lparr>nib_network_address := address\<rparr>) s))
               else try_next_parent E s))"

definition on_rejoin_response :: "'g nwk_env \<Rightarrow> command_context \<Rightarrow> rejoin_response \<Rightarrow> 'g nwk \<Rightarrow> 'g nwk" where
  "on_rejoin_response E ctx rsp s =
     (if nw_join s \<noteq> None then accept_join_response E ctx (rj_address rsp) (rj_status rsp) s
      else if \<not> cc_secured ctx \<or> cc_src ctx \<noteq> nib_parent_address (nw_nib s) \<or> \<not> nib_is_end_device (nw_nib s) then s
      else if rj_status rsp = MAC_SUCCESS \<and> is_unicast (rj_address rsp) \<and> rj_address rsp \<noteq> nib_network_address (nw_nib s)
      then push_event E (EvNetworkStatus (rj_address rsp) NetworkAddressUpdate) (push_action E Persist
             (push_action E (MacSetShortAddress (rj_address rsp)) (upd_nib (\<lambda>n. n\<lparr>nib_network_address := rj_address rsp\<rparr>) s)))
      else s)"

definition on_commissioning_response :: "'g nwk_env \<Rightarrow> command_context \<Rightarrow> commissioning_response \<Rightarrow> 'g nwk \<Rightarrow> 'g nwk" where
  "on_commissioning_response E ctx rsp s =
     (if nw_join s \<noteq> None then accept_join_response E ctx (cr_address rsp) (cr_status rsp) s else s)"

definition on_mac_scan_confirm :: "'g nwk_env \<Rightarrow> scan_kind \<Rightarrow> u8 list \<Rightarrow> 'g nwk \<Rightarrow> 'g nwk" where
  "on_mac_scan_confirm E kind energy s0 =
     (case nw_scan s0 of
        None \<Rightarrow> s0
      | Some scan \<Rightarrow>
          let s = s0\<lparr>nw_scan := None\<rparr> in
          (case (sc_purpose scan, kind) of
             (SpDiscovery, ScanActive) \<Rightarrow>
               let s1 = push_event E (EvDiscoveryConfirm (if nw_discovery s = [] then NsNoNetworks else NsSuccess)) s
               in if (case nw_join s1 of Some j \<Rightarrow> js_phase j = SelectParent | None \<Rightarrow> False) then try_next_parent E s1 else s1
           | (SpFormationEnergy, ScanEnergy) \<Rightarrow>
               (case nw_formation s of
                  None \<Rightarrow> s
                | Some f \<Rightarrow>
                    let chans = sort_key (\<lambda>c. energy ! unat c) (mask_iter (sc_channels scan));
                        keep = max ((length chans + 1) div 2) 1;
                        m = foldl mask_with 0 (take keep chans)
                    in push_action E (MacScan ScanActive m (sc_duration scan) None)
                         (s\<lparr>nw_formation := Some (f\<lparr>fo_energy := energy, fo_channels := m\<rparr>),
                            nw_scan := Some \<lparr>sc_purpose = SpFormationActive, sc_channels = m, sc_duration = sc_duration scan,
                                             sc_only_permit_join = False\<rparr>\<rparr>))
           | (SpFormationActive, ScanActive) \<Rightarrow> finish_formation E s
           | (SpPanIdConflict, ScanActive) \<Rightarrow> s\<lparr>nw_formation := None\<rparr>
           | (SpEnergyDetect, ScanEnergy) \<Rightarrow> push_event E (EvEnergyScanConfirm (sc_channels scan) energy) s
           | _ \<Rightarrow> s))"

section \<open>Joining: the parent's side\<close>

definition has_child_capacity :: "'g nwk_env \<Rightarrow> bool \<Rightarrow> 'g nwk \<Rightarrow> bool" where
  "has_child_capacity E router s \<longleftrightarrow>
     has_neighbor_slot E s
     \<and> \<not> (router \<and> \<not> (case interface_for (nib_channel_page (nw_nib s)) (nib_channel (nw_nib s)) (nw_interfaces s) of
                           Some e \<Rightarrow> if_routers_allowed e | None \<Rightarrow> True))
     \<and> child_count (nw_neighbors s) < unat (nib_max_children (nw_nib s))
     \<and> \<not> (router \<and> unat (nib_max_routers (nw_nib s)) \<le> router_child_count (nw_neighbors s))"

definition address_conflicts :: "short_address \<Rightarrow> extended_address \<Rightarrow> 'g nwk \<Rightarrow> bool" where
  "address_conflicts short ext s \<longleftrightarrow>
     short = nib_network_address (nw_nib s)
     \<or> (case by_short short (nw_neighbors s) of Some n \<Rightarrow> ne_extended n \<noteq> ext | None \<Rightarrow> False)
     \<or> (case extended_for short (nw_address_map s) of Some e \<Rightarrow> e \<noteq> ext | None \<Rightarrow> False)"

definition child_entry :: "extended_address \<Rightarrow> short_address \<Rightarrow> mac_capability \<Rightarrow> relationship \<Rightarrow> u8 \<Rightarrow> neighbor_entry" where
  "child_entry device short capability rel lqi =
     ne_new device short (if cap_is_full_function_device capability then Router else EndDevice)
       (cap_rx_on_when_idle capability) rel lqi"

definition add_unauthenticated_child :: "'g nwk_env \<Rightarrow> extended_address \<Rightarrow> short_address \<Rightarrow> mac_capability \<Rightarrow> u8 \<Rightarrow> 'g nwk \<Rightarrow> 'g nwk" where
  "add_unauthenticated_child E device short capability lqi s =
     (let e = (ne_set_timeout (nib_end_device_timeout_default (nw_nib s))
                ((child_entry device short capability UnauthenticatedChild lqi)\<lparr>ne_security_timer_secs := 10\<rparr>))\<lparr>ne_outgoing_cost := 1\<rparr>;
          s1 = snd (ensure_neighbor E e s);
          s2 = s1\<lparr>nw_routes := snd (rt_remove short (nw_routes s1)),
                  nw_security := (nw_security s1)\<lparr>ns_incoming := incoming_remove device (ns_incoming (nw_security s1))\<rparr>\<rparr>
      in note_pair E device short s2)"

definition on_mac_associate_indication :: "'g nwk_env \<Rightarrow> extended_address \<Rightarrow> mac_capability \<Rightarrow> u8 \<Rightarrow> 'g nwk \<Rightarrow> 'g nwk" where
  "on_mac_associate_indication E device capability lqi s =
     (if \<not> is_router_or_coordinator (nw_nib s) \<or> \<not> nib_router_started (nw_nib s) then s
      else if \<not> is_permitting_joins s \<or> \<not> jl_allows device (nw_joining_list s)
      then push_action E (MacAssociateResponse device 0xFFFE MAC_PAN_ACCESS_DENIED) s
      else
        let accept = (\<lambda>short t. push_action E (MacAssociateResponse device short MAC_SUCCESS)
                        (add_unauthenticated_child E device short capability lqi t))
        in case by_extended device (nw_neighbors s) of
             Some n \<Rightarrow> accept (ne_short n) s
           | None \<Rightarrow>
               if \<not> has_child_capacity E (cap_is_full_function_device capability) s
               then push_action E (MacAssociateResponse device 0xFFFE MAC_PAN_AT_CAPACITY) s
               else (case allocate_address E s of
                       (Some a, s1) \<Rightarrow> accept a s1
                     | (None, s1) \<Rightarrow> push_action E (MacAssociateResponse device 0xFFFE MAC_PAN_AT_CAPACITY) s1))"

definition on_join_response_delivered :: "'g nwk_env \<Rightarrow> extended_address \<Rightarrow> bool \<Rightarrow> join_method \<Rightarrow> 'g nwk \<Rightarrow> 'g nwk" where
  "on_join_response_delivered E device ok m s =
     (case by_extended device (nw_neighbors s) of
        None \<Rightarrow> s
      | Some n \<Rightarrow>
          if \<not> is_child (ne_relationship n) then s
          else
            let cap = push_bit 1 (of_bool (ne_is_router n)) OR push_bit 3 (of_bool (ne_rx_on_when_idle n))
                      OR push_bit 2 (of_bool (ne_rx_on_when_idle n)) OR 0x80
            in if \<not> ok then
                 (if ne_relationship n = UnauthenticatedChild
                  then s\<lparr>nw_neighbors := snd (remove_extended device (nw_neighbors s)),
                         nw_address_map := am_remove_extended device (nw_address_map s)\<rparr>
                  else s)
               else
                 let tlvs = (case nw_pending_joiner_tlvs s of Some b \<Rightarrow> b | None \<Rightarrow> []);
                     s1 = push_action E Persist (update_beacon_payload E (s\<lparr>nw_pending_joiner_tlvs := None\<rparr>));
                     s2 = upd_stats (\<lambda>t. t\<lparr>st_join_indications := saturating_add (st_join_indications t) 1\<rparr>) s1
                 in push_event E (EvJoinIndication device (ne_short n) cap m tlvs) s2)"

definition on_mac_comm_status :: "'g nwk_env \<Rightarrow> extended_address \<Rightarrow> tx_status \<Rightarrow> 'g nwk \<Rightarrow> 'g nwk" where
  "on_mac_comm_status E device status s = on_join_response_delivered E device (status = TxSuccess) JmMacAssociation s"

definition attach_response_header :: "command_context \<Rightarrow> extended_address \<Rightarrow> 'g nwk \<Rightarrow> nwk_header \<times> 'g nwk" where
  "attach_response_header ctx device s =
     (let (seq, s1) = next_sequence s
      in (secured (cc_secured ctx \<and> cfg_security_enabled (nw_config s1))
            (with_dst_ieee device (with_src_ieee (nib_ieee_address (nw_nib s1))
               (nh_new FtCommand (cc_src ctx) (nib_network_address (nw_nib s1)) 1 seq))), s1))"

text \<open>
  \<^verbatim>\<open>send_rejoin_response\<close> and \<^verbatim>\<open>send_commissioning_response\<close> differ in the command only; the join method is that of a
  successful attach, whose delivery is indicated.
\<close>

definition send_attach_command :: "'g nwk_env \<Rightarrow> command_context \<Rightarrow> extended_address \<Rightarrow> nwk_command \<Rightarrow> tx_kind \<Rightarrow> 'g nwk \<Rightarrow> 'g nwk" where
  "send_attach_command E ctx device cmd k s =
     (let (h, s1) = attach_response_header ctx device s;
          indirect = (\<not> (case by_extended device (nw_neighbors s1) of Some n \<Rightarrow> ne_rx_on_when_idle n | None \<Rightarrow> False))
      in snd (send_command_unicast E h cmd (cc_src ctx) (cc_secured ctx) indirect k s1))"

definition attach_kind :: "extended_address \<Rightarrow> mac_status \<Rightarrow> join_method option \<Rightarrow> tx_kind" where
  "attach_kind device status m =
     (case m of Some x \<Rightarrow> if status = MAC_SUCCESS then TkJoinResponse device x else TkCommand | None \<Rightarrow> TkCommand)"

definition send_rejoin_response ::
  "'g nwk_env \<Rightarrow> command_context \<Rightarrow> extended_address \<Rightarrow> short_address \<Rightarrow> mac_status \<Rightarrow> join_method option \<Rightarrow> 'g nwk \<Rightarrow> 'g nwk" where
  "send_rejoin_response E ctx device address status m s =
     send_attach_command E ctx device (RejoinResponse \<lparr>rj_address = address, rj_status = status\<rparr>) (attach_kind device status m) s"

definition send_commissioning_response ::
  "'g nwk_env \<Rightarrow> command_context \<Rightarrow> extended_address \<Rightarrow> short_address \<Rightarrow> mac_status \<Rightarrow> join_method option \<Rightarrow> 'g nwk \<Rightarrow> 'g nwk" where
  "send_commissioning_response E ctx device address status m s =
     send_attach_command E ctx device (CommissioningResponse \<lparr>cr_address = address, cr_status = status, cr_tlvs = []\<rparr>)
       (attach_kind device status m) s"

definition send_attach_response ::
  "'g nwk_env \<Rightarrow> command_context \<Rightarrow> extended_address \<Rightarrow> short_address \<Rightarrow> mac_status \<Rightarrow> bool \<Rightarrow> 'g nwk \<Rightarrow> 'g nwk" where
  "send_attach_response E ctx device address status commissioning s =
     (if commissioning then send_commissioning_response E ctx device address status None s
      else send_rejoin_response E ctx device address status None s)"

definition send_attach_success :: "'g nwk_env \<Rightarrow> command_context \<Rightarrow> extended_address \<Rightarrow> short_address \<Rightarrow> join_method \<Rightarrow> 'g nwk \<Rightarrow> 'g nwk" where
  "send_attach_success E ctx device address m s =
     (if m = JmCommissioningJoin \<or> m = JmCommissioningRejoinSecured \<or> m = JmCommissioningRejoinUnsecured
      then send_commissioning_response E ctx device address MAC_SUCCESS (Some m) s
      else send_rejoin_response E ctx device address MAC_SUCCESS (Some m) s)"

definition attach_method :: "bool \<Rightarrow> bool \<Rightarrow> bool \<Rightarrow> join_method" where
  "attach_method commissioning initial sec =
     (if commissioning
      then if initial then JmCommissioningJoin else if sec then JmCommissioningRejoinSecured else JmCommissioningRejoinUnsecured
      else if sec then JmRejoinSecured else JmRejoinUnsecured)"

definition attached_entry ::
  "extended_address \<Rightarrow> short_address \<Rightarrow> mac_capability \<Rightarrow> bool \<Rightarrow> u8 \<Rightarrow> neighbor_entry option \<Rightarrow> 'g nwk \<Rightarrow> neighbor_entry" where
  "attached_entry device assigned capability sec lqi existing s =
     (let e0 = child_entry device assigned capability (if sec then Child else UnauthenticatedChild) lqi;
          e1 = (case existing of
                  Some old \<Rightarrow> e0\<lparr>ne_device_timeout_secs := ne_device_timeout_secs old,
                                 ne_timeout_counter_secs := ne_device_timeout_secs old,
                                 ne_end_device_configuration := ne_end_device_configuration old\<rparr>
                | None \<Rightarrow> e0);
          e2 = (if ne_device_timeout_secs e1 = 0 then ne_set_timeout (nib_end_device_timeout_default (nw_nib s)) e1 else e1);
          e3 = (if sec then e2 else e2\<lparr>ne_security_timer_secs := 10\<rparr>)
      in e3\<lparr>ne_outgoing_cost := 1, ne_link := map_option fst (nw_rx_link s)\<rparr>)"

definition handle_attach_request ::
  "'g nwk_env \<Rightarrow> command_context \<Rightarrow> extended_address \<Rightarrow> mac_capability \<Rightarrow> bool \<Rightarrow> bool \<Rightarrow> (bool \<times> bytes) option \<Rightarrow> 'g nwk \<Rightarrow> 'g nwk" where
  "handle_attach_request E ctx device capability commissioning sec info s =
     (let initial = (case info of Some (i, _) \<Rightarrow> i | None \<Rightarrow> False);
          m = attach_method commissioning initial sec;
          requested = cc_src ctx;
          router = cap_is_full_function_device capability;
          refuse = (\<lambda>status t. send_attach_response E ctx device requested status commissioning t);
          existing = by_extended device (nw_neighbors s)
      in if \<not> sec \<and> \<not> initial \<and> nw_distributed_network s then refuse MAC_PAN_ACCESS_DENIED s
         else if (case existing of
                    Some e \<Rightarrow> \<not> sec \<and> (ne_short e \<noteq> requested \<or> ne_is_router e \<noteq> router
                                        \<or> ne_rx_on_when_idle e \<noteq> cap_rx_on_when_idle capability) \<and> is_child (ne_relationship e)
                  | None \<Rightarrow> False)
         then refuse MAC_PAN_ACCESS_DENIED s
         else if existing = None \<and> \<not> has_child_capacity E router s then refuse MAC_PAN_AT_CAPACITY s
         else
           let conflict = (\<not> is_assignable requested \<or> address_conflicts requested device s);
               (assigned, s1) = (if conflict then allocate_address E s else (Some requested, s))
           in case assigned of
                None \<Rightarrow> refuse MAC_PAN_AT_CAPACITY s1
              | Some a \<Rightarrow>
                  if conflict \<and> commissioning
                  then send_commissioning_response E ctx device a STATUS_ADDRESS_CONFLICT None s1
                  else
                    let (ok, s2) = ensure_neighbor E (attached_entry device a capability sec (cc_lqi ctx) existing s1) s1
                    in if \<not> ok then refuse MAC_PAN_AT_CAPACITY s2
                       else
                         let s3 = note_pair E device a (s2\<lparr>nw_routes := snd (rt_remove a (nw_routes s2))\<rparr>);
                             s4 = (case info of Some (_, tlvs) \<Rightarrow> s3\<lparr>nw_pending_joiner_tlvs := Some tlvs\<rparr> | None \<Rightarrow> s3)
                         in send_attach_success E ctx device a m s4)"

definition on_rejoin_request :: "'g nwk_env \<Rightarrow> command_context \<Rightarrow> mac_capability \<Rightarrow> 'g nwk \<Rightarrow> 'g nwk" where
  "on_rejoin_request E ctx capability s =
     (if \<not> is_router_or_coordinator (nw_nib s) \<or> \<not> nib_router_started (nw_nib s) then s
      else case cc_src_ieee ctx of
        None \<Rightarrow> s
      | Some device \<Rightarrow>
          if cc_dst ctx \<noteq> nib_network_address (nw_nib s) then s
          else handle_attach_request E ctx device capability False (cc_secured ctx) None s)"

definition on_establish_trusted_link :: "'g nwk_env \<Rightarrow> command_context \<Rightarrow> extended_address \<Rightarrow> 'g nwk \<Rightarrow> 'g nwk" where
  "on_establish_trusted_link E ctx device s =
     (case nw_rx_link s of
        None \<Rightarrow> s
      | Some (link, _, _, _) \<Rightarrow>
          if \<not> cc_secured ctx then s
          else if cc_src ctx \<noteq> 0 \<or> nw_trust_center s \<noteq> Some device
          then send_commissioning_response E ctx device (cc_src ctx) MAC_PAN_ACCESS_DENIED None s
          else
            let e = (ne_new device 0 Router True Sibling (cc_lqi ctx))\<lparr>ne_outgoing_cost := 1, ne_link := Some link\<rparr>;
                (ok, s1) = ensure_neighbor E e (s\<lparr>nw_neighbors := snd (remove_extended device (nw_neighbors s))\<rparr>)
            in if \<not> ok then send_commissioning_response E ctx device (cc_src ctx) MAC_PAN_AT_CAPACITY None s1
               else
                 let s2 = note_pair E device 0 (s1\<lparr>nw_routes := snd (rt_remove 0 (nw_routes s1))\<rparr>)
                 in push_event E (EvTrustCenterLinked device link) (send_commissioning_response E ctx device 0 MAC_SUCCESS None s2))"

definition on_commissioning_request :: "'g nwk_env \<Rightarrow> command_context \<Rightarrow> commissioning_request \<Rightarrow> 'g nwk \<Rightarrow> 'g nwk" where
  "on_commissioning_request E ctx q s =
     (if \<not> is_router_or_coordinator (nw_nib s) \<or> \<not> nib_router_started (nw_nib s) then s
      else case cc_src_ieee ctx of
        None \<Rightarrow> s
      | Some device \<Rightarrow>
          if cc_dst ctx \<noteq> nib_network_address (nw_nib s) then s
          else
            let attach = (\<lambda>initial.
                  if initial \<and> cc_secured ctx then s
                  else if initial \<and> (\<not> is_permitting_joins s \<or> \<not> jl_allows device (nw_joining_list s))
                  then send_commissioning_response E ctx device (cc_src ctx) MAC_PAN_ACCESS_DENIED None s
                  else case tlv_validate (\<lambda>_. False) (cq_tlvs q) of
                         Inl _ \<Rightarrow> s
                       | Inr b \<Rightarrow>
                           let joiner = (case joiner_encapsulation b of Some x \<Rightarrow> x | None \<Rightarrow> [])
                           in handle_attach_request E ctx device (cq_capability q) True (cc_secured ctx)
                                (Some (initial, take MAX_JOINER_TLVS joiner)) s)
            in case cq_kind q of
                 InitialJoin \<Rightarrow> attach True
               | CommRejoin \<Rightarrow> attach False
               | EstablishTrustedLink \<Rightarrow> on_establish_trusted_link E ctx device s
               | OtherCommissioning _ \<Rightarrow> s)"

definition authenticate_child :: "'g nwk_env \<Rightarrow> extended_address \<Rightarrow> 'g nwk \<Rightarrow> 'g nwk" where
  "authenticate_child E device s =
     (case by_extended device (nw_neighbors s) of
        Some n \<Rightarrow>
          if ne_relationship n = UnauthenticatedChild \<or> ne_relationship n = UnauthorizedChildRelayAllowed
          then push_action E Persist (s\<lparr>nw_neighbors := update_extended device
                 (\<lambda>x. x\<lparr>ne_relationship := Child, ne_security_timer_secs := 0\<rparr>) (nw_neighbors s)\<rparr>)
          else s
      | None \<Rightarrow> s)"

definition refresh_child_security_timer :: "extended_address \<Rightarrow> 'g nwk \<Rightarrow> 'g nwk" where
  "refresh_child_security_timer device s =
     (case by_extended device (nw_neighbors s) of
        Some n \<Rightarrow>
          if ne_relationship n = UnauthenticatedChild
          then s\<lparr>nw_neighbors := update_extended device (\<lambda>x. x\<lparr>ne_security_timer_secs := 10\<rparr>) (nw_neighbors s)\<rparr> else s
      | None \<Rightarrow> s)"

definition set_security_model :: "bool \<Rightarrow> extended_address option \<Rightarrow> 'g nwk \<Rightarrow> 'g nwk" where
  "set_security_model distributed tc s =
     s\<lparr>nw_distributed_network := distributed, nw_trust_center := (if distributed then None else tc)\<rparr>"

section \<open>PAN identifier change\<close>

definition on_network_report :: "'g nwk_env \<Rightarrow> command_context \<Rightarrow> network_report \<Rightarrow> 'g nwk \<Rightarrow> 'g nwk" where
  "on_network_report E ctx r s =
     (if \<not> cc_secured ctx \<or> nr_epid r \<noteq> nib_extended_pan_id (nw_nib s) then s
      else if nib_manager_addr (nw_nib s) \<noteq> nib_network_address (nw_nib s) then s
      else if nr_report_id r \<noteq> 0 then s
      else push_event E (EvNetworkStatus (cc_src ctx) PanIdConflictReport) s)"

definition change_pan_id :: "'g nwk_env \<Rightarrow> ('g nwk, nwk_error, unit) step" where
  "change_pan_id E s =
     (let n = nw_nib s in
      if \<not> nib_joined n \<or> nib_manager_addr n \<noteq> nib_network_address n then (Inl ErrInvalidRequest, s)
      else if nw_pan_id_update s \<noteq> None then (Inl ErrBusy, s)
      else
        let staged = nib_next_pan_id n;
            (new, s1) = (if staged \<noteq> 0xFFFF \<and> staged \<noteq> nib_pan_id n then (Some staged, s)
                         else let (r, g) = draw_pan_id 16 (env_u16 E) (\<lambda>p. p \<noteq> nib_pan_id n) (nw_rng s) in (r, s\<lparr>nw_rng := g\<rparr>))
        in case new of
             None \<Rightarrow> (Inl ErrBusy, s1)
           | Some pan \<Rightarrow>
               let update_id = nib_update_id n + 1;
                   (seq, s2) = next_sequence s1;
                   h = command_header s2 0xFFFF DEFAULT_RADIUS seq;
                   cmd = NetworkUpdate \<lparr>nu_update_id = 0, nu_epid = nib_extended_pan_id (nw_nib s2), nu_nwk_update_id = update_id,
                                        nu_new_pan_id = pan\<rparr>;
                   s3 = (case build_command h cmd of
                           Inr (frame, header_len) \<Rightarrow> snd (originate_broadcast E frame header_len (cfg_security_enabled (nw_config s2)) s2)
                         | Inl _ \<Rightarrow> s2);
                   s4 = upd_nib (\<lambda>x. x\<lparr>nib_next_pan_id := pan\<rparr>) s3
               in (Inr (), s4\<lparr>nw_pan_id_update :=
                     Some (pan, update_id, instant_add (nw_now s4) (nib_broadcast_delivery_time (nw_nib s4)))\<rparr>))"

definition on_network_update :: "'g nwk_env \<Rightarrow> command_context \<Rightarrow> network_update \<Rightarrow> 'g nwk \<Rightarrow> 'g nwk" where
  "on_network_update E ctx u s =
     (let n = nw_nib s in
      if \<not> cc_secured ctx \<or> nu_epid u \<noteq> nib_extended_pan_id n then s
      else if cc_src ctx \<noteq> nib_manager_addr n then s
      else if nib_next_pan_id n \<noteq> 0xFFFF \<and> nib_next_pan_id n \<noteq> nu_new_pan_id u then s
      else if 0x80 \<le> nu_nwk_update_id u - nib_update_id n \<or> nu_nwk_update_id u = nib_update_id n then s
      else
        let s1 = upd_nib (\<lambda>x. x\<lparr>nib_next_pan_id := nu_new_pan_id u\<rparr>) s
        in s1\<lparr>nw_pan_id_update := Some (nu_new_pan_id u, nu_nwk_update_id u,
               instant_add (nw_now s1) (nib_broadcast_delivery_time (nw_nib s1)))\<rparr>)"

definition service_pan_id_update :: "'g nwk_env \<Rightarrow> instant \<Rightarrow> 'g nwk \<Rightarrow> 'g nwk" where
  "service_pan_id_update E now s =
     (case nw_pan_id_update s of
        None \<Rightarrow> s
      | Some (pan, uid, at) \<Rightarrow>
          if \<not> has_reached now at then s
          else
            let s1 = upd_nib (\<lambda>n. n\<lparr>nib_pan_id := pan, nib_update_id := uid, nib_next_pan_id := 0xFFFF\<rparr>) (s\<lparr>nw_pan_id_update := None\<rparr>);
                s2 = push_action E Persist (update_beacon_payload E (push_action E (MacSetPanId pan) s1))
            in push_event E (EvNetworkStatus (nib_network_address (nw_nib s2)) PanIdUpdate) (push_event E (EvPanIdChanged pan) s2))"

end
