(* ===== verification/NwkRoute.thy ===== *)
theory NwkRoute
  imports NwkAttach
begin

text \<open>
  The received side of routing, \<^verbatim>\<open>panweave-nwk/src/layer/route.rs\<close>: route requests and replies, route records, network
  status and link status commands. A handler that releases the frames waiting for a route returns an option, since
  that loop may not end.
\<close>

section \<open>Route requests\<close>

definition cost_from_neighbor :: "short_address \<Rightarrow> u8 \<Rightarrow> 'g nwk \<Rightarrow> u8 option" where
  "cost_from_neighbor sender lqi s =
     (case by_short sender (nw_neighbors s) of
        None \<Rightarrow> None
      | Some n \<Rightarrow>
          if ne_outgoing_cost n = 0 then None
          else Some (max (max (link_cost_from_lqa (max (lqa_value (ne_lqa n)) 1)) (link_cost_from_lqa lqi)) (ne_outgoing_cost n)))"

definition extended_of :: "short_address \<Rightarrow> 'g nwk \<Rightarrow> extended_address option" where
  "extended_of a s =
     (case by_short a (nw_neighbors s) of Some n \<Rightarrow> Some (ne_extended n) | None \<Rightarrow> extended_for a (nw_address_map s))"

definition send_route_reply :: "'g nwk_env \<Rightarrow> short_address \<Rightarrow> u8 \<Rightarrow> short_address \<Rightarrow> short_address \<Rightarrow> u8 \<Rightarrow> 'g nwk \<Rightarrow> 'g nwk" where
  "send_route_reply E originator i responder next_hop cost s =
     (let (seq, s1) = next_sequence (next_routing_sequence s);
          h0 = command_header s1 next_hop DEFAULT_RADIUS seq;
          h = (case extended_of next_hop s1 of Some e \<Rightarrow> with_dst_ieee e h0 | None \<Rightarrow> h0);
          responder_ieee = (if responder = nib_network_address (nw_nib s1) then Some (nib_ieee_address (nw_nib s1))
                            else extended_of responder s1);
          cmd = RouteReply \<lparr>rp_id = i, rp_originator = originator, rp_responder = responder, rp_path_cost = cost,
                  rp_originator_ieee = extended_for originator (nw_address_map s1), rp_responder_ieee = responder_ieee, rp_tlvs = []\<rparr>
      in snd (send_command_unicast E h cmd next_hop True False (TkRouteReply responder) s1))"

text \<open>The discovery table after a route request: \<open>None\<close> when the request is dropped.\<close>

definition note_route_request :: "'g nwk_env \<Rightarrow> command_context \<Rightarrow> route_request \<Rightarrow> u8 \<Rightarrow> 'g nwk \<Rightarrow> 'g nwk option" where
  "note_route_request E ctx q cost s =
     (case rd_get (cc_src ctx) (rq_id q) (nw_rdt s) of
        Some e \<Rightarrow>
          if de_forward_cost e < cost then None
          else if \<not> incoming_route_is_suitable (rt_get (cc_src ctx) (nw_routes s)) cost \<and> \<not> is_many_to_one (rq_many_to_one q)
          then None
          else Some (s\<lparr>nw_rdt := rd_update (cc_src ctx) (rq_id q) (\<lambda>x. x\<lparr>de_forward_cost := cost, de_sender := cc_mac_src ctx\<rparr>) (nw_rdt s)\<rparr>)
      | None \<Rightarrow>
          if \<not> has_capacity_for (cap_routes E) (cc_src ctx) (nw_routes s) then None
          else map_option (\<lambda>t. s\<lparr>nw_rdt := t\<rparr>)
                 (rd_insert (cap_route_discoveries E)
                    \<lparr>de_request_id = rq_id q, de_source = cc_src ctx, de_sender = cc_mac_src ctx, de_forward_cost = cost,
                     de_residual_cost = 0xFF, de_expires = instant_add (nw_now s) ROUTE_DISCOVERY_TIME,
                     de_destination = rq_dst q, de_local = False, de_confirmed = False\<rparr> (nw_now s) (nw_rdt s)))"

definition reverse_route :: "command_context \<Rightarrow> route_request \<Rightarrow> u8 \<Rightarrow> 'g nwk \<Rightarrow> route_entry" where
  "reverse_route ctx q cost s =
     (let old = rt_get (cc_src ctx) (nw_routes s);
          r0 = (case old of Some r \<Rightarrow> r | None \<Rightarrow> re_new (cc_src ctx) (cc_mac_src ctx) Active (nib_router_age_limit (nw_nib s)));
          r1 = r0\<lparr>re_next_hop := cc_mac_src ctx, re_status := Active, re_path_cost := cost\<rparr>
      in if \<not> is_many_to_one (rq_many_to_one q) then r1
         else
           let no_cache = (rq_many_to_one q = NoRouteCache);
               changed = (case old of Some o1 \<Rightarrow> re_next_hop o1 \<noteq> cc_mac_src ctx | None \<Rightarrow> True);
               secs = nib_concentrator_discovery_time_secs (nw_nib s)
           in r1\<lparr>re_many_to_one := True, re_no_route_cache := no_cache,
                 re_route_record_required := (if changed \<or> no_cache then True else re_route_record_required r1),
                 re_expired := False,
                 re_many_to_one_deadline :=
                   (if 0 < secs then Some (instant_add (instant_add (nw_now s) (from_secs (ucast secs))) ROUTE_DISCOVERY_TIME)
                    else None)\<rparr>)"

definition relay_route_request :: "'g nwk_env \<Rightarrow> command_context \<Rightarrow> route_request \<Rightarrow> u8 \<Rightarrow> 'g nwk \<Rightarrow> 'g nwk" where
  "relay_route_request E ctx q cost s =
     (if cc_radius ctx \<le> 1 then s
      else
        let dst = rq_dst q;
            s1 = (if is_many_to_one (rq_many_to_one q) then s
                  else case rt_get dst (nw_routes s) of
                    Some e \<Rightarrow> if re_status e \<noteq> Active
                               then s\<lparr>nw_routes := rt_update dst (\<lambda>x. x\<lparr>re_status := DiscoveryUnderway\<rparr>) (nw_routes s)\<rparr> else s
                  | None \<Rightarrow> (case rt_insert (cap_routes E) (re_new dst 0xFFFE DiscoveryUnderway (nib_router_age_limit (nw_nib s))) (nw_routes s) of
                               Some t \<Rightarrow> s\<lparr>nw_routes := t\<rparr> | None \<Rightarrow> s));
            h = secured (cfg_security_enabled (nw_config s1))
                  (with_src_ieee (case cc_src_ieee ctx of Some e \<Rightarrow> e | None \<Rightarrow> nib_ieee_address (nw_nib s1))
                     (nh_new FtCommand 0xFFFC (cc_src ctx) (cc_radius ctx - 1) (cc_sequence ctx)));
            cmd = RouteRequest \<lparr>rq_many_to_one = rq_many_to_one q, rq_id = rq_id q, rq_dst = dst, rq_path_cost = cost,
                    rq_dst_ieee = rq_dst_ieee q, rq_tlvs = []\<rparr>
        in case build_command h cmd of
             Inl _ \<Rightarrow> s1
           | Inr (frame, _) \<Rightarrow> snd (queue_rreq E frame RREQ_RETRIES RREQ_RETRY_INTERVAL False s1))"

definition on_route_request :: "'g nwk_env \<Rightarrow> command_context \<Rightarrow> route_request \<Rightarrow> 'g nwk \<Rightarrow> 'g nwk option" where
  "on_route_request E ctx q s0 =
     (let s = upd_stats (\<lambda>t. t\<lparr>st_route_requests := saturating_add (st_route_requests t) 1\<rparr>) s0;
          many = is_many_to_one (rq_many_to_one q)
      in if nib_is_end_device (nw_nib s) \<or> \<not> cc_secured ctx then Some s
         else if rq_many_to_one q = ReservedManyToOne then Some s
         else case cost_from_neighbor (cc_mac_src ctx) (cc_lqi ctx) s of
           None \<Rightarrow> Some s
         | Some link_cost \<Rightarrow>
             let cost = saturating_add (rq_path_cost q) link_cost;
                 is_destination = (\<not> many \<and> (rq_dst q = nib_network_address (nw_nib s) \<or> from_child_end_device (rq_dst q) s))
             in case note_route_request E ctx q cost s of
                  None \<Rightarrow> Some s
                | Some s1 \<Rightarrow>
                    let was_underway = (case rt_get (cc_src ctx) (nw_routes s1) of
                                          Some r \<Rightarrow> re_status r = DiscoveryUnderway | None \<Rightarrow> False)
                    in case rt_insert (cap_routes E) (reverse_route ctx q cost s1) (nw_routes s1) of
                         None \<Rightarrow> Some s1
                       | Some t \<Rightarrow>
                           let s2 = s1\<lparr>nw_routes := t\<rparr>
                           in Option.bind (if many \<and> was_underway then release_waiting E (cc_src ctx) s2 else Some s2) (\<lambda>s3.
                                Some (if is_destination
                                      then send_route_reply E (cc_src ctx) (rq_id q) (rq_dst q) (cc_mac_src ctx) link_cost s3
                                      else relay_route_request E ctx q cost s3)))"

section \<open>Route replies\<close>

definition note_reply_address :: "'g nwk_env \<Rightarrow> extended_address option \<Rightarrow> short_address \<Rightarrow> 'g nwk \<Rightarrow> 'g nwk" where
  "note_reply_address E e a s = (case e of Some x \<Rightarrow> note_address E x a True s | None \<Rightarrow> s)"

definition forward_route_reply :: "'g nwk_env \<Rightarrow> command_context \<Rightarrow> route_reply \<Rightarrow> u8 \<Rightarrow> discovery_entry \<Rightarrow> 'g nwk \<Rightarrow> 'g nwk" where
  "forward_route_reply E ctx r cost d s =
     (let next_hop = de_sender d;
          s1 = (case rt_get (rp_originator r) (nw_routes s) of
                  Some _ \<Rightarrow> s
                | None \<Rightarrow> (case rt_insert (cap_routes E)
                                   ((re_new (rp_originator r) next_hop Active (nib_router_age_limit (nw_nib s)))\<lparr>re_path_cost := de_forward_cost d\<rparr>)
                                   (nw_routes s) of
                              Some t \<Rightarrow> s\<lparr>nw_routes := t\<rparr> | None \<Rightarrow> s));
          hop_cost = (case by_short next_hop (nw_neighbors s1) of Some n \<Rightarrow> path_cost n | None \<Rightarrow> 7);
          (seq, s2) = next_sequence s1;
          radius = max (max (cc_radius ctx) 2 - 1) 1;
          h0 = command_header s2 next_hop radius seq;
          h = (case extended_of next_hop s2 of Some e \<Rightarrow> with_dst_ieee e h0 | None \<Rightarrow> h0);
          cmd = RouteReply (r\<lparr>rp_path_cost := saturating_add cost hop_cost, rp_tlvs := []\<rparr>)
      in snd (send_command_unicast E h cmd next_hop True False (TkRouteReply (rp_responder r)) s2))"

definition on_route_reply :: "'g nwk_env \<Rightarrow> command_context \<Rightarrow> route_reply \<Rightarrow> 'g nwk \<Rightarrow> 'g nwk option" where
  "on_route_reply E ctx r s0 =
     (if \<not> is_router_or_coordinator (nw_nib s0) \<or> \<not> cc_secured ctx then Some s0
      else case cost_from_neighbor (cc_mac_src ctx) (cc_lqi ctx) s0 of
        None \<Rightarrow> Some s0
      | Some link_cost \<Rightarrow>
          let my = nib_network_address (nw_nib s0);
              cost = saturating_add (rp_path_cost r) link_cost;
              age_limit = nib_router_age_limit (nw_nib s0);
              s = note_reply_address E (rp_responder_ieee r) (rp_responder r)
                    (note_reply_address E (rp_originator_ieee r) (rp_originator r) s0)
          in if rp_originator r = my then
               (case rd_get my (rp_id r) (nw_rdt s) of
                  None \<Rightarrow> Some s
                | Some d \<Rightarrow>
                    (case rt_get (de_destination d) (nw_routes s) of
                       None \<Rightarrow> Some (s\<lparr>nw_rdt := snd (rd_remove my (rp_id r) (nw_rdt s))\<rparr>)
                     | Some route \<Rightarrow>
                         if re_status route = Active \<and> \<not> cost < de_residual_cost d then Some s
                         else
                           let route' = route\<lparr>re_status := Active, re_next_hop := cc_mac_src ctx, re_path_cost := cost,
                                              re_recent_activity := age_limit\<rparr>;
                               s1 = (case rt_insert (cap_routes E) route' (nw_routes s) of
                                       Some t \<Rightarrow> s\<lparr>nw_routes := t\<rparr> | None \<Rightarrow> s);
                               s2 = s1\<lparr>nw_rdt := rd_update my (rp_id r) (\<lambda>x. x\<lparr>de_residual_cost := cost\<rparr>) (nw_rdt s1)\<rparr>
                           in map_option (push_event E (EvRouteDiscoveryConfirm (de_destination d) NsSuccess))
                                (release_waiting E (de_destination d) s2)))
             else
               (case rd_get (rp_originator r) (rp_id r) (nw_rdt s) of
                  None \<Rightarrow> Some s
                | Some d \<Rightarrow>
                    if de_residual_cost d < cost then Some s
                    else if \<not> incoming_route_is_suitable (rt_get (rp_responder r) (nw_routes s)) cost then Some s
                    else
                      let dest = rp_responder r;
                          fwd = (case rt_get dest (nw_routes s) of Some x \<Rightarrow> x | None \<Rightarrow> re_new dest (cc_mac_src ctx) Active age_limit)
                                  \<lparr>re_next_hop := cc_mac_src ctx, re_status := Active, re_path_cost := cost\<rparr>;
                          s1 = (case rt_insert (cap_routes E) fwd (nw_routes s) of Some t \<Rightarrow> s\<lparr>nw_routes := t\<rparr> | None \<Rightarrow> s);
                          s2 = s1\<lparr>nw_rdt := rd_update (rp_originator r) (rp_id r) (\<lambda>x. x\<lparr>de_residual_cost := cost\<rparr>) (nw_rdt s1)\<rparr>
                      in map_option (forward_route_reply E ctx r cost d) (release_waiting E dest s2)))"

section \<open>Expiry\<close>

definition expire_discovery :: "'g nwk_env \<Rightarrow> discovery_entry \<Rightarrow> 'g nwk \<Rightarrow> 'g nwk option" where
  "expire_discovery E e s =
     (if \<not> any_pending_for (de_destination e) (nw_rdt s)
         \<and> (case rt_get (de_destination e) (nw_routes s) of Some r \<Rightarrow> re_status r = DiscoveryUnderway | None \<Rightarrow> False)
      then
        let s1 = s\<lparr>nw_routes := snd (rt_remove (de_destination e) (nw_routes s))\<rparr>
        in if de_local e
           then map_option (push_event E (EvRouteDiscoveryConfirm (de_destination e) NsRouteDiscoveryFailed))
                  (fail_waiting E (de_destination e) s1)
           else Some s1
      else Some s)"

definition service_route_discovery :: "'g nwk_env \<Rightarrow> instant \<Rightarrow> 'g nwk \<Rightarrow> 'g nwk option" where
  "service_route_discovery E now s =
     (let (expired, t) = rd_expire 8 now (nw_rdt s)
      in map_option (\<lambda>u. u\<lparr>nw_routes := expire_many_to_one now (nw_routes u)\<rparr>)
           (fold (\<lambda>e u. Option.bind u (expire_discovery E e)) expired (Some (s\<lparr>nw_rdt := t\<rparr>))))"

definition routing_deadline :: "'g nwk \<Rightarrow> instant option" where
  "routing_deadline s =
     (case map prq_due (nw_pending_rreq s) @ map de_expires (nw_rdt s) of [] \<Rightarrow> None | x # xs \<Rightarrow> Some (foldl min x xs))"

section \<open>Route records and network status\<close>

definition on_route_record :: "'g nwk_env \<Rightarrow> command_context \<Rightarrow> bytes \<Rightarrow> 'g nwk \<Rightarrow> 'g nwk" where
  "on_route_record E ctx rr s =
     (if \<not> cc_secured ctx then s
      else s\<lparr>nw_source_routes := snd (store_from_record (cap_routes E) (cc_src ctx) (relay_list rr) (nw_source_routes s))\<rparr>)"

definition relay_route_record :: "'g nwk_env \<Rightarrow> bytes \<Rightarrow> nat \<Rightarrow> nat \<Rightarrow> bool \<Rightarrow> 'g nwk \<Rightarrow> 'g nwk" where
  "relay_route_record E buf payload_start payload_end sec s =
     (case decode_prefix buf of
        Inl _ \<Rightarrow> s
      | Inr (h, _) \<Rightarrow>
          if nh_radius h \<le> 1 then s
          else case decode_exact command_decode (case slice buf payload_start payload_end of Some b \<Rightarrow> b | None \<Rightarrow> []) of
            Inr (RouteRecord rr) \<Rightarrow>
              let relays = rr @ le_bytes 2 (nib_network_address (nw_nib s))
              in if MAX_NPDU < length relays then s
                 else (case next_hop_for (nh_dst h) s of
                         (None, s1) \<Rightarrow> s1
                       | (Some hop, s1) \<Rightarrow>
                           snd (send_command_unicast E (h\<lparr>nh_radius := nh_radius h - 1, nh_source_route := None\<rparr>)
                             (RouteRecord relays) hop sec False TkCommand s1))
          | _ \<Rightarrow> s)"

definition relay_network_status :: "'g nwk_env \<Rightarrow> bytes \<Rightarrow> nat \<Rightarrow> nat \<Rightarrow> bool \<Rightarrow> 'g nwk \<Rightarrow> 'g nwk" where
  "relay_network_status E buf payload_start payload_end sec s =
     (case decode_prefix buf of
        Inl _ \<Rightarrow> s
      | Inr (h, _) \<Rightarrow>
          if nh_radius h \<le> 1 then s
          else case decode_exact command_decode (case slice buf payload_start payload_end of Some b \<Rightarrow> b | None \<Rightarrow> []) of
            Inr (NetworkStatus ns) \<Rightarrow>
              let s1 = (if \<not> from_child_end_device (nh_dst h) s then s
                        else if is_link_failure (ns_status ns)
                        then s\<lparr>nw_routes := snd (rt_remove (ns_dst ns) (nw_routes s))\<rparr>
                        else if ns_status ns = SourceRouteFailure
                        then s\<lparr>nw_source_routes := snd (srt_remove (ns_dst ns) (nw_source_routes s))\<rparr> else s)
              in (case next_hop_for (nh_dst h) s1 of
                    (None, s2) \<Rightarrow> s2
                  | (Some hop, s2) \<Rightarrow>
                      snd (send_command_unicast E (h\<lparr>nh_radius := nh_radius h - 1, nh_source_route := None\<rparr>)
                        (NetworkStatus \<lparr>ns_status = ns_status ns, ns_dst = ns_dst ns, ns_tlvs = []\<rparr>) hop sec False TkCommand s2))
          | _ \<Rightarrow> s)"

definition on_network_status :: "'g nwk_env \<Rightarrow> command_context \<Rightarrow> network_status \<Rightarrow> 'g nwk \<Rightarrow> 'g nwk" where
  "on_network_status E ctx ns s =
     (if \<not> cc_secured ctx \<and> ns_status ns \<noteq> UnknownCommand then s
      else
        let s1 = (if is_link_failure (ns_status ns) then s\<lparr>nw_routes := snd (rt_remove (ns_dst ns) (nw_routes s))\<rparr>
                  else case ns_status ns of
                    SourceRouteFailure \<Rightarrow> s\<lparr>nw_source_routes := snd (srt_remove (ns_dst ns) (nw_source_routes s))\<rparr>
                  | ManyToOneRouteFailure \<Rightarrow>
                      s\<lparr>nw_routes := rt_update (ns_dst ns) (\<lambda>r. r\<lparr>re_route_record_required := True\<rparr>) (nw_routes s)\<rparr>
                  | AddressConflict \<Rightarrow> on_address_conflict_reported E (ns_dst ns) s
                  | _ \<Rightarrow> s)
        in push_event E (EvNetworkStatus (ns_dst ns) (ns_status ns)) s1)"

section \<open>Link status\<close>

definition PER_FRAME :: nat where
  "PER_FRAME = min LINK_STATUS_MAX_ENTRIES 28"

definition link_status_frame :: "'g nwk_env \<Rightarrow> link_status_entry list \<Rightarrow> nat \<Rightarrow> nat \<Rightarrow> 'g nwk \<Rightarrow> 'g nwk" where
  "link_status_frame E entries frames f s =
     (let raw = concat (map encode_entry (take PER_FRAME (drop (f * PER_FRAME) entries)));
          (seq, s1) = next_sequence s
      in snd (send_command_broadcast_once E (command_header s1 0xFFFC 1 seq)
           (LinkStatus \<lparr>ls_first_frame = (f = 0), ls_last_frame = (f + 1 = frames), ls_raw = raw\<rparr>) True s1))"

definition send_link_status :: "'g nwk_env \<Rightarrow> 'g nwk \<Rightarrow> 'g nwk" where
  "send_link_status E s =
     (if \<not> is_router_or_coordinator (nw_nib s) \<or> \<not> nib_router_started (nw_nib s) then s
      else
        let entries = sort_key ls_address (push_all (cap_neighbors E) [] (map (\<lambda>n. \<lparr>ls_address = ne_short n,
              ls_incoming_cost = incoming_cost n, ls_outgoing_cost = ne_outgoing_cost n\<rparr>)
              (filter (\<lambda>n. is_unicast (ne_short n)) (routers (nw_neighbors s)))));
            frames = (if entries = [] then 1 else (length entries + PER_FRAME - 1) div PER_FRAME)
        in fold (link_status_frame E entries frames) [0..<frames] s)"

definition connectivity_of :: "link_status_entry list \<Rightarrow> nat" where
  "connectivity_of es =
     sum_list (map (\<lambda>e. if ls_outgoing_cost e \<noteq> 0 then unat (saturating_sub 7 (max (ls_incoming_cost e) (ls_outgoing_cost e))) else 0) es)"

definition link_status_covers :: "short_address \<Rightarrow> link_status \<Rightarrow> bool" where
  "link_status_covers my ls \<longleftrightarrow>
     (case link_status_entries ls of
        [] \<Rightarrow> True
      | e # es \<Rightarrow> (ls_first_frame ls \<or> ls_address e \<le> my) \<and> (ls_last_frame ls \<or> my \<le> ls_address (last (e # es))))"

definition on_link_status :: "'g nwk_env \<Rightarrow> command_context \<Rightarrow> link_status \<Rightarrow> 'g nwk \<Rightarrow> 'g nwk" where
  "on_link_status E ctx ls s =
     (if \<not> is_router_or_coordinator (nw_nib s) \<or> \<not> cc_secured ctx then s
      else
        let my = nib_network_address (nw_nib s);
            age_limit = nib_router_age_limit (nw_nib s);
            es = link_status_entries ls;
            known = (if by_short (cc_src ctx) (nw_neighbors s) \<noteq> None then Some s
                     else case (case cc_src_ieee ctx of Some e \<Rightarrow> Some e | None \<Rightarrow> cc_secured_by ctx) of
                       None \<Rightarrow> None
                     | Some ext \<Rightarrow>
                         let e = (ne_new ext (cc_src ctx) Router True Sibling (cc_lqi ctx))\<lparr>ne_router_outbound_activity := age_limit,
                                    ne_router_inbound_activity := age_limit\<rparr>;
                             (ok, s1) = ensure_neighbor E e s
                         in if \<not> ok then None
                            else if es = [] then
                              let (j, s2) = jitter E MIN_ROUTER_BOOTSTRAP_JITTER MAX_ROUTER_BOOTSTRAP_JITTER s1
                              in Some (s2\<lparr>nw_link_status_due := Some (instant_add (nw_now s2) j)\<rparr>)
                            else Some s1)
        in case known of
             None \<Rightarrow> s
           | Some s1 \<Rightarrow>
               if \<not> link_status_covers my ls then s1
               else
                 let outgoing = (case List.find (\<lambda>e. ls_address e = my) es of Some e \<Rightarrow> ls_incoming_cost e | None \<Rightarrow> 0);
                     heard = (\<lambda>n. let n1 = n\<lparr>ne_age := 0, ne_lqa := lqa_push (cc_lqi ctx) (ne_lqa n), ne_outgoing_cost := outgoing\<rparr>
                                  in if ls_first_frame ls
                                     then n1\<lparr>ne_router_age := saturating_add (ne_router_age n1) 1,
                                             ne_router_connectivity := of_nat (min (connectivity_of es) 0xB6)\<rparr> else n1);
                     s2 = s1\<lparr>nw_neighbors := update_short (cc_src ctx) heard (nw_neighbors s1)\<rparr>
                 in if by_short (cc_src ctx) (nw_neighbors s1) \<noteq> None \<and> outgoing = 0
                    then s2\<lparr>nw_routes := snd (invalidate_via (cc_src ctx) (nw_routes s2))\<rparr> else s2)"

end
