(* ===== verification/NwkRx.thy ===== *)
theory NwkRx
  imports NwkRoute
begin

text \<open>
  Reception (\<^verbatim>\<open>panweave-nwk/src/layer/rx.rs\<close>), the MAC confirms of \<^verbatim>\<open>panweave-nwk/src/layer/tx.rs\<close> and the timer loop of
  \<^verbatim>\<open>panweave-nwk/src/layer/maint.rs\<close>. As before, \<open>None\<close> is a call that does not return: a loop that does not end, or a
  panic.
\<close>

section \<open>MAC confirms\<close>

definition on_unicast_delivered :: "'g nwk_env \<Rightarrow> pending_tx \<Rightarrow> 'g nwk \<Rightarrow> 'g nwk" where
  "on_unicast_delivered E p s =
     (case pt_kind p of
        TkData \<Rightarrow> push_event E (EvDataConfirm (pt_id p) NsSuccess) s
      | TkLeave device \<Rightarrow> on_leave_sent E device NsSuccess s
      | TkJoinRequest \<Rightarrow> on_join_request_sent E True s
      | TkJoinResponse device m \<Rightarrow> on_join_response_delivered E device True m s
      | TkTimeoutRequest \<Rightarrow> on_timeout_request_sent E True s
      | TkCommand \<Rightarrow> s
      | TkRouteReply _ \<Rightarrow> s)"

definition failure_code :: "pending_tx \<Rightarrow> 'g nwk \<Rightarrow> network_status_code" where
  "failure_code p s =
     (if pt_source_route p then SourceRouteFailure
      else if (case rt_get (pt_dst p) (nw_routes s) of Some r \<Rightarrow> re_many_to_one r \<and> \<not> re_expired r | None \<Rightarrow> False)
      then ManyToOneRouteFailure else LinkFailure)"

definition on_unicast_failed :: "'g nwk_env \<Rightarrow> pending_tx \<Rightarrow> tx_status \<Rightarrow> 'g nwk \<Rightarrow> 'g nwk" where
  "on_unicast_failed E p status s =
     (let hop = pt_next_hop p;
          link_failed = (status = TxNoAck \<or> status = TxChannelAccessFailure);
          s1 = (if link_failed \<and> is_router_or_coordinator (nw_nib s)
                then let (n, t) = invalidate_via hop (nw_routes s); u = s\<lparr>nw_routes := t\<rparr>
                     in if 0 < n then upd_stats (\<lambda>x. x\<lparr>st_no_route := saturating_add (st_no_route x) 1\<rparr>) u else u
                else s)
      in case pt_kind p of
           TkData \<Rightarrow>
             (case pt_relayed_from p of
                Some src \<Rightarrow> send_network_status E src (pt_dst p) (failure_code p s1) s1
              | None \<Rightarrow>
                  let s2 = push_event E (EvDataConfirm (pt_id p) (if link_failed then NsRouteError else mac_status_to_nwk status)) s1
                  in if nib_is_end_device (nw_nib s2) \<and> hop = nib_parent_address (nw_nib s2) \<and> link_failed
                     then push_event E (EvNetworkStatus hop ParentLinkFailure) s2
                     else push_event E (EvNetworkStatus (pt_dst p) LinkFailure) s2)
         | TkLeave device \<Rightarrow> on_leave_sent E device (mac_status_to_nwk status) s1
         | TkJoinRequest \<Rightarrow> on_join_request_sent E False s1
         | TkJoinResponse device m \<Rightarrow> on_join_response_delivered E device False m s1
         | TkTimeoutRequest \<Rightarrow> on_timeout_request_sent E False s1
         | TkRouteReply responder \<Rightarrow> if link_failed then send_network_status E responder (pt_dst p) LinkFailure s1 else s1
         | TkCommand \<Rightarrow> s1)"

definition pending_position :: "tx_handle \<Rightarrow> 'g nwk \<Rightarrow> nat option" where
  "pending_position handle s = position (\<lambda>p. pt_mac_handle p = Some handle) (nw_pending s)"

definition on_mac_indirect_ready :: "'g nwk_env \<Rightarrow> tx_handle \<Rightarrow> 'g nwk \<Rightarrow> 'g nwk" where
  "on_mac_indirect_ready E handle s =
     (case pending_position handle s of
        None \<Rightarrow> s
      | Some pos \<Rightarrow>
          let p = nw_pending s ! pos in
          (case finalize_frame E (pt_frame p) (pt_header_len p) (pt_secure p) s of
             (Inr on_air, s1) \<Rightarrow>
               push_action E (MacData handle (pt_next_hop p) on_air True False)
                 (upd_nib (\<lambda>n. n\<lparr>nib_tx_total := saturating_add (nib_tx_total n) 1\<rparr>) s1)
           | (Inl ErrCounterPending, s1) \<Rightarrow>
               snd (track_pending E (p\<lparr>pt_mac_handle := None, pt_retry_at := Some (instant_add (nw_now s1) COUNTER_RETRY_DELAY)\<rparr>)
                 (s1\<lparr>nw_pending := swap_remove pos (nw_pending s1)\<rparr>))
           | (Inl _, s1) \<Rightarrow> on_unicast_failed E p TxRadioError (s1\<lparr>nw_pending := swap_remove pos (nw_pending s1)\<rparr>)))"

definition note_interface_tx :: "bool \<Rightarrow> 'g nwk \<Rightarrow> 'g nwk" where
  "note_interface_tx failed s =
     (case interface_for (nib_channel_page (nw_nib s)) (nib_channel (nw_nib s)) (nw_interfaces s) of
        Some e \<Rightarrow> s\<lparr>nw_interfaces := note_tx (if_index e) 0 failed (nw_interfaces s)\<rparr>
      | None \<Rightarrow> s)"

definition on_mac_data_confirm :: "'g nwk_env \<Rightarrow> tx_handle \<Rightarrow> tx_status \<Rightarrow> 'g nwk \<Rightarrow> 'g nwk" where
  "on_mac_data_confirm E handle status s =
     (case pending_position handle s of
        None \<Rightarrow> s
      | Some pos \<Rightarrow>
          let p = nw_pending s ! pos;
              s1 = note_interface_tx (status \<noteq> TxSuccess) (s\<lparr>nw_pending := swap_remove pos (nw_pending s)\<rparr>)
          in if status = TxSuccess
             then on_unicast_delivered E p (s1\<lparr>nw_neighbors := update_short (pt_next_hop p) (\<lambda>n. n\<lparr>ne_transmit_failure := 0\<rparr>) (nw_neighbors s1)\<rparr>)
             else if status = TxTransactionExpired then on_unicast_failed E p status s1
             else
               let s2 = upd_nib (\<lambda>n. n\<lparr>nib_tx_failures := saturating_add (nib_tx_failures n) 1\<rparr>) s1;
                   s3 = s2\<lparr>nw_neighbors := update_short (pt_next_hop p)
                          (\<lambda>n. n\<lparr>ne_transmit_failure := saturating_add (ne_transmit_failure n) 1\<rparr>) (nw_neighbors s2)\<rparr>
               in if 0 < pt_retries_left p \<and> \<not> pt_indirect p
                  then snd (track_pending E (p\<lparr>pt_retries_left := pt_retries_left p - 1, pt_mac_handle := None,
                         pt_retry_at := Some (instant_add (nw_now s3) UNICAST_RETRY_DELAY)\<rparr>) s3)
                  else on_unicast_failed E p status s3)"

section \<open>Reception\<close>

datatype rx_outcome =
    RxNone
  | RxData short_address short_address "extended_address option" "extended_address option" bool u8 bytes
  | RxInterPan bytes u8

definition unsecured_frame_allowed :: "bool \<Rightarrow> bool \<Rightarrow> short_address \<Rightarrow> bytes \<Rightarrow> nat \<Rightarrow> 'g nwk \<Rightarrow> bool" where
  "unsecured_frame_allowed is_command for_me src buf header_len s =
     (let cmd_id = (if is_command \<and> header_len < length buf then Some (command_id_from_raw (buf ! header_len)) else None);
          aps_fc = octet_or 0 header_len buf;
          aps_command = (aps_fc AND 0x03 = 0x01);
          aps_secured = (aps_fc AND 0x20 \<noteq> 0);
          unsecured_rejoin = (case nw_join s of Some j \<Rightarrow> \<not> js_secure j | None \<Rightarrow> False)
      in if is_command \<and> unsecured_rejoin \<and> for_me \<and> cmd_id \<in> {Some IdRejoinResponse, Some IdCommissioningResponse} then True
         else if nib_joined (nw_nib s) \<and> nib_authenticated (nw_nib s) then
           (if is_command then cmd_id \<in> {Some IdRejoinRequest, Some IdCommissioningRequest} \<and> for_me
            else for_me \<and> aps_command
                 \<and> (case by_short src (nw_neighbors s) of Some n \<Rightarrow> ne_relationship n = UnauthenticatedChild | None \<Rightarrow> False))
         else case cmd_id of
           Some i \<Rightarrow> i \<in> {IdRejoinResponse, IdCommissioningResponse} \<and> unsecured_rejoin
         | None \<Rightarrow> for_me \<and> (aps_command \<or> aps_secured
                             \<or> (nib_joined (nw_nib s) \<and> src = nib_parent_address (nw_nib s))))"

definition examine_lost_child :: "'g nwk_env \<Rightarrow> short_address \<Rightarrow> short_address \<Rightarrow> short_address \<Rightarrow> u8 \<Rightarrow> 'g nwk \<Rightarrow> 'g nwk" where
  "examine_lost_child E src mac_src dst q s =
     (case by_short src (nw_neighbors s) of
        None \<Rightarrow> s
      | Some n \<Rightarrow>
          if \<not> ne_is_end_device n \<or> \<not> is_child (ne_relationship n) \<or> mac_src = src then s
          else if is_broadcast dst \<and> btt_get src q (nw_btt s) \<noteq> None then s
          else
            let s1 = s\<lparr>nw_neighbors := update_short src (\<lambda>x. x\<lparr>ne_relationship := LostChild\<rparr>) (nw_neighbors s)\<rparr>;
                s2 = upd_stats (\<lambda>t. t\<lparr>st_children_moved := saturating_add (st_children_moved t) 1\<rparr>) s1
            in push_event E (EvLostChild (ne_extended n)) s2)"

definition purge_lost_children :: "'g nwk_env \<Rightarrow> 'g nwk \<Rightarrow> 'g nwk" where
  "purge_lost_children E s =
     (let removed = push_all 8 [] (map ne_extended (filter (\<lambda>e. ne_relationship e = LostChild) (nt_entries (nw_neighbors s))));
          s1 = s\<lparr>nw_neighbors := nt_retain (\<lambda>e. ne_relationship e \<noteq> LostChild) (nw_neighbors s)\<rparr>
      in fold (\<lambda>d u. push_event E (EvChildRemoved d)
           (u\<lparr>nw_security := (nw_security u)\<lparr>ns_incoming := incoming_remove d (ns_incoming (nw_security u))\<rparr>\<rparr>)) removed s1)"

definition on_unknown_command :: "'g nwk_env \<Rightarrow> command_context \<Rightarrow> 'g nwk \<Rightarrow> 'g nwk" where
  "on_unknown_command E ctx s =
     (let s1 = upd_stats (\<lambda>t. t\<lparr>st_unknown_commands := saturating_add (st_unknown_commands t) 1\<rparr>) s
      in if cc_dst ctx = nib_network_address (nw_nib s1) \<and> cc_secured ctx
         then send_network_status E (cc_src ctx) (cc_src ctx) UnknownCommand s1 else s1)"

definition malformed :: "'g nwk \<Rightarrow> 'g nwk" where
  "malformed s = upd_stats (\<lambda>t. t\<lparr>st_malformed := saturating_add (st_malformed t) 1\<rparr>) s"

definition handle_command :: "'g nwk_env \<Rightarrow> command_context \<Rightarrow> nwk_command \<Rightarrow> 'g nwk \<Rightarrow> 'g nwk option" where
  "handle_command E ctx cmd s =
     (case cmd of
        RouteRequest c \<Rightarrow> on_route_request E ctx c s
      | RouteReply c \<Rightarrow> on_route_reply E ctx c s
      | NetworkStatus c \<Rightarrow> Some (on_network_status E ctx c s)
      | Leave c \<Rightarrow> Some (on_leave_command E ctx c s)
      | RouteRecord c \<Rightarrow> Some (on_route_record E ctx c s)
      | RejoinRequest c \<Rightarrow> Some (on_rejoin_request E ctx c s)
      | RejoinResponse c \<Rightarrow> Some (on_rejoin_response E ctx c s)
      | LinkStatus c \<Rightarrow> Some (on_link_status E ctx c s)
      | NetworkReport c \<Rightarrow> Some (on_network_report E ctx c s)
      | NetworkUpdate c \<Rightarrow> Some (on_network_update E ctx c s)
      | EndDeviceTimeoutRequest c \<Rightarrow> Some (on_end_device_timeout_request E ctx c s)
      | EndDeviceTimeoutResponse c \<Rightarrow> Some (on_end_device_timeout_response E ctx c s)
      | CommissioningRequest c \<Rightarrow> Some (on_commissioning_request E ctx c s)
      | CommissioningResponse c \<Rightarrow> Some (on_commissioning_response E ctx c s)
      | LinkPowerDelta c \<Rightarrow> Some (on_link_power_delta E ctx c s)
      | UnknownCmd _ _ \<Rightarrow> Some (on_unknown_command E ctx s))"

text \<open>What the reception path carries from the parsed frame to its branches.\<close>

record received =
  rv_buf :: bytes
  rv_header :: nwk_header
  rv_header_len :: nat
  rv_start :: nat
  rv_end :: nat
  rv_secured :: bool
  rv_secured_by :: "extended_address option"
  rv_mac_src :: short_address
  rv_lqi :: u8
  rv_rssi :: int

definition rv_payload :: "received \<Rightarrow> bytes" where
  "rv_payload v = (case slice (rv_buf v) (rv_start v) (rv_end v) of Some b \<Rightarrow> b | None \<Rightarrow> [])"

definition dispatch_command :: "'g nwk_env \<Rightarrow> received \<Rightarrow> 'g nwk \<Rightarrow> 'g nwk option" where
  "dispatch_command E v s =
     (case decode_prefix (rv_buf v) of
        Inl _ \<Rightarrow> Some s
      | Inr (h, _) \<Rightarrow>
          (case command_decode (r_new (rv_payload v)) of
             (Inl _, _) \<Rightarrow> Some (malformed s)
           | (Inr cmd, _) \<Rightarrow>
               handle_command E \<lparr>cc_src = nh_src h, cc_dst = nh_dst h, cc_src_ieee = nh_src_ieee h, cc_dst_ieee = nh_dst_ieee h,
                 cc_mac_src = rv_mac_src v, cc_lqi = rv_lqi v, cc_rssi_dbm = rv_rssi v, cc_secured = rv_secured v,
                 cc_secured_by = rv_secured_by v, cc_radius = nh_radius h, cc_sequence = nh_sequence h\<rparr> cmd s))"

definition indication :: "received \<Rightarrow> rx_outcome" where
  "indication v =
     (let h = rv_header v
      in RxData (nh_src h) (nh_dst h) (nh_src_ieee h) (rv_secured_by v) (rv_secured v) (rv_lqi v) (rv_payload v))"

text \<open>A frame for this device: a command is handled here, data goes to the higher layer.\<close>

definition consume :: "'g nwk_env \<Rightarrow> received \<Rightarrow> 'g nwk \<Rightarrow> (rx_outcome \<times> 'g nwk) option" where
  "consume E v s =
     (if fc_frame_type (nh_frame_control (rv_header v)) = FtCommand then map_option (\<lambda>t. (RxNone, t)) (dispatch_command E v s)
      else Some (indication v, s))"

definition relay_received :: "'g nwk_env \<Rightarrow> received \<Rightarrow> 'g nwk \<Rightarrow> 'g nwk" where
  "relay_received E v s =
     (let h = rv_header v; buf = rv_buf v in
      if \<not> is_router_or_coordinator (nw_nib s) \<or> \<not> nib_router_started (nw_nib s) then s
      else if fc_frame_type (nh_frame_control h) = FtCommand then
        (if rv_start v < length buf then
           (case command_id_from_raw (buf ! rv_start v) of
              IdNetworkStatus \<Rightarrow> relay_network_status E buf (rv_start v) (rv_end v) (rv_secured v) s
            | IdRouteRecord \<Rightarrow> relay_route_record E buf (rv_start v) (rv_end v) (rv_secured v) s
            | _ \<Rightarrow> s)
         else s)
      else if nh_radius h \<le> 1 then s
      else if (case nh_source_route h of Some r \<Rightarrow> sr_relay_index r \<noteq> 0 | None \<Rightarrow> False)
              \<and> (case decode_prefix buf of
                   Inl _ \<Rightarrow> True
                 | Inr (h', _) \<Rightarrow> Option.bind (nh_source_route h') next_relay \<noteq> Some (nib_network_address (nw_nib s)))
      then s
      else case relay_plaintext buf (rv_header_len v) (rv_start v) (rv_end v) of
        None \<Rightarrow> s
      | Some p \<Rightarrow>
          let plaintext = set_octet 1 (\<lambda>b. b AND NOT 0x02) p in
          (case decode_prefix plaintext of
             Inl _ \<Rightarrow> s
           | Inr (h', _) \<Rightarrow>
               snd (relay_unicast E plaintext (h'\<lparr>nh_dst := nh_dst h, nh_src := nh_src h, nh_radius := nh_radius h,
                 nh_sequence := nh_sequence h, nh_dst_ieee := nh_dst_ieee h, nh_src_ieee := nh_src_ieee h\<rparr>) (rv_secured v) s)))"

definition note_previous_hop :: "received \<Rightarrow> 'g nwk \<Rightarrow> 'g nwk" where
  "note_previous_hop v s =
     (let mac = rv_mac_src v;
          heard = (\<lambda>n. n\<lparr>ne_lqa := lqa_push (rv_lqi v) (ne_lqa n), ne_last_rssi_dbm := Some (rv_rssi v)\<rparr>);
          s1 = (case rv_secured_by v of
                  Some sb \<Rightarrow> s\<lparr>nw_neighbors := update_extended sb (\<lambda>n. let n1 = heard n in
                               if ne_short n1 \<noteq> mac \<and> is_unicast mac then n1\<lparr>ne_short := mac\<rparr> else n1) (nw_neighbors s)\<rparr>
                | None \<Rightarrow> s\<lparr>nw_neighbors := update_short mac heard (nw_neighbors s)\<rparr>)
      in s1\<lparr>nw_neighbors := update_short mac (\<lambda>n. if ne_is_router n \<and> is_unicast (nh_dst (rv_header v))
               then n\<lparr>ne_router_inbound_activity := saturating_add (ne_router_inbound_activity n) 1\<rparr> else n) (nw_neighbors s1)\<rparr>)"

definition note_interface_rx :: "'g nwk \<Rightarrow> 'g nwk" where
  "note_interface_rx s =
     (case interface_for (nib_channel_page (nw_nib s)) (nib_channel (nw_nib s)) (nw_interfaces s) of
        Some e \<Rightarrow> s\<lparr>nw_interfaces := note_rx (if_index e) (nw_interfaces s)\<rparr>
      | None \<Rightarrow> s)"

text \<open>
  The frame after its security was dealt with: the addresses it teaches, conflicts, the end device initiator, lost
  children, then broadcast, delivery or relay. \<open>my_short\<close> is this device's address when the frame arrived; a conflict
  found on the way may have changed it since.
\<close>

definition route_received :: "'g nwk_env \<Rightarrow> received \<Rightarrow> short_address \<Rightarrow> 'g nwk \<Rightarrow> (rx_outcome \<times> 'g nwk) option" where
  "route_received E v my_short s =
     (let h = rv_header v; src = nh_src h; dst = nh_dst h in
      if is_broadcast dst then
        (let (deliver, s1) = on_broadcast_received E src (nh_sequence h) dst (nh_radius h) (rv_mac_src v) (rv_buf v)
               (rv_header_len v) (rv_start v) (rv_end v) (rv_secured v) s
         in if deliver then consume E v s1 else Some (RxNone, s1))
      else if dst = my_short then
        (let s1 = note_interface_rx s
         in if (case nh_source_route h of Some r \<Rightarrow> sr_relay_index r \<noteq> 0 | None \<Rightarrow> False) \<and> is_router_or_coordinator (nw_nib s1)
            then Some (RxNone, relay_received E v s1) else consume E v s1)
      else Some (RxNone, relay_received E v s))"

definition process_received :: "'g nwk_env \<Rightarrow> received \<Rightarrow> short_address \<Rightarrow> 'g nwk \<Rightarrow> (rx_outcome \<times> 'g nwk) option" where
  "process_received E v my_short s =
     (let h = rv_header v; src = nh_src h; dst = nh_dst h; sec = rv_secured v;
          s1 = (case nh_src_ieee h of
                  Some e \<Rightarrow> note_address E e src sec s
                | None \<Rightarrow> (case rv_secured_by v of
                             Some sb \<Rightarrow> if src = rv_mac_src v then note_address E sb src True s else s
                           | None \<Rightarrow> s));
          s2 = note_previous_hop v s1;
          s3 = (if sec \<and> dst = my_short
                   \<and> (case nh_dst_ieee h of Some d \<Rightarrow> d \<noteq> nib_ieee_address (nw_nib s2) | None \<Rightarrow> False)
                   \<and> is_router_or_coordinator (nw_nib s2)
                then on_local_address_conflict E s2 else s2);
          known = (case by_short src (nw_neighbors s3) of Some n \<Rightarrow> ne_is_end_device n | None \<Rightarrow> False)
      in if fc_end_device_initiator (nh_frame_control h) \<and> nib_is_end_device (nw_nib s3) then Some (RxNone, s3)
         else if fc_end_device_initiator (nh_frame_control h) \<and> \<not> known
         then Some (RxNone, if sec then send_leave_to_unknown_child E src s3 else s3)
         else route_received E v my_short
                (if is_router_or_coordinator (nw_nib s3) \<and> sec
                 then examine_lost_child E src (rv_mac_src v) dst (nh_sequence h) s3 else s3))"

definition security_failure :: "security_error \<Rightarrow> 'g nwk \<Rightarrow> 'g nwk" where
  "security_failure e s =
     (if e = BadFrameCounter then upd_stats (\<lambda>t. t\<lparr>st_replays := saturating_add (st_replays t) 1\<rparr>) s
      else upd_stats (\<lambda>t. t\<lparr>st_security_failures := saturating_add (st_security_failures t) 1\<rparr>) s)"

definition follow_parent_key :: "'g nwk_env \<Rightarrow> short_address \<Rightarrow> key_sequence \<Rightarrow> 'g nwk \<Rightarrow> 'g nwk" where
  "follow_parent_key E src sequence s =
     (if nib_is_end_device (nw_nib s) \<and> \<not> nib_rx_on_when_idle (nw_nib s)
         \<and> nk_active (ns_keys (nw_security s)) \<noteq> Some sequence \<and> src = nib_parent_address (nw_nib s)
      then snd (switch_network_key E sequence s) else s)"

definition on_mac_data :: "'g nwk_env \<Rightarrow> bytes \<Rightarrow> short_address \<Rightarrow> u8 \<Rightarrow> int \<Rightarrow> 'g nwk \<Rightarrow> (rx_outcome \<times> 'g nwk) option" where
  "on_mac_data E buf mac_src lqi rssi s =
     (case decode_prefix buf of
        Inl _ \<Rightarrow> Some (RxNone, malformed s)
      | Inr (h, header_len) \<Rightarrow>
          let fc = nh_frame_control h;
              my_short = nib_network_address (nw_nib s);
              for_me = (nh_dst h = my_short \<or> is_broadcast (nh_dst h));
              assumed = (case nw_rx_link s of
                           Some (_, peer, assume_sec, _) \<Rightarrow> if assume_sec \<and> \<not> fc_security fc then Some peer else None
                         | None \<Rightarrow> None);
              plain = \<lparr>rv_buf = buf, rv_header = h, rv_header_len = header_len, rv_start = header_len, rv_end = length buf,
                       rv_secured = False, rv_secured_by = None, rv_mac_src = mac_src, rv_lqi = lqi, rv_rssi = rssi\<rparr>
          in if fc_frame_type fc = FtInterPan then Some (RxInterPan (drop 2 buf) lqi, s)
             else if fc_protocol_version fc \<noteq> PROTOCOL_VERSION \<or> fc_frame_type fc = FtReserved then Some (RxNone, malformed s)
             else if \<not> nib_joined (nw_nib s) \<and> nw_join s = None then Some (RxNone, s)
             else (case assumed of
               Some peer \<Rightarrow>
                 if \<not> cfg_security_enabled (nw_config s) then Some (RxNone, s)
                 else process_received E (plain\<lparr>rv_secured := True, rv_secured_by := Some peer\<rparr>) my_short s
             | None \<Rightarrow>
                 if fc_security fc then
                   (if \<not> cfg_security_enabled (nw_config s) then Some (RxNone, s)
                    else case unsecure_incoming (env_aes E) header_len (nib_security_level (nw_nib s)) (nib_all_fresh (nw_nib s))
                                (nw_security s) buf of
                           (Inl e, sec, _) \<Rightarrow> Some (RxNone, security_failure e (s\<lparr>nw_security := sec\<rparr>))
                         | (Inr u, sec, buf') \<Rightarrow>
                             process_received E (plain\<lparr>rv_buf := buf', rv_start := un_payload_start u, rv_end := un_payload_end u,
                                 rv_secured := True, rv_secured_by := Some (un_sender u)\<rparr>) my_short
                               (follow_parent_key E (nh_src h) (un_key_sequence u) (s\<lparr>nw_security := sec\<rparr>)))
                 else if cfg_security_enabled (nw_config s)
                         \<and> \<not> unsecured_frame_allowed (fc_frame_type fc = FtCommand) for_me (nh_src h) buf header_len s
                 then Some (RxNone, upd_stats (\<lambda>t. t\<lparr>st_security_failures := saturating_add (st_security_failures t) 1\<rparr>) s)
                 else process_received E plain my_short s))"

definition on_trusted_link_data :: "'g nwk_env \<Rightarrow> u8 \<Rightarrow> extended_address \<Rightarrow> bytes \<Rightarrow> bool \<Rightarrow> 'g nwk \<Rightarrow> (rx_outcome \<times> 'g nwk) option" where
  "on_trusted_link_data E link peer buf assume_sec s =
     (case decode_prefix buf of
        Inl _ \<Rightarrow> Some (RxNone, malformed s)
      | Inr (h, _) \<Rightarrow>
          if fc_security (nh_frame_control h) then Some (RxNone, malformed s)
          else map_option (\<lambda>(r, t). (r, t\<lparr>nw_rx_link := None,
                   nw_neighbors := update_extended peer (\<lambda>n. n\<lparr>ne_link := Some link\<rparr>) (nw_neighbors t)\<rparr>))
                 (on_mac_data E buf (nh_src h) (- 1) 0 (s\<lparr>nw_rx_link := Some (link, peer, assume_sec, nh_src h)\<rparr>)))"

section \<open>Timers\<close>

text \<open>
  The neighbours whose routes a link status period invalidates are collected into a vector of eight, and collecting
  more of them panics.
\<close>

definition stale_hops :: "'g nwk \<Rightarrow> short_address list" where
  "stale_hops s =
     map ne_short (filter (\<lambda>n. ne_outgoing_cost n = 0 \<and> nib_router_age_limit (nw_nib s) < ne_age n) (routers (nw_neighbors s)))"

definition service_link_status :: "'g nwk_env \<Rightarrow> instant \<Rightarrow> 'g nwk \<Rightarrow> 'g nwk option" where
  "service_link_status E now s =
     (case nw_link_status_due s of
        None \<Rightarrow> Some s
      | Some t \<Rightarrow>
          if \<not> has_reached now t then Some s
          else
            let s1 = send_link_status E s;
                (stale, nt) = link_status_tick (nib_router_age_limit (nw_nib s1)) (nw_neighbors s1);
                s2 = s1\<lparr>nw_neighbors := nt\<rparr>;
                hops = stale_hops s2
            in if 0 < stale \<and> 8 < length hops then None
               else
                 let s3 = (if 0 < stale then s2\<lparr>nw_routes := fold (\<lambda>h r. snd (invalidate_via h r)) hops (nw_routes s2)\<rparr> else s2);
                     s4 = s3\<lparr>nw_routes := rt_link_status_tick (nw_routes s3)\<rparr>;
                     (j, s5) = jitter E 0 1000 s4;
                     s6 = s5\<lparr>nw_link_status_due := Some (instant_add (instant_add now (nib_link_status_period (nw_nib s5))) j)\<rparr>
                 in Some (update_beacon_payload E s6))"

definition forget_child :: "'g nwk_env \<Rightarrow> extended_address \<Rightarrow> 'g nwk \<Rightarrow> 'g nwk" where
  "forget_child E d s =
     push_event E (EvChildRemoved d) (s\<lparr>nw_address_map := am_remove_extended d (nw_address_map s),
       nw_security := (nw_security s)\<lparr>ns_incoming := incoming_remove d (ns_incoming (nw_security s))\<rparr>\<rparr>)"

definition service_ages :: "'g nwk_env \<Rightarrow> instant \<Rightarrow> 'g nwk \<Rightarrow> 'g nwk" where
  "service_ages E now s =
     (let elapsed = as_secs (saturating_duration_since now (nw_child_age_last s)) in
      if elapsed < 1 then s
      else
        let e32 = u32_try_from (unat elapsed);
            (expired, nt) = age_children 8 e32 [] (nw_neighbors s);
            s1 = fold (forget_child E) expired (s\<lparr>nw_child_age_last := now, nw_neighbors := nt\<rparr>)
        in if \<not> (nib_is_end_device (nw_nib s1) \<and> nib_joined (nw_nib s1)) then s1
           else
             let aged_out = (case nt_parent (nw_neighbors s1) of
                   Some p \<Rightarrow> saturating_sub (ne_timeout_counter_secs p) e32 = 0 \<and> ne_device_timeout_secs p \<noteq> 0
                 | None \<Rightarrow> False);
                 s2 = update_parent (\<lambda>p. let c = saturating_sub (ne_timeout_counter_secs p) e32
                        in p\<lparr>ne_timeout_counter_secs := (if c = 0 \<and> ne_device_timeout_secs p \<noteq> 0 then ne_device_timeout_secs p else c)\<rparr>) s1
             in if aged_out then parent_link_failure E s2 else s2)"

definition service_keepalive :: "'g nwk_env \<Rightarrow> instant \<Rightarrow> 'g nwk \<Rightarrow> 'g nwk" where
  "service_keepalive E now s =
     (let s1 = (if nib_is_end_device (nw_nib s) \<and> nib_authenticated (nw_nib s)
                   \<and> (case nw_keepalive_due s of Some t \<Rightarrow> has_reached now t | None \<Rightarrow> False)
                then send_keepalive E s else s)
      in case nw_timeout_request_deadline s1 of
           Some t \<Rightarrow>
             if has_reached now t then
               let s2 = s1\<lparr>nw_timeout_request_deadline := None\<rparr>
               in if pi_timeout_request_keepalive (nib_parent_information (nw_nib s2)) then parent_link_failure E s2 else s2
             else s1
         | None \<Rightarrow> s1)"

definition poll_timers :: "'g nwk_env \<Rightarrow> instant \<Rightarrow> 'g nwk \<Rightarrow> 'g nwk option" where
  "poll_timers E now s0 =
     (if now < nw_now s0 then Some s0
      else
        let s = s0\<lparr>nw_now := now\<rparr>;
            s1 = (case nw_permit_until s of
                    Some t \<Rightarrow> if has_reached now t
                               then push_event E (EvPermitJoining False) (push_action E (MacSetPermit False) (s\<lparr>nw_permit_until := None\<rparr>))
                               else s
                  | None \<Rightarrow> s)
        in Option.bind (service_link_status E now s1) (\<lambda>s2.
           Option.bind (service_pending E now (service_join E now (service_keepalive E now (service_ages E now s2)))) (\<lambda>s3.
           Option.bind (service_route_discovery E now (service_route_requests E now s3)) (\<lambda>s4.
           Some (service_power_delta E now (service_pan_id_update E now (service_broadcasts E now s4)))))))"

definition next_deadline :: "'g nwk \<Rightarrow> instant option" where
  "next_deadline s =
     (case List.map_filter id
        [case nw_permit_until s of Some t \<Rightarrow> if t = - 1 then None else Some t | None \<Rightarrow> None,
         nw_link_status_due s,
         if nib_joined (nw_nib s) \<and> (0 < child_count (nw_neighbors s) \<or> nib_is_end_device (nw_nib s))
         then Some (instant_add (nw_child_age_last s) 1000) else None,
         nw_keepalive_due s, nw_timeout_request_deadline s, power_deadline s, join_deadline s, pending_deadline s,
         routing_deadline s, btt_next_deadline (nw_btt s), map_option (\<lambda>(_, _, t). t) (nw_pan_id_update s)] of
        [] \<Rightarrow> None | x # xs \<Rightarrow> Some (foldl min x xs))"

end
