(* ===== verification/NwkInvariant.thy ===== *)
theory NwkInvariant
  imports NwkTx
begin

text \<open>
  The invariant of the network layer's state: every table is within its capacity and has no two entries for one key,
  every queued frame fits an NPDU and its header lies within it, every frame handed to the MAC fits, and the security
  state is well formed. Each operation of the transmission path keeps it; the rules at the beginning take the
  definitions apart.
\<close>

section \<open>The invariant\<close>

definition npdu_ok :: "bytes \<Rightarrow> nat \<Rightarrow> bool" where
  "npdu_ok frame header_len \<longleftrightarrow> header_len \<le> length frame \<and> length frame \<le> MAX_NPDU"

definition pending_ok :: "pending_tx \<Rightarrow> bool" where
  "pending_ok p \<longleftrightarrow> npdu_ok (pt_frame p) (pt_header_len p)"

definition own_ok :: "(bytes \<times> nat \<times> bool) option \<Rightarrow> bool" where
  "own_ok own \<longleftrightarrow> (case own of Some (p, n, _) \<Rightarrow> npdu_ok p n | None \<Rightarrow> True)"

definition bcast_buf_ok :: "broadcast_buf \<Rightarrow> bool" where
  "bcast_buf_ok b \<longleftrightarrow> length (bb_frame b) \<le> MAX_NPDU \<and> own_ok (bb_plaintext b)"

definition action_ok :: "nwk_action \<Rightarrow> bool" where
  "action_ok a \<longleftrightarrow>
     (case a of MacData _ _ f _ _ \<Rightarrow> length f \<le> MAX_NPDU | TrustedLinkData _ _ f _ \<Rightarrow> length f \<le> MAX_NPDU | _ \<Rightarrow> True)"

definition queue_ok :: "nat \<Rightarrow> ('a \<Rightarrow> bool) \<Rightarrow> 'a list \<Rightarrow> bool" where
  "queue_ok cap P q \<longleftrightarrow> length q \<le> cap \<and> list_all P q"

definition nwk_ok :: "'g nwk_env \<Rightarrow> 'g nwk \<Rightarrow> bool" where
  "nwk_ok E s \<longleftrightarrow>
     nt_ok (cap_neighbors E) (nw_neighbors s)
     \<and> table_ok (cap_routes E) re_destination (nw_routes s)
     \<and> table_ok (cap_routes E) sre_destination (nw_source_routes s)
     \<and> am_ok (cap_address_map E) (nw_address_map s)
     \<and> table_ok (cap_route_discoveries E) de_key (nw_rdt s)
     \<and> length (nw_btt s) \<le> cap_broadcasts E
     \<and> length (nw_discovery s) \<le> cap_discovery E
     \<and> ns_inv (env_aes E) (nw_security s)
     \<and> queue_ok (cap_actions E) action_ok (nw_actions s)
     \<and> length (nw_events s) \<le> cap_events E
     \<and> queue_ok (cap_pending_tx E) pending_ok (nw_pending s)
     \<and> queue_ok (cap_broadcast_buffers E) bcast_buf_ok (nw_bcast_bufs s)
     \<and> queue_ok (cap_pending_rreq E) (\<lambda>r. length (prq_frame r) \<le> MAX_NPDU) (nw_pending_rreq s)"

section \<open>Rules\<close>

text \<open>
  \<open>sat E P r\<close> is \<open>P E r\<close>; the rules descend into the bindings and case distinctions of the definitions, keeping the
  invariant of every intermediate state.
\<close>

definition sat :: "'g nwk_env \<Rightarrow> ('g nwk_env \<Rightarrow> 'r \<Rightarrow> bool) \<Rightarrow> 'r \<Rightarrow> bool" where
  "sat E P r \<longleftrightarrow> P E r"

definition ok_snd :: "'g nwk_env \<Rightarrow> 'a \<times> 'g nwk \<Rightarrow> bool" where
  "ok_snd E r \<longleftrightarrow> nwk_ok E (snd r)"

definition ok_opt :: "'g nwk_env \<Rightarrow> 'g nwk option \<Rightarrow> bool" where
  "ok_opt E r \<longleftrightarrow> (case r of None \<Rightarrow> True | Some t \<Rightarrow> nwk_ok E t)"

definition ok_out :: "'g nwk_env \<Rightarrow> ('a \<times> 'g nwk) option \<Rightarrow> bool" where
  "ok_out E r \<longleftrightarrow> (case r of None \<Rightarrow> True | Some (_, t) \<Rightarrow> nwk_ok E t)"

lemmas ok_leaf = sat_def ok_snd_def ok_opt_def ok_out_def

lemma sat_state: "sat E nwk_ok s \<Longrightarrow> nwk_ok E s"
  by (simp add: sat_def)

lemma sat_snd: "sat E ok_snd r \<Longrightarrow> nwk_ok E (snd r)"
  by (simp add: sat_def ok_snd_def)

lemma sat_let_state:
  "sat E nwk_ok t \<Longrightarrow> (\<And>s. nwk_ok E s \<Longrightarrow> sat E P (b s)) \<Longrightarrow> sat E P (Let t b)"
  by (simp add: sat_def)

lemma sat_let_pair:
  "sat E ok_snd t \<Longrightarrow> (\<And>x s. nwk_ok E s \<Longrightarrow> sat E P (b x s)) \<Longrightarrow> sat E P (let (x, s) = t in b x s)"
  "sat E ok_snd t \<Longrightarrow> (\<And>x s. nwk_ok E s \<Longrightarrow> sat E P (b x s)) \<Longrightarrow> sat E P (case t of (x, s) \<Rightarrow> b x s)"
  by (auto simp: sat_def ok_snd_def split: prod.split)

lemma sat_step_try:
  "sat E ok_snd (m s) \<Longrightarrow> (\<And>a t. nwk_ok E t \<Longrightarrow> sat E ok_snd (f a t)) \<Longrightarrow> sat E ok_snd (step_try m f s)"
  by (auto simp: sat_def ok_snd_def step_try_def split: prod.split sum.split)

lemma sat_step_map: "sat E ok_snd (m s) \<Longrightarrow> sat E ok_snd (step_map f m s)"
  by (auto simp: sat_def ok_snd_def step_map_def step_try_def step_ok_def split: prod.split sum.split)

lemma sat_bind:
  "sat E ok_opt m \<Longrightarrow> (\<And>t. nwk_ok E t \<Longrightarrow> sat E ok_opt (f t)) \<Longrightarrow> sat E ok_opt (Option.bind m f)"
  by (cases m) (simp_all add: sat_def ok_opt_def)

lemma sat_if: "(c \<Longrightarrow> sat E P a) \<Longrightarrow> (\<not> c \<Longrightarrow> sat E P b) \<Longrightarrow> sat E P (if c then a else b)"
  by simp

lemma sat_option:
  "(t = None \<Longrightarrow> sat E P a) \<Longrightarrow> (\<And>x. t = Some x \<Longrightarrow> sat E P (b x)) \<Longrightarrow> sat E P (case t of None \<Rightarrow> a | Some x \<Rightarrow> b x)"
  by (cases t) simp_all

lemma sat_sum:
  "(\<And>x. t = Inl x \<Longrightarrow> sat E P (a x)) \<Longrightarrow> (\<And>x. t = Inr x \<Longrightarrow> sat E P (b x)) \<Longrightarrow> sat E P (case t of Inl x \<Rightarrow> a x | Inr x \<Rightarrow> b x)"
  by (cases t) simp_all

lemma sat_nwk_error:
  "sat E P a \<Longrightarrow> sat E P b \<Longrightarrow> sat E P c \<Longrightarrow> sat E P d \<Longrightarrow> (\<And>x. sat E P (e x)) \<Longrightarrow> sat E P f \<Longrightarrow> sat E P g \<Longrightarrow> sat E P h \<Longrightarrow>
     sat E P (case t of ErrInvalidRequest \<Rightarrow> a | ErrInvalidParameter \<Rightarrow> b | ErrFrameTooLong \<Rightarrow> c | ErrBusy \<Rightarrow> d
        | ErrSecurity x \<Rightarrow> e x | ErrRouteError \<Rightarrow> f | ErrNotJoined \<Rightarrow> g | ErrCounterPending \<Rightarrow> h)"
  by (cases t) simp_all

lemma sat_decision:
  "(\<And>x. sat E P (a x)) \<Longrightarrow> (\<And>x. sat E P (b x)) \<Longrightarrow> sat E P c \<Longrightarrow> sat E P d \<Longrightarrow>
     sat E P (case t of Direct x \<Rightarrow> a x | NextHop x \<Rightarrow> b x | Discover \<Rightarrow> c | NoRoute \<Rightarrow> d)"
  by (cases t) simp_all

lemma sat_fold:
  "nwk_ok E s \<Longrightarrow> (\<And>x t. nwk_ok E t \<Longrightarrow> sat E nwk_ok (f x t)) \<Longrightarrow> sat E nwk_ok (fold f xs s)"
  unfolding sat_def by (induction xs arbitrary: s) simp_all

lemma sat_let: "(\<And>x. x = t \<Longrightarrow> sat E P (b x)) \<Longrightarrow> sat E P (Let t b)"
  by (simp add: sat_def)

lemma sat_prod:
  "(\<And>x y. t = (x, y) \<Longrightarrow> sat E P (b x y)) \<Longrightarrow> sat E P (case t of (x, y) \<Rightarrow> b x y)"
  "(\<And>x y. t = (x, y) \<Longrightarrow> sat E P (b x y)) \<Longrightarrow> sat E P (let (x, y) = t in b x y)"
  by (auto split: prod.split)

section \<open>Queues and tables\<close>

lemma queue_ok_nil [simp]: "queue_ok cap P []"
  by (simp add: queue_ok_def)

lemma queue_ok_push [simp]: "queue_ok cap P q \<Longrightarrow> P x \<Longrightarrow> queue_ok cap P (push_bounded cap x q)"
  by (cases q) (auto simp: queue_ok_def push_bounded_def)

lemma length_push_bounded [simp]: "length q \<le> cap \<Longrightarrow> length (push_bounded cap x q) \<le> cap"
  by (auto simp: push_bounded_def)

lemma list_all_swap_remove: "list_all P q \<Longrightarrow> i < length q \<Longrightarrow> list_all P (swap_remove i q)"
  using swap_remove_split [of i q] by (metis in_multiset_in_set list_all_iff list_all_append list.pred_inject(2) mset_eq_setD)

lemma queue_ok_swap_remove [simp]: "queue_ok cap P q \<Longrightarrow> i < length q \<Longrightarrow> queue_ok cap P (swap_remove i q)"
  by (simp add: queue_ok_def list_all_swap_remove length_swap_remove) arith

lemma queue_ok_nth [simp]: "queue_ok cap P q \<Longrightarrow> i < length q \<Longrightarrow> P (q ! i)"
  by (simp add: queue_ok_def list_all_length)

lemma queue_ok_update [simp]: "queue_ok cap P q \<Longrightarrow> P x \<Longrightarrow> queue_ok cap P (q[i := x])"
  by (auto simp: queue_ok_def list_all_iff dest!: set_update_subset_insert [THEN subsetD])

lemma queue_ok_filter [simp]: "queue_ok cap P q \<Longrightarrow> queue_ok cap P (filter R q)"
  by (auto simp: queue_ok_def list_all_iff intro: le_trans [OF length_filter_le])

lemma queue_ok_update_first [simp]:
  "queue_ok cap P q \<Longrightarrow> (\<And>x. P x \<Longrightarrow> P (f x)) \<Longrightarrow> queue_ok cap P (update_first R f q)"
  using set_update_first [of R f q] by (auto simp: queue_ok_def list_all_iff)

lemma queue_ok_vec_push: "queue_ok cap P q \<Longrightarrow> P x \<Longrightarrow> vec_push cap q x = Inr q' \<Longrightarrow> queue_ok cap P q'"
  by (auto simp: queue_ok_def vec_push_def split: if_splits)

lemma queue_ok_find: "queue_ok cap P q \<Longrightarrow> List.find R q = Some x \<Longrightarrow> P x"
  by (auto simp: queue_ok_def list_all_iff dest: find_SomeD)

lemma table_ok_nil [simp]: "table_ok cap key []"
  by (simp add: table_ok_def)

lemma rt_update_ok [simp]:
  "table_ok cap re_destination t \<Longrightarrow> (\<And>e. re_destination (f e) = re_destination e) \<Longrightarrow> table_ok cap re_destination (rt_update d f t)"
  by (simp add: rt_update_def table_update_first(1))

lemma rd_update_ok [simp]:
  "table_ok cap de_key t \<Longrightarrow> (\<And>e. de_key (f e) = de_key e) \<Longrightarrow> table_ok cap de_key (rd_update a i f t)"
  by (simp add: rd_update_def table_update_first(1))

lemma rt_insert_ok: "table_ok cap re_destination t \<Longrightarrow> rt_insert cap e t = Some t' \<Longrightarrow> table_ok cap re_destination t'"
  unfolding rt_insert_def by (rule rtt.ins_ok)

lemma rd_insert_ok: "table_ok cap de_key t \<Longrightarrow> rd_insert cap e now t = Some t' \<Longrightarrow> table_ok cap de_key t'"
  unfolding rd_insert_def by (rule rdt.ins_ok)

lemma sat_insert:
  "table_ok cap re_destination t \<Longrightarrow> sat E P a \<Longrightarrow> (\<And>u. table_ok cap re_destination u \<Longrightarrow> sat E P (b u)) \<Longrightarrow>
     sat E P (case rt_insert cap e t of None \<Rightarrow> a | Some u \<Rightarrow> b u)"
  "table_ok cap2 de_key t2 \<Longrightarrow> sat E P a2 \<Longrightarrow> (\<And>u. table_ok cap2 de_key u \<Longrightarrow> sat E P (b2 u)) \<Longrightarrow>
     sat E P (case rd_insert cap2 e2 now t2 of None \<Rightarrow> a2 | Some u \<Rightarrow> b2 u)"
  "length t3 \<le> cap3 \<Longrightarrow> sat E P a3 \<Longrightarrow> (\<And>u. length u \<le> cap3 \<Longrightarrow> sat E P (b3 u)) \<Longrightarrow>
     sat E P (case btt_insert cap3 e3 now t3 of None \<Rightarrow> a3 | Some u \<Rightarrow> b3 u)"
  by (auto simp: btt_insert_def vec_push_def length_swap_remove split: option.split if_splits dest: rt_insert_ok rd_insert_ok position_Some)

lemma sat_vec_push:
  "queue_ok cap R q \<Longrightarrow> R x \<Longrightarrow> (\<And>y. sat E P (a y)) \<Longrightarrow> (\<And>u. queue_ok cap R u \<Longrightarrow> sat E P (b u)) \<Longrightarrow>
     sat E P (case vec_push cap q x of Inl y \<Rightarrow> a y | Inr u \<Rightarrow> b u)"
  by (auto split: sum.split dest: queue_ok_vec_push)

lemma re_destination_touch [simp]: "re_destination (re_touch e) = re_destination e"
  by (simp add: re_touch_def)

lemma nt_ok_update_first [simp]:
  "nt_ok cap t \<Longrightarrow> (\<And>e. ne_extended (f e) = ne_extended e) \<Longrightarrow> nt_ok cap (t\<lparr>nt_entries := update_first R f (nt_entries t)\<rparr>)"
  by (simp add: nt_ok_def table_ok_def map_update_first)

lemma nt_ok_update_short [simp]:
  "nt_ok cap t \<Longrightarrow> (\<And>e. ne_extended (f e) = ne_extended e) \<Longrightarrow> nt_ok cap (update_short a f t)"
  by (simp add: update_short_def)

lemma nt_ok_update_extended [simp]:
  "nt_ok cap t \<Longrightarrow> (\<And>e. ne_extended (f e) = ne_extended e) \<Longrightarrow> nt_ok cap (update_extended a f t)"
  by (rule nt_ok_ops)

lemma btt_update_length [simp]: "length (btt_update a q f t) = length t"
  by (simp add: btt_update_def)

section \<open>The invariant and single fields\<close>

text \<open>A change of a field the invariant does not mention keeps it; a change of one it does keeps it with the field's condition.\<close>

lemma nwk_ok_other [simp]:
  "nwk_ok E (s\<lparr>nw_nib := a\<rparr>) = nwk_ok E s" "nwk_ok E (s\<lparr>nw_config := b\<rparr>) = nwk_ok E s"
  "nwk_ok E (s\<lparr>nw_survey := c\<rparr>) = nwk_ok E s" "nwk_ok E (s\<lparr>nw_joining_list := d\<rparr>) = nwk_ok E s"
  "nwk_ok E (s\<lparr>nw_interfaces := e\<rparr>) = nwk_ok E s" "nwk_ok E (s\<lparr>nw_rng := f\<rparr>) = nwk_ok E s"
  "nwk_ok E (s\<lparr>nw_scan := g\<rparr>) = nwk_ok E s" "nwk_ok E (s\<lparr>nw_formation := h\<rparr>) = nwk_ok E s"
  "nwk_ok E (s\<lparr>nw_join := i\<rparr>) = nwk_ok E s" "nwk_ok E (s\<lparr>nw_permit_until := j\<rparr>) = nwk_ok E s"
  "nwk_ok E (s\<lparr>nw_beacon_appendix := k\<rparr>) = nwk_ok E s" "nwk_ok E (s\<lparr>nw_link_status_due := l\<rparr>) = nwk_ok E s"
  "nwk_ok E (s\<lparr>nw_power_delta_due := m\<rparr>) = nwk_ok E s" "nwk_ok E (s\<lparr>nw_power_request := n\<rparr>) = nwk_ok E s"
  "nwk_ok E (s\<lparr>nw_child_age_last := p\<rparr>) = nwk_ok E s" "nwk_ok E (s\<lparr>nw_now := q\<rparr>) = nwk_ok E s"
  "nwk_ok E (s\<lparr>nw_rreq_id := r\<rparr>) = nwk_ok E s" "nwk_ok E (s\<lparr>nw_next_tx_id := t\<rparr>) = nwk_ok E s"
  "nwk_ok E (s\<lparr>nw_next_mac_handle := u\<rparr>) = nwk_ok E s" "nwk_ok E (s\<lparr>nw_operating_since := v\<rparr>) = nwk_ok E s"
  "nwk_ok E (s\<lparr>nw_pan_id_update := w\<rparr>) = nwk_ok E s" "nwk_ok E (s\<lparr>nw_keepalive_due := x\<rparr>) = nwk_ok E s"
  "nwk_ok E (s\<lparr>nw_timeout_request_deadline := y\<rparr>) = nwk_ok E s" "nwk_ok E (s\<lparr>nw_pending_joiner_tlvs := z\<rparr>) = nwk_ok E s"
  "nwk_ok E (s\<lparr>nw_distributed_network := aa\<rparr>) = nwk_ok E s" "nwk_ok E (s\<lparr>nw_trust_center := ab\<rparr>) = nwk_ok E s"
  "nwk_ok E (s\<lparr>nw_rx_link := ac\<rparr>) = nwk_ok E s" "nwk_ok E (s\<lparr>nw_virtual_device := ad\<rparr>) = nwk_ok E s"
  "nwk_ok E (s\<lparr>nw_leaving_rejoin := ae\<rparr>) = nwk_ok E s" "nwk_ok E (s\<lparr>nw_stats := af\<rparr>) = nwk_ok E s"
  by (simp_all add: nwk_ok_def)

lemma nwk_ok_field [simp]:
  assumes "nwk_ok E s"
  shows "nwk_ok E (s\<lparr>nw_neighbors := a\<rparr>) \<longleftrightarrow> nt_ok (cap_neighbors E) a"
    and "nwk_ok E (s\<lparr>nw_routes := b\<rparr>) \<longleftrightarrow> table_ok (cap_routes E) re_destination b"
    and "nwk_ok E (s\<lparr>nw_source_routes := c\<rparr>) \<longleftrightarrow> table_ok (cap_routes E) sre_destination c"
    and "nwk_ok E (s\<lparr>nw_address_map := d\<rparr>) \<longleftrightarrow> am_ok (cap_address_map E) d"
    and "nwk_ok E (s\<lparr>nw_rdt := e\<rparr>) \<longleftrightarrow> table_ok (cap_route_discoveries E) de_key e"
    and "nwk_ok E (s\<lparr>nw_btt := f\<rparr>) \<longleftrightarrow> length f \<le> cap_broadcasts E"
    and "nwk_ok E (s\<lparr>nw_discovery := g\<rparr>) \<longleftrightarrow> length g \<le> cap_discovery E"
    and "nwk_ok E (s\<lparr>nw_security := h\<rparr>) \<longleftrightarrow> ns_inv (env_aes E) h"
    and "nwk_ok E (s\<lparr>nw_actions := i\<rparr>) \<longleftrightarrow> queue_ok (cap_actions E) action_ok i"
    and "nwk_ok E (s\<lparr>nw_events := j\<rparr>) \<longleftrightarrow> length j \<le> cap_events E"
    and "nwk_ok E (s\<lparr>nw_pending := k\<rparr>) \<longleftrightarrow> queue_ok (cap_pending_tx E) pending_ok k"
    and "nwk_ok E (s\<lparr>nw_bcast_bufs := l\<rparr>) \<longleftrightarrow> queue_ok (cap_broadcast_buffers E) bcast_buf_ok l"
    and "nwk_ok E (s\<lparr>nw_pending_rreq := m\<rparr>) \<longleftrightarrow> queue_ok (cap_pending_rreq E) (\<lambda>r. length (prq_frame r) \<le> MAX_NPDU) m"
  using assms by (simp_all add: nwk_ok_def)

lemma nwk_okD [simp]:
  assumes "nwk_ok E s"
  shows "nt_ok (cap_neighbors E) (nw_neighbors s)"
    and "table_ok (cap_routes E) re_destination (nw_routes s)"
    and "table_ok (cap_routes E) sre_destination (nw_source_routes s)"
    and "am_ok (cap_address_map E) (nw_address_map s)"
    and "table_ok (cap_route_discoveries E) de_key (nw_rdt s)"
    and "length (nw_btt s) \<le> cap_broadcasts E"
    and "length (nw_discovery s) \<le> cap_discovery E"
    and "ns_inv (env_aes E) (nw_security s)"
    and "queue_ok (cap_actions E) action_ok (nw_actions s)"
    and "length (nw_events s) \<le> cap_events E"
    and "queue_ok (cap_pending_tx E) pending_ok (nw_pending s)"
    and "queue_ok (cap_broadcast_buffers E) bcast_buf_ok (nw_bcast_bufs s)"
    and "queue_ok (cap_pending_rreq E) (\<lambda>r. length (prq_frame r) \<le> MAX_NPDU) (nw_pending_rreq s)"
  using assms by (simp_all add: nwk_ok_def)

section \<open>Frames\<close>

definition w_sized :: "encode \<Rightarrow> bool" where
  "w_sized m \<longleftrightarrow> (\<forall>w. length (w_buf (snd (m w))) = length (w_buf w))"

lemma w_sized_bytes: "w_sized (w_bytes b)"
  by (auto simp: w_sized_def w_bytes_def w_reserve_def w_fill_def step_try_def slice_def split: prod.split option.split)

lemma w_sized_ints: "w_sized (w_u8 x)" "w_sized (w_u16_le y)" "w_sized (w_u64_le z)"
  by (simp_all add: w_u8_def w_u16_le_def w_u64_le_def w_sized_bytes)

lemma w_sized_try: "w_sized m \<Longrightarrow> (\<And>a. w_sized (f a)) \<Longrightarrow> w_sized (step_try m f)"
  by (auto simp: w_sized_def step_try_def split: prod.split sum.split) (metis snd_conv)+

lemma w_sized_const: "w_sized (step_ok ())" "w_sized (step_err e)"
  by (simp_all add: w_sized_def step_ok_def step_err_def)

lemma w_sized_header: "w_sized (nh_encode h)"
  unfolding nh_encode_def sr_encode_def
  by (auto intro!: w_sized_try w_sized_ints w_sized_bytes w_sized_const split: option.split)

lemma build_npdu_ok:
  assumes "build_npdu h p = Inr (f, n)"
  shows "npdu_ok f n"
proof -
  let ?tot = "nh_encoded_len h + length p"
  obtain u w v w' where n: "\<not> MAX_NPDU < ?tot" "nh_encode h (w_new (replicate ?tot 0)) = (u, w)" "w_bytes p w = (v, w')"
    "f = w_buf w'" "n = nh_encoded_len h"
    using assms by (auto simp: build_npdu_def Let_def split: if_splits sum.splits prod.splits)
  have "length (w_buf w) = ?tot" using w_sized_header [of h] n(2) unfolding w_sized_def by (metis length_replicate snd_conv w_new_def writer.select_convs(1))
  moreover have "length (w_buf w') = length (w_buf w)" using w_sized_bytes [of p] n(3) unfolding w_sized_def by (metis snd_conv)
  ultimately show ?thesis using n by (simp add: npdu_ok_def)
qed

lemma build_command_ok: "build_command h c = Inr (f, n) \<Longrightarrow> npdu_ok f n"
  by (auto simp: build_command_def split: prod.splits sum.splits intro: build_npdu_ok)

lemma sat_build:
  "(\<And>e. sat E P (a e)) \<Longrightarrow> (\<And>f n. npdu_ok f n \<Longrightarrow> sat E P (b f n)) \<Longrightarrow> sat E P (case build_npdu h p of Inl e \<Rightarrow> a e | Inr (f, n) \<Rightarrow> b f n)"
  "(\<And>e. sat E P (a e)) \<Longrightarrow> (\<And>f n. npdu_ok f n \<Longrightarrow> sat E P (b f n)) \<Longrightarrow> sat E P (case build_command h c of Inl e \<Rightarrow> a e | Inr (f, n) \<Rightarrow> b f n)"
  by (auto split: sum.split prod.split dest: build_npdu_ok build_command_ok)

lemma decode_prefix_le: "decode_prefix b = Inr (h, n) \<Longrightarrow> n \<le> length b"
proof -
  assume d: "decode_prefix b = Inr (h, n)"
  obtain r where r: "nh_decode (r_new b) = (Inr h, r)" "n = r_pos r"
    using d by (auto simp: decode_prefix_def split: prod.splits sum.splits)
  have "cursor_safe nh_decode" by (rule cursor_safe_nh)
  then have "r_buf r = b" "r_ok r" using r(1) unfolding cursor_safe_def by (metis r_ok_new r_new_def reader.select_convs(1) snd_conv)+
  then show ?thesis using r(2) by (simp add: r_ok_def)
qed

lemma link_copy_ok: "link_copy p = Inr f \<Longrightarrow> length f \<le> MAX_NPDU"
  by (auto simp: link_copy_def split: if_splits)

lemma sat_link_copy:
  "(\<And>e. sat E P (a e)) \<Longrightarrow> (\<And>f. length f \<le> MAX_NPDU \<Longrightarrow> sat E P (b f)) \<Longrightarrow> sat E P (case link_copy p of Inl e \<Rightarrow> a e | Inr f \<Rightarrow> b f)"
  by (auto split: sum.split dest: link_copy_ok)

lemma pending_new_ok [simp]: "pending_ok (pending_new i f n d h r b c k t) = npdu_ok f n"
  by (simp add: pending_ok_def pending_new_def)

lemma pending_ok_upd [simp]:
  "pending_ok (p\<lparr>pt_mac_handle := a\<rparr>) = pending_ok p" "pending_ok (p\<lparr>pt_retry_at := b\<rparr>) = pending_ok p"
  "pending_ok (p\<lparr>pt_awaiting_route := c\<rparr>) = pending_ok p" "pending_ok (p\<lparr>pt_indirect := d\<rparr>) = pending_ok p"
  "pending_ok (p\<lparr>pt_next_hop := e\<rparr>) = pending_ok p" "pending_ok (p\<lparr>pt_relayed_from := f\<rparr>) = pending_ok p"
  "pending_ok (p\<lparr>pt_source_route := g\<rparr>) = pending_ok p" "pending_ok (p\<lparr>pt_retries_left := h\<rparr>) = pending_ok p"
  "pending_ok (p\<lparr>pt_kind := i\<rparr>) = pending_ok p"
  by (simp_all add: pending_ok_def)

section \<open>Shared operations\<close>

lemma action_ok_simps [simp]:
  "action_ok (MacData a b f c d) \<longleftrightarrow> length f \<le> MAX_NPDU" "action_ok (TrustedLinkData a e f c) \<longleftrightarrow> length f \<le> MAX_NPDU"
  "action_ok (MacDataDeferred a b)" "action_ok (MacScan sk cm du er)" "action_ok (MacAssociate pa sa cp ch ca)"
  "action_ok (MacAssociateResponse ea sa ms)" "action_ok (MacStart pa cp ch sa c d)" "action_ok (MacSetPermit c)"
  "action_ok (MacSetBeaconPayload f)" "action_ok (MacSetShortAddress sa)" "action_ok (MacSetPanId pa)"
  "action_ok (MacSetChannel cp ch)" "action_ok (MacSetCoordinator sa ea)" "action_ok (MacSetRxOnWhenIdle c)"
  "action_ok MacPoll" "action_ok (MacAdjustTxPower sa ea x y)" "action_ok MacResetTxPower" "action_ok Persist"
  "action_ok (CounterReservation r)"
  by (simp_all add: action_ok_def)

lemma ok_push_action [simp]: "nwk_ok E s \<Longrightarrow> action_ok a \<Longrightarrow> nwk_ok E (push_action E a s)"
  by (simp add: push_action_def)

lemma ok_push_event [simp]: "nwk_ok E s \<Longrightarrow> nwk_ok E (push_event E e s)"
  by (simp add: push_event_def)

lemma ok_upd [simp]: "nwk_ok E (upd_nib f s) = nwk_ok E s" "nwk_ok E (upd_stats g s) = nwk_ok E s"
  by (simp_all add: upd_nib_def upd_stats_def)

lemma ok_alloc [simp]:
  "nwk_ok E (snd (alloc_tx_id s)) = nwk_ok E s" "nwk_ok E (snd (alloc_mac_handle s)) = nwk_ok E s"
  "nwk_ok E (snd (next_sequence s)) = nwk_ok E s" "nwk_ok E (next_routing_sequence s) = nwk_ok E s"
  "nwk_ok E (snd (jitter E' lo hi s)) = nwk_ok E s"
  by (simp_all add: alloc_tx_id_def alloc_mac_handle_def next_sequence_def next_routing_sequence_def jitter_def Let_def
      split: prod.split)

lemma ok_next [simp]: "nwk_ok E s \<Longrightarrow> nwk_ok E (snd (next_action s))" "nwk_ok E s \<Longrightarrow> nwk_ok E (snd (next_event s))"
proof -
  assume ok: "nwk_ok E s"
  have "queue_ok (cap_actions E) action_ok q" if "nw_actions s = a # q" for a q
    using nwk_okD(9) [OF ok] that by (simp add: queue_ok_def)
  moreover have "length q \<le> cap_events E" if "nw_events s = a # q" for a q using nwk_okD(10) [OF ok] that by simp
  ultimately show "nwk_ok E (snd (next_action s))" "nwk_ok E (snd (next_event s))"
    using ok by (auto simp: next_action_def next_event_def split: list.split)
qed

lemma ns_inv_counter [simp]: "ns_inv aes s \<Longrightarrow> oc_inv (nk_outgoing (ns_keys s))"
  by (simp add: ns_inv_def nk_inv_def)

lemma ns_inv_reservations [simp]:
  assumes "ns_inv aes s"
  shows "ns_inv aes (snd (ns_start_counter_reservation s))" "ns_inv aes (ns_abort_counter_reservation s)"
    "oc_in_flight (nk_outgoing (ns_keys s)) = Some r \<Longrightarrow> ns_inv aes (ns_commit_counter_reservation r s)"
  unfolding ns_start_counter_reservation_def ns_commit_counter_reservation_def ns_abort_counter_reservation_def snd_conv
  by (auto intro!: ns_inv_outgoing assms oc_inv_start oc_inv_commit oc_inv_abort intro: ns_inv_counter [OF assms])

lemma ok_reserve [simp]: "nwk_ok E s \<Longrightarrow> nwk_ok E (nw_maybe_reserve_counter E s)"
proof -
  assume ok: "nwk_ok E s"
  obtain r sec where r: "ns_start_counter_reservation (nw_security s) = (r, sec)" by fastforce
  then have "ns_inv (env_aes E) sec" using ns_inv_reservations(1) [OF nwk_okD(8) [OF ok]] by simp
  then show ?thesis using ok r by (auto simp: nw_maybe_reserve_counter_def Let_def split: option.split)
qed

lemma ok_commit [simp]:
  "nwk_ok E s \<Longrightarrow> oc_in_flight (nk_outgoing (ns_keys (nw_security s))) = Some r \<Longrightarrow> nwk_ok E (nw_commit_counter_reservation r s)"
  "nwk_ok E s \<Longrightarrow> nwk_ok E (nw_abort_counter_reservation s)"
  by (simp_all add: nw_commit_counter_reservation_def nw_abort_counter_reservation_def)

lemma ok_ensure_neighbor [simp]: "nwk_ok E s \<Longrightarrow> nwk_ok E (snd (ensure_neighbor E e s))"
  using nt_insert_ok [of "cap_neighbors E" "nw_neighbors s"] by (auto simp: ensure_neighbor_def Let_def split: prod.split) (metis nwk_okD(1) snd_conv)

section \<open>Transmission\<close>

lemma ok_finalize [simp]: "nwk_ok E s \<Longrightarrow> nwk_ok E (snd (finalize_frame E p n b s))"
proof -
  assume ok: "nwk_ok E s"
  have "nwk_ok E (s\<lparr>nw_security := sec\<rparr>)" if "secure_outgoing (env_aes E) hl pl lv me (nw_security s) buf = (r, sec, buf')" for hl pl lv me buf r sec buf'
    using ns_inv_secure_outgoing [OF nwk_okD(8) [OF ok], of hl pl lv me buf] that ok by simp
  then show ?thesis using ok
    by (auto simp: finalize_frame_def Let_def split: prod.split sum.split security_error.split)
qed

lemma secure_outgoing_le:
  "secure_outgoing aes hl pl lv me sec buf = (Inr n, sec', buf') \<Longrightarrow> n \<le> length buf"
  by (auto simp: secure_outgoing_def protect_in_place_def Let_def split: option.splits sum.splits prod.splits if_splits)

lemma finalize_frame_le:
  assumes "finalize_frame E p n b s = (Inr f, t)"
  shows "length f \<le> MAX_NPDU"
  using assms
  by (auto simp: finalize_frame_def Let_def split: if_splits prod.splits sum.splits security_error.splits dest!: secure_outgoing_le)

lemma sat_finalize:
  assumes "nwk_ok E s" and "\<And>r t. nwk_ok E t \<Longrightarrow> (\<And>f. r = Inr f \<Longrightarrow> length f \<le> MAX_NPDU) \<Longrightarrow> sat E P (b r t)"
  shows "sat E P (case finalize_frame E p n c s of (r, t) \<Rightarrow> b r t)"
    "sat E P (let (r, t) = finalize_frame E p n c s in b r t)"
proof -
  obtain r t where r: "finalize_frame E p n c s = (r, t)" by fastforce
  have "sat E P (b r t)" using ok_finalize [OF assms(1), of p n c] finalize_frame_le [of E p n c s] r by (intro assms(2)) auto
  then show "sat E P (case finalize_frame E p n c s of (r, t) \<Rightarrow> b r t)" "sat E P (let (r, t) = finalize_frame E p n c s in b r t)"
    by (simp_all add: r)
qed

text \<open>All the rules, the ones that know most of the value first; what is left over is for the simplifier.\<close>

lemmas descend = sat_finalize sat_build sat_link_copy sat_insert sat_let_pair sat_let_state sat_step_try sat_step_map sat_bind sat_if
  sat_option sat_sum sat_nwk_error sat_decision sat_fold sat_let sat_prod

declare ok_leaf [simp]

lemma ok_track [simp]: "nwk_ok E s \<Longrightarrow> pending_ok p \<Longrightarrow> nwk_ok E (snd (track_pending E p s))"
  using queue_ok_vec_push [of "cap_pending_tx E" pending_ok "nw_pending s" p]
  by (auto simp: track_pending_def Let_def split: sum.split)

lemma ok_transmit [simp]: "nwk_ok E s \<Longrightarrow> pending_ok p \<Longrightarrow> nwk_ok E (snd (transmit_pending E p s))"
  unfolding transmit_pending_def
  by (rule sat_snd, (rule descend | simp; fail)+)

lemma ok_send_command [simp]: "nwk_ok E s \<Longrightarrow> nwk_ok E (snd (send_command_unicast E h c m b i k s))"
  unfolding send_command_unicast_def by (rule sat_snd, (rule descend | simp; fail)+)

lemma ok_send_once [simp]: "nwk_ok E s \<Longrightarrow> nwk_ok E (snd (send_command_broadcast_once E h c b s))"
  unfolding send_command_broadcast_once_def by (rule sat_snd, (rule descend | simp; fail)+)

lemma ok_route_unicast [simp]: "nwk_ok E s \<Longrightarrow> nwk_ok E (snd (route_unicast d b s))"
  unfolding route_unicast_def by (rule sat_snd, (rule descend | simp; fail)+)

lemma ok_next_hop_for [simp]: "nwk_ok E s \<Longrightarrow> nwk_ok E (snd (next_hop_for d s))"
  unfolding next_hop_for_def by (rule sat_snd, (rule descend | simp; fail)+)

section \<open>Route requests\<close>

lemma ok_service_rreq_at:
  assumes "nwk_ok E s" "i < length (nw_pending_rreq s)"
  shows "nwk_ok E (snd (service_rreq_at E now i s))"
proof -
  let ?f = "prq_frame (nw_pending_rreq s ! i)"
  let ?n = "case decode_prefix ?f of Inr (_, n) \<Rightarrow> n | Inl _ \<Rightarrow> 0"
  obtain r s1 where f: "finalize_frame E ?f ?n (cfg_security_enabled (nw_config s)) s = (r, s1)" by (meson surj_pair)
  have q: "nw_pending_rreq s1 = nw_pending_rreq s" by (metis f finalize_frame_keeps_rreq snd_conv)
  have ok: "nwk_ok E s1" using ok_finalize [OF assms(1)] f by (metis snd_conv)
  have air: "length g \<le> MAX_NPDU" if "r = Inr g" for g using f that finalize_frame_le by blast
  have len: "length ?f \<le> MAX_NPDU" using queue_ok_nth [OF nwk_okD(13) [OF assms(1)] assms(2)] .
  show ?thesis using assms ok air len
    by (auto simp: service_rreq_at_def Let_def f q jitter_def push_action_def alloc_mac_handle_def
        split: sum.split prod.split)
qed

lemma ok_service_rreq_from [simp]: "nwk_ok E s \<Longrightarrow> nwk_ok E (service_rreq_from E now i s)"
proof (induction E now i s rule: service_rreq_from.induct)
  case (1 E now i s)
  then show ?case
    using ok_service_rreq_at [of E s i now]
    by (subst service_rreq_from.simps) (auto split: prod.split)
qed

lemma ok_service_route_requests [simp]: "nwk_ok E s \<Longrightarrow> nwk_ok E (service_route_requests E now s)"
  by (simp add: service_route_requests_def)

lemma ok_queue_rreq [simp]: "nwk_ok E s \<Longrightarrow> length f \<le> MAX_NPDU \<Longrightarrow> nwk_ok E (snd (queue_rreq E f r i b s))"
  unfolding queue_rreq_def
  by (rule sat_snd, (rule sat_vec_push [where R = "\<lambda>r. length (prq_frame r) \<le> MAX_NPDU"] | rule descend | simp; fail)+)

lemma npdu_ok_le [simp]: "npdu_ok f n \<Longrightarrow> length f \<le> MAX_NPDU"
  by (simp add: npdu_ok_def)

lemma ok_send_route_record [simp]: "nwk_ok E s \<Longrightarrow> nwk_ok E (send_route_record E c b s)"
  unfolding send_route_record_def by (rule sat_state, (rule descend | simp; fail)+)

lemma ok_discovery_route [simp]: "nwk_ok E s \<Longrightarrow> nwk_ok E (snd (discovery_route E d s))"
  unfolding discovery_route_def by (rule sat_snd, (rule descend | simp; fail)+)

lemma ok_own_discovery [simp]: "nwk_ok E (snd (own_discovery d c s)) = nwk_ok E s"
  by (simp add: own_discovery_def Let_def)

lemma ok_start_route_discovery [simp]: "nwk_ok E s \<Longrightarrow> nwk_ok E (snd (start_route_discovery E d r s))"
  unfolding start_route_discovery_def by (rule sat_snd, (rule descend | simp; fail)+)

lemma ok_start_many_to_one [simp]: "nwk_ok E s \<Longrightarrow> nwk_ok E (snd (start_many_to_one E r c s))"
  unfolding start_many_to_one_def by (rule sat_snd, (rule descend | simp; fail)+)

lemma ok_route_discovery [simp]: "nwk_ok E s \<Longrightarrow> nwk_ok E (snd (route_discovery E d r c s))"
  unfolding route_discovery_def by (rule sat_snd, (rule descend | simp; fail)+)

section \<open>Pending unicasts\<close>

lemma ok_await_route [simp]: "nwk_ok E s \<Longrightarrow> pending_ok p \<Longrightarrow> nwk_ok E (snd (await_route E p s))"
  unfolding await_route_def by (rule sat_snd, (rule descend | simp; fail)+)

lemma pending_ok_via_hop [simp]: "pending_ok (via_hop h p s) = pending_ok p"
  by (simp add: via_hop_def Let_def)

lemma ok_enqueue [simp]: "nwk_ok E s \<Longrightarrow> pending_ok p \<Longrightarrow> nwk_ok E (snd (enqueue_unicast E p s))"
  unfolding enqueue_unicast_def by (rule sat_snd, (rule descend | simp; fail)+)

lemma ok_send_network_status [simp]: "nwk_ok E s \<Longrightarrow> nwk_ok E (send_network_status E d a c s)"
  unfolding send_network_status_def by (rule sat_state, (rule descend | simp; fail)+)

lemma ok_service_pending_at:
  assumes "nwk_ok E s" "i < length (nw_pending s)"
  shows "nwk_ok E (snd (service_pending_at E now i s))"
proof -
  have "pending_ok (nw_pending s ! i)" using assms queue_ok_nth nwk_okD(11) by blast
  with assms show ?thesis unfolding service_pending_at_def by (intro sat_snd) ((rule descend | simp; fail)+)
qed

lemma ok_service_pending_from: "service_pending_from E now i s = Some t \<Longrightarrow> nwk_ok E s \<Longrightarrow> nwk_ok E t"
proof (induction rule: service_pending_from.raw_induct [rotated, consumes 1])
  case (1 f E now i s t)
  then show ?case using ok_service_pending_at [of E s i now] by (auto split: if_splits prod.splits)
qed

lemma ok_service_pending: "nwk_ok E s \<Longrightarrow> ok_opt E (service_pending E now s)"
  by (auto simp: service_pending_def dest: ok_service_pending_from split: option.split)

lemma ok_release_from: "release_from E d i s = Some t \<Longrightarrow> nwk_ok E s \<Longrightarrow> nwk_ok E t"
proof (induction rule: release_from.raw_induct [rotated, consumes 1])
  case (1 f E d i s t)
  have "pending_ok (nw_pending s ! i)" if "i < length (nw_pending s)"
    using 1(3) that queue_ok_nth nwk_okD(11) by blast
  then show ?case using 1 by (auto simp: Let_def split: if_splits)
qed

lemma ok_release_waiting: "nwk_ok E s \<Longrightarrow> ok_opt E (release_waiting E d s)"
  by (auto simp: release_waiting_def dest: ok_release_from split: option.split)

lemma ok_fail_pending [simp]: "nwk_ok E s \<Longrightarrow> nwk_ok E (fail_pending E d p s)"
  unfolding fail_pending_def by (rule sat_state, (rule descend | simp; fail)+)

lemma ok_fail_from: "fail_from E d i s = Some t \<Longrightarrow> nwk_ok E s \<Longrightarrow> nwk_ok E t"
proof (induction rule: fail_from.raw_induct [rotated, consumes 1])
  case (1 f E d i s t)
  then show ?case by (auto simp: Let_def split: if_splits)
qed

lemma ok_fail_waiting: "nwk_ok E s \<Longrightarrow> ok_opt E (fail_waiting E d s)"
  by (auto simp: fail_waiting_def dest: ok_fail_from split: option.split)

lemma ok_add_route [simp]: "nwk_ok E s \<Longrightarrow> nwk_ok E (snd (add_route E d h s))"
  unfolding add_route_def by (rule sat_snd, (rule descend | simp; fail)+)

section \<open>Relaying\<close>

lemma ok_relay_source_routed [simp]: "nwk_ok E s \<Longrightarrow> pending_ok p \<Longrightarrow> nwk_ok E (snd (relay_source_routed E p x s))"
proof -
  assume ok: "nwk_ok E s" and p: "pending_ok p"
  have "pending_ok (p\<lparr>pt_frame := set_octet o' f (pt_frame p)\<rparr>)"
    "pending_ok (p\<lparr>pt_next_hop := h, pt_frame := set_octet o' f (pt_frame p)\<rparr>)" for h o' f
    using p by (simp_all add: pending_ok_def npdu_ok_def)
  with ok p show ?thesis
    by (auto simp: relay_source_routed_def Let_def split: sum.split option.split)
qed

lemma ok_relay_unicast [simp]: "nwk_ok E s \<Longrightarrow> nwk_ok E (snd (relay_unicast E p h b s))"
proof -
  have "npdu_ok (set_octet 1 f (set_octet 6 g p)) (case decode_prefix p of Inr (_, n) \<Rightarrow> n | Inl _ \<Rightarrow> 0)"
    if "\<not> MAX_NPDU < length p" for f g
    using that decode_prefix_le [of p] by (auto simp: npdu_ok_def split: sum.split)
  then show "nwk_ok E s \<Longrightarrow> nwk_ok E (snd (relay_unicast E p h b s))"
    unfolding relay_unicast_def by (intro sat_snd) ((rule descend | simp; fail)+)
qed

end
