(* ===== verification/NwkPreservation.thy ===== *)
theory NwkPreservation
  imports NwkRx NwkInvariant
begin

text \<open>
  Every operation of the network layer keeps the invariant of its state: broadcasts, power and keepalives, joining,
  attachment, routing, reception and the timers.
\<close>

section \<open>Broadcasts\<close>

lemma ok_store_broadcast_buf [simp]:
  assumes "nwk_ok E s" "bcast_buf_ok b"
  shows "nwk_ok E (store_broadcast_buf E b s)"
proof -
  have q: "queue_ok (cap_broadcast_buffers E) bcast_buf_ok (nw_bcast_bufs s)" using assms(1) by simp
  then have "queue_ok (cap_broadcast_buffers E) bcast_buf_ok (drop 1 (nw_bcast_bufs s))"
    by (cases "nw_bcast_bufs s") (auto simp: queue_ok_def)
  moreover have "queue_ok c bcast_buf_ok (case vec_push c k b of Inr v \<Rightarrow> v | Inl _ \<Rightarrow> k)" if "queue_ok c bcast_buf_ok k" for c k
    using that assms(2) by (auto split: sum.split dest: queue_ok_vec_push)
  ultimately show ?thesis using q assms by (simp add: store_broadcast_buf_def Let_def)
qed

lemma ok_send_link_copy [simp]: "nwk_ok E s \<Longrightarrow> nwk_ok E (send_link_copy E p b l s)"
  unfolding send_link_copy_def by (rule sat_state, (rule descend | simp; fail)+)

lemma own_ok_simps [simp]: "own_ok None" "own_ok (Some (p, n, b)) = npdu_ok p n"
  by (simp_all add: own_ok_def)

lemma ok_send_child_copy [simp]: "nwk_ok E s \<Longrightarrow> length f \<le> MAX_NPDU \<Longrightarrow> own_ok own \<Longrightarrow> nwk_ok E (send_child_copy E f own c s)"
  unfolding send_child_copy_def by (rule sat_state, (rule descend | simp; fail)+)

lemma bcast_buf_ok_upd [simp]: "bcast_buf_ok b \<Longrightarrow> length f \<le> MAX_NPDU \<Longrightarrow> bcast_buf_ok (b\<lparr>bb_frame := f, bb_plaintext := None\<rparr>)"
  by (simp add: bcast_buf_ok_def)

lemma bcast_buf_ok_new [simp]:
  "bcast_buf_ok \<lparr>bb_source = a, bb_sequence = q, bb_frame = f, bb_plaintext = own\<rparr> \<longleftrightarrow> length f \<le> MAX_NPDU \<and> own_ok own"
  by (simp add: bcast_buf_ok_def)

lemma ok_transmit_broadcast [simp]:
  "nwk_ok E s \<Longrightarrow> length f \<le> MAX_NPDU \<Longrightarrow> own_ok own \<Longrightarrow> nwk_ok E (transmit_broadcast E src q f d b own s)"
  unfolding transmit_broadcast_def by (rule sat_state, (rule descend | simp; fail)+)

lemma ok_originate [simp]: "nwk_ok E s \<Longrightarrow> npdu_ok p n \<Longrightarrow> nwk_ok E (snd (originate_broadcast E p n b s))"
  unfolding originate_broadcast_def by (rule sat_snd, (rule descend | simp; fail)+)

lemma sat_prod_app: "(\<And>x y. t = (x, y) \<Longrightarrow> sat E P (b x y s)) \<Longrightarrow> sat E P ((case t of (x, y) \<Rightarrow> b x y) s)"
  by (cases t) simp

lemma ok_data_request_aliased [simp]: "nwk_ok E s \<Longrightarrow> nwk_ok E (snd (data_request_aliased E d p r b c a s))"
  unfolding data_request_aliased_def by (rule sat_snd, (rule descend sat_prod_app | simp; fail)+)

lemma ok_data_request [simp]: "nwk_ok E s \<Longrightarrow> nwk_ok E (snd (data_request E d p r b c s))"
  by (simp add: data_request_def)

section \<open>Address conflicts\<close>

lemma ok_allocate_address [simp]: "nwk_ok E (snd (allocate_address E' s)) = nwk_ok E s"
  by (simp add: allocate_address_def Let_def split: prod.split)

lemma am_record_ok_snd [simp]: "am_ok cap m \<Longrightarrow> am_ok cap (snd (am_record cap e a m))"
  using am_record_ok by (metis prod.collapse)

lemma ok_note_pair [simp]: "nwk_ok E s \<Longrightarrow> nwk_ok E (note_pair E e a s)"
  by (simp add: note_pair_def)

lemma ok_broadcast_address_conflict [simp]: "nwk_ok E s \<Longrightarrow> nwk_ok E (broadcast_address_conflict E a s)"
  unfolding broadcast_address_conflict_def by (rule sat_state, (rule descend | simp; fail)+)

lemma ok_local_conflict [simp]: "nwk_ok E s \<Longrightarrow> nwk_ok E (on_local_address_conflict E s)"
  unfolding on_local_address_conflict_def by (rule sat_state, (rule descend | simp; fail)+)

lemma ok_reassign [simp]: "nwk_ok E s \<Longrightarrow> nwk_ok E (reassign_child_address E c s)"
  unfolding reassign_child_address_def by (rule sat_state, (rule descend | simp; fail)+)

lemma ok_remote_conflict [simp]: "nwk_ok E s \<Longrightarrow> nwk_ok E (on_remote_address_conflict E a s)"
  unfolding on_remote_address_conflict_def by (rule sat_state, (rule descend | simp; fail)+)

lemma ok_conflict_reported [simp]: "nwk_ok E s \<Longrightarrow> nwk_ok E (on_address_conflict_reported E a s)"
  unfolding on_address_conflict_reported_def by (rule sat_state, (rule descend | simp; fail)+)

lemma ok_note_address [simp]: "nwk_ok E s \<Longrightarrow> nwk_ok E (note_address E e a b s)"
proof -
  have "nwk_ok E (let (u, m) = am_record (cap_address_map E) e a (nw_address_map t); t' = t\<lparr>nw_address_map := m\<rparr>
                  in case u of AmConflict _ \<Rightarrow> if b then on_remote_address_conflict E a t' else t' | _ \<Rightarrow> t')"
    if "nwk_ok E t" for t
    using am_record_ok [OF nwk_okD(4) [OF that], of e a] that
    by (auto simp: Let_def split: prod.split address_map_update.split)
  then show "nwk_ok E s \<Longrightarrow> nwk_ok E (note_address E e a b s)"
    by (auto simp: note_address_def split: option.split)
qed

lemma ok_device_announce [simp]: "nwk_ok E s \<Longrightarrow> nwk_ok E (on_device_announce E e a s)"
  by (simp add: on_device_announce_def)

section \<open>Broadcast reception and timers\<close>

lemma relay_plaintext_ok: "relay_plaintext buf n a b = Some p \<Longrightarrow> n \<le> length buf \<Longrightarrow> npdu_ok p n"
  by (auto simp: relay_plaintext_def Let_def npdu_ok_def slice_def split: if_splits)

lemma npdu_ok_set_octet [simp]: "npdu_ok (set_octet i f p) n = npdu_ok p n"
  by (simp add: npdu_ok_def)

lemma ok_broadcast_received [simp]:
  "nwk_ok E s \<Longrightarrow> n \<le> length buf \<Longrightarrow> nwk_ok E (snd (on_broadcast_received E src q d r m buf n a b c s))"
  unfolding on_broadcast_received_def by (rule sat_snd, (rule descend | simp add: relay_plaintext_ok; fail)+)

lemma ok_drop_bufs [simp]: "nwk_ok E s \<Longrightarrow> nwk_ok E (drop_bufs src q s)"
  by (simp add: drop_bufs_def)

lemma ok_retransmit_broadcast [simp]: "nwk_ok E s \<Longrightarrow> own_ok own \<Longrightarrow> nwk_ok E (retransmit_broadcast E src q b own s)"
proof -
  assume ok: "nwk_ok E s" "own_ok own"
  have "length (bb_frame x) \<le> MAX_NPDU" if "List.find (bb_of src q) (nw_bcast_bufs s) = Some x" for x
    using queue_ok_find [OF nwk_okD(12) [OF ok(1)] that] by (simp add: bcast_buf_ok_def)
  then show ?thesis using ok by (auto simp: retransmit_broadcast_def split: option.split)
qed

lemma ok_service_broadcast [simp]: "nwk_ok E s \<Longrightarrow> nwk_ok E (service_broadcast E now r k s)"
proof -
  assume ok: "nwk_ok E s"
  have "own_ok (Option.bind (List.find (bb_of src q) (nw_bcast_bufs t)) bb_plaintext)" if "nwk_ok E t" for t src q
    using queue_ok_find [OF nwk_okD(12) [OF that]] by (cases "List.find (bb_of src q) (nw_bcast_bufs t)") (auto simp: bcast_buf_ok_def)
  then show ?thesis using ok
    unfolding service_broadcast_def by (intro sat_state) ((rule descend | simp; fail)+)
qed

lemma btt_expire_length [simp]: "length t \<le> cap \<Longrightarrow> length (btt_expire now t) \<le> cap"
  by (auto simp: btt_expire_def intro: le_trans [OF length_filter_le])

lemma ok_service_broadcasts [simp]: "nwk_ok E s \<Longrightarrow> nwk_ok E (service_broadcasts E now s)"
  unfolding service_broadcasts_def by (rule sat_state, (rule descend | simp; fail)+)

section \<open>Beacon payload, permit joining, channel\<close>

lemma ok_update_beacon_payload [simp]: "nwk_ok E s \<Longrightarrow> nwk_ok E (update_beacon_payload E s)"
  by (auto simp: update_beacon_payload_def Let_def split: prod.split sum.split)

lemma ok_set_appendix [simp]: "nwk_ok E s \<Longrightarrow> nwk_ok E (set_network_wide_beacon_appendix E b s)"
  by (simp add: set_network_wide_beacon_appendix_def)

lemma ok_permit_joining [simp]: "nwk_ok E s \<Longrightarrow> nwk_ok E (snd (permit_joining E b s))"
  by (simp add: permit_joining_def)

lemma ok_note_channel [simp]: "nwk_ok E (note_channel_in_use s) = nwk_ok E s"
  by (simp add: note_channel_in_use_def Let_def split: option.split)

lemma ok_change_channel [simp]: "nwk_ok E s \<Longrightarrow> nwk_ok E (change_channel E c u s)"
  by (simp add: change_channel_def Let_def)

section \<open>Power negotiation and keepalives\<close>

lemma ok_schedule_power [simp]: "nwk_ok E s \<Longrightarrow> nwk_ok E (schedule_power_delta E s)"
  unfolding schedule_power_delta_def by (rule sat_state, (rule descend | simp; fail)+)

lemma ok_refresh_power [simp]: "nwk_ok E s \<Longrightarrow> nwk_ok E (refresh_power_delta_schedule E s)"
  by (simp add: refresh_power_delta_schedule_def)

lemma ok_broadcast_power [simp]: "nwk_ok E s \<Longrightarrow> nwk_ok E (broadcast_power_delta E c s)"
  unfolding broadcast_power_delta_def by (rule sat_state, (rule descend | simp; fail)+)

lemma ok_send_power_delta [simp]: "nwk_ok E s \<Longrightarrow> nwk_ok E (send_power_delta E s)"
  unfolding send_power_delta_def by (rule sat_state, (rule descend | simp; fail)+)

lemma ok_service_power_delta [simp]: "nwk_ok E s \<Longrightarrow> nwk_ok E (service_power_delta E now s)"
  unfolding service_power_delta_def by (rule sat_state, (rule descend | simp; fail)+)

lemma ok_link_power_delta [simp]: "nwk_ok E s \<Longrightarrow> nwk_ok E (on_link_power_delta E ctx c s)"
  unfolding on_link_power_delta_def by (rule sat_state, (rule descend | simp; fail)+)

lemma ok_update_parent [simp]: "nwk_ok E s \<Longrightarrow> (\<And>e. ne_extended (f e) = ne_extended e) \<Longrightarrow> nwk_ok E (update_parent f s)"
  by (simp add: update_parent_def)

lemma ok_parent_link_failure [simp]: "nwk_ok E s \<Longrightarrow> nwk_ok E (parent_link_failure E s)"
  by (simp add: parent_link_failure_def)

lemma ok_send_timeout_request [simp]: "nwk_ok E s \<Longrightarrow> nwk_ok E (send_end_device_timeout_request E s)"
  unfolding send_end_device_timeout_request_def by (rule sat_state, (rule descend | simp; fail)+)

lemma ok_timeout_request_sent [simp]: "nwk_ok E s \<Longrightarrow> nwk_ok E (on_timeout_request_sent E b s)"
  by (simp add: on_timeout_request_sent_def Let_def)

lemma ne_extended_set_timeout [simp]: "ne_extended (ne_set_timeout i e) = ne_extended e"
  by (simp add: ne_set_timeout_def split: option.split)

lemma ok_timeout_request [simp]: "nwk_ok E s \<Longrightarrow> nwk_ok E (on_end_device_timeout_request E ctx q s)"
  unfolding on_end_device_timeout_request_def by (rule sat_state, (rule descend | simp add: Let_def; fail)+)

lemma ok_timeout_response [simp]: "nwk_ok E s \<Longrightarrow> nwk_ok E (on_end_device_timeout_response E ctx r s)"
  unfolding on_end_device_timeout_response_def by (rule sat_state, (rule descend | simp; fail)+)

lemma ok_send_keepalive [simp]: "nwk_ok E s \<Longrightarrow> nwk_ok E (send_keepalive E s)"
  unfolding send_keepalive_def by (rule sat_state, (rule descend | simp; fail)+)

lemma ok_poll_indication [simp]: "nwk_ok E s \<Longrightarrow> nwk_ok E (on_mac_poll_indication E d s)"
proof -
  have "nwk_ok E (let (seq, s1) = next_sequence s in snd (send_command_unicast E (command_header s1 a 1 seq) c a True True TkCommand s1))"
    if "nwk_ok E s" for a c using that by (intro sat_state) ((rule descend | simp; fail)+)
  then show "nwk_ok E s \<Longrightarrow> nwk_ok E (on_mac_poll_indication E d s)"
    by (auto simp: on_mac_poll_indication_def Let_def split: mac_address.split option.split)
qed

lemma ok_poll_confirm [simp]: "nwk_ok E s \<Longrightarrow> nwk_ok E (on_mac_poll_confirm E b s)"
  by (simp add: on_mac_poll_confirm_def)

section \<open>Scans and formation\<close>

lemma ok_network_discovery_with [simp]: "nwk_ok E s \<Longrightarrow> nwk_ok E (snd (network_discovery_with E c d b e s))"
  unfolding network_discovery_with_def by (rule sat_snd, (rule descend | simp; fail)+)

lemma ok_network_discovery [simp]: "nwk_ok E s \<Longrightarrow> nwk_ok E (snd (network_discovery E c d b s))"
  by (simp add: network_discovery_def)

lemma ok_energy_scan [simp]: "nwk_ok E s \<Longrightarrow> nwk_ok E (snd (energy_scan E c d s))"
  by (simp add: energy_scan_def Let_def)

lemma ok_pan_id_conflict [simp]: "nwk_ok E (report_pan_id_conflict s) = nwk_ok E s"
  by (simp add: report_pan_id_conflict_def)

lemma ok_survey [simp]: "nwk_ok E (upd_survey f s) = nwk_ok E s" "nwk_ok E (count_other b s) = nwk_ok E s"
  by (simp_all add: count_other_def upd_survey_def)

lemma dt_add_length [simp]: "length t \<le> cap \<Longrightarrow> length (dt_add cap c u p t) \<le> cap"
  by (auto simp: dt_add_def Let_def split: option.split)

lemma sat_purpose:
  "sat E P a \<Longrightarrow> sat E P b \<Longrightarrow> sat E P c \<Longrightarrow> sat E P d \<Longrightarrow> sat E P e \<Longrightarrow>
     sat E P (case t of SpDiscovery \<Rightarrow> a | SpFormationEnergy \<Rightarrow> b | SpFormationActive \<Rightarrow> c | SpPanIdConflict \<Rightarrow> d | SpEnergyDetect \<Rightarrow> e)"
  by (cases t) simp_all

lemma ok_mac_beacon [simp]: "nwk_ok E s \<Longrightarrow> nwk_ok E (on_mac_beacon E p a b c g l s)"
  unfolding on_mac_beacon_def
  by (rule sat_state, (rule descend sat_purpose | simp split: mac_address.split; fail)+)

lemma ok_network_formation_with [simp]: "nwk_ok E s \<Longrightarrow> nwk_ok E (snd (network_formation_with E c d b p a s))"
  unfolding network_formation_with_def by (rule sat_snd, (rule descend | simp; fail)+)

lemma ok_network_formation [simp]: "nwk_ok E s \<Longrightarrow> nwk_ok E (snd (network_formation E c d b s))"
  by (simp add: network_formation_def)

lemma ok_formation_failed [simp]: "nwk_ok E s \<Longrightarrow> nwk_ok E (formation_failed E s)"
  by (simp add: formation_failed_def)

lemma ok_finish_formation [simp]: "nwk_ok E s \<Longrightarrow> nwk_ok E (finish_formation E s)"
  unfolding finish_formation_def by (rule sat_state, (rule descend | simp; fail)+)

section \<open>Joining: the child's side\<close>

lemma ok_upd_join [simp]: "nwk_ok E (upd_join f s) = nwk_ok E s"
  by (simp add: upd_join_def)

lemma ok_finish_join [simp]: "nwk_ok E s \<Longrightarrow> nwk_ok E (finish_join E st s)"
  by (simp add: finish_join_def Let_def)

lemma ok_rank_candidates [simp]: "nwk_ok E (rank_candidates b s) = nwk_ok E s"
  by (simp add: rank_candidates_def Let_def split: option.split)

lemma ok_refill [simp]: "nwk_ok E (refill_candidates j s) = nwk_ok E s"
  by (simp add: refill_candidates_def Let_def split: option.split)

lemma dt_update_length [simp]: "length (dt_update i f t) = length t"
  by (simp add: dt_update_def)

lemma ok_select_parent [simp]: "nwk_ok E s \<Longrightarrow> nwk_ok E (snd (select_parent E s))"
  unfolding select_parent_def by (rule sat_snd, (rule descend | simp; fail)+)

lemma ok_self_address [simp]: "nwk_ok E (snd (ensure_self_address E' s)) = nwk_ok E s"
  by (simp add: ensure_self_address_def Let_def split: prod.split)

lemma ok_announce_self [simp]: "nwk_ok E s \<Longrightarrow> nwk_ok E (snd (announce_self E p s))"
  unfolding announce_self_def by (rule sat_snd, (rule descend | simp; fail)+)

lemma ok_rejoin_request [simp]: "nwk_ok E s \<Longrightarrow> nwk_ok E (snd (rejoin_request E p b c s))"
  unfolding rejoin_request_def by (rule sat_snd, (rule descend | simp; fail)+)

lemma ok_commissioning_request [simp]: "nwk_ok E s \<Longrightarrow> nwk_ok E (snd (NwkJoin.commissioning_request E p r b c s))"
  unfolding NwkJoin.commissioning_request_def by (rule sat_snd, (rule descend | simp; fail)+)

lemma ok_start_attach [simp]: "nwk_ok E s \<Longrightarrow> nwk_ok E (snd (start_attach E j p s))"
  by (simp add: start_attach_def Let_def)

lemma ok_attach_once [simp]: "nwk_ok E s \<Longrightarrow> nwk_ok E (snd (attach_once E s))"
  unfolding attach_once_def by (rule sat_snd, (rule descend | simp; fail)+)

lemma ok_try_next_parent [simp]: "nwk_ok E s \<Longrightarrow> nwk_ok E (try_next_parent E s)"
proof (induction E s rule: try_next_parent.induct)
  case (1 E s)
  show ?case using ok_attach_once [OF 1(2)] 1(1)
    by (subst try_next_parent.simps) (auto split: prod.split bool.split)
qed

section \<open>Leaving\<close>

lemma rt_remove_ok [simp]: "table_ok cap re_destination t \<Longrightarrow> table_ok cap re_destination (snd (rt_remove d t))"
  using table_remove_spec(2) [of cap re_destination t d] unfolding rt_remove_def by (metis prod.collapse)

lemma am_remove_ok [simp]: "am_ok cap m \<Longrightarrow> am_ok cap (am_remove_extended e m)"
  by (auto simp: am_ok_def am_remove_extended_def distinct_map_filter intro: le_trans [OF length_filter_le])

lemma ns_inv_remove [simp]: "ns_inv aes t \<Longrightarrow> ns_inv aes (t\<lparr>ns_incoming := incoming_remove d (ns_incoming t)\<rparr>)"
  by (auto simp: ns_inv_def ic_inv_remove)

lemma nt_ok_remove [simp]: "nt_ok cap t \<Longrightarrow> nt_ok cap (snd (remove_extended a t))" "nt_ok cap t \<Longrightarrow> nt_ok cap (nt_retain P t)"
  by (rule nt_ok_ops, assumption)+

lemma nt_ok_empty [simp]: "nt_ok cap (t\<lparr>nt_entries := []\<rparr>)"
  by (simp add: nt_ok_def)

lemma ok_remove_child [simp]: "nwk_ok E s \<Longrightarrow> nwk_ok E (remove_child E c s)"
proof -
  assume ok: "nwk_ok E s"
  obtain r t where r: "remove_extended c (nw_neighbors s) = (r, t)" by fastforce
  then have "nt_ok (cap_neighbors E) t" using nt_ok_remove(1) [OF nwk_okD(1) [OF ok], of c] by simp
  then show ?thesis using ok by (simp add: remove_child_def Let_def r split: option.split)
qed

lemma am_ok_nil [simp]: "am_ok cap []"
  by (simp add: am_ok_def)

lemma ok_local_leave [simp]: "nwk_ok E s \<Longrightarrow> nwk_ok E (local_leave E b s)"
  unfolding local_leave_def by (rule sat_state, (rule descend | simp add: ns_inv_clear; fail)+)

lemma ok_leave_sent [simp]: "nwk_ok E s \<Longrightarrow> nwk_ok E (on_leave_sent E d st s)"
  by (simp add: on_leave_sent_def Let_def split: option.split)

lemma ok_nlme_leave [simp]: "nwk_ok E s \<Longrightarrow> nwk_ok E (snd (nlme_leave E d b c s))"
  unfolding nlme_leave_def by (rule sat_snd, (rule descend | simp; fail)+)

lemma ok_own_leave [simp]: "nwk_ok E s \<Longrightarrow> nwk_ok E (own_leave_indication E b s)"
  by (simp add: own_leave_indication_def)

lemma ok_leave_command [simp]: "nwk_ok E s \<Longrightarrow> nwk_ok E (on_leave_command E ctx lv s)"
  unfolding on_leave_command_def by (rule sat_state, (rule descend | simp; fail)+)

lemma ok_leave_unknown [simp]: "nwk_ok E s \<Longrightarrow> nwk_ok E (send_leave_to_unknown_child E a s)"
  unfolding send_leave_to_unknown_child_def by (rule sat_state, (rule descend | simp; fail)+)

section \<open>Completing a join\<close>

lemma ok_after_authenticated [simp]: "nwk_ok E s \<Longrightarrow> nwk_ok E (after_authenticated E s)"
  by (simp add: after_authenticated_def Let_def)

lemma ok_mark_authenticated [simp]: "nwk_ok E s \<Longrightarrow> nwk_ok E (mark_authenticated E s)"
  by (simp add: mark_authenticated_def Let_def split: option.split join_phase.split)

lemma ok_authorize [simp]: "nwk_ok E s \<Longrightarrow> nwk_ok E (authorize_without_network_key E s)"
  by (simp add: authorize_without_network_key_def)

lemma ok_set_network_key [simp]: "nwk_ok E s \<Longrightarrow> nwk_ok E (set_network_key E q k b s)"
  by (simp add: set_network_key_def Let_def ns_inv_install)

lemma ok_switch_network_key [simp]: "nwk_ok E s \<Longrightarrow> nwk_ok E (snd (switch_network_key E q s))"
  using ns_inv_switch [of "env_aes E" "nw_security s" q] by (auto simp: switch_network_key_def Let_def split: prod.split)

lemma ok_finish_join_success [simp]: "nwk_ok E s \<Longrightarrow> nwk_ok E (finish_join_success E b c s)"
  by (simp add: finish_join_success_def Let_def)

lemma ok_complete_join [simp]: "nwk_ok E s \<Longrightarrow> nwk_ok E (complete_join E p a b s)"
  unfolding complete_join_def by (rule sat_state, (rule descend | simp; fail)+)

lemma ok_join_request_sent [simp]: "nwk_ok E s \<Longrightarrow> nwk_ok E (on_join_request_sent E b s)"
  unfolding on_join_request_sent_def by (rule sat_state, (rule descend | simp; fail)+)

lemma ok_send_commissioning_request [simp]: "nwk_ok E s \<Longrightarrow> nwk_ok E (send_commissioning_request E p r b c s)"
  unfolding send_commissioning_request_def by (rule sat_state, (rule descend | simp; fail)+)

lemma ok_nlme_join [simp]: "nwk_ok E s \<Longrightarrow> nwk_ok E (snd (nlme_join E p s))"
  unfolding nlme_join_def by (rule sat_snd, (rule descend | simp; fail)+)

lemma ok_join_via_trusted_link [simp]: "nwk_ok E s \<Longrightarrow> nwk_ok E (snd (join_via_trusted_link E l p a n e q s))"
  unfolding join_via_trusted_link_def by (rule sat_snd, (rule descend | simp; fail)+)

lemma ok_associate_confirm [simp]: "nwk_ok E s \<Longrightarrow> nwk_ok E (on_mac_associate_confirm E a st s)"
  by (simp add: on_mac_associate_confirm_def split: option.split)

lemma nt_ok_map [simp]:
  "nt_ok cap t \<Longrightarrow> (\<And>e. ne_extended (f e) = ne_extended e) \<Longrightarrow> nt_ok cap (t\<lparr>nt_entries := map f (nt_entries t)\<rparr>)"
  by (simp add: nt_ok_def table_map(1))

lemma ok_start_router [simp]: "nwk_ok E s \<Longrightarrow> nwk_ok E (snd (start_router E s))"
  unfolding start_router_def by (rule sat_snd, (rule descend | simp; fail)+)

lemma ok_service_join [simp]: "nwk_ok E s \<Longrightarrow> nwk_ok E (service_join E now s)"
  by (simp add: service_join_def split: option.split join_phase.split)

lemma ok_accept_join_response [simp]: "nwk_ok E s \<Longrightarrow> nwk_ok E (accept_join_response E ctx a st s)"
  unfolding accept_join_response_def by (rule sat_state, (rule descend | simp; fail)+)

lemma ok_rejoin_response [simp]: "nwk_ok E s \<Longrightarrow> nwk_ok E (on_rejoin_response E ctx r s)"
  by (simp add: on_rejoin_response_def)

lemma ok_commissioning_response [simp]: "nwk_ok E s \<Longrightarrow> nwk_ok E (on_commissioning_response E ctx r s)"
  by (simp add: on_commissioning_response_def)

lemma ok_scan_confirm [simp]: "nwk_ok E s \<Longrightarrow> nwk_ok E (on_mac_scan_confirm E k e s)"
  by (auto simp: on_mac_scan_confirm_def Let_def split: option.split scan_purpose.split scan_kind.split)

section \<open>Joining: the parent's side\<close>

lemma ok_add_unauthenticated [simp]: "nwk_ok E s \<Longrightarrow> nwk_ok E (add_unauthenticated_child E d a c l s)"
  unfolding add_unauthenticated_child_def by (rule sat_state, (rule descend | simp; fail)+)

lemma ok_associate_indication [simp]: "nwk_ok E s \<Longrightarrow> nwk_ok E (on_mac_associate_indication E d c l s)"
  unfolding on_mac_associate_indication_def by (rule sat_state, (rule descend | simp; fail)+)

lemma ok_join_response_delivered [simp]: "nwk_ok E s \<Longrightarrow> nwk_ok E (on_join_response_delivered E d b m s)"
  unfolding on_join_response_delivered_def by (rule sat_state, (rule descend | simp; fail)+)

lemma ok_comm_status [simp]: "nwk_ok E s \<Longrightarrow> nwk_ok E (on_mac_comm_status E d st s)"
  by (simp add: on_mac_comm_status_def)

lemma ok_attach_header [simp]: "nwk_ok E (snd (attach_response_header ctx d s)) = nwk_ok E s"
  by (simp add: attach_response_header_def case_prod_beta Let_def)

lemma ok_send_attach_command [simp]: "nwk_ok E s \<Longrightarrow> nwk_ok E (send_attach_command E ctx d c k s)"
  unfolding send_attach_command_def by (rule sat_state, (rule descend | simp; fail)+)

lemma ok_send_attach [simp]:
  "nwk_ok E s \<Longrightarrow> nwk_ok E (send_rejoin_response E ctx d a st m s)"
  "nwk_ok E s \<Longrightarrow> nwk_ok E (send_commissioning_response E ctx d a st m s)"
  "nwk_ok E s \<Longrightarrow> nwk_ok E (send_attach_response E ctx d a st b s)"
  "nwk_ok E s \<Longrightarrow> nwk_ok E (send_attach_success E ctx d a jm s)"
  by (simp_all add: send_rejoin_response_def send_commissioning_response_def send_attach_response_def send_attach_success_def)

lemma ok_handle_attach [simp]: "nwk_ok E s \<Longrightarrow> nwk_ok E (handle_attach_request E ctx d c b sec i s)"
  unfolding handle_attach_request_def by (rule sat_state, (rule descend | simp; fail)+)

lemma ok_rejoin_request_in [simp]: "nwk_ok E s \<Longrightarrow> nwk_ok E (on_rejoin_request E ctx c s)"
  by (simp add: on_rejoin_request_def split: option.split)

lemma ok_establish_link [simp]: "nwk_ok E s \<Longrightarrow> nwk_ok E (on_establish_trusted_link E ctx d s)"
  unfolding on_establish_trusted_link_def by (rule sat_state, (rule descend | simp; fail)+)

lemma ok_commissioning_request_in [simp]: "nwk_ok E s \<Longrightarrow> nwk_ok E (on_commissioning_request E ctx q s)"
  by (simp add: on_commissioning_request_def Let_def split: option.split commissioning_type.split sum.split)

lemma ok_authenticate_child [simp]: "nwk_ok E s \<Longrightarrow> nwk_ok E (authenticate_child E d s)"
  by (simp add: authenticate_child_def split: option.split)

lemma ok_refresh_child_timer [simp]: "nwk_ok E s \<Longrightarrow> nwk_ok E (refresh_child_security_timer d s)"
  by (simp add: refresh_child_security_timer_def split: option.split)

lemma ok_security_model [simp]: "nwk_ok E (set_security_model b t s) = nwk_ok E s"
  by (simp add: set_security_model_def)

section \<open>PAN identifier change\<close>

lemma ok_network_report [simp]: "nwk_ok E s \<Longrightarrow> nwk_ok E (on_network_report E ctx r s)"
  by (simp add: on_network_report_def)

lemma ok_change_pan_id [simp]: "nwk_ok E s \<Longrightarrow> nwk_ok E (snd (change_pan_id E s))"
  unfolding change_pan_id_def by (rule sat_snd, (rule descend | simp; fail)+)

lemma ok_network_update [simp]: "nwk_ok E s \<Longrightarrow> nwk_ok E (on_network_update E ctx u s)"
  by (simp add: on_network_update_def Let_def)

lemma ok_service_pan_id [simp]: "nwk_ok E s \<Longrightarrow> nwk_ok E (service_pan_id_update E now s)"
  by (simp add: service_pan_id_update_def Let_def split: option.split)

section \<open>Routing\<close>

lemma sat_map_option:
  "sat E ok_opt m \<Longrightarrow> (\<And>t. nwk_ok E t \<Longrightarrow> nwk_ok E (f t)) \<Longrightarrow> sat E ok_opt (map_option f m)"
  by (cases m) simp_all

lemma sat_waiting:
  "nwk_ok E s \<Longrightarrow> sat E ok_opt (release_waiting E d s)" "nwk_ok E s \<Longrightarrow> sat E ok_opt (fail_waiting E d s)"
  "nwk_ok E s \<Longrightarrow> sat E ok_opt (service_pending E now s)"
  using ok_release_waiting ok_fail_waiting ok_service_pending unfolding sat_def by blast+

lemma ok_send_route_reply [simp]: "nwk_ok E s \<Longrightarrow> nwk_ok E (send_route_reply E o' i r h c s)"
  unfolding send_route_reply_def by (rule sat_state, (rule descend | simp; fail)+)

lemma de_key_upd [simp]: "de_key (e\<lparr>de_forward_cost := a, de_sender := b\<rparr>) = de_key e" "de_key (e\<lparr>de_residual_cost := c\<rparr>) = de_key e"
  by (simp_all add: de_key_def)

lemma ok_note_route_request: "nwk_ok E s \<Longrightarrow> note_route_request E ctx q c s = Some t \<Longrightarrow> nwk_ok E t"
  by (auto simp: note_route_request_def split: option.splits if_splits dest: rd_insert_ok [OF nwk_okD(5)])

lemma ok_relay_route_request [simp]: "nwk_ok E s \<Longrightarrow> nwk_ok E (relay_route_request E ctx q c s)"
  unfolding relay_route_request_def by (rule sat_state, (rule descend | simp; fail)+)

lemma ok_route_request: "nwk_ok E s \<Longrightarrow> sat E ok_opt (on_route_request E ctx q s)"
  unfolding on_route_request_def
  by ((rule sat_waiting sat_map_option descend | simp add: ok_note_route_request; fail)+)

lemma ok_note_reply [simp]: "nwk_ok E s \<Longrightarrow> nwk_ok E (note_reply_address E e a s)"
  by (simp add: note_reply_address_def split: option.split)

lemma ok_forward_reply [simp]: "nwk_ok E s \<Longrightarrow> nwk_ok E (forward_route_reply E ctx r c d s)"
  unfolding forward_route_reply_def by (rule sat_state, (rule descend | simp; fail)+)

lemma rd_remove_ok [simp]: "table_ok cap de_key t \<Longrightarrow> table_ok cap de_key (snd (rd_remove a i t))"
  using table_remove_spec(2) [of cap de_key t "(a, i)"] unfolding rd_remove_def by (metis prod.collapse)

lemma ok_route_reply: "nwk_ok E s \<Longrightarrow> sat E ok_opt (on_route_reply E ctx r s)"
  unfolding on_route_reply_def by ((rule sat_waiting sat_map_option descend | simp; fail)+)

lemma ok_expire_discovery: "nwk_ok E s \<Longrightarrow> sat E ok_opt (expire_discovery E e s)"
  unfolding expire_discovery_def by ((rule sat_waiting sat_map_option descend | simp; fail)+)

lemma sat_fold_bind:
  "sat E ok_opt m \<Longrightarrow> (\<And>x t. nwk_ok E t \<Longrightarrow> sat E ok_opt (f x t)) \<Longrightarrow> sat E ok_opt (fold (\<lambda>x u. Option.bind u (f x)) xs m)"
  by (induction xs arbitrary: m) (simp_all add: sat_bind del: ok_leaf)

lemma expire_many_ok [simp]: "table_ok cap re_destination t \<Longrightarrow> table_ok cap re_destination (expire_many_to_one now t)"
  unfolding expire_many_to_one_def by (subst table_map(1)) auto

lemma rd_expire_ok: "table_ok cap de_key t \<Longrightarrow> rd_expire m now t = (x, u) \<Longrightarrow> table_ok cap de_key u"
  by (auto simp: rd_expire_def table_filter(1))

lemma ok_service_route_discovery: "nwk_ok E s \<Longrightarrow> sat E ok_opt (service_route_discovery E now s)"
proof -
  assume ok: "nwk_ok E s"
  obtain x u where u: "rd_expire 8 now (nw_rdt s) = (x, u)" by fastforce
  have "table_ok (cap_route_discoveries E) de_key u" using rd_expire_ok [OF nwk_okD(5) [OF ok] u] .
  then show ?thesis unfolding service_route_discovery_def u using ok
    by (auto intro!: sat_map_option sat_fold_bind ok_expire_discovery simp del: sat_def) simp
qed

lemma store_record_ok [simp]: "table_ok cap sre_destination t \<Longrightarrow> table_ok cap sre_destination (snd (store_from_record cap d r t))"
proof -
  assume ok: "table_ok cap sre_destination t"
  have "table_ok cap sre_destination (drop 1 t)"
    using ok by (cases t) (auto simp: table_ok_def)
  with ok show ?thesis using srt.ins_ok [of cap t] by (auto simp: store_from_record_def split: option.split)
qed

lemma srt_remove_ok [simp]: "table_ok cap sre_destination t \<Longrightarrow> table_ok cap sre_destination (snd (srt_remove d t))"
  by (simp add: srt_remove_def Let_def table_filter(1))

lemma ok_route_record [simp]: "nwk_ok E s \<Longrightarrow> nwk_ok E (on_route_record E ctx r s)"
  by (simp add: on_route_record_def)

lemma sat_command:
  "(\<And>r. sat E P (f r)) \<Longrightarrow> sat E P d \<Longrightarrow> sat E P (case c of RouteRecord r \<Rightarrow> f r | _ \<Rightarrow> d)"
  "(\<And>n. sat E P (g n)) \<Longrightarrow> sat E P d \<Longrightarrow> sat E P (case c of NetworkStatus n \<Rightarrow> g n | _ \<Rightarrow> d)"
  by (cases c; simp)+

lemma ok_relay_route_record [simp]: "nwk_ok E s \<Longrightarrow> nwk_ok E (relay_route_record E b i j c s)"
  unfolding relay_route_record_def by (rule sat_state, (rule descend sat_command | simp; fail)+)

lemma ok_relay_network_status [simp]: "nwk_ok E s \<Longrightarrow> nwk_ok E (relay_network_status E b i j c s)"
  unfolding relay_network_status_def by (rule sat_state, (rule descend sat_command | simp; fail)+)

lemma ok_network_status [simp]: "nwk_ok E s \<Longrightarrow> nwk_ok E (on_network_status E ctx n s)"
  by (auto simp: on_network_status_def Let_def split: network_status_code.split)

lemma ok_link_status_frame [simp]: "nwk_ok E s \<Longrightarrow> nwk_ok E (link_status_frame E es n f s)"
  unfolding link_status_frame_def by (rule sat_state, (rule descend | simp; fail)+)

lemma ok_send_link_status [simp]: "nwk_ok E s \<Longrightarrow> nwk_ok E (send_link_status E s)"
  unfolding send_link_status_def by (rule sat_state, (rule descend | simp; fail)+)

lemma invalidate_ok [simp]: "table_ok cap re_destination t \<Longrightarrow> table_ok cap re_destination (snd (invalidate_via h t))"
  unfolding invalidate_via_def snd_conv by (subst table_map(1)) auto

lemma sat_let_option: "sat E ok_opt t \<Longrightarrow> (\<And>x. ok_opt E x \<Longrightarrow> sat E P (b x)) \<Longrightarrow> sat E P (Let t b)"
  by (simp del: ok_opt_def)

lemma ok_link_status [simp]: "nwk_ok E s \<Longrightarrow> nwk_ok E (on_link_status E ctx l s)"
  unfolding on_link_status_def by (rule sat_state, (rule sat_let_option descend | simp add: Let_def; fail)+)

section \<open>MAC confirms\<close>

lemma ok_unicast_delivered [simp]: "nwk_ok E s \<Longrightarrow> nwk_ok E (on_unicast_delivered E p s)"
  by (simp add: on_unicast_delivered_def split: tx_kind.split)

lemma invalidate_ok_eq: "table_ok cap re_destination t \<Longrightarrow> invalidate_via h t = (n, u) \<Longrightarrow> table_ok cap re_destination u"
  using invalidate_ok by (metis snd_conv)

lemma ok_unicast_failed [simp]: "nwk_ok E s \<Longrightarrow> nwk_ok E (on_unicast_failed E p st s)"
proof -
  assume ok: "nwk_ok E s"
  obtain n t where i: "invalidate_via (pt_next_hop p) (nw_routes s) = (n, t)" by fastforce
  have "table_ok (cap_routes E) re_destination t" using invalidate_ok_eq [OF nwk_okD(2) [OF ok] i] .
  then show ?thesis using ok
    by (simp add: on_unicast_failed_def Let_def i split: tx_kind.split option.split)
qed

lemma pending_position_valid: "pending_position h s = Some i \<Longrightarrow> i < length (nw_pending s)"
  by (auto simp: pending_position_def dest: position_Some)

lemma finalize_frame_keeps_pending: "nw_pending (snd (finalize_frame E p n b s)) = nw_pending s"
  by (auto simp: finalize_frame_def nw_maybe_reserve_counter_def push_action_def Let_def
      split: sum.split security_error.split option.split prod.split)

lemma ok_pending_at: "nwk_ok E s \<Longrightarrow> pending_position h s = Some i \<Longrightarrow> pending_ok (nw_pending s ! i)"
  using queue_ok_nth [OF nwk_okD(11)] pending_position_valid by blast

lemma ok_indirect_ready [simp]: "nwk_ok E s \<Longrightarrow> nwk_ok E (on_mac_indirect_ready E h s)"
proof (cases "pending_position h s")
  case (Some i)
  assume ok: "nwk_ok E s"
  let ?p = "nw_pending s ! i"
  obtain r t where f: "finalize_frame E (pt_frame ?p) (pt_header_len ?p) (pt_secure ?p) s = (r, t)" by fastforce
  have p: "pending_ok ?p" using ok_pending_at [OF ok Some] .
  have t: "nwk_ok E t" "nw_pending t = nw_pending s" using f ok_finalize [OF ok] finalize_frame_keeps_pending by (metis snd_conv)+
  have "length g \<le> MAX_NPDU" if "r = Inr g" for g using f that finalize_frame_le by blast
  moreover have "nwk_ok E (t\<lparr>nw_pending := swap_remove i (nw_pending s)\<rparr>)"
    using t(1) ok pending_position_valid [OF Some] by simp
  ultimately show ?thesis using t p
    by (auto simp: on_mac_indirect_ready_def Some Let_def f split: sum.split nwk_error.split)
qed (simp add: on_mac_indirect_ready_def)

lemma ok_interface_tx [simp]: "nwk_ok E (note_interface_tx b s) = nwk_ok E s"
  by (simp add: note_interface_tx_def split: option.split)

lemma ok_data_confirm [simp]: "nwk_ok E s \<Longrightarrow> nwk_ok E (on_mac_data_confirm E h st s)"
proof (cases "pending_position h s")
  case (Some i)
  assume ok: "nwk_ok E s"
  then show ?thesis using ok_pending_at [OF ok Some] pending_position_valid [OF Some]
    by (simp add: on_mac_data_confirm_def Some Let_def)
qed (simp add: on_mac_data_confirm_def)

section \<open>Reception\<close>

lemma ok_lost_child [simp]: "nwk_ok E s \<Longrightarrow> nwk_ok E (examine_lost_child E a m d q s)"
  unfolding examine_lost_child_def by (rule sat_state, (rule descend | simp; fail)+)

lemma ok_purge [simp]: "nwk_ok E s \<Longrightarrow> nwk_ok E (purge_lost_children E s)"
  unfolding purge_lost_children_def by (rule sat_state, (rule descend | simp; fail)+)

lemma ok_unknown_command [simp]: "nwk_ok E s \<Longrightarrow> nwk_ok E (on_unknown_command E ctx s)"
  by (simp add: on_unknown_command_def Let_def)

lemma ok_malformed [simp]: "nwk_ok E (malformed s) = nwk_ok E s"
  by (simp add: malformed_def)

lemma ok_handle_command: "nwk_ok E s \<Longrightarrow> sat E ok_opt (handle_command E ctx c s)"
  using ok_route_request ok_route_reply by (cases c) (simp_all add: handle_command_def del: sat_def, simp_all)

lemma ok_dispatch: "nwk_ok E s \<Longrightarrow> sat E ok_opt (dispatch_command E v s)"
  unfolding dispatch_command_def by ((rule ok_handle_command descend | simp; fail)+)

lemma ok_consume: "nwk_ok E s \<Longrightarrow> sat E ok_out (consume E v s)"
  using ok_dispatch [of E s v] by (auto simp: consume_def split: option.splits)

lemma ok_relay_received [simp]: "nwk_ok E s \<Longrightarrow> nwk_ok E (relay_received E v s)"
  unfolding relay_received_def
  by (rule sat_state, (rule descend | simp split: nwk_command_id.split; fail)+)

lemma ok_previous_hop [simp]: "nwk_ok E s \<Longrightarrow> nwk_ok E (note_previous_hop v s)"
  unfolding note_previous_hop_def by (rule sat_state, (rule descend | simp add: Let_def; fail)+)

lemma ok_interface_rx [simp]: "nwk_ok E (note_interface_rx s) = nwk_ok E s"
  by (simp add: note_interface_rx_def split: option.split)

lemma ok_route_received:
  "nwk_ok E s \<Longrightarrow> rv_header_len v \<le> length (rv_buf v) \<Longrightarrow> sat E ok_out (route_received E v a s)"
  unfolding route_received_def by ((rule ok_consume descend | simp; fail)+)

lemma ok_process_received:
  "nwk_ok E s \<Longrightarrow> rv_header_len v \<le> length (rv_buf v) \<Longrightarrow> sat E ok_out (process_received E v a s)"
  unfolding process_received_def by ((rule ok_route_received descend | simp split: option.split; fail)+)

lemma unprotect_header_le: "unprotect_in_place c l a n buf = (Inr u, buf') \<Longrightarrow> n \<le> length buf'"
  by (auto simp: unprotect_in_place_def Let_def split: sum.splits prod.splits if_splits)

lemma unsecure_header_le: "unsecure_incoming aes n l b sec buf = (Inr u, sec', buf') \<Longrightarrow> n \<le> length buf'"
  by (auto simp: unsecure_incoming_def Let_def split: sum.splits prod.splits option.splits if_splits freshness_error.splits
      dest: unprotect_header_le)

lemma ok_security_failure [simp]: "nwk_ok E (security_failure e s) = nwk_ok E s"
  by (simp add: security_failure_def)

lemma ok_follow_parent_key [simp]: "nwk_ok E s \<Longrightarrow> nwk_ok E (follow_parent_key E a q s)"
  by (simp add: follow_parent_key_def)

lemma sat_unsecure:
  assumes "nwk_ok E s"
    and "\<And>e sec b'. nwk_ok E (s\<lparr>nw_security := sec\<rparr>) \<Longrightarrow> sat E P (f e sec b')"
    and "\<And>u sec b'. nwk_ok E (s\<lparr>nw_security := sec\<rparr>) \<Longrightarrow> n \<le> length b' \<Longrightarrow> sat E P (g u sec b')"
  shows "sat E P (case unsecure_incoming (env_aes E) n l c (nw_security s) buf of
                    (Inl e, sec, b') \<Rightarrow> f e sec b' | (Inr u, sec, b') \<Rightarrow> g u sec b')"
proof -
  obtain r sec b' where u: "unsecure_incoming (env_aes E) n l c (nw_security s) buf = (r, sec, b')" by (metis prod_cases3)
  have "nwk_ok E (s\<lparr>nw_security := sec\<rparr>)"
    using ns_inv_unsecure_incoming [OF nwk_okD(8) [OF assms(1)], of n l c buf] u assms(1) by simp
  then show ?thesis using assms(2,3) unsecure_header_le [of "env_aes E" n l c "nw_security s" buf] u
    by (cases r) (auto simp del: ok_leaf)
qed

lemma ok_mac_data: "nwk_ok E s \<Longrightarrow> sat E ok_out (on_mac_data E buf m l r s)"
proof (cases "decode_prefix buf")
  case (Inr p)
  assume ok: "nwk_ok E s"
  obtain h n where p: "p = (h, n)" by fastforce
  have n: "n \<le> length buf" using decode_prefix_le Inr p by blast
  show ?thesis
    unfolding on_mac_data_def Inr p sum.case prod.case
    by (insert ok n, (rule sat_unsecure ok_process_received descend | simp; fail)+)
qed (simp add: on_mac_data_def)

lemma ok_trusted_link_data: "nwk_ok E s \<Longrightarrow> sat E ok_out (on_trusted_link_data E k p buf b s)"
proof -
  assume ok: "nwk_ok E s"
  have "sat E ok_out (on_mac_data E buf m l r (s\<lparr>nw_rx_link := x\<rparr>))" for m l r x by (rule ok_mac_data) (simp add: ok)
  then show ?thesis using ok
    by (fastforce simp: on_trusted_link_data_def split: sum.split option.splits)
qed

section \<open>Timers\<close>

lemma sat_ticks:
  assumes "nt_ok cap t" "\<And>n u. nt_ok cap u \<Longrightarrow> sat E P (b n u)"
  shows "sat E P (let (n, u) = link_status_tick l t in b n u)"
proof -
  obtain n u where u: "link_status_tick l t = (n, u)" by fastforce
  then show ?thesis using nt_ok_ops(3) [OF assms(1), of l] assms(2) by (simp del: sat_def)
qed

lemma sat_aging:
  assumes "nt_ok cap t" "\<And>n u. nt_ok cap u \<Longrightarrow> sat E P (b n u)"
  shows "sat E P (let (n, u) = age_children m l x t in b n u)"
proof -
  obtain n u where u: "age_children m l x t = (n, u)" by fastforce
  then show ?thesis using nt_ok_ops(4) [OF assms(1), of m l x] assms(2) by (simp del: sat_def)
qed

lemma rt_tick_ok [simp]: "table_ok cap re_destination t \<Longrightarrow> table_ok cap re_destination (rt_link_status_tick t)"
  unfolding rt_link_status_tick_def by (subst table_map(1)) simp_all

lemma invalidate_all_ok [simp]:
  "table_ok cap re_destination t \<Longrightarrow> table_ok cap re_destination (fold (\<lambda>h r. snd (invalidate_via h r)) hs t)"
  by (induction hs arbitrary: t) simp_all

lemma ok_service_link_status: "nwk_ok E s \<Longrightarrow> sat E ok_opt (service_link_status E now s)"
  unfolding service_link_status_def
  by ((rule sat_ticks [where cap = "cap_neighbors E"] descend | simp; fail)+)

lemma ok_forget_child [simp]: "nwk_ok E s \<Longrightarrow> nwk_ok E (forget_child E d s)"
  by (simp add: forget_child_def)

lemma ok_service_ages [simp]: "nwk_ok E s \<Longrightarrow> nwk_ok E (service_ages E now s)"
  unfolding service_ages_def
  by (rule sat_state, (rule sat_aging [where cap = "cap_neighbors E"] descend | simp add: Let_def; fail)+)

lemma ok_service_keepalive [simp]: "nwk_ok E s \<Longrightarrow> nwk_ok E (service_keepalive E now s)"
  unfolding service_keepalive_def by (rule sat_state, (rule descend | simp; fail)+)

lemma ok_poll_timers: "nwk_ok E s \<Longrightarrow> sat E ok_opt (poll_timers E now s)"
  unfolding poll_timers_def
  by ((rule ok_service_link_status ok_service_route_discovery sat_waiting descend | simp; fail)+)

end
