(* ===== verification/NwkRuns.thy ===== *)
theory NwkRuns
  imports NwkPreservation
begin

text \<open>
  Runs of the network layer: the public operations as a datatype of calls, in the order the modules of
  \<^verbatim>\<open>panweave-nwk/src/layer\<close> declare them, what each one does to the state, and the states that a sequence of calls
  reaches from a new layer. A call that does not return (a loop without end, a panic) has no next state.
\<close>

section \<open>Calls\<close>

datatype nwk_call =
    CallNextAction | CallNextEvent | CallCommit u32 | CallAbort | CallWarmStart
  | CallDataRequest short_address bytes "u8 option" bool bool
  | CallDataRequestAliased short_address bytes "u8 option" bool bool "(short_address \<times> u8) option"
  | CallIndirectReady tx_handle | CallDataConfirm tx_handle tx_status | CallAddRoute short_address short_address
  | CallRouteDiscovery "short_address option" "u8 option" bool
  | CallMacData bytes short_address u8 int | CallTrustedLinkData u8 extended_address bytes bool
  | CallPurgeLostChildren | CallPollTimers instant
  | CallPollIndication mac_address | CallPollConfirm bool
  | CallNetworkDiscovery channel_mask u8 bool "bool option" | CallSetAppendix bytes | CallEnergyScan channel_mask u8
  | CallChangeChannel channel u8
  | CallBeacon pan_id mac_address mac_beacon channel channel_page u8 | CallScanConfirm scan_kind "u8 list"
  | CallFormation channel_mask u8 bool "pan_id option" "short_address option"
  | CallPermitJoining u8 | CallJoin join_params
  | CallJoinViaLink u8 extended_address short_address pan_id extended_address join_params
  | CallAuthorize | CallAssociateConfirm short_address mac_status
  | CallSetKey key_sequence key128 bool | CallSwitchKey key_sequence | CallStartRouter
  | CallAssociateIndication extended_address mac_capability u8 | CallCommStatus extended_address tx_status
  | CallAuthenticateChild extended_address | CallRefreshChild extended_address
  | CallSecurityModel bool "extended_address option"
  | CallLeave "extended_address option" bool bool | CallRemoveChild extended_address
  | CallDeviceAnnounce extended_address short_address | CallChangePanId

text \<open>The results the calls return are left out here: the next state is what a run is made of.\<close>

fun nwk_apply :: "'g nwk_env \<Rightarrow> nwk_call \<Rightarrow> 'g nwk \<Rightarrow> 'g nwk option" where
  "nwk_apply E CallNextAction s = Some (snd (next_action s))"
| "nwk_apply E CallNextEvent s = Some (snd (next_event s))"
| "nwk_apply E (CallCommit r) s =
     (if oc_in_flight (nk_outgoing (ns_keys (nw_security s))) = Some r then Some (nw_commit_counter_reservation r s) else Some s)"
| "nwk_apply E CallAbort s = Some (nw_abort_counter_reservation s)"
| "nwk_apply E CallWarmStart s = Some (warm_start s)"
| "nwk_apply E (CallDataRequest d p r b c) s = Some (snd (data_request E d p r b c s))"
| "nwk_apply E (CallDataRequestAliased d p r b c a) s = Some (snd (data_request_aliased E d p r b c a s))"
| "nwk_apply E (CallIndirectReady h) s = Some (on_mac_indirect_ready E h s)"
| "nwk_apply E (CallDataConfirm h st) s = Some (on_mac_data_confirm E h st s)"
| "nwk_apply E (CallAddRoute d h) s = Some (snd (add_route E d h s))"
| "nwk_apply E (CallRouteDiscovery d r c) s = Some (snd (route_discovery E d r c s))"
| "nwk_apply E (CallMacData b m l r) s = map_option snd (on_mac_data E b m l r s)"
| "nwk_apply E (CallTrustedLinkData k p b a) s = map_option snd (on_trusted_link_data E k p b a s)"
| "nwk_apply E CallPurgeLostChildren s = Some (purge_lost_children E s)"
| "nwk_apply E (CallPollTimers now) s = poll_timers E now s"
| "nwk_apply E (CallPollIndication d) s = Some (on_mac_poll_indication E d s)"
| "nwk_apply E (CallPollConfirm b) s = Some (on_mac_poll_confirm E b s)"
| "nwk_apply E (CallNetworkDiscovery c d b e) s = Some (snd (network_discovery_with E c d b e s))"
| "nwk_apply E (CallSetAppendix b) s = Some (set_network_wide_beacon_appendix E b s)"
| "nwk_apply E (CallEnergyScan c d) s = Some (snd (energy_scan E c d s))"
| "nwk_apply E (CallChangeChannel c u) s = Some (change_channel E c u s)"
| "nwk_apply E (CallBeacon p a b c g l) s = Some (on_mac_beacon E p a b c g l s)"
| "nwk_apply E (CallScanConfirm k e) s = Some (on_mac_scan_confirm E k e s)"
| "nwk_apply E (CallFormation c d b p a) s = Some (snd (network_formation_with E c d b p a s))"
| "nwk_apply E (CallPermitJoining b) s = Some (snd (permit_joining E b s))"
| "nwk_apply E (CallJoin p) s = Some (snd (nlme_join E p s))"
| "nwk_apply E (CallJoinViaLink l p a n e q) s = Some (snd (join_via_trusted_link E l p a n e q s))"
| "nwk_apply E CallAuthorize s = Some (authorize_without_network_key E s)"
| "nwk_apply E (CallAssociateConfirm a st) s = Some (on_mac_associate_confirm E a st s)"
| "nwk_apply E (CallSetKey q k b) s = Some (set_network_key E q k b s)"
| "nwk_apply E (CallSwitchKey q) s = Some (snd (switch_network_key E q s))"
| "nwk_apply E CallStartRouter s = Some (snd (start_router E s))"
| "nwk_apply E (CallAssociateIndication d c l) s = Some (on_mac_associate_indication E d c l s)"
| "nwk_apply E (CallCommStatus d st) s = Some (on_mac_comm_status E d st s)"
| "nwk_apply E (CallAuthenticateChild d) s = Some (authenticate_child E d s)"
| "nwk_apply E (CallRefreshChild d) s = Some (refresh_child_security_timer d s)"
| "nwk_apply E (CallSecurityModel b t) s = Some (set_security_model b t s)"
| "nwk_apply E (CallLeave d b c) s = Some (snd (nlme_leave E d b c s))"
| "nwk_apply E (CallRemoveChild d) s = Some (remove_child E d s)"
| "nwk_apply E (CallDeviceAnnounce e a) s = Some (on_device_announce E e a s)"
| "nwk_apply E CallChangePanId s = Some (snd (change_pan_id E s))"

section \<open>Reachable states\<close>

inductive nwk_reach :: "'g nwk_env \<Rightarrow> 'g nwk \<Rightarrow> bool" for E where
  new: "nwk_reach E (nwk_new E n c g)"
| call: "nwk_reach E s \<Longrightarrow> nwk_apply E x s = Some t \<Longrightarrow> nwk_reach E t"

lemma ok_warm_start [simp]: "nwk_ok E s \<Longrightarrow> nwk_ok E (warm_start s)"
  unfolding warm_start_def by (rule sat_state, (rule descend | simp; fail)+)

lemma nwk_ok_new: "nwk_ok E (nwk_new E n c g)"
  by (auto simp: nwk_ok_def nwk_new_def nt_new_def nt_ok_def ns_inv_new Let_def simp del: nwk_okD nwk_ok_field split: prod.split)

lemma ok_outD: "sat E ok_out r \<Longrightarrow> map_option snd r = Some t \<Longrightarrow> nwk_ok E t"
  by auto

lemma ok_optD: "sat E ok_opt r \<Longrightarrow> r = Some t \<Longrightarrow> nwk_ok E t"
  by auto

lemmas ok_returns = ok_outD [OF ok_mac_data] ok_outD [OF ok_trusted_link_data] ok_optD [OF ok_poll_timers]

lemma nwk_apply_ok:
  assumes "nwk_ok E s" "nwk_apply E x s = Some t"
  shows "nwk_ok E t"
proof (cases x)
  case (CallMacData b m l r)
  then show ?thesis using assms(2) by (intro ok_returns(1) [OF assms(1)]) (simp only: nwk_apply.simps)
next
  case (CallTrustedLinkData k p b a)
  then show ?thesis using assms(2) by (intro ok_returns(2) [OF assms(1)]) (simp only: nwk_apply.simps)
next
  case (CallPollTimers now)
  then show ?thesis using assms(2) by (intro ok_returns(3) [OF assms(1)]) (simp only: nwk_apply.simps)
qed (insert assms, (simp only: nwk_apply.simps option.inject split: if_splits, (elim conjE)?, hypsubst?, simp)+)

lemma nwk_reach_ok: "nwk_reach E s \<Longrightarrow> nwk_ok E s"
  by (induction rule: nwk_reach.induct) (auto intro: nwk_ok_new nwk_apply_ok)

end
