(* ===== verification/NwkLoops.thy ===== *)
theory NwkLoops
  imports NwkPreservation
begin

text \<open>
  The loops of the network layer over its queue of pending unicasts. \<^verbatim>\<open>service_pending\<close> and \<^verbatim>\<open>fail_waiting\<close> always
  come to an end, so the timer loop returns unless its link status step panics; \<^verbatim>\<open>release_waiting\<close> need not.
\<close>

declare service_pending_from.simps [code] and release_from.simps [code] and fail_from.simps [code]

section \<open>What the transmission path puts into the queue\<close>

lemma num_swap_remove:
  assumes "i < length xs"
  shows "length (filter P xs) = length (filter P (swap_remove i xs)) + (if P (xs ! i) then 1 else 0)"
proof -
  obtain us vs where s: "xs = us @ xs ! i # vs" "mset (swap_remove i xs) = mset (us @ vs)"
    using swap_remove_split [OF assms] by blast
  have "length (filter P (swap_remove i xs)) = length (filter P (us @ vs))"
    using s(2) by (metis mset_filter size_mset)
  moreover have "length (filter P xs) = length (filter P (us @ xs ! i # vs))" using s(1) by metis
  ultimately show ?thesis by simp
qed

definition requeued :: "instant \<Rightarrow> pending_tx \<Rightarrow> pending_tx \<Rightarrow> bool" where
  "requeued now p q \<longleftrightarrow>
     pt_dst q = pt_dst p \<and> pt_relayed_from q = pt_relayed_from p \<and> pt_created q = pt_created p
     \<and> pt_frame q = pt_frame p \<and> pt_kind q = pt_kind p
     \<and> (pt_awaiting_route q \<longrightarrow> pt_awaiting_route p)
     \<and> (pt_retry_at q = None \<or> pt_retry_at q = Some (instant_add now COUNTER_RETRY_DELAY))"

definition queues :: "(pending_tx \<Rightarrow> bool) \<Rightarrow> 'g nwk \<Rightarrow> 'g nwk \<Rightarrow> bool" where
  "queues P s t \<longleftrightarrow> nw_pending t = nw_pending s \<or> (\<exists>q. P q \<and> nw_pending t = nw_pending s @ [q])"

lemma pending_simps [simp]:
  "nw_pending (push_action E a s) = nw_pending s" "nw_pending (push_event E e s) = nw_pending s"
  "nw_pending (upd_nib f s) = nw_pending s" "nw_pending (upd_stats g s) = nw_pending s"
  "nw_pending (snd (alloc_tx_id s)) = nw_pending s" "nw_pending (snd (alloc_mac_handle s)) = nw_pending s"
  "nw_pending (snd (next_sequence s)) = nw_pending s" "nw_pending (next_routing_sequence s) = nw_pending s"
  "nw_pending (snd (jitter E lo hi s)) = nw_pending s" "nw_pending (nw_maybe_reserve_counter E s) = nw_pending s"
  by (simp_all add: push_action_def push_event_def upd_nib_def upd_stats_def alloc_tx_id_def alloc_mac_handle_def
      next_sequence_def next_routing_sequence_def jitter_def nw_maybe_reserve_counter_def Let_def split: prod.split option.split)

lemma now_simps [simp]:
  "nw_now (push_action E a s) = nw_now s" "nw_now (push_event E e s) = nw_now s"
  "nw_now (upd_nib f s) = nw_now s" "nw_now (upd_stats g s) = nw_now s"
  "nw_now (snd (alloc_tx_id s)) = nw_now s" "nw_now (snd (alloc_mac_handle s)) = nw_now s"
  "nw_now (snd (next_sequence s)) = nw_now s" "nw_now (next_routing_sequence s) = nw_now s"
  "nw_now (snd (jitter E lo hi s)) = nw_now s" "nw_now (nw_maybe_reserve_counter E s) = nw_now s"
  by (simp_all add: push_action_def push_event_def upd_nib_def upd_stats_def alloc_tx_id_def alloc_mac_handle_def
      next_sequence_def next_routing_sequence_def jitter_def nw_maybe_reserve_counter_def Let_def split: prod.split option.split)

lemma finalize_pending [simp]:
  "nw_pending (snd (finalize_frame E p n b s)) = nw_pending s" "nw_now (snd (finalize_frame E p n b s)) = nw_now s"
  by (auto simp: finalize_frame_def Let_def split: sum.split security_error.split prod.split)

lemma track_queues: "P p \<Longrightarrow> queues P s (snd (track_pending E p s))"
  by (auto simp: queues_def track_pending_def vec_push_def upd_stats_def Let_def)

lemma queues_trans_same: "nw_pending t = nw_pending s \<Longrightarrow> queues P t u \<Longrightarrow> queues P s u"
  by (simp add: queues_def)

lemma queues_same: "nw_pending t = nw_pending s \<Longrightarrow> queues P s t"
  by (simp add: queues_def)

lemma track_then_queues:
  assumes "P p" "\<And>t. nw_pending (f t) = nw_pending t"
  shows "queues P s (snd (step_try (track_pending E p) (\<lambda>_ t. (Inr (), f t)) s))"
  using track_queues [of P p s E, OF assms(1)] assms(2)
  by (auto simp: step_try_def queues_def split: prod.split sum.split)

lemma transmit_queues: "queues (requeued (nw_now s) p) s (snd (transmit_pending E p s))"
proof -
  obtain h t where h: "alloc_mac_handle s = (h, t)" by fastforce
  obtain r u where f: "finalize_frame E (pt_frame p) (pt_header_len p) (pt_secure p) s = (r, u)" by fastforce
  obtain h' t' where h': "alloc_mac_handle u = (h', t')" by fastforce
  have p: "nw_pending t = nw_pending s" "nw_pending u = nw_pending s" "nw_pending t' = nw_pending s" "nw_now u = nw_now s"
    using h f h' pending_simps(6) finalize_pending by (metis snd_conv)+
  have q: "queues (requeued (nw_now s) p) s (snd (step_try (track_pending E q) (\<lambda>_ t. (Inr (), f t)) v))"
    if "requeued (nw_now s) p q" "nw_pending v = nw_pending s" "\<And>t. nw_pending (f t) = nw_pending t" for q f v
    by (rule queues_trans_same [OF that(2)], rule track_then_queues, rule that(1), rule that(3))
  have b: "queues (requeued (nw_now s) p) s (snd (track_pending E q v))"
    if "requeued (nw_now s) p q" "nw_pending v = nw_pending s" for q v
    by (rule queues_trans_same [OF that(2)], rule track_queues, rule that(1))
  show ?thesis
    unfolding transmit_pending_def h f Let_def
    by (auto simp: h' p requeued_def queues_same split: option.split sum.split nwk_error.split intro!: q b)
qed

lemma rreq_at_pending:
  "nw_pending (snd (service_rreq_at E now i s)) = nw_pending s" "nw_now (snd (service_rreq_at E now i s)) = nw_now s"
proof -
  define n where "n = (case decode_prefix (prq_frame (nw_pending_rreq s ! i)) of Inr (_, n) \<Rightarrow> n | Inl _ \<Rightarrow> 0)"
  obtain r u where f: "finalize_frame E (prq_frame (nw_pending_rreq s ! i)) n (cfg_security_enabled (nw_config s)) s = (r, u)"
    by fastforce
  obtain h v where h: "alloc_mac_handle u = (h, v)" by fastforce
  have p: "nw_pending u = nw_pending s" "nw_now u = nw_now s" "nw_pending v = nw_pending s" "nw_now v = nw_now s"
    using f h finalize_pending pending_simps(6) now_simps(6) by (metis snd_conv)+
  have j: "jitter E a b t = (x, t') \<Longrightarrow> nw_pending t' = nw_pending t \<and> nw_now t' = nw_now t" for a b t x t'
    using pending_simps(9) now_simps(9) by (metis snd_conv)
  show "nw_pending (snd (service_rreq_at E now i s)) = nw_pending s" "nw_now (snd (service_rreq_at E now i s)) = nw_now s"
    unfolding service_rreq_at_def Let_def n_def [symmetric] f
    by (auto simp: h p split: prod.split sum.split dest!: j)
qed

lemma rreq_from_pending:
  "nw_pending (service_rreq_from E now i s) = nw_pending s \<and> nw_now (service_rreq_from E now i s) = nw_now s"
proof (induction E now i s rule: service_rreq_from.induct)
  case (1 E now i s)
  obtain b t where r: "service_rreq_at E now i s = (b, t)" by fastforce
  have "nw_pending t = nw_pending s" "nw_now t = nw_now s" using rreq_at_pending [of E now i s] r by simp_all
  with 1 r show ?case unfolding service_rreq_from.simps [of E now i s] by simp
qed

lemma route_requests_pending [simp]:
  "nw_pending (service_route_requests E now s) = nw_pending s" "nw_now (service_route_requests E now s) = nw_now s"
  by (simp_all add: service_route_requests_def rreq_from_pending)

lemma discovery_pending [simp]:
  "nw_pending (snd (queue_rreq E f r i b s)) = nw_pending s"
  "nw_pending (snd (discovery_route E d s)) = nw_pending s" "nw_pending (snd (own_discovery d c s)) = nw_pending s"
  by (auto simp: queue_rreq_def discovery_route_def own_discovery_def Let_def split: prod.split sum.split option.split
      dest: arg_cong [where f = "\<lambda>x. nw_pending (snd x)"])

lemma start_discovery_pending [simp]: "nw_pending (snd (start_route_discovery E d r s)) = nw_pending s"
  by (auto simp: start_route_discovery_def step_try_def Let_def split: prod.split sum.split option.split
      dest!: arg_cong [where f = "\<lambda>x. nw_pending (snd x)"])

lemma route_unicast_pending [simp]:
  "nw_pending (snd (route_unicast d b s)) = nw_pending s" "nw_now (snd (route_unicast d b s)) = nw_now s"
  by (auto simp: route_unicast_def Let_def split: option.split)

text \<open>A frame this device did not relay, and that is no data, leaves at most itself in the queue.\<close>

lemma via_hop_simps [simp]:
  "pt_dst (via_hop h p s) = pt_dst p" "pt_relayed_from (via_hop h p s) = pt_relayed_from p"
  "pt_frame (via_hop h p s) = pt_frame p" "pt_kind (via_hop h p s) = pt_kind p"
  by (auto simp: via_hop_def Let_def split: option.split)

lemma enqueue_command_queues:
  assumes "pt_kind p \<noteq> TkData"
  shows "queues (\<lambda>q. pt_dst q = pt_dst p \<and> pt_relayed_from q = pt_relayed_from p \<and> pt_kind q = pt_kind p) s (snd (enqueue_unicast E p s))"
    (is "queues ?P s _")
proof -
  obtain d t where r: "route_unicast (pt_dst p) False s = (d, t)" by fastforce
  have t: "nw_pending t = nw_pending s" using route_unicast_pending(1) r by (metis snd_conv)
  have f: "queues ?P s (snd (transmit_pending E (via_hop h p t) t))" for h
    using transmit_queues [of t "via_hop h p t" E] t by (auto simp: queues_def requeued_def)
  have a: "queues ?P s (snd (await_route E p t))"
    using track_queues [of ?P "p\<lparr>pt_awaiting_route := True\<rparr>" t E] t
    by (auto simp: await_route_def step_try_def queues_def split: prod.split sum.split)
  show ?thesis
    using assms t f a by (auto simp: enqueue_unicast_def Let_def r queues_same split: route_decision.split)
qed

lemma network_status_queues:
  "queues (\<lambda>q. pt_relayed_from q = None \<and> pt_kind q = TkCommand) s (send_network_status E d a c s)"
proof -
  obtain x t where n: "next_sequence s = (x, t)" by fastforce
  obtain i u where a: "alloc_tx_id t = (i, u)" by fastforce
  have p: "nw_pending t = nw_pending s" "nw_pending u = nw_pending s"
    using n a pending_simps(5,7) by (metis snd_conv)+
  have "queues (\<lambda>q. pt_relayed_from q = None \<and> pt_kind q = TkCommand) s (snd (enqueue_unicast E (pending_new i f h d d 1 b False TkCommand n) u))" for f h b n
    using enqueue_command_queues [of "pending_new i f h d d 1 b False TkCommand n" u E] p
    by (auto simp: pending_new_def queues_def)
  then show ?thesis using p by (simp add: send_network_status_def n a Let_def queues_same split: sum.split prod.split)
qed

section \<open>The two loops that end\<close>

definition waits_for :: "short_address \<Rightarrow> pending_tx \<Rightarrow> bool" where
  "waits_for d p \<longleftrightarrow> pt_awaiting_route p \<and> pt_dst p = d"

definition retry_due :: "instant \<Rightarrow> pending_tx \<Rightarrow> bool" where
  "retry_due now p \<longleftrightarrow> (case pt_retry_at p of Some t \<Rightarrow> has_reached now t | None \<Rightarrow> False)"

definition wait_expired :: "instant \<Rightarrow> pending_tx \<Rightarrow> bool" where
  "wait_expired now p \<longleftrightarrow> pt_awaiting_route p \<and> has_reached now (instant_add (pt_created p) ROUTE_DISCOVERY_TIME)"

definition pending_measure :: "(pending_tx \<Rightarrow> bool) \<Rightarrow> (pending_tx \<Rightarrow> bool) \<Rightarrow> nat \<Rightarrow> 'g nwk \<Rightarrow> nat \<times> nat \<times> nat" where
  "pending_measure P Q i s =
     (length (filter P (nw_pending s)), length (filter Q (nw_pending s)), length (nw_pending s) - i)"

abbreviation (input) lex3 :: "((nat \<times> nat \<times> nat) \<times> (nat \<times> nat \<times> nat)) set" where
  "lex3 \<equiv> less_than <*lex*> less_than <*lex*> less_than"

lemma lex3_induct:
  assumes "\<And>i s. (\<And>j t. (m j t, m i s) \<in> lex3 \<Longrightarrow> P j t) \<Longrightarrow> P i s"
  shows "P i s"
proof -
  have "wf (inv_image lex3 (\<lambda>(i, s). m i s))" by (intro wf_inv_image wf_lex_prod wf_less_than)
  then have "case (i, s) of (i, s) \<Rightarrow> P i s"
    by (induction "(i, s)" arbitrary: i s rule: wf_induct_rule) (auto intro: assms)
  then show ?thesis by simp
qed

lemma fail_pending_measure:
  assumes "i < length (nw_pending s)" "waits_for d (nw_pending s ! i)"
  shows "(pending_measure (\<lambda>p. waits_for d p \<and> pt_relayed_from p \<noteq> None) (waits_for d) i
            (fail_pending E d (nw_pending s ! i) (s\<lparr>nw_pending := swap_remove i (nw_pending s)\<rparr>)),
          pending_measure (\<lambda>p. waits_for d p \<and> pt_relayed_from p \<noteq> None) (waits_for d) i s) \<in> lex3"
  using network_status_queues [of "s\<lparr>nw_pending := swap_remove i (nw_pending s)\<rparr>" E "the (pt_relayed_from (nw_pending s ! i))" d LinkFailure]
    num_swap_remove [OF assms(1), of "\<lambda>p. waits_for d p \<and> pt_relayed_from p \<noteq> None"]
    num_swap_remove [OF assms(1), of "waits_for d"] assms
  by (cases "pt_relayed_from (nw_pending s ! i)") (auto simp: pending_measure_def fail_pending_def queues_def)

lemma fail_from_returns: "\<exists>t. fail_from E d i s = Some t"
proof (induction i s rule: lex3_induct [of "pending_measure (\<lambda>p. waits_for d p \<and> pt_relayed_from p \<noteq> None) (waits_for d)"])
  case (1 i s)
  show ?case
  proof (cases "i < length (nw_pending s)")
    case in_queue: True
    show ?thesis
    proof (cases "waits_for d (nw_pending s ! i)")
      case True
      with in_queue 1 [OF fail_pending_measure [OF in_queue True, of E]] show ?thesis
        by (subst fail_from.simps) (simp add: waits_for_def Let_def)
    next
      case False
      with in_queue 1 [of "Suc i" s] show ?thesis
        by (subst fail_from.simps) (auto simp: waits_for_def Let_def pending_measure_def)
    qed
  next
    case False
    then show ?thesis by (subst fail_from.simps) simp
  qed
qed

lemma retry_later:
  assumes "requeued now p q" "now \<le> 0xFFFFFFFFFFFFFFFD"
  shows "\<not> retry_due now q"
proof -
  have "\<not> instant_add now COUNTER_RETRY_DELAY \<le> now"
    using assms(2) by (simp add: instant_add_def COUNTER_RETRY_DELAY_def saturating_add_def word_le_nat_alt unat_word_ariths)
  with assms(1) show ?thesis by (auto simp: requeued_def retry_due_def has_reached_def)
qed

lemma transmit_now: "nw_now (snd (transmit_pending E p s)) = nw_now s"
  using tx_keeps_transmit [of s E p] by (simp add: tx_keeps_def)

lemma service_pending_at_measure:
  assumes "i < length (nw_pending s)" "service_pending_at E now i s = (b, t)" "nw_now s = now" "now \<le> 0xFFFFFFFFFFFFFFFD"
  shows "(pending_measure (retry_due now) (wait_expired now) (if b then Suc i else i) t,
          pending_measure (retry_due now) (wait_expired now) i s) \<in> lex3"
    "nw_now t = now"
proof -
  let ?p = "nw_pending s ! i" and ?s = "s\<lparr>nw_pending := swap_remove i (nw_pending s)\<rparr>"
  have q: "queues (requeued now ?p) ?s (snd (transmit_pending E ?p ?s))" using transmit_queues [of ?s ?p E] assms(3) by simp
  have n: "nw_now (snd (transmit_pending E ?p ?s)) = now" using assms(3) by (simp add: transmit_now)
  note d = num_swap_remove [OF assms(1), of "retry_due now"] num_swap_remove [OF assms(1), of "wait_expired now"]
  have r: "retry_due now ?p \<longleftrightarrow> (case pt_retry_at ?p of Some t \<Rightarrow> has_reached now t | None \<Rightarrow> False)"
    "wait_expired now ?p \<longleftrightarrow> pt_awaiting_route ?p \<and> has_reached now (instant_add (pt_created ?p) ROUTE_DISCOVERY_TIME)"
    by (simp_all add: retry_due_def wait_expired_def)
  show "(pending_measure (retry_due now) (wait_expired now) (if b then Suc i else i) t,
          pending_measure (retry_due now) (wait_expired now) i s) \<in> lex3" "nw_now t = now"
    using assms q n d retry_later [OF _ assms(4), of ?p]
    by (auto simp: service_pending_at_def Let_def pending_measure_def queues_def r [symmetric] split: if_splits)
qed

lemma service_pending_from_returns:
  "nw_now s = now \<Longrightarrow> now \<le> 0xFFFFFFFFFFFFFFFD \<Longrightarrow> \<exists>t. service_pending_from E now i s = Some t"
proof (induction i s rule: lex3_induct [of "pending_measure (retry_due now) (wait_expired now)"])
  case (1 i s)
  obtain b t where r: "service_pending_at E now i s = (b, t)" by fastforce
  show ?case
  proof (cases "i < length (nw_pending s)")
    case True
    from 1(1) [OF service_pending_at_measure [OF True r 1(2,3)] 1(3)] True r show ?thesis
      by (subst service_pending_from.simps) simp
  next
    case False
    then show ?thesis by (subst service_pending_from.simps) simp
  qed
qed

lemma service_pending_returns:
  "nw_now s = now \<Longrightarrow> now \<le> 0xFFFFFFFFFFFFFFFD \<Longrightarrow> \<exists>t. service_pending E now s = Some t"
  unfolding service_pending_def by (rule service_pending_from_returns)

lemma fail_waiting_returns: "\<exists>t. fail_waiting E d s = Some t"
  unfolding fail_waiting_def by (rule fail_from_returns)

lemma expire_discovery_returns: "\<exists>t. expire_discovery E e s = Some t"
  using fail_waiting_returns [of E "de_destination e" "s\<lparr>nw_routes := snd (rt_remove (de_destination e) (nw_routes s))\<rparr>"]
  by (auto simp: expire_discovery_def Let_def)

lemma service_route_discovery_returns: "\<exists>t. service_route_discovery E now s = Some t"
proof -
  have "\<exists>t. fold (\<lambda>e u. Option.bind u (expire_discovery E e)) es (Some s) = Some t" for es s
  proof (induction es arbitrary: s)
    case (Cons e es)
    obtain t where "expire_discovery E e s = Some t" using expire_discovery_returns by blast
    with Cons show ?case by simp
  qed simp
  then show ?thesis by (fastforce simp: service_route_discovery_def split: prod.split)
qed

section \<open>The clock of a timer round\<close>

lemma keeps_broadcast_once [keeps_intros]:
  "tx_keeps s (snd (send_command_broadcast_once E h c b s))"
proof -
  have "tx_keeps s u \<Longrightarrow> tx_keeps s (push_action E a (snd (alloc_mac_handle u)))" for u a
    by (simp add: tx_keeps_def alloc_mac_handle_def push_action_def)
  then show ?thesis
    using tx_keeps_finalize [of s E]
    by (auto simp: send_command_broadcast_once_def Let_def case_prod_beta split: sum.split nwk_error.split)
qed

lemma keeps_link_status: "tx_keeps s (send_link_status E s)"
proof -
  have f: "tx_keeps s t \<Longrightarrow> tx_keeps s (link_status_frame E es n k t)" for es n k t
    unfolding link_status_frame_def Let_def
    by (auto split: prod.split dest: tx_keeps_sequence intro: tx_keeps_trans [OF tx_keeps_trans keeps_broadcast_once])
  have "tx_keeps s t \<Longrightarrow> tx_keeps s (fold (link_status_frame E es n) ks t)" for es n ks t
    by (induction ks arbitrary: t) (auto intro: f)
  then show ?thesis by (simp add: send_link_status_def Let_def)
qed

lemma beacon_payload_now [simp]: "nw_now (update_beacon_payload E s) = nw_now s"
  by (simp add: update_beacon_payload_def Let_def split: prod.split sum.split)

lemma command_unicast_now [simp]: "nw_now (snd (send_command_unicast E h c m b i k s)) = nw_now s"
  using tx_keeps_command_unicast [of s s E h c m b i k] by (simp add: tx_keeps_def)

lemma keepalive_now [simp]:
  "nw_now (parent_link_failure E s) = nw_now s" "nw_now (update_parent f s) = nw_now s"
  "nw_now (send_end_device_timeout_request E s) = nw_now s"
  by (auto simp: parent_link_failure_def update_parent_def send_end_device_timeout_request_def Let_def split: prod.split
      dest: arg_cong [where f = "\<lambda>x. nw_now (snd x)"])

lemma send_keepalive_now [simp]: "nw_now (send_keepalive E s) = nw_now s"
  by (simp add: send_keepalive_def Let_def)

lemma service_keepalive_now [simp]: "nw_now (service_keepalive E now s) = nw_now s"
  by (simp add: service_keepalive_def Let_def split: option.split)

lemma forget_children_now [simp]: "nw_now (fold (forget_child E) ds s) = nw_now s"
  by (induction ds arbitrary: s) (simp_all add: forget_child_def)

lemma service_ages_now [simp]: "nw_now (service_ages E now s) = nw_now s"
  by (simp add: service_ages_def Let_def split: prod.split)

lemma join_helpers_now [simp]:
  "nw_now (upd_join f s) = nw_now s" "nw_now (rank_candidates b s) = nw_now s" "nw_now (finish_join E c s) = nw_now s"
  "nw_now (refill_candidates j s) = nw_now s" "nw_now (snd (announce_self E p s)) = nw_now s"
  by (auto simp: upd_join_def rank_candidates_def finish_join_def refill_candidates_def announce_self_def
      ensure_self_address_def Let_def split: option.split prod.split if_splits)

lemma select_parent_now [simp]: "nw_now (snd (select_parent E s)) = nw_now s"
  by (auto simp: select_parent_def Let_def split: option.split)

lemma attach_requests_now [simp]:
  "nw_now (snd (rejoin_request E p b c s)) = nw_now s" "nw_now (snd (commissioning_request E p r b c s)) = nw_now s"
  by (auto simp: rejoin_request_def commissioning_request_def Let_def split: prod.split
      dest!: arg_cong [where f = "\<lambda>x. nw_now (snd x)"])

lemma attach_once_now [simp]: "nw_now (snd (attach_once E s)) = nw_now s"
  by (auto simp: attach_once_def start_attach_def Let_def split: option.split prod.split
      dest!: arg_cong [where f = "\<lambda>x. nw_now (snd x)"])

lemma try_next_parent_now [simp]: "nw_now (try_next_parent E s) = nw_now s"
proof (induction E s rule: try_next_parent.induct)
  case (1 E s)
  obtain b t where r: "attach_once E s = (b, t)" by fastforce
  moreover have "nw_now t = nw_now s" using attach_once_now [of E s] r by simp
  ultimately show ?case using 1 unfolding try_next_parent.simps [of E s] by (auto split: bool.split)
qed

lemma service_join_now [simp]: "nw_now (service_join E now s) = nw_now s"
  by (auto simp: service_join_def local_leave_def Let_def split: option.split join_phase.split)

definition link_status_panics :: "instant \<Rightarrow> 'g nwk \<Rightarrow> bool" where
  "link_status_panics now s \<longleftrightarrow>
     (case nw_link_status_due s of Some t \<Rightarrow> has_reached now t | None \<Rightarrow> False)
     \<and> (let (stale, nt) = link_status_tick (nib_router_age_limit (nw_nib s)) (nw_neighbors s)
        in 0 < stale \<and> 8 < length (stale_hops (s\<lparr>nw_neighbors := nt\<rparr>)))"

lemma service_link_status_returns: "service_link_status E now s = None \<longleftrightarrow> link_status_panics now s"
proof -
  let ?u = "send_link_status E s"
  have k: "nw_neighbors ?u = nw_neighbors s" "nib_core (nw_nib ?u) = nib_core (nw_nib s)"
    using keeps_link_status [of s E] by (simp_all add: tx_keeps_def)
  have a: "nib_router_age_limit (nw_nib ?u) = nib_router_age_limit (nw_nib s)"
    using arg_cong [OF k(2), of nib_router_age_limit] by (simp add: nib_core_def)
  then have "stale_hops (?u\<lparr>nw_neighbors := nt\<rparr>) = stale_hops (s\<lparr>nw_neighbors := nt\<rparr>)" for nt
    by (simp add: stale_hops_def)
  with k a show ?thesis
    by (auto simp: service_link_status_def link_status_panics_def Let_def split: option.split prod.split)
qed

lemma service_link_status_now: "service_link_status E now s = Some t \<Longrightarrow> nw_now t = nw_now s"
  using keeps_link_status [of s E]
  by (auto simp: service_link_status_def tx_keeps_def Let_def split: option.splits prod.splits if_splits
      dest!: arg_cong [of "jitter _ _ _ _" _ "\<lambda>x. nw_now (snd x)"])

section \<open>The loop that need not end\<close>

text \<open>
  One secured frame waits for a route to \<^verbatim>\<open>d\<close>, the route has become active through a neighboring router, and the
  outgoing frame counter is at the end of its persisted reservation.
\<close>

definition counter_spent :: "outgoing_counter \<Rightarrow> bool" where
  "counter_spent c \<longleftrightarrow> oc_reserved_until c \<le> oc_next c \<and> oc_next c \<noteq> U32_MAX"

definition waits_on_counter :: "'g nwk_env \<Rightarrow> short_address \<Rightarrow> 'g nwk \<Rightarrow> bool" where
  "waits_on_counter E d s \<longleftrightarrow>
     0 < cap_pending_tx E \<and> \<not> nib_is_end_device (nw_nib s) \<and> nw_rx_link s = None
     \<and> nk_active (ns_keys (nw_security s)) \<noteq> None \<and> counter_spent (nk_outgoing (ns_keys (nw_security s)))
     \<and> by_short d (nw_neighbors s) = None
     \<and> (case nw_pending s of
          [p] \<Rightarrow> waits_for d p \<and> pt_secure p \<and> \<not> pt_indirect p
                  \<and> pt_header_len p + 14 + (length (pt_frame p) - pt_header_len p) + mic_len (nib_security_level (nw_nib s)) \<le> MAX_NPDU
        | _ \<Rightarrow> False)
     \<and> (case rt_get d (nw_routes s) of
          Some r \<Rightarrow> re_status r = Active \<and> \<not> re_many_to_one r
                   \<and> (case by_short (re_next_hop r) (nw_neighbors s) of
                        Some n \<Rightarrow> ne_link n = None \<and> \<not> ne_is_end_device n
                      | None \<Rightarrow> False)
        | None \<Rightarrow> False)"

lemma start_reservation_spent: "counter_spent c \<Longrightarrow> counter_spent (snd (start_reservation c))"
  by (simp add: counter_spent_def start_reservation_def Let_def)

lemma finalize_spent:
  assumes "counter_spent (nk_outgoing (ns_keys (nw_security s)))" "nk_active (ns_keys (nw_security s)) \<noteq> None"
    "n + 14 + (length f - n) + mic_len (nib_security_level (nw_nib s)) \<le> MAX_NPDU"
  shows "\<exists>t. finalize_frame E f n True s = (Inl ErrCounterPending, t) \<and> nw_nib t = nw_nib s \<and> nw_rx_link t = nw_rx_link s
    \<and> nw_neighbors t = nw_neighbors s \<and> nw_routes t = nw_routes s \<and> nw_pending t = nw_pending s
    \<and> nk_active (ns_keys (nw_security t)) \<noteq> None \<and> counter_spent (nk_outgoing (ns_keys (nw_security t)))"
proof -
  let ?t = "nw_maybe_reserve_counter E s" and ?c = "nk_outgoing (ns_keys (nw_security s))"
  obtain q where q: "nk_active (ns_keys (nw_security s)) = Some q" using assms(2) by blast
  have a: "allocate ?c = (Inl ReservationRequired, ?c)" using assms(1) by (simp add: allocate_def counter_spent_def)
  have u: "ns_update_outgoing (\<lambda>_. ?c) (nw_security s) = nw_security s" by (simp add: ns_update_outgoing_def)
  have t: "nk_outgoing (ns_keys (nw_security ?t)) = snd (start_reservation ?c)"
    "nk_active (ns_keys (nw_security ?t)) = Some q" "nw_nib ?t = nw_nib s" "nw_rx_link ?t = nw_rx_link s"
    "nw_neighbors ?t = nw_neighbors s" "nw_routes ?t = nw_routes s" "nw_pending ?t = nw_pending s"
    using q by (simp_all add: nw_maybe_reserve_counter_def ns_start_counter_reservation_def ns_update_outgoing_def push_action_def
        Let_def split: option.split)
  have "counter_spent (snd (start_reservation ?c))" by (rule start_reservation_spent [OF assms(1)])
  then have "oc_next (snd (start_reservation ?c)) \<noteq> - 1" by (simp add: counter_spent_def U32_MAX_def)
  then have "finalize_frame E f n True s = (Inl ErrCounterPending, ?t)"
    using assms(3) by (simp add: finalize_frame_def secure_outgoing_def q a u t(1) Let_def)
  with t \<open>counter_spent (snd (start_reservation ?c))\<close> show ?thesis by auto
qed

lemma rt_get_touch [simp]: "rt_get d (rt_update d re_touch t) = map_option re_touch (rt_get d t)"
  by (simp add: rt_get_def rt_update_def table_get_def find_update_first re_touch_def)

lemma by_short_update:
  assumes "\<And>x. ne_short (f x) = ne_short x"
  shows "by_short a (update_short b f t) = (if a = b then map_option f (by_short a t) else by_short a t)"
  using assms by (simp add: by_short_def update_short_def table_get_def find_update_first find_update_first_other)

lemma release_step_spent:
  assumes "waits_on_counter E d s"
  shows "waits_on_counter E d (snd (enqueue_unicast E (nw_pending s ! 0) (s\<lparr>nw_pending := swap_remove 0 (nw_pending s)\<rparr>)))"
proof -
  obtain p where p: "nw_pending s = [p]" "waits_for d p" "pt_secure p" "\<not> pt_indirect p"
    using assms by (auto simp: waits_on_counter_def split: list.splits)
  obtain r n where r: "rt_get d (nw_routes s) = Some r" "re_status r = Active" "\<not> re_many_to_one r"
      "by_short (re_next_hop r) (nw_neighbors s) = Some n" "ne_link n = None" "\<not> ne_is_end_device n"
    using assms by (auto simp: waits_on_counter_def split: option.splits)
  have d: "\<not> nib_is_end_device (nw_nib s)" "by_short d (nw_neighbors s) = None" "nw_rx_link s = None" "0 < cap_pending_tx E"
    using assms by (simp_all add: waits_on_counter_def)
  define f :: "neighbor_entry \<Rightarrow> neighbor_entry" where "f = (\<lambda>x. x\<lparr>ne_router_outbound_activity := saturating_add (ne_router_outbound_activity x) 1\<rparr>)"
  define t where "t = s\<lparr>nw_pending := [], nw_routes := rt_update d re_touch (nw_routes s),
    nw_neighbors := update_short (re_next_hop r) f (nw_neighbors s)\<rparr>"
  have fs: "by_short a (update_short (re_next_hop r) f t) = (if a = re_next_hop r then map_option f (by_short a t) else by_short a t)" for a t
    by (rule by_short_update) (simp add: f_def)
  have fp: "ne_link (f x) = ne_link x" "ne_is_end_device (f x) = ne_is_end_device x" for x
    by (simp_all add: f_def ne_is_end_device_def)
  have rp: "re_status (re_touch x) = re_status x" "re_many_to_one (re_touch x) = re_many_to_one x"
      "re_next_hop (re_touch x) = re_next_hop x" for x
    by (simp_all add: re_touch_def)
  have dst: "pt_dst p = d" using p(2) by (simp add: waits_for_def)
  have route: "route_unicast d b (s\<lparr>nw_pending := []\<rparr>) = (NextHop (re_next_hop r), t)" for b
    using r d by (simp add: route_unicast_def t_def f_def)
  obtain u where u: "finalize_frame E (pt_frame p) (pt_header_len p) True t = (Inl ErrCounterPending, u)"
      "nw_nib u = nw_nib t" "nw_rx_link u = nw_rx_link t" "nw_neighbors u = nw_neighbors t" "nw_routes u = nw_routes t"
      "nw_pending u = nw_pending t" "nk_active (ns_keys (nw_security u)) \<noteq> None"
      "counter_spent (nk_outgoing (ns_keys (nw_security u)))"
    using finalize_spent [of t "pt_header_len p" "pt_frame p" E] assms p(1) by (auto simp: waits_on_counter_def t_def)
  have "\<not> sleepy_child (re_next_hop r) t" "trusted_link_to (re_next_hop r) t = None" "\<not> wants_route_record d t"
    using r d by (simp_all add: sleepy_child_def trusted_link_to_def wants_route_record_def t_def fs fp rp)
  then have "enqueue_unicast E p (s\<lparr>nw_pending := []\<rparr>)
      = track_pending E (p\<lparr>pt_next_hop := re_next_hop r, pt_mac_handle := None,
          pt_retry_at := Some (instant_add (nw_now u) COUNTER_RETRY_DELAY)\<rparr>) u"
    using p u by (simp add: enqueue_unicast_def dst route via_hop_def transmit_pending_def Let_def)
  moreover have "s\<lparr>nw_pending := swap_remove 0 (nw_pending s)\<rparr> = s\<lparr>nw_pending := []\<rparr>" by (simp add: p swap_remove_def)
  moreover have "d \<noteq> re_next_hop r" using d r by auto
  ultimately show ?thesis
    using p r d u(2-) assms
    by (simp add: track_pending_def vec_push_def waits_for_def upd_stats_def Let_def waits_on_counter_def t_def fs fp rp)
qed

lemma release_from_spent: "release_from E d i s = Some t \<Longrightarrow> i = 0 \<Longrightarrow> waits_on_counter E d s \<Longrightarrow> False"
proof (induction rule: release_from.raw_induct [rotated, consumes 1])
  case (1 f E d i s t)
  then obtain p where p: "nw_pending s = [p]" "waits_for d p"
    by (auto simp: waits_on_counter_def split: list.splits)
  then show False
    using 1 release_step_spent [OF 1(4)] by (auto simp: waits_for_def Let_def)
qed

end
