(* ===== verification/NwkDelivery.thy ===== *)
theory NwkDelivery
  imports NwkRuns NwkLoops
begin

text \<open>
  What the reception path of the network layer delivers to the layer above: each broadcast once, data only when its
  security was checked, and relayed frames with one hop less to go.
\<close>

section \<open>Broadcasts are remembered until they expire\<close>

definition record_of :: "broadcast_record \<Rightarrow> (short_address \<times> u8) \<times> instant" where
  "record_of r = (br_key r, br_expires r)"

definition bc_keeps :: "'g nwk \<Rightarrow> 'g nwk \<Rightarrow> bool" where
  "bc_keeps s t \<longleftrightarrow>
     nw_now t = nw_now s \<and> nib_device_type (nw_nib t) = nib_device_type (nw_nib s)
     \<and> nib_broadcast_delivery_time (nw_nib t) = nib_broadcast_delivery_time (nw_nib s)
     \<and> record_of ` {r \<in> set (nw_btt s). nw_now s < br_expires r} \<subseteq> record_of ` set (nw_btt t)"

lemma bc_keeps_refl [simp]: "bc_keeps s s"
  by (auto simp: bc_keeps_def)

lemma bc_keeps_trans:
  assumes "bc_keeps s t" "bc_keeps t u"
  shows "bc_keeps s u"
proof -
  have "record_of r \<in> record_of ` set (nw_btt u)" if "r \<in> set (nw_btt s)" "nw_now s < br_expires r" for r
  proof -
    obtain r' where r': "r' \<in> set (nw_btt t)" "record_of r' = record_of r"
      using assms(1) \<open>r \<in> set (nw_btt s)\<close> \<open>nw_now s < br_expires r\<close> by (force simp: bc_keeps_def)
    then have "nw_now t < br_expires r'"
      using assms(1) \<open>nw_now s < br_expires r\<close> by (simp add: bc_keeps_def record_of_def)
    with r'(1) assms(2) have "record_of r' \<in> record_of ` set (nw_btt u)" by (auto simp: bc_keeps_def)
    with r'(2) show ?thesis by simp
  qed
  with assms show ?thesis by (auto simp: bc_keeps_def)
qed

lemma bc_keeps_tx: "tx_keeps s t \<Longrightarrow> bc_keeps s t"
  by (auto simp: tx_keeps_def bc_keeps_def nib_core_def dest: arg_cong [where f = nib_device_type]
      arg_cong [where f = nib_broadcast_delivery_time])

lemma record_of_update:
  "(\<And>r. br_key (f r) = br_key r \<and> br_expires (f r) = br_expires r) \<Longrightarrow>
     map record_of (btt_update a q f t) = map record_of t"
  unfolding btt_update_def by (rule map_update_first) (simp add: record_of_def)

lemma bc_keeps_btt_map:
  assumes "map record_of u = map record_of (nw_btt t)" "bc_keeps s t"
  shows "bc_keeps s (t\<lparr>nw_btt := u\<rparr>)"
proof -
  have "record_of ` set u = record_of ` set (nw_btt t)" using assms(1) by (metis list.set_map)
  with assms(2) show ?thesis by (simp add: bc_keeps_def)
qed

lemma br_key_simps [simp]:
  "br_key (r\<lparr>br_awaiting := x\<rparr>) = br_key r" "br_key (r\<lparr>br_retries := n\<rparr>) = br_key r"
  "br_key (r\<lparr>br_next_tx := y\<rparr>) = br_key r" "br_key (r\<lparr>br_relay_pending := b\<rparr>) = br_key r"
  by (simp_all add: br_key_def)

lemma bc_keeps_update:
  "(\<And>r. br_key (f r) = br_key r \<and> br_expires (f r) = br_expires r) \<Longrightarrow> bc_keeps s t \<Longrightarrow>
     bc_keeps s (t\<lparr>nw_btt := btt_update a q f (nw_btt t)\<rparr>)"
  by (rule bc_keeps_btt_map [OF record_of_update])

lemma bc_keeps_insert:
  assumes "btt_insert cap r (nw_now t) (nw_btt t) = Some u" "bc_keeps s t"
  shows "bc_keeps s (t\<lparr>nw_btt := u\<rparr>)"
proof -
  have "x \<in> set u" if "x \<in> set (nw_btt t)" "nw_now t < br_expires x" for x
  proof (cases "length (nw_btt t) < cap")
    case False
    then obtain i where i: "position (\<lambda>x. has_reached (nw_now t) (br_expires x)) (nw_btt t) = Some i"
      and u: "u = swap_remove i (nw_btt t) @ [r]"
      using assms(1) by (auto simp: btt_insert_def vec_push_def split: option.splits if_splits)
    from position_Some [OF i] that(2) have n: "i < length (nw_btt t)" "x \<noteq> nw_btt t ! i"
      by (auto simp: has_reached_def)
    then show ?thesis
      using swap_remove_split [OF n(1)] that(1) u by (metis Un_iff set_ConsD set_append set_mset_mset)
  qed (use assms(1) that in \<open>auto simp: btt_insert_def\<close>)
  then have "bc_keeps t (t\<lparr>nw_btt := u\<rparr>)" by (auto simp: bc_keeps_def)
  with assms(2) show ?thesis by (rule bc_keeps_trans)
qed

lemma bc_keeps_expire:
  assumes "now = nw_now t" "bc_keeps s t"
  shows "bc_keeps s (t\<lparr>nw_btt := btt_expire now (nw_btt t)\<rparr>)"
proof -
  have "bc_keeps t (t\<lparr>nw_btt := btt_expire now (nw_btt t)\<rparr>)"
    using assms(1) by (auto simp: bc_keeps_def btt_expire_def has_reached_def)
  with assms(2) show ?thesis by (rule bc_keeps_trans)
qed

lemma bc_keeps_fields [simp]:
  "bc_keeps s (t\<lparr>nw_bcast_bufs := b\<rparr>) = bc_keeps s t" "bc_keeps s (t\<lparr>nw_rng := g\<rparr>) = bc_keeps s t"
  "bc_keeps s (push_action E a t) = bc_keeps s t" "bc_keeps s (push_event E e t) = bc_keeps s t"
  "bc_keeps s (upd_stats h t) = bc_keeps s t" "bc_keeps s (snd (alloc_mac_handle t)) = bc_keeps s t"
  "bc_keeps s (snd (alloc_tx_id t)) = bc_keeps s t" "bc_keeps s (snd (next_sequence t)) = bc_keeps s t"
  "bc_keeps s (snd (jitter E lo hi t)) = bc_keeps s t" "bc_keeps s (store_broadcast_buf E bb t) = bc_keeps s t"
  "bc_keeps s (drop_bufs src q t) = bc_keeps s t"
  "bc_keeps s (upd_nib (\<lambda>n. n\<lparr>nib_network_address := own\<rparr>) t) = bc_keeps s t"
  by (simp_all add: bc_keeps_def push_action_def push_event_def upd_stats_def alloc_mac_handle_def alloc_tx_id_def
      next_sequence_def jitter_def store_broadcast_buf_def drop_bufs_def upd_nib_def Let_def split: prod.split)

lemma bc_keeps_pair:
  "alloc_mac_handle t = (x, u) \<Longrightarrow> bc_keeps s t \<Longrightarrow> bc_keeps s u"
  "alloc_tx_id t = (y, u) \<Longrightarrow> bc_keeps s t \<Longrightarrow> bc_keeps s u"
  "next_sequence t = (z, u) \<Longrightarrow> bc_keeps s t \<Longrightarrow> bc_keeps s u"
  "jitter E lo hi t = (w, u) \<Longrightarrow> bc_keeps s t \<Longrightarrow> bc_keeps s u"
  "finalize_frame E p n b t = (r, u) \<Longrightarrow> bc_keeps s t \<Longrightarrow> bc_keeps s u"
proof -
  show "alloc_mac_handle t = (x, u) \<Longrightarrow> bc_keeps s t \<Longrightarrow> bc_keeps s u" using bc_keeps_fields(6) [of s t] by simp
  show "alloc_tx_id t = (y, u) \<Longrightarrow> bc_keeps s t \<Longrightarrow> bc_keeps s u" using bc_keeps_fields(7) [of s t] by simp
  show "next_sequence t = (z, u) \<Longrightarrow> bc_keeps s t \<Longrightarrow> bc_keeps s u" using bc_keeps_fields(8) [of s t] by simp
  show "jitter E lo hi t = (w, u) \<Longrightarrow> bc_keeps s t \<Longrightarrow> bc_keeps s u" using bc_keeps_fields(9) [of s E lo hi t] by simp
  show "finalize_frame E p n b t = (r, u) \<Longrightarrow> bc_keeps s t \<Longrightarrow> bc_keeps s u"
    using bc_keeps_trans [OF _ bc_keeps_tx [OF tx_keeps_finalize [of t E p n b]]] by simp
qed

lemma bc_keeps_transmit [simp]: "bc_keeps s t \<Longrightarrow> bc_keeps s (snd (transmit_pending E p t))"
  by (rule bc_keeps_trans [OF _ bc_keeps_tx [OF tx_keeps_transmit]])

lemma bc_keeps_fold: "(\<And>x t. bc_keeps s t \<Longrightarrow> bc_keeps s (f x t)) \<Longrightarrow> bc_keeps s t \<Longrightarrow> bc_keeps s (fold f xs t)"
  by (induction xs arbitrary: t) auto

lemma bc_keeps_copies:
  "bc_keeps s t \<Longrightarrow> bc_keeps s (send_link_copy E p b l t)" "bc_keeps s t \<Longrightarrow> bc_keeps s (send_child_copy E a own c t)"
  by (auto simp: send_link_copy_def send_child_copy_def Let_def split: sum.split option.split prod.split
      intro: bc_keeps_pair bc_keeps_transmit)

lemma bc_keeps_transmit_broadcast [simp]:
  assumes "bc_keeps s t"
  shows "bc_keeps s (transmit_broadcast E a q f d first own t)"
proof -
  have l: "bc_keeps s u \<Longrightarrow> bc_keeps s (fold (send_link_copy E p b) ls u)" for p b ls u
    by (rule bc_keeps_fold) (auto intro: bc_keeps_copies)
  have c: "bc_keeps s u \<Longrightarrow> bc_keeps s (fold (send_child_copy E f x) cs u)" for x cs u
    by (rule bc_keeps_fold) (auto intro: bc_keeps_copies)
  obtain h t0 where h: "alloc_mac_handle t = (h, t0)" by fastforce
  then have "bc_keeps s t0" using assms bc_keeps_pair(1) by blast
  then show ?thesis
    unfolding transmit_broadcast_def h Let_def
    by (auto split: option.split intro!: bc_keeps_update c l)
qed

lemma bc_keeps_retransmit [simp]: "bc_keeps s t \<Longrightarrow> bc_keeps s (retransmit_broadcast E a q first own t)"
  by (auto simp: retransmit_broadcast_def split: option.split intro!: bc_keeps_update)

lemma bc_keeps_service_broadcast:
  assumes "bc_keeps s t"
  shows "bc_keeps s (service_broadcast E now m k t)"
proof (cases "btt_get (fst k) (snd k) (nw_btt t)")
  case (Some r)
  define u where "u = t\<lparr>nw_btt := btt_update (fst k) (snd k) (\<lambda>x. x\<lparr>br_retries :=
    (if br_relay_pending r then br_retries x else br_retries x + 1), br_relay_pending := False\<rparr>) (nw_btt t)\<rparr>"
  have u: "bc_keeps s u" unfolding u_def by (rule bc_keeps_update [OF _ assms]) simp
  have f: "bc_keeps s (snd (finalize_frame E p n b u))" for p n b using bc_keeps_pair(5) [OF surjective_pairing u] .
  have d: "bc_keeps s (t\<lparr>nw_btt := btt_update (fst k) (snd k) (\<lambda>x. x\<lparr>br_next_tx := None\<rparr>) (nw_btt t)\<rparr>)"
    by (rule bc_keeps_update [OF _ assms]) simp
  have p: "bc_keeps s v \<Longrightarrow> bc_keeps s (v\<lparr>nw_btt := btt_update (fst k) (snd k)
      (\<lambda>x. x\<lparr>br_relay_pending := True, br_next_tx := z\<rparr>) (nw_btt v)\<rparr>)" for v z
    by (rule bc_keeps_update) simp_all
  show ?thesis
    unfolding service_broadcast_def split_def Let_def Some option.case u_def [symmetric]
    using u f d p by (simp split: option.split sum.split nwk_error.split)
qed (simp add: service_broadcast_def assms split_def)

lemma bc_keeps_service:
  assumes "now = nw_now s"
  shows "bc_keeps s (service_broadcasts E now s)"
proof -
  define t where "t = fold (service_broadcast E now (nib_max_broadcast_retries (nw_nib s))) (due_broadcasts now s) s"
  have t: "bc_keeps s t" unfolding t_def by (rule bc_keeps_fold) (simp_all add: bc_keeps_service_broadcast)
  then have "now = nw_now t" using assms by (simp add: bc_keeps_def)
  from bc_keeps_expire [OF this t] show ?thesis by (simp add: service_broadcasts_def t_def Let_def)
qed

lemma bc_keeps_originate [simp]:
  assumes "bc_keeps s t"
  shows "bc_keeps s (snd (originate_broadcast E p n b t))"
proof -
  define t1 where "t1 = upd_stats (\<lambda>t. t\<lparr>st_broadcasts_sent := saturating_add (st_broadcasts_sent t) 1\<rparr>) t"
  obtain r u where f: "finalize_frame E p n b t1 = (r, u)" by fastforce
  have t1: "bc_keeps s t1" using assms by (simp add: t1_def)
  then have u: "bc_keeps s u" using bc_keeps_pair(5) [OF f] by blast
  have i: "btt_insert c x (nw_now u) (nw_btt u) = Some v \<Longrightarrow> bc_keeps s (u\<lparr>nw_btt := v\<rparr>)" for c x v
    by (rule bc_keeps_insert [OF _ u])
  show ?thesis
    unfolding originate_broadcast_def Let_def t1_def [symmetric] f
    using t1 u by (simp add: split_def i split: option.split sum.split nwk_error.split)
qed

lemma bc_keeps_conflict [simp]:
  assumes "bc_keeps s t"
  shows "bc_keeps s (on_local_address_conflict E t)"
proof -
  have b: "bc_keeps s u \<Longrightarrow> bc_keeps s (broadcast_address_conflict E a u)" for a u
    by (simp add: broadcast_address_conflict_def split_def Let_def split: sum.split)
  show ?thesis
    using assms by (simp add: on_local_address_conflict_def allocate_address_def split_def Let_def b split: option.split)
qed

lemma bc_keeps_received: "bc_keeps s (snd (on_broadcast_received E a q d x m buf n i j b s))"
proof -
  have u: "bc_keeps s t \<Longrightarrow> bc_keeps s (t\<lparr>nw_btt := btt_update a q (\<lambda>r. r\<lparr>br_relay_pending := True,
      br_next_tx := y, br_retries := 0\<rparr>) (nw_btt t)\<rparr>)" for t y
    by (rule bc_keeps_update) simp_all
  have p: "bc_keeps s (s\<lparr>nw_btt := btt_update a q (passive_ack m) (nw_btt s)\<rparr>)"
    by (rule bc_keeps_update) (simp_all add: passive_ack_def)
  have i: "btt_insert c r (nw_now s) (nw_btt s) = Some v \<Longrightarrow> bc_keeps s (s\<lparr>nw_btt := v\<rparr>)" for c r v
    by (rule bc_keeps_insert) simp_all
  show ?thesis
    unfolding on_broadcast_received_def by (simp add: split_def Let_def u p i split: option.split)
qed

section \<open>Runs of the broadcast handlers\<close>

text \<open>
  The three things that happen to the broadcast table: a broadcast is heard, the device sends one of its own, and the
  timer loop serves the table at a later instant.
\<close>

datatype bc_event =
    Heard short_address u8 short_address u8 short_address bytes nat nat nat bool
  | Originated bytes nat bool
  | Serviced instant

fun bc_step :: "'g nwk_env \<Rightarrow> bc_event \<Rightarrow> 'g nwk \<Rightarrow> (short_address \<times> u8) list \<times> 'g nwk" where
  "bc_step E (Heard a q d x m buf n i j b) s =
     (case on_broadcast_received E a q d x m buf n i j b s of (deliver, t) \<Rightarrow> (if deliver then [(a, q)] else [], t))"
| "bc_step E (Originated p n b) s = ([], snd (originate_broadcast E p n b s))"
| "bc_step E (Serviced now) s = ([], service_broadcasts E now (s\<lparr>nw_now := now\<rparr>))"

fun bc_deliveries :: "'g nwk_env \<Rightarrow> bc_event list \<Rightarrow> 'g nwk \<Rightarrow> (short_address \<times> u8) list" where
  "bc_deliveries E [] s = []"
| "bc_deliveries E (e # es) s = (case bc_step E e s of (ks, t) \<Rightarrow> ks @ bc_deliveries E es t)"

text \<open>The clock does not run backwards and stays before \<^verbatim>\<open>T\<close>.\<close>

fun clock_within :: "instant \<Rightarrow> instant \<Rightarrow> bc_event list \<Rightarrow> bool" where
  "clock_within t T [] \<longleftrightarrow> t < T"
| "clock_within t T (Serviced now # es) \<longleftrightarrow> t \<le> now \<and> clock_within now T es"
| "clock_within t T (_ # es) \<longleftrightarrow> clock_within t T es"

lemma clock_within_before: "clock_within t T es \<Longrightarrow> t < T"
  by (induction t T es rule: clock_within.induct) auto

text \<open>A broadcast is remembered until \<^verbatim>\<open>T\<close>, and one that is remembered is not delivered.\<close>

definition remembered :: "instant \<Rightarrow> 'g nwk \<Rightarrow> short_address \<times> u8 \<Rightarrow> bool" where
  "remembered T s k \<longleftrightarrow> (\<exists>r \<in> set (nw_btt s). br_key r = k \<and> T \<le> br_expires r)"

lemma remembered_keeps:
  assumes "bc_keeps s t" "remembered T s k" "nw_now s < T"
  shows "remembered T t k"
proof -
  obtain r where r: "r \<in> set (nw_btt s)" "br_key r = k" "T \<le> br_expires r" using assms(2) by (auto simp: remembered_def)
  then have "record_of r \<in> record_of ` set (nw_btt t)" using assms(1,3) by (auto simp: bc_keeps_def)
  with r show ?thesis by (auto simp: remembered_def record_of_def)
qed

lemma remembered_not_delivered:
  assumes "remembered T s (a, q)"
  shows "\<not> fst (on_broadcast_received E a q d x m buf n i j b s)"
proof -
  have "btt_get a q (nw_btt s) \<noteq> None"
    using assms unfolding btt_get_def table_get_None remembered_def by (metis image_eqI)
  then show ?thesis by (simp add: on_broadcast_received_def)
qed

lemma remembered_records:
  "remembered T s k \<longleftrightarrow> (\<exists>x \<in> set (map record_of (nw_btt s)). fst x = k \<and> T \<le> snd x)"
  by (auto simp: remembered_def record_of_def)

lemma remembered_btt: "map record_of (nw_btt t) = map record_of (nw_btt s) \<Longrightarrow> remembered T t k = remembered T s k"
  by (simp add: remembered_records del: set_map)

lemma btt_insert_in: "btt_insert cap r now t = Some u \<Longrightarrow> r \<in> set u"
  by (auto simp: btt_insert_def vec_push_def split: if_splits option.splits)

lemma delivered_remembered:
  assumes "fst (on_broadcast_received E a q d x m buf n i j b s)" "\<not> nib_is_end_device (nw_nib s)"
  shows "remembered (instant_add (nw_now s) (nib_broadcast_delivery_time (nw_nib s)))
    (snd (on_broadcast_received E a q d x m buf n i j b s)) (a, q)"
proof -
  let ?r = "broadcast_record_of a q m None False s"
  obtain u where u: "btt_insert (cap_broadcasts E) ?r (nw_now s) (nw_btt s) = Some u"
    and b: "in_broadcast_group d s" "btt_get a q (nw_btt s) = None" "a \<noteq> nib_network_address (nw_nib s)"
    using assms by (auto simp: on_broadcast_received_def split: if_splits option.splits)
  have k: "br_key ?r = (a, q)" "br_expires ?r = instant_add (nw_now s) (nib_broadcast_delivery_time (nw_nib s))"
    by (simp_all add: broadcast_record_of_def br_key_def)
  have r: "remembered (br_expires ?r) (s\<lparr>nw_btt := u\<rparr>) (a, q)"
    using btt_insert_in [OF u] k(1) by (auto simp: remembered_def)
  have "map record_of (nw_btt (snd (on_broadcast_received E a q d x m buf n i j b s))) = map record_of u"
    using b assms(2)
    by (simp add: on_broadcast_received_def u upd_stats_def store_broadcast_buf_def jitter_def Let_def split_def
        record_of_update split: option.split)
  with r show ?thesis
    using remembered_btt [of "snd (on_broadcast_received E a q d x m buf n i j b s)" "s\<lparr>nw_btt := u\<rparr>"] by (simp add: k(2))
qed

lemma deliveries_distinct:
  assumes "clock_within (nw_now s) T es" "\<not> nib_is_end_device (nw_nib s)"
    "T \<le> instant_add (nw_now s) (nib_broadcast_delivery_time (nw_nib s))"
  shows "distinct (bc_deliveries E es s) \<and> (\<forall>k. remembered T s k \<longrightarrow> k \<notin> set (bc_deliveries E es s))"
  using assms
proof (induction es arbitrary: s)
  case (Cons e es)
  show ?case
  proof (cases e)
    case (Heard a q d x m buf n i j b)
    let ?r = "on_broadcast_received E a q d x m buf n i j b s"
    have k: "bc_keeps s (snd ?r)" by (rule bc_keeps_received)
    have IH: "distinct (bc_deliveries E es (snd ?r)) \<and> (\<forall>k. remembered T (snd ?r) k \<longrightarrow> k \<notin> set (bc_deliveries E es (snd ?r)))"
      using Cons.prems k by (intro Cons.IH) (simp_all add: Heard bc_keeps_def nib_is_end_device_def)
    have old: "remembered T s k \<Longrightarrow> remembered T (snd ?r) k" for k
      using remembered_keeps [OF k, of T k] Cons.prems(1) by (auto simp: Heard dest: clock_within_before)
    have new: "fst ?r \<Longrightarrow> remembered T (snd ?r) (a, q)"
      using delivered_remembered [of E a q d x m buf n i j b s] Cons.prems by (force simp: remembered_def)
    show ?thesis
      using IH old new remembered_not_delivered [of T s a q E d x m buf n i j b] by (auto simp: Heard split_def)
  next
    case (Originated p n b)
    have k: "bc_keeps s (snd (originate_broadcast E p n b s))" by simp
    show ?thesis
      using Cons.prems k Cons.IH [of "snd (originate_broadcast E p n b s)"] remembered_keeps [OF k, of T]
      by (auto simp: Originated bc_keeps_def nib_is_end_device_def dest: clock_within_before)
  next
    case (Serviced now)
    let ?s = "s\<lparr>nw_now := now\<rparr>"
    have k: "bc_keeps ?s (service_broadcasts E now ?s)" by (rule bc_keeps_service) simp
    have m: "remembered T s k \<Longrightarrow> remembered T (service_broadcasts E now ?s) k" for k
      using remembered_keeps [OF k, of T k] Cons.prems(1) by (auto simp: Serviced remembered_def dest: clock_within_before)
    have le: "instant_add (nw_now s) y \<le> instant_add now y" for y
      using Cons.prems(1) by (simp add: Serviced instant_add_def word_le_nat_alt unat_saturating_add min_def)
    have "T \<le> instant_add now (nib_broadcast_delivery_time (nw_nib s))" by (rule order_trans [OF Cons.prems(3) le])
    then show ?thesis
      using Cons.prems(1,2) k Cons.IH [of "service_broadcasts E now ?s"] m
      by (auto simp: Serviced bc_keeps_def nib_is_end_device_def)
  qed
qed simp

section \<open>Data is delivered only after its security was checked\<close>

lemma unsecure_incoming_accepts:
  assumes "ns_inv aes ks" "unsecure_incoming aes hl level fresh ks buf = (Inr u, ks', buf')"
  shows "\<exists>aux slot v. peek_aux buf hl = Inr aux \<and> ah_source aux = Some (un_sender u) \<and> ah_key_sequence aux = Some (un_key_sequence u)
    \<and> is_fresh (un_sender u) (ah_frame_counter aux) (ns_incoming ks)
    \<and> nk_get (un_key_sequence u) (ns_keys ks) = Some slot
    \<and> unprotect_in_place (aes (nk_key slot)) level (un_sender u) hl buf = (Inr v, buf')
    \<and> un_payload_start u = up_payload_start v \<and> un_payload_end u = up_payload_end v"
proof -
  obtain aux q a where p: "peek_aux buf hl = Inr aux" "ah_key_sequence aux = Some q" "ah_source aux = Some a"
    and f: "ah_frame_counter aux \<noteq> U32_MAX" "is_fresh a (ah_frame_counter aux) (ns_incoming ks)"
    using assms(2) by (auto simp: unsecure_incoming_def split: sum.splits option.splits if_splits)
  obtain c ks1 where c: "cipher_for aes q ks = (c, ks1)" by fastforce
  then obtain E where E: "c = Some E" using assms(2) p f by (auto simp: unsecure_incoming_def split: option.splits)
  with cipher_for_correct(1) [OF assms(1), of q] c obtain slot where slot: "nk_get q (ns_keys ks) = Some slot" "E = aes (nk_key slot)"
    by (cases "nk_get q (ns_keys ks)") auto
  have "\<exists>v. unprotect_in_place E level a hl buf = (Inr v, buf') \<and> un_sender u = a \<and> un_key_sequence u = q
      \<and> un_payload_start u = up_payload_start v \<and> un_payload_end u = up_payload_end v"
    using assms(2) p f c E
    by (auto simp: unsecure_incoming_def Let_def split: sum.splits prod.splits freshness_error.splits)
  with p f slot show ?thesis by auto
qed

lemma consume_outcome:
  "consume E v s = Some (r, t) \<Longrightarrow>
     r = RxNone \<or> r = indication v \<and> fc_frame_type (nh_frame_control (rv_header v)) \<noteq> FtCommand"
  by (auto simp: consume_def split: if_splits)

lemma process_received_outcome:
  "process_received E v a s = Some (r, t) \<Longrightarrow>
     r = RxNone \<or> r = indication v \<and> fc_frame_type (nh_frame_control (rv_header v)) \<noteq> FtCommand"
  by (auto simp: process_received_def route_received_def Let_def split: if_splits prod.splits dest!: consume_outcome)

text \<open>What may be delivered without network security: an APS command from a child that has no network key yet.\<close>

definition unsecured_child_command :: "bytes \<Rightarrow> nat \<Rightarrow> short_address \<Rightarrow> 'g nwk \<Rightarrow> bool" where
  "unsecured_child_command buf n src s \<longleftrightarrow>
     octet_or 0 n buf AND 0x03 = 0x01
     \<and> (case by_short src (nw_neighbors s) of Some e \<Rightarrow> ne_relationship e = UnauthenticatedChild | None \<Rightarrow> False)"

text \<open>What network security vouches for: an installed key, a counter not seen before, and the payload inside the checked frame.\<close>

definition vouched :: "'g nwk_env \<Rightarrow> bytes \<Rightarrow> nat \<Rightarrow> extended_address \<Rightarrow> bytes \<Rightarrow> 'g nwk \<Rightarrow> bool" where
  "vouched E buf n sender payload s \<longleftrightarrow>
     (\<exists>aux slot v buf'. peek_aux buf n = Inr aux \<and> ah_source aux = Some sender
        \<and> is_fresh sender (ah_frame_counter aux) (ns_incoming (nw_security s))
        \<and> (\<exists>q. ah_key_sequence aux = Some q \<and> nk_get q (ns_keys (nw_security s)) = Some slot)
        \<and> unprotect_in_place (env_aes E (nk_key slot)) (nib_security_level (nw_nib s)) sender n buf = (Inr v, buf')
        \<and> payload = (case slice buf' (up_payload_start v) (up_payload_end v) of Some b \<Rightarrow> b | None \<Rightarrow> []))"

lemma mac_data_vouched:
  assumes "nwk_ok E s" "on_mac_data E buf mac lqi rssi s = Some (RxData src dst ext by sec l payload, t)"
    "cfg_security_enabled (nw_config s)" "nib_joined (nw_nib s)" "nib_authenticated (nw_nib s)" "nw_rx_link s = None"
  shows "\<exists>h n. decode_prefix buf = Inr (h, n) \<and> src = nh_src h \<and> dst = nh_dst h \<and>
    (case by of
       Some sender \<Rightarrow> sec \<and> vouched E buf n sender payload s
     | None \<Rightarrow> \<not> sec \<and> unsecured_child_command buf n src s \<and> payload = drop n buf)"
proof -
  obtain h n where d: "decode_prefix buf = Inr (h, n)"
    using assms(2) by (auto simp: on_mac_data_def malformed_def split: sum.splits)
  let ?plain = "\<lparr>rv_buf = buf, rv_header = h, rv_header_len = n, rv_start = n, rv_end = length buf, rv_secured = False,
    rv_secured_by = None, rv_mac_src = mac, rv_lqi = lqi, rv_rssi = rssi\<rparr>"
  have n: "n \<le> length buf" using d by (rule decode_prefix_le)
  show ?thesis
  proof (cases "fc_security (nh_frame_control h)")
    case True
    obtain r sec' buf' where u: "unsecure_incoming (env_aes E) n (nib_security_level (nw_nib s)) (nib_all_fresh (nw_nib s))
        (nw_security s) buf = (r, sec', buf')" by (metis prod_cases3)
    obtain v a z where v: "r = Inr v" and p: "process_received E (?plain\<lparr>rv_buf := buf', rv_start := un_payload_start v,
        rv_end := un_payload_end v, rv_secured := True, rv_secured_by := Some (un_sender v)\<rparr>) a z
      = Some (RxData src dst ext by sec l payload, t)"
      using assms(2-6) True d u by (auto simp: on_mac_data_def Let_def split: if_splits sum.splits)
    from process_received_outcome [OF p] have
      o: "src = nh_src h" "dst = nh_dst h" "by = Some (un_sender v)" sec
        "payload = (case slice buf' (un_payload_start v) (un_payload_end v) of Some b \<Rightarrow> b | None \<Rightarrow> [])"
      by (auto simp: indication_def rv_payload_def Let_def)
    have "vouched E buf n (un_sender v) payload s"
      unfolding vouched_def o(5) using unsecure_incoming_accepts [OF nwk_okD(8) [OF assms(1)] u [unfolded v]] by metis
    with o d show ?thesis by simp
  next
    case False
    then obtain a where p: "process_received E ?plain a s = Some (RxData src dst ext by sec l payload, t)"
      and ok: "unsecured_frame_allowed (fc_frame_type (nh_frame_control h) = FtCommand)
        (nh_dst h = nib_network_address (nw_nib s) \<or> is_broadcast (nh_dst h)) (nh_src h) buf n s"
      using assms(2-6) d by (auto simp: on_mac_data_def Let_def split: if_splits)
    from process_received_outcome [OF p] n have
      o: "src = nh_src h" "dst = nh_dst h" "by = None" "\<not> sec" "payload = drop n buf"
        "fc_frame_type (nh_frame_control h) \<noteq> FtCommand"
      by (auto simp: indication_def rv_payload_def slice_def Let_def)
    with ok assms(4,5) have "unsecured_child_command buf n src s"
      by (simp add: unsecured_frame_allowed_def unsecured_child_command_def Let_def)
    with o d show ?thesis by simp
  qed
qed

section \<open>A relayed frame has one hop less to go\<close>

lemma read_u8_at:
  "r_u8 r = (Inr x, r') \<Longrightarrow> r_pos r < length (r_buf r) \<and> x = r_buf r ! r_pos r \<and> r' = r\<lparr>r_pos := r_pos r + 1\<rparr>"
  by (auto simp: r_u8_def step_map_def r_array_def step_try_def step_ok_def r_bytes_def slice_def split: if_splits prod.splits)

lemma read_u16_at: "r_u16_le r = (Inr x, r') \<Longrightarrow> r' = r\<lparr>r_pos := r_pos r + 2\<rparr>"
  by (auto simp: r_u16_le_def step_map_def r_array_def step_try_def step_ok_def r_bytes_def slice_def split: if_splits prod.splits)

lemma step_try_value: "step_try m f s = (Inr y, u) \<longleftrightarrow> (\<exists>x t. m s = (Inr x, t) \<and> f x t = (Inr y, u))"
  by (auto simp: step_try_def split: prod.split sum.split)

lemma step_ok_value: "step_ok x s = (Inr y, u) \<longleftrightarrow> y = x \<and> u = s"
  by (auto simp: step_ok_def)

lemma decode_prefix_radius:
  assumes "decode_prefix b = Inr (h, n)"
  shows "6 < length b" "6 < n" "nh_radius h = b ! 6"
proof -
  obtain r where r: "nh_decode (r_new b) = (Inr h, r)" "n = r_pos r"
    using assms by (auto simp: decode_prefix_def split: prod.splits sum.splits)
  have safe: "cursor_safe (if c then step_map Some r_u64_le else step_ok None)"
    "cursor_safe (if c then step_map Some sr_decode else step_ok None)" for c
    by (auto intro!: safe_intros)
  have mono: "r_pos u \<le> r_pos v \<and> r_ok v" if "m u = (x, v)" "cursor_safe m" "r_ok u" for m :: "'a decode" and x u v
    using that by (force simp: cursor_safe_def)
  show "6 < length b" "6 < n" "nh_radius h = b ! 6"
    using r unfolding nh_decode_def step_try_value step_ok_value
    by (auto simp: r_new_def r_ok_def eval_nat_numeral dest!: read_u16_at read_u8_at mono [OF _ safe(1)] mono [OF _ safe(2)])
qed

definition adds :: "(pending_tx \<Rightarrow> bool) \<Rightarrow> 'g nwk \<Rightarrow> 'g nwk \<Rightarrow> bool" where
  "adds P s t \<longleftrightarrow> (\<forall>p \<in> set (nw_pending t). p \<in> set (nw_pending s) \<or> P p)"

lemma adds_same: "nw_pending t = nw_pending s \<Longrightarrow> adds P s t"
  by (simp add: adds_def)

lemma adds_trans: "adds P s t \<Longrightarrow> adds P t u \<Longrightarrow> adds P s u"
  by (auto simp: adds_def)

lemma queues_adds: "queues Q s t \<Longrightarrow> (\<And>p. Q p \<Longrightarrow> P p) \<Longrightarrow> adds P s t"
  by (auto simp: adds_def queues_def)

definition relayed_as :: "short_address \<Rightarrow> u8 \<Rightarrow> pending_tx \<Rightarrow> bool" where
  "relayed_as src radius p \<longleftrightarrow> pt_kind p = TkData \<longrightarrow> pt_relayed_from p = Some src \<and> pt_frame p ! 6 = radius"

lemma transmit_adds: "relayed_as a x p \<Longrightarrow> adds (relayed_as a x) s (snd (transmit_pending E p s))"
  by (rule queues_adds [OF transmit_queues]) (auto simp: relayed_as_def requeued_def)

lemma adds_mono: "adds P s t \<Longrightarrow> (\<And>p. P p \<Longrightarrow> Q p) \<Longrightarrow> adds Q s t"
  by (auto simp: adds_def)

abbreviation (input) no_data :: "pending_tx \<Rightarrow> bool" where
  "no_data p \<equiv> pt_kind p \<noteq> TkData"

lemma command_adds: "adds no_data s (snd (send_command_unicast E h cmd m y z TkCommand s))"
proof -
  obtain i u where i: "alloc_tx_id s = (i, u)" by fastforce
  have "adds no_data u (snd (transmit_pending E (pending_new i f n d m r b z TkCommand w) u))" for f n d r b w
    by (rule queues_adds [OF transmit_queues]) (simp add: requeued_def pending_new_def)
  then show ?thesis
    using pending_simps(5) [of s] i by (simp add: send_command_unicast_def adds_def Let_def split: sum.split prod.split)
qed

lemma route_record_adds: "adds no_data s (send_route_record E c b s)"
proof -
  have "adds no_data s (snd (send_command_unicast E h cmd m y z TkCommand (snd (next_sequence s))))" for h cmd m y z
    using command_adds [of "snd (next_sequence s)"] by (simp add: adds_def)
  then show ?thesis by (auto simp: send_route_record_def Let_def split_def adds_def split: option.split sum.split)
qed

lemma status_adds: "adds no_data s (send_network_status E d b c s)"
  by (rule queues_adds [OF network_status_queues]) simp

lemma no_data_relayed: "adds no_data s t \<Longrightarrow> adds (relayed_as a x) s t"
  by (auto simp: adds_def relayed_as_def)

lemma await_adds: "relayed_as a x p \<Longrightarrow> adds (relayed_as a x) s (snd (await_route E p s))"
  using track_queues [of "relayed_as a x" "p\<lparr>pt_awaiting_route := True\<rparr>" s E]
  by (auto simp: await_route_def step_try_def queues_def adds_def relayed_as_def split: prod.split sum.split)

lemma source_routed_adds:
  assumes "relayed_as a x p" "6 < length (pt_frame p)"
  shows "adds (relayed_as a x) s (snd (relay_source_routed E p i s))"
proof -
  have o: "relayed_as a x (p\<lparr>pt_next_hop := hop, pt_frame := set_octet k f (pt_frame p)\<rparr>)"
    "relayed_as a x (p\<lparr>pt_frame := set_octet k f (pt_frame p)\<rparr>)" if "k \<noteq> 6" for hop k f
    using assms that by (simp_all add: relayed_as_def set_octet_def)
  have h: "relayed_as a x (q\<lparr>pt_next_hop := hop\<rparr>) = relayed_as a x q" "relayed_as a x (q\<lparr>pt_indirect := b\<rparr>) = relayed_as a x q"
    for q hop b by (simp_all add: relayed_as_def)
  have t: "adds (relayed_as a x) s (snd (transmit_pending E q (s\<lparr>nw_routes := rs\<rparr>)))" if "relayed_as a x q" for q rs
    using transmit_adds [OF that, of "s\<lparr>nw_routes := rs\<rparr>" E] by (simp add: adds_def)
  show ?thesis
    using assms
    by (auto simp: relay_source_routed_def Let_def h adds_same split: sum.split option.split prod.split intro!: t o)
qed

lemma relay_unicast_adds:
  assumes "6 < length plain"
  shows "adds (relayed_as (nh_src h) (saturating_sub (plain ! 6) 1)) s (snd (relay_unicast E plain h b s))" (is "adds ?P s _")
proof -
  obtain i s1 where i: "alloc_tx_id s = (i, s1)" by fastforce
  define s2 where "s2 = upd_stats (\<lambda>t. t\<lparr>st_relayed := saturating_add (st_relayed t) 1\<rparr>) s1"
  have s2: "nw_pending s2 = nw_pending s" using pending_simps(5) [of s] i by (simp add: s2_def)
  define e where "e = (pending_new i (set_octet 1 (\<lambda>b. b AND NOT 0x20) (set_octet 6 (\<lambda>r. saturating_sub r 1) plain))
      (case decode_prefix plain of Inr (_, n) \<Rightarrow> n | Inl _ \<Rightarrow> 0) (nh_dst h) (nh_dst h) UNICAST_RETRIES b False TkData (nw_now s1))
    \<lparr>pt_relayed_from := Some (nh_src h), pt_source_route := nh_source_route h \<noteq> None\<rparr>"
  have e: "?P e" "6 < length (pt_frame e)"
    using assms by (simp_all add: e_def relayed_as_def pending_new_def set_octet_def)
  have base: "adds ?P t u \<Longrightarrow> nw_pending t = nw_pending s2 \<Longrightarrow> adds ?P s u" for t u using s2 by (simp add: adds_def)
  obtain d s3 where d: "route_unicast (pt_dst e) (fc_discover_route (nh_frame_control h) = Enable \<and> from_child_end_device (nh_src h) s) s2
      = (d, s3)" by fastforce
  have s3: "nw_pending s3 = nw_pending s2" using route_unicast_pending(1) d by (metis snd_conv)
  have f: "adds ?P s (snd (transmit_pending E (via_hop hop e s3)
      (if c then send_route_record E x y s3 else s3)))" for hop c x y
    by (rule base [OF adds_trans [OF _ transmit_adds] s3]) (use e in \<open>auto simp: relayed_as_def adds_same intro: no_data_relayed [OF route_record_adds]\<close>)
  have "adds ?P s (snd (relay_source_routed E e k s2))" for k by (rule base [OF source_routed_adds [OF e]]) simp
  moreover have "adds ?P s (snd (await_route E e s3))" by (rule base [OF await_adds [OF e(1)] s3])
  moreover have "adds ?P s (send_network_status E x y z (upd_stats g s3))" for x y z g
    by (rule base [OF no_data_relayed [OF status_adds]]) (simp add: s3)
  ultimately show ?thesis
    unfolding relay_unicast_def i Let_def prod.case s2_def [symmetric] e_def [symmetric] d
    using f [where c = True, simplified] f [where c = False, simplified] s2
    by (simp add: adds_same split: option.split route_decision.split)
qed

lemma next_hop_pending [simp]: "nw_pending (snd (next_hop_for d s)) = nw_pending s"
  by (auto simp: next_hop_for_def Let_def split: prod.split route_decision.split dest!: arg_cong [where f = "\<lambda>x. nw_pending (snd x)"])

lemma relay_command_adds:
  "adds no_data s (relay_route_record E buf i j b s)" "adds no_data s (relay_network_status E buf i j b s)"
proof -
  have c: "adds no_data s (case next_hop_for d t of (None, u) \<Rightarrow> u
      | (Some hop, u) \<Rightarrow> snd (send_command_unicast E h cmd hop y z TkCommand u))"
    if "nw_pending t = nw_pending s" for h cmd y z d t
  proof -
    obtain r u where r: "next_hop_for d t = (r, u)" by fastforce
    then have "nw_pending u = nw_pending s" using that next_hop_pending [of d t] by simp
    then show ?thesis using command_adds [of u E h cmd _ y z] by (cases r) (simp_all add: r adds_def)
  qed
  show "adds no_data s (relay_route_record E buf i j b s)"
    unfolding relay_route_record_def by (simp add: c adds_same Let_def split: sum.split prod.split nwk_command.split)
  show "adds no_data s (relay_network_status E buf i j b s)"
    unfolding relay_network_status_def by (simp add: c adds_same Let_def split: sum.split prod.split nwk_command.split)
qed

lemma relay_received_adds:
  assumes "decode_prefix (rv_buf v) = Inr (rv_header v, rv_header_len v)"
  shows "adds (\<lambda>p. relayed_as (nh_src (rv_header v)) (nh_radius (rv_header v) - 1) p \<and> (pt_kind p = TkData \<longrightarrow> 1 < nh_radius (rv_header v)))
    s (relay_received E v s)"
proof -
  let ?h = "rv_header v"
  note d = decode_prefix_radius [OF assms] decode_prefix_le [OF assms]
  define P where "P = (\<lambda>p. relayed_as (nh_src ?h) (nh_radius ?h - 1) p \<and> (pt_kind p = TkData \<longrightarrow> 1 < nh_radius ?h))"
  have c: "adds P s (relay_route_record E buf i j b s)" "adds P s (relay_network_status E buf i j b s)" for buf i j b
    by (rule adds_mono [OF relay_command_adds(1)], simp add: P_def relayed_as_def)
       (rule adds_mono [OF relay_command_adds(2)], simp add: P_def relayed_as_def)
  have p: "6 < length p \<and> p ! 6 = nh_radius ?h" if "relay_plaintext (rv_buf v) (rv_header_len v) i j = Some p" for i j p
    using that d by (auto simp: relay_plaintext_def slice_def nth_append Let_def split: if_splits)
  have u: "adds P s (snd (relay_unicast E (set_octet 1 f p) (g\<lparr>nh_dst := y, nh_src := nh_src ?h,
      nh_radius := r, nh_sequence := q, nh_dst_ieee := m, nh_src_ieee := o'\<rparr>) b s))"
    if "relay_plaintext (rv_buf v) (rv_header_len v) i j = Some p" "1 < nh_radius ?h" for f p g y r q m o' b i j
  proof -
    have "saturating_sub (nh_radius ?h) 1 = nh_radius ?h - 1" using that(2) by (simp add: saturating_sub_def word_le_nat_alt word_less_nat_alt)
    then have "adds (relayed_as (nh_src ?h) (nh_radius ?h - 1)) s (snd (relay_unicast E (set_octet 1 f p) (g\<lparr>nh_dst := y,
        nh_src := nh_src ?h, nh_radius := r, nh_sequence := q, nh_dst_ieee := m, nh_src_ieee := o'\<rparr>) b s))"
      using relay_unicast_adds [of "set_octet 1 f p" "g\<lparr>nh_dst := y, nh_src := nh_src ?h,
          nh_radius := r, nh_sequence := q, nh_dst_ieee := m, nh_src_ieee := o'\<rparr>" s E b] p [OF that(1)]
      by (simp add: set_octet_def)
    then show ?thesis by (rule adds_mono) (simp add: P_def that(2))
  qed
  show ?thesis
    unfolding relay_received_def Let_def P_def [symmetric]
    by (simp add: adds_same c u not_le del: One_nat_def split: nwk_command_id.split option.split sum.split prod.split)
qed

end
