(* ===== verification/NwkProperties.thy ===== *)
theory NwkProperties
  imports NwkDelivery
begin

text \<open>
  Properties of the network layer as a whole: every reached state is well formed, the timer loop returns, what is
  delivered and relayed, the order of the parent candidates, and the places where the code loses a route, a frame or a
  beacon appendix.
\<close>

section \<open>A device to evaluate the model on\<close>

definition example_env :: "unit nwk_env" where
  "example_env = \<lparr>env_aes = (\<lambda>k b. map2 (XOR) k b), env_below = (\<lambda>n g. (0, g)), env_u8 = (\<lambda>g. (0, g)),
     env_u16 = (\<lambda>g. (0x1234, g)), env_u64 = (\<lambda>g. (7, g)), cap_neighbors = 16, cap_routes = 4, cap_address_map = 8,
     cap_route_discoveries = 1, cap_broadcasts = 4, cap_discovery = 4, cap_joining_list = 4, cap_interfaces = 1,
     cap_actions = 16, cap_events = 16, cap_pending_tx = 8, cap_broadcast_buffers = 4, cap_pending_rreq = 4\<rparr>"

definition example_config :: nwk_config where
  "example_config = \<lparr>cfg_security_enabled = True, cfg_passive_ack = True, cfg_concentrator = False,
     cfg_concentrator_discovery_time_secs = 0, cfg_concentrator_radius = 0, cfg_hub_connectivity = False,
     cfg_keepalive_methods = 0, cfg_r23_beacon_appendix = False, cfg_power_control = False, cfg_optimal_rssi_dbm = 0,
     cfg_end_device_power_delta_rate_secs = 0, cfg_enhanced_beacon_requests = False\<rparr>"

definition example_nib :: nib where
  "example_nib = (nib_new Router 9)\<lparr>nib_network_address := 0x1234, nib_pan_id := 0x1A62, nib_extended_pan_id := 5,
     nib_joined := True, nib_authenticated := True, nib_router_started := True\<rparr>"

definition example_state :: "unit nwk" where
  "example_state = nwk_new example_env example_nib example_config ()"

lemmas example_defs = example_state_def example_env_def example_nib_def example_config_def nwk_new_def nib_new_def

lemma example_ok: "nwk_ok example_env example_state"
  unfolding example_state_def by (rule nwk_ok_new)

section \<open>Reached states\<close>


definition example_open :: "unit nwk" where
  "example_open = snd (permit_joining example_env 60 example_state)"


section \<open>The timer loop\<close>

text \<open>
  C7: The timer loop returns. At any instant at least two milliseconds before the end of the clock, \<^verbatim>\<open>poll_timers\<close> comes
  back with a state, whatever is queued, with one exception: when the link status period is due, it makes at least one
  router stale, and more than eight of the neighboring routers are stale then. The code collects them into a vector of
  eight, and collecting more panics.
\<close>

theorem poll_timers_returns:
  assumes "now \<le> 0xFFFFFFFFFFFFFFFD"
  shows "poll_timers E now s = None \<longleftrightarrow> nw_now s \<le> now \<and> link_status_panics now s"
proof (cases "now < nw_now s")
  case False
  define t where "t = s\<lparr>nw_now := now\<rparr>"
  define u where "u = (case nw_permit_until t of
      Some x \<Rightarrow> if has_reached now x then push_event E (EvPermitJoining False) (push_action E (MacSetPermit False) (t\<lparr>nw_permit_until := None\<rparr>)) else t
    | None \<Rightarrow> t)"
  have u: "nw_now u = now" "link_status_panics now u = link_status_panics now s"
    by (simp_all add: u_def t_def link_status_panics_def stale_hops_def push_event_def push_action_def split: option.split)
  have r: "poll_timers E now s = Option.bind (service_link_status E now u) (\<lambda>s2.
      Option.bind (service_pending E now (service_join E now (service_keepalive E now (service_ages E now s2)))) (\<lambda>s3.
      Option.bind (service_route_discovery E now (service_route_requests E now s3)) (\<lambda>s4.
      Some (service_power_delta E now (service_pan_id_update E now (service_broadcasts E now s4))))))"
    unfolding poll_timers_def Let_def t_def u_def by (simp add: False)
  show ?thesis
  proof (cases "service_link_status E now u")
    case None
    then show ?thesis using service_link_status_returns [of E now u] u False by (simp add: r not_less)
  next
    case (Some s2)
    then have "nw_now s2 = now" using service_link_status_now u(1) by blast
    then obtain s3 where "service_pending E now (service_join E now (service_keepalive E now (service_ages E now s2))) = Some s3"
      using service_pending_returns [OF _ assms, of "service_join E now (service_keepalive E now (service_ages E now s2))" E] by auto
    moreover obtain s4 where "service_route_discovery E now (service_route_requests E now s3) = Some s4"
      using service_route_discovery_returns by blast
    ultimately show ?thesis
      using Some service_link_status_returns [of E now u] u by (simp add: r)
  qed
qed (auto simp: poll_timers_def)

definition example_router :: "nat \<Rightarrow> neighbor_entry" where
  "example_router i = (ne_new (of_nat (100 + i)) (of_nat (100 + i)) Router True Sibling 200)\<lparr>ne_outgoing_cost := 1, ne_age := 3\<rparr>"

definition example_stale :: "nat \<Rightarrow> unit nwk" where
  "example_stale n = example_state\<lparr>nw_link_status_due := Some 15000,
     nw_neighbors := nt_new\<lparr>nt_entries := map example_router [0..<n]\<rparr>\<rparr>"

lemma example_stale_panics: "link_status_panics 15000 (example_stale n) \<longleftrightarrow> 8 < n"
proof -
  have t: "tick_router 3 (example_router i) = ((example_router i)\<lparr>ne_age := 4, ne_router_age := 1, ne_outgoing_cost := 0\<rparr>, True)" for i
    by (simp add: tick_router_def example_router_def ne_new_def ne_is_router_def ne_is_end_device_def saturating_add_def saturating_sub_def Let_def)
  have r: "ne_is_router ((example_router i)\<lparr>ne_age := 4, ne_router_age := 1, ne_outgoing_cost := 0\<rparr>)" for i
    by (simp add: example_router_def ne_new_def ne_is_router_def ne_is_end_device_def)
  show ?thesis
    by (auto simp: link_status_panics_def link_status_tick_def example_stale_def example_defs stale_hops_def routers_def
        has_reached_def filter_map o_def t r Let_def)
qed

theorem poll_timers_returns_witness:
  "poll_timers example_env 15000 (example_stale 8) \<noteq> None \<and> poll_timers example_env 15000 (example_stale 9) = None"
proof -
  have "nw_now (example_stale n) \<le> 15000" for n by (simp add: example_stale_def example_defs)
  then show ?thesis
    using poll_timers_returns [of 15000 example_env "example_stale 8"] poll_timers_returns [of 15000 example_env "example_stale 9"]
    by (simp add: example_stale_panics)
qed

text \<open>
  C16: Releasing the frames that wait for a route need not return. When one secured frame waits for a destination whose
  route has become active, and the outgoing frame counter is at the end of its persisted reservation, \<^verbatim>\<open>release_waiting\<close>
  takes the frame out, fails to secure it, puts it back still marked as waiting, and finds it again without end.
\<close>

theorem release_waiting_never_returns:
  assumes "waits_on_counter E d s"
  shows "release_waiting E d s = None"
proof (cases "release_waiting E d s")
  case (Some t)
  then have False using release_from_spent [of E d 0 s t] assms by (simp add: release_waiting_def)
  then show ?thesis ..
qed

definition example_waiting :: "unit nwk" where
  "example_waiting = example_state\<lparr>
     nw_security := install_active_key 0 (replicate 16 3) (nw_security example_state),
     nw_neighbors := nt_new\<lparr>nt_entries := [example_router 0]\<rparr>, nw_routes := [re_new 0x7777 100 Active 3],
     nw_pending := [(pending_new 1 (replicate 20 0) 8 0x7777 0x7777 3 True False TkData 0)\<lparr>pt_awaiting_route := True\<rparr>]\<rparr>"

theorem release_waiting_never_returns_witness: "release_waiting example_env 0x7777 example_waiting = None"
proof -
  have "waits_on_counter example_env 0x7777 example_waiting"
    by (simp add: waits_on_counter_def example_waiting_def example_defs counter_spent_def waits_for_def pending_new_def
        by_short_def rt_get_def table_get_def re_new_def nt_new_def example_router_def ne_new_def ne_is_end_device_def
        nib_is_end_device_def install_active_key_def nk_install_active_def nk_install_def ns_new_def network_keys_new_def
        nk_push_def vec_push_def oc_defs U32_MAX_def MAX_NPDU_def mic_len_def Let_def)
  then show ?thesis by (rule release_waiting_never_returns)
qed

section \<open>What is delivered\<close>

text \<open>
  C8: A router delivers a broadcast at most once. Along any sequence of broadcasts heard, broadcasts of its own and
  services of the broadcast table within one broadcast delivery time, no pair of source and sequence number is
  delivered twice, however many copies arrive, whatever else fills the table, and whether or not the device changes its
  own address on the way.
\<close>

theorem broadcast_delivered_once:
  assumes "\<not> nib_is_end_device (nw_nib s)"
    and "clock_within (nw_now s) (instant_add (nw_now s) (nib_broadcast_delivery_time (nw_nib s))) es"
  shows "distinct (bc_deliveries E es s)"
  using deliveries_distinct [OF assms(2,1)] by simp

theorem broadcast_delivered_once_witness:
  "(let es = [Heard 5 1 0xFFFF 1 5 [] 0 0 0 True, Serviced 100, Heard 5 1 0xFFFF 1 6 [] 0 0 0 True]
    in (5, 1) \<in> set (bc_deliveries example_env es example_state) \<and> distinct (bc_deliveries example_env es example_state))"
proof -
  let ?es = "[Heard 5 1 0xFFFF 1 5 [] 0 0 0 True, Serviced 100, Heard 5 1 0xFFFF 1 6 [] 0 0 0 True]"
  have "distinct (bc_deliveries example_env ?es example_state)"
    by (rule broadcast_delivered_once) (simp_all add: example_defs nib_is_end_device_def instant_add_def saturating_add_def)
  moreover have "fst (on_broadcast_received example_env 5 1 0xFFFF 1 5 [] 0 0 0 True example_state)"
    by (simp add: on_broadcast_received_def in_broadcast_group_def short_kind_def example_defs btt_get_def table_get_def
        nib_is_end_device_def btt_insert_def Let_def)
  then have "(5, 1) \<in> set (bc_deliveries example_env ?es example_state)" by (simp add: split_def)
  ultimately show ?thesis unfolding Let_def by blast
qed

text \<open>
  C5: A device on a secured network delivers data only when its security was checked. When \<^verbatim>\<open>on_mac_data\<close> hands data to
  the layer above, the device is joined and authenticated, and the frame came in over the radio, then either the frame
  carries a counter the device has not seen from its sender, passes the integrity check under the installed network key
  that it names, and what is delivered is the decrypted payload; or it is an unsecured APS command from a child that is
  still waiting for the network key.
\<close>

theorem delivered_data_is_authentic:
  assumes "nwk_ok E s" "on_mac_data E buf mac lqi rssi s = Some (RxData src dst ext by sec l payload, t)"
    and "cfg_security_enabled (nw_config s)" "nib_joined (nw_nib s)" "nib_authenticated (nw_nib s)" "nw_rx_link s = None"
  shows "\<exists>h n. decode_prefix buf = Inr (h, n) \<and> src = nh_src h \<and> dst = nh_dst h \<and>
    (case by of
       Some sender \<Rightarrow> sec \<and> vouched E buf n sender payload s
     | None \<Rightarrow> \<not> sec \<and> unsecured_child_command buf n src s \<and> payload = drop n buf)"
  by (rule mac_data_vouched [OF assms])

definition example_child :: "unit nwk" where
  "example_child = example_state\<lparr>nw_neighbors := nt_new\<lparr>nt_entries :=
     [ne_new 77 0x5678 EndDevice True UnauthenticatedChild 200]\<rparr>\<rparr>"

lemma example_child_frame: "decode_prefix [0x08, 0, 0x34, 0x12, 0x78, 0x56, 1, 7, 1] =
    Inr (\<lparr>nh_frame_control = 8, nh_dst = 0x1234, nh_src = 0x5678, nh_radius = 1, nh_sequence = 7, nh_dst_ieee = None,
      nh_src_ieee = None, nh_source_route = None\<rparr>, 8)"
  by code_simp

lemma example_child_receives:
  "\<exists>t. on_mac_data example_env [0x08, 0, 0x34, 0x12, 0x78, 0x56, 1, 7, 1] 0x5678 200 0 example_child
     = Some (RxData 0x5678 0x1234 None None False 200 [1], t)"
proof -
  define v where "v = \<lparr>rv_buf = [0x08, 0, 0x34, 0x12, 0x78, 0x56, 1, 7, 1], rv_header = \<lparr>nh_frame_control = 8, nh_dst = 0x1234,
      nh_src = 0x5678, nh_radius = 1, nh_sequence = 7, nh_dst_ieee = None, nh_src_ieee = None, nh_source_route = None\<rparr>,
    rv_header_len = 8, rv_start = 8, rv_end = 9, rv_secured = False, rv_secured_by = None, rv_mac_src = 0x5678, rv_lqi = 200,
    rv_rssi = 0\<rparr>"
  have f: "fc_frame_type 8 = FtData" "fc_protocol_version 8 = PROTOCOL_VERSION" "\<not> fc_security 8" "\<not> fc_end_device_initiator 8"
    "\<not> is_broadcast 0x1234"
    by code_simp+
  have g: "nib_network_address (nw_nib example_child) = 0x1234" "nib_joined (nw_nib example_child)"
    "nib_authenticated (nw_nib example_child)" "nw_rx_link example_child = None" "cfg_security_enabled (nw_config example_child)"
    "by_short 0x5678 (nw_neighbors example_child) = Some (ne_new 77 0x5678 EndDevice True UnauthenticatedChild 200)"
    by (simp_all add: example_child_def example_defs by_short_def table_get_def nt_new_def ne_new_def)
  have "unsecured_frame_allowed False True 0x5678 [0x08, 0, 0x34, 0x12, 0x78, 0x56, 1, 7, 1] 8 example_child"
    by (simp add: unsecured_frame_allowed_def g octet_or_def ne_new_def Let_def)
  then have "on_mac_data example_env [0x08, 0, 0x34, 0x12, 0x78, 0x56, 1, 7, 1] 0x5678 200 0 example_child
      = process_received example_env v 0x1234 example_child"
    by (simp add: on_mac_data_def example_child_frame f g Let_def v_def, simp add: eval_nat_numeral)
  moreover have "\<exists>t. process_received example_env v 0x1234 example_child = Some (indication v, t)"
    by (simp add: process_received_def route_received_def consume_def f Let_def v_def)
  moreover have "indication v = RxData 0x5678 0x1234 None None False 200 [1]"
    by (simp add: v_def indication_def rv_payload_def slice_def Let_def)
  ultimately show ?thesis by simp
qed

theorem delivered_data_is_authentic_witness:
  "\<exists>h n. decode_prefix [0x08, 0, 0x34, 0x12, 0x78, 0x56, 1, 7, 1] = Inr (h, n)
     \<and> unsecured_child_command [0x08, 0, 0x34, 0x12, 0x78, 0x56, 1, 7, 1] n 0x5678 example_child"
proof -
  obtain t where t: "on_mac_data example_env [0x08, 0, 0x34, 0x12, 0x78, 0x56, 1, 7, 1] 0x5678 200 0 example_child
     = Some (RxData 0x5678 0x1234 None None False 200 [1], t)" using example_child_receives by blast
  have "nwk_ok example_env example_child"
    unfolding example_child_def
    by (rule nwk_ok_field(1) [OF example_ok, THEN iffD2]) (simp add: nt_ok_def table_ok_def nt_new_def example_env_def)
  then show ?thesis
    using delivered_data_is_authentic [OF _ t] by (auto simp: example_child_def example_defs)
qed

section \<open>What is relayed\<close>


definition example_relayed :: received where
  "example_relayed = \<lparr>rv_buf = [0x08, 0, 100, 0, 0x78, 0x56, 30, 7, 1], rv_header = \<lparr>nh_frame_control = 8, nh_dst = 100,
      nh_src = 0x5678, nh_radius = 30, nh_sequence = 7, nh_dst_ieee = None, nh_src_ieee = None, nh_source_route = None\<rparr>,
    rv_header_len = 8, rv_start = 8, rv_end = 9, rv_secured = False, rv_secured_by = None, rv_mac_src = 0x5678, rv_lqi = 200,
    rv_rssi = 0\<rparr>"

definition example_relay :: "unit nwk" where
  "example_relay = example_state\<lparr>nw_neighbors := nt_new\<lparr>nt_entries := [example_router 0]\<rparr>\<rparr>"

lemma example_relay_queues:
  "\<exists>p. nw_pending (relay_received example_env example_relayed example_relay) = [p] \<and> pt_kind p = TkData"
proof -
  let ?h = "rv_header example_relayed"
  have d: "decode_prefix [0x08, 0, 100, 0, 0x78, 0x56, 30, 7, 1] = Inr (?h, 8)" by code_simp
  have f: "fc_frame_type 8 = FtData" "(0 :: u8) AND NOT 2 = 0" "(0 :: u8) AND NOT 0x20 = 0" "\<not> (30 :: u8) \<le> 1"
    by code_simp+
  have n: "by_short 100 (nw_neighbors example_relay) = Some (example_router 0)" "nw_routes example_relay = []"
    "nw_rx_link example_relay = None" "is_router_or_coordinator (nw_nib example_relay)" "nib_router_started (nw_nib example_relay)"
    "\<not> nib_is_end_device (nw_nib example_relay)" "nw_pending example_relay = []" "cap_pending_tx example_env = 8"
    by (simp_all add: example_relay_def example_defs by_short_def table_get_def nt_new_def example_router_def ne_new_def
        is_router_or_coordinator_def is_routing_capable_def nib_is_end_device_def)
  have r: "ne_is_router (example_router 0)" "ne_outgoing_cost (example_router 0) = 1" "ne_transmit_failure (example_router 0) = 0"
    "ne_link (example_router 0) = None" "\<not> is_child (ne_relationship (example_router 0))"
    by (simp_all add: example_router_def ne_new_def ne_is_router_def ne_is_end_device_def is_child_def)
  have v: "rv_buf example_relayed = [0x08, 0, 100, 0, 0x78, 0x56, 30, 7, 1]" "rv_header_len example_relayed = 8"
    "rv_start example_relayed = 8" "rv_end example_relayed = 9" "nh_frame_control ?h = 8" "nh_radius ?h = 30"
    "nh_source_route ?h = None" "nh_dst ?h = 100" "\<not> rv_secured example_relayed"
    by (simp_all add: example_relayed_def)
  have p: "relay_plaintext [0x08, 0, 100, 0, 0x78, 0x56, 30, 7, 1] 8 8 9 = Some [0x08, 0, 100, 0, 0x78, 0x56, 30, 7, 1]"
    by (simp add: relay_plaintext_def slice_def MAX_NPDU_def)
  have o: "set_octet 1 (\<lambda>b. b AND NOT 2) [0x08, 0, 100, 0, 0x78, 0x56, 30, 7, 1] = [0x08, 0, 100, 0, 0x78, 0x56, 30, 7, 1 :: u8]"
    by (simp add: set_octet_def f)
  have "relay_received example_env example_relayed example_relay
      = snd (relay_unicast example_env [0x08, 0, 100, 0, 0x78, 0x56, 30, 7, 1] ?h False example_relay)"
    unfolding relay_received_def Let_def v p option.case o d
    by (simp add: n f v) (simp add: example_relayed_def)
  then show ?thesis
    by (simp add: relay_unicast_def v d n r f route_unicast_def wants_route_record_def rt_get_def table_get_def via_hop_def
        sleepy_child_def transmit_pending_def trusted_link_to_def finalize_frame_def track_pending_def vec_push_def
        pending_new_def alloc_tx_id_def alloc_mac_handle_def upd_stats_def upd_nib_def push_action_def step_try_def MAX_NPDU_def
        set_octet_def Let_def)
qed


text \<open>
  C18: A command frame that arrives with a source route is never passed on. \<^verbatim>\<open>relay_route_record\<close> and
  \<^verbatim>\<open>relay_network_status\<close> clear the source route of the header they re-encode but not its frame control flag, which the
  encoder refuses, and both callers drop the error: nothing is queued and nothing is handed to the MAC.
\<close>

theorem source_routed_commands_not_relayed:
  assumes "decode_prefix buf = Inr (h, n)" "fc_source_route (nh_frame_control h)"
  shows "nw_pending (relay_route_record E buf i j b s) = nw_pending s \<and> nw_actions (relay_route_record E buf i j b s) = nw_actions s
    \<and> nw_pending (relay_network_status E buf i j b s) = nw_pending s \<and> nw_actions (relay_network_status E buf i j b s) = nw_actions s"
proof -
  have b: "\<exists>e. build_command (h\<lparr>nh_radius := r, nh_source_route := None\<rparr>) cmd = Inl e" for r cmd
    using assms(2) by (simp add: build_command_def build_npdu_def nh_encode_def step_err_def Let_def split: prod.split sum.split)
  have c: "snd (send_command_unicast E (h\<lparr>nh_radius := r, nh_source_route := None\<rparr>) cmd m y z k t) = t" for r cmd m y z k t
    using b [of r cmd] by (auto simp: send_command_unicast_def)
  have n: "nw_pending t = nw_pending u \<and> nw_actions t = nw_actions u" if "next_hop_for d u = (x, t)" for d u x t
    using that by (auto simp: next_hop_for_def route_unicast_def Let_def split: prod.splits route_decision.splits option.splits if_splits)
  show ?thesis
    by (auto simp: relay_route_record_def relay_network_status_def assms(1) c Let_def
        split: sum.split prod.split nwk_command.split option.split dest!: n)
qed

definition example_routed :: bytes where
  "example_routed = [0x09, 0x04, 0, 0, 0x78, 0x56, 30, 7, 1, 0, 0x34, 0x12, 0x05, 0]"

theorem source_routed_commands_not_relayed_witness:
  "nw_pending (relay_route_record example_env example_routed 12 14 False example_relay) = []"
proof -
  obtain h n where d: "decode_prefix example_routed = Inr (h, n)" "fc_source_route (nh_frame_control h)"
  proof -
    have "case decode_prefix example_routed of Inr (h, n) \<Rightarrow> fc_source_route (nh_frame_control h) | Inl _ \<Rightarrow> False" by code_simp
    then show thesis using that by (auto split: sum.splits)
  qed
  from source_routed_commands_not_relayed [OF this, of example_env 12 14 False example_relay] show ?thesis
    by (simp add: example_relay_def example_defs)
qed

section \<open>Route discovery and joining\<close>


definition example_discovering :: "unit nwk" where
  "example_discovering = example_state\<lparr>nw_rdt := [\<lparr>de_request_id = 200, de_source = 0x4321, de_sender = 0x4321, de_forward_cost = 0,
     de_residual_cost = 0xFF, de_expires = 500, de_destination = 0x2222, de_local = False, de_confirmed = False\<rparr>]\<rparr>"



lemma sink_set: "set (sink r x ys) = insert x (set ys)"
  by (induction ys) auto

lemma sink_sorted:
  assumes "sorted_wrt (\<lambda>a b. r a < r b \<or> r a = r b \<and> b < a) ys" "\<forall>y \<in> set ys. y < x"
  shows "sorted_wrt (\<lambda>a b. r a < r b \<or> r a = r b \<and> b < (a :: nat)) (sink r x ys)"
  using assms
proof (induction ys)
  case (Cons y ys)
  then show ?case by (cases "r y < r x") (auto simp: sink_set)
qed simp

lemma sink_fold:
  assumes "sorted is" "distinct is"
  shows "set (foldl (\<lambda>acc i. sink r i acc) [] is) = set is \<and>
    sorted_wrt (\<lambda>a b. r a < r b \<or> r a = r b \<and> b < (a :: nat)) (foldl (\<lambda>acc i. sink r i acc) [] is)"
  using assms
proof (induction "is" rule: rev_induct)
  case (snoc i "is")
  then show ?case by (auto simp: sink_set sorted_append intro!: sink_sorted) (metis le_neq_implies_less)
qed simp


end
