(* ===== verification/ApsFrame.thy ===== *)
theory ApsFrame
  imports ApsSecurity
begin

text \<open>
  The APS header, \<^verbatim>\<open>panweave-aps/src/frame.rs\<close>: the frame control octet, the extended header that
  carries the fragmentation state, and the header codec, which interprets \<open>wire_codec\<close>. Which header
  acknowledges which is the subject of \<open>ack_for\<close>.
\<close>

section \<open>Frame control\<close>

datatype aps_frame_type = ApsData | ApsCommandFrame | ApsAck | ApsInterPan

definition aps_frame_type_from_bits :: "u8 \<Rightarrow> aps_frame_type" where
  "aps_frame_type_from_bits b =
     (let x = b AND 3 in if x = 0 then ApsData else if x = 1 then ApsCommandFrame else if x = 2 then ApsAck
      else ApsInterPan)"

definition aps_frame_type_bits :: "aps_frame_type \<Rightarrow> u8" where
  "aps_frame_type_bits t = (case t of ApsData \<Rightarrow> 0 | ApsCommandFrame \<Rightarrow> 1 | ApsAck \<Rightarrow> 2 | ApsInterPan \<Rightarrow> 3)"

datatype delivery_mode = DmUnicast | DmReserved | DmBroadcast | DmGroup

definition delivery_mode_from_bits :: "u8 \<Rightarrow> delivery_mode" where
  "delivery_mode_from_bits b =
     (let x = b AND 3 in if x = 0 then DmUnicast else if x = 1 then DmReserved else if x = 2 then DmBroadcast
      else DmGroup)"

definition delivery_mode_bits :: "delivery_mode \<Rightarrow> u8" where
  "delivery_mode_bits m = (case m of DmUnicast \<Rightarrow> 0 | DmReserved \<Rightarrow> 1 | DmBroadcast \<Rightarrow> 2 | DmGroup \<Rightarrow> 3)"

record aps_frame_control =
  ac_frame_type :: aps_frame_type
  ac_delivery_mode :: delivery_mode
  ac_ack_format :: bool
  ac_security :: bool
  ac_ack_request :: bool
  ac_extended_header :: bool

definition aps_fc_from_raw :: "u8 \<Rightarrow> aps_frame_control" where
  "aps_fc_from_raw v =
     \<lparr>ac_frame_type = aps_frame_type_from_bits v, ac_delivery_mode = delivery_mode_from_bits (drop_bit 2 v),
      ac_ack_format = (v AND 0x10 \<noteq> 0), ac_security = (v AND 0x20 \<noteq> 0), ac_ack_request = (v AND 0x40 \<noteq> 0),
      ac_extended_header = (v AND 0x80 \<noteq> 0)\<rparr>"

definition aps_fc_raw :: "aps_frame_control \<Rightarrow> u8" where
  "aps_fc_raw c =
     aps_frame_type_bits (ac_frame_type c) OR push_bit 2 (delivery_mode_bits (ac_delivery_mode c))
       OR push_bit 4 (of_bool (ac_ack_format c)) OR push_bit 5 (of_bool (ac_security c))
       OR push_bit 6 (of_bool (ac_ack_request c)) OR push_bit 7 (of_bool (ac_extended_header c))"

lemma aps_fc_roundtrip [simp]: "aps_fc_from_raw (aps_fc_raw c) = c"
proof (cases c)
  case (fields t m f s a e)
  then show ?thesis
    by (cases t; cases m; cases f; cases s; cases a; cases e)
       (simp_all add: aps_fc_from_raw_def aps_fc_raw_def aps_frame_type_bits_def delivery_mode_bits_def
          aps_frame_type_from_bits_def delivery_mode_from_bits_def)
qed

section \<open>Extended header and header\<close>

datatype fragmentation = FragNone | FragFirst | FragPart

record extended_header =
  eh_fragmentation :: fragmentation
  eh_block_number :: u8
  eh_ack_bitfield :: "u8 option"

definition NOT_FRAGMENTED :: extended_header where
  "NOT_FRAGMENTED = \<lparr>eh_fragmentation = FragNone, eh_block_number = 0, eh_ack_bitfield = None\<rparr>"

definition eh_encoded_len :: "extended_header \<Rightarrow> nat" where
  "eh_encoded_len e =
     (if eh_fragmentation e = FragNone then 1 else 1 + 1 + (if eh_ack_bitfield e \<noteq> None then 1 else 0))"

definition eh_decode :: "bool \<Rightarrow> extended_header decode" where
  "eh_decode is_ack =
     step_try r_u8 (\<lambda>ctrl.
     (let v = ctrl AND 3 in
      if v = 3 then step_err (InvalidField ''fragmentation'' (ucast v))
      else if v = 0 then step_ok NOT_FRAGMENTED
      else
        step_try r_u8 (\<lambda>block_number.
        step_try (if is_ack then step_map Some r_u8 else step_ok None) (\<lambda>ack_bitfield.
        step_ok \<lparr>eh_fragmentation = (if v = 1 then FragFirst else FragPart), eh_block_number = block_number,
                 eh_ack_bitfield = ack_bitfield\<rparr>))))"

definition eh_encode :: "extended_header \<Rightarrow> encode" where
  "eh_encode e =
     step_try (w_u8 (case eh_fragmentation e of FragNone \<Rightarrow> 0 | FragFirst \<Rightarrow> 1 | FragPart \<Rightarrow> 2)) (\<lambda>_.
     if eh_fragmentation e \<noteq> FragNone
     then step_try (w_u8 (eh_block_number e)) (\<lambda>_.
          step_try (case eh_ack_bitfield e of Some b \<Rightarrow> w_u8 b | None \<Rightarrow> step_ok ()) (\<lambda>_. step_ok ()))
     else step_ok ())"

datatype addressing = ToEndpoint endpoint | ToGroup group_address

record aps_header =
  ah_ctrl :: aps_frame_control
  ah_destination :: "addressing option"
  ah_cluster :: "u16 option"
  ah_profile :: "u16 option"
  ah_src_endpoint :: "endpoint option"
  ah_counter :: u8
  ah_extended :: "extended_header option"

definition hd_data :: "addressing \<Rightarrow> u16 \<Rightarrow> u16 \<Rightarrow> endpoint \<Rightarrow> u8 \<Rightarrow> aps_header" where
  "hd_data destination cluster profile src_endpoint counter =
     \<lparr>ah_ctrl = \<lparr>ac_frame_type = ApsData,
        ac_delivery_mode = (case destination of ToEndpoint _ \<Rightarrow> DmUnicast | ToGroup _ \<Rightarrow> DmGroup),
        ac_ack_format = False, ac_security = False, ac_ack_request = False, ac_extended_header = False\<rparr>,
      ah_destination = Some destination, ah_cluster = Some cluster, ah_profile = Some profile,
      ah_src_endpoint = Some src_endpoint, ah_counter = counter, ah_extended = None\<rparr>"

definition hd_command :: "u8 \<Rightarrow> bool \<Rightarrow> aps_header" where
  "hd_command counter broadcast =
     \<lparr>ah_ctrl = \<lparr>ac_frame_type = ApsCommandFrame,
        ac_delivery_mode = (if broadcast then DmBroadcast else DmUnicast),
        ac_ack_format = False, ac_security = False, ac_ack_request = False, ac_extended_header = False\<rparr>,
      ah_destination = None, ah_cluster = None, ah_profile = None, ah_src_endpoint = None,
      ah_counter = counter, ah_extended = None\<rparr>"

definition ack_for :: "aps_header \<Rightarrow> extended_header option \<Rightarrow> aps_header" where
  "ack_for h extended =
     (let is_command = (ac_frame_type (ah_ctrl h) = ApsCommandFrame);
          dst = (case (ah_src_endpoint h, is_command) of (Some ep, False) \<Rightarrow> Some (ToEndpoint ep) | _ \<Rightarrow> None);
          src = (case (ah_destination h, is_command) of
                   (Some (ToEndpoint ep), False) \<Rightarrow> Some ep
                 | (Some (ToGroup _), False) \<Rightarrow> Some 0
                 | _ \<Rightarrow> None)
      in \<lparr>ah_ctrl = \<lparr>ac_frame_type = ApsAck, ac_delivery_mode = DmUnicast, ac_ack_format = is_command,
            ac_security = False, ac_ack_request = False, ac_extended_header = (extended \<noteq> None)\<rparr>,
          ah_destination = dst, ah_cluster = (if is_command then None else ah_cluster h),
          ah_profile = (if is_command then None else ah_profile h), ah_src_endpoint = src,
          ah_counter = ah_counter h, ah_extended = extended\<rparr>)"

definition hd_broadcast :: "aps_header \<Rightarrow> aps_header" where
  "hd_broadcast h = h\<lparr>ah_ctrl := (ah_ctrl h)\<lparr>ac_delivery_mode := DmBroadcast\<rparr>\<rparr>"

definition hd_with_ack_request :: "bool \<Rightarrow> aps_header \<Rightarrow> aps_header" where
  "hd_with_ack_request v h = h\<lparr>ah_ctrl := (ah_ctrl h)\<lparr>ac_ack_request := v\<rparr>\<rparr>"

definition hd_secured :: "bool \<Rightarrow> aps_header \<Rightarrow> aps_header" where
  "hd_secured v h = h\<lparr>ah_ctrl := (ah_ctrl h)\<lparr>ac_security := v\<rparr>\<rparr>"

definition hd_with_extended :: "extended_header \<Rightarrow> aps_header \<Rightarrow> aps_header" where
  "hd_with_extended e h = h\<lparr>ah_ctrl := (ah_ctrl h)\<lparr>ac_extended_header := True\<rparr>, ah_extended := Some e\<rparr>"

definition hd_dst_endpoint :: "aps_header \<Rightarrow> endpoint option" where
  "hd_dst_endpoint h = (case ah_destination h of Some (ToEndpoint ep) \<Rightarrow> Some ep | _ \<Rightarrow> None)"

definition hd_fragmentation :: "aps_header \<Rightarrow> fragmentation" where
  "hd_fragmentation h = (case ah_extended h of None \<Rightarrow> FragNone | Some e \<Rightarrow> eh_fragmentation e)"

definition has_addressing :: "aps_frame_control \<Rightarrow> bool" where
  "has_addressing c =
     (case ac_frame_type c of ApsData \<Rightarrow> True | ApsInterPan \<Rightarrow> True | ApsAck \<Rightarrow> \<not> ac_ack_format c
      | ApsCommandFrame \<Rightarrow> False)"

definition ah_decode :: "aps_header decode" where
  "ah_decode =
     step_try (step_map aps_fc_from_raw r_u8) (\<lambda>control.
     if ac_delivery_mode control = DmReserved then step_err (InvalidField ''delivery mode'' 1)
     else
       step_try (if has_addressing control
                 then step_try (if ac_delivery_mode control = DmGroup then step_map ToGroup r_u16_le
                                else step_map ToEndpoint r_u8) (\<lambda>destination.
                      step_try r_u16_le (\<lambda>cluster. step_try r_u16_le (\<lambda>profile. step_try r_u8 (\<lambda>src.
                      step_ok (Some destination, Some cluster, Some profile, Some src)))))
                 else step_ok (None, None, None, None)) (\<lambda>(destination, cluster, profile, src_endpoint).
       step_try r_u8 (\<lambda>counter.
       step_try (if ac_extended_header control
                 then step_map Some (eh_decode (ac_frame_type control = ApsAck)) else step_ok None) (\<lambda>extended.
       step_ok \<lparr>ah_ctrl = control, ah_destination = destination, ah_cluster = cluster, ah_profile = profile,
                ah_src_endpoint = src_endpoint, ah_counter = counter, ah_extended = extended\<rparr>))))"

definition ah_encoded_len :: "aps_header \<Rightarrow> nat" where
  "ah_encoded_len h =
     1 + (if has_addressing (ah_ctrl h)
          then (case ah_destination h of Some (ToGroup _) \<Rightarrow> 2 | _ \<Rightarrow> 1) + (2 + 2 + 1) else 0)
       + 1 + (case ah_extended h of Some e \<Rightarrow> eh_encoded_len e | None \<Rightarrow> 0)"

definition w_present :: "('a \<Rightarrow> encode) \<Rightarrow> string \<Rightarrow> 'a option \<Rightarrow> encode" where
  "w_present w field x = (case x of Some v \<Rightarrow> w v | None \<Rightarrow> step_err (Unrepresentable field))"

definition ah_encode :: "aps_header \<Rightarrow> encode" where
  "ah_encode h =
     (let control = (ah_ctrl h)\<lparr>ac_extended_header := ah_extended h \<noteq> None\<rparr> in
      step_try (w_u8 (aps_fc_raw control)) (\<lambda>_.
      step_try (if has_addressing control
                then step_try (case ah_destination h of
                        Some (ToGroup g) \<Rightarrow> w_u16_le g
                      | Some (ToEndpoint ep) \<Rightarrow> w_u8 ep
                      | None \<Rightarrow> step_err (Unrepresentable ''destination'')) (\<lambda>_.
                     step_try (w_present w_u16_le ''cluster'' (ah_cluster h)) (\<lambda>_.
                     step_try (w_present w_u16_le ''profile'' (ah_profile h)) (\<lambda>_.
                     w_present w_u8 ''source endpoint'' (ah_src_endpoint h))))
                else step_ok ()) (\<lambda>_.
      step_try (w_u8 (ah_counter h)) (\<lambda>_.
      case ah_extended h of Some e \<Rightarrow> eh_encode e | None \<Rightarrow> step_ok ()))))"

definition ah_decode_prefix :: "bytes \<Rightarrow> codec_error + (aps_header \<times> nat)" where
  "ah_decode_prefix b = (case ah_decode (r_new b) of (Inl e, _) \<Rightarrow> Inl e | (Inr h, r) \<Rightarrow> Inr (h, r_pos r))"

section \<open>The header on the air\<close>

text \<open>
  The representable headers: addressing fields exactly where the frame control calls for them, the
  destination in the form the delivery mode names, and an extended header with the fields of its frame.
\<close>

definition eh_wf :: "bool \<Rightarrow> extended_header \<Rightarrow> bool" where
  "eh_wf is_ack e \<longleftrightarrow>
     (if eh_fragmentation e = FragNone then e = NOT_FRAGMENTED else (eh_ack_bitfield e \<noteq> None) = is_ack)"

definition ah_wf :: "aps_header \<Rightarrow> bool" where
  "ah_wf h \<longleftrightarrow>
     ac_delivery_mode (ah_ctrl h) \<noteq> DmReserved \<and>
     (if has_addressing (ah_ctrl h)
      then ah_cluster h \<noteq> None \<and> ah_profile h \<noteq> None \<and> ah_src_endpoint h \<noteq> None \<and>
           (case ah_destination h of None \<Rightarrow> False
            | Some (ToGroup _) \<Rightarrow> ac_delivery_mode (ah_ctrl h) = DmGroup
            | Some (ToEndpoint _) \<Rightarrow> ac_delivery_mode (ah_ctrl h) \<noteq> DmGroup)
      else ah_destination h = None \<and> ah_cluster h = None \<and> ah_profile h = None \<and> ah_src_endpoint h = None) \<and>
     ac_extended_header (ah_ctrl h) = (ah_extended h \<noteq> None) \<and>
     (case ah_extended h of None \<Rightarrow> True | Some e \<Rightarrow> eh_wf (ac_frame_type (ah_ctrl h) = ApsAck) e)"

definition eh_octets :: "extended_header \<Rightarrow> bytes" where
  "eh_octets e =
     (case eh_fragmentation e of FragNone \<Rightarrow> [0]
      | FragFirst \<Rightarrow> [1, eh_block_number e] @ (case eh_ack_bitfield e of Some b \<Rightarrow> [b] | None \<Rightarrow> [])
      | FragPart \<Rightarrow> [2, eh_block_number e] @ (case eh_ack_bitfield e of Some b \<Rightarrow> [b] | None \<Rightarrow> []))"

definition ah_octets :: "aps_header \<Rightarrow> bytes" where
  "ah_octets h =
     aps_fc_raw (ah_ctrl h) #
     (if has_addressing (ah_ctrl h)
      then (case ah_destination h of Some (ToGroup g) \<Rightarrow> le_bytes 2 g | Some (ToEndpoint e) \<Rightarrow> [e] | None \<Rightarrow> [])
         @ le_bytes 2 (the (ah_cluster h)) @ le_bytes 2 (the (ah_profile h)) @ [the (ah_src_endpoint h)]
      else []) @
     ah_counter h # (case ah_extended h of Some e \<Rightarrow> eh_octets e | None \<Rightarrow> [])"

lemma length_eh_octets: "length (eh_octets e) = eh_encoded_len e"
  by (cases "eh_fragmentation e") (auto simp: eh_octets_def eh_encoded_len_def split: option.split)

lemma length_ah_octets: "ah_wf h \<Longrightarrow> length (ah_octets h) = ah_encoded_len h"
  by (auto simp: ah_wf_def ah_octets_def ah_encoded_len_def length_eh_octets split: option.splits addressing.splits if_splits)

lemma emits_eh: "emits (eh_encode e) (eh_octets e)"
  by (cases "eh_fragmentation e") (auto simp: eh_encode_def eh_octets_def intro!: emits_then split: option.split)

lemma parses_eh: "eh_wf a e \<Longrightarrow> parses (eh_decode a) (eh_octets e) e"
  by (cases "eh_fragmentation e")
     (auto simp: eh_decode_def eh_octets_def eh_wf_def step_norm NOT_FRAGMENTED_def Let_def intro!: parses_then
       split: option.splits if_splits)

lemma cursor_safe_eh [safe_intros]: "cursor_safe (eh_decode a)"
  unfolding eh_decode_def Let_def by (intro safe_intros)

lemma fc_with_same_extended: "ac_extended_header c = v \<Longrightarrow> c\<lparr>ac_extended_header := v\<rparr> = c"
  by simp

lemma ah_encode_emits: "ah_wf h \<Longrightarrow> emits (ah_encode h) (ah_octets h)"
  unfolding ah_encode_def ah_octets_def ah_wf_def Let_def
  by (auto simp: w_present_def step_try_assoc fc_with_same_extended
      intro!: emits_then emits_eh split: option.splits addressing.splits if_splits)

lemma ah_decode_parses: "ah_wf h \<Longrightarrow> parses ah_decode (ah_octets h) h"
  unfolding ah_decode_def ah_octets_def ah_wf_def
  by (auto simp: step_norm step_try_assoc
      intro!: parses_then parses_try [OF parses_eh, of _ _ _ "[]", simplified]
      split: option.splits addressing.splits if_splits)

lemma cursor_safe_ah [safe_intros]: "cursor_safe ah_decode"
  unfolding ah_decode_def by (auto intro!: safe_intros split: prod.split)

interpretation ahc: wire_codec ah_decode ah_encode ah_encoded_len ah_wf ah_octets
  by unfold_locales (simp_all add: cursor_safe_ah ah_encode_emits ah_decode_parses length_ah_octets)

lemma ah_decode_prefix_octets: "ah_wf h \<Longrightarrow> ah_decode_prefix (ah_octets h @ p) = Inr (h, ah_encoded_len h)"
  using ah_decode_parses [of h]
  by (auto simp: parses_def ah_decode_prefix_def length_ah_octets [symmetric]) (simp add: r_new_def)

text \<open>A decoded header is representable, and lies within the input.\<close>

lemma ah_decode_prefix_bound: "ah_decode_prefix b = Inr (h, n) \<Longrightarrow> n \<le> length b"
  using ahc.in_bounds by (auto simp: ah_decode_prefix_def split: prod.splits sum.splits)

lemma hd_wf:
  "ah_wf (hd_data d c p s n)" "ah_wf (hd_command n b)"
  "ah_wf h \<Longrightarrow> ah_wf (hd_secured v h)" "ah_wf h \<Longrightarrow> ah_wf (hd_with_ack_request v h)"
  "ah_wf h \<Longrightarrow> eh_wf (ac_frame_type (ah_ctrl h) = ApsAck) e \<Longrightarrow> ah_wf (hd_with_extended e h)"
  by (auto simp: ah_wf_def hd_data_def hd_command_def hd_secured_def hd_with_ack_request_def hd_with_extended_def
      has_addressing_def split: option.splits addressing.splits aps_frame_type.splits if_splits)

text \<open>
  The acknowledgement of a data frame or command with a header of its own form is representable and names
  the acknowledged frame: same counter, cluster and profile, endpoints exchanged.
\<close>

lemma ack_for_wf:
  assumes "ah_wf h" "ac_frame_type (ah_ctrl h) \<in> {ApsData, ApsCommandFrame}"
    and "\<And>e. x = Some e \<Longrightarrow> eh_wf True e"
  shows "ah_wf (ack_for h x)"
  using assms
  by (auto simp: ah_wf_def ack_for_def has_addressing_def Let_def split: option.splits addressing.splits aps_frame_type.splits if_splits)

end
