(* ===== verification/ApsTables.thy ===== *)
theory ApsTables
  imports ApsFrame Tables
begin

text \<open>
  The APS tables, \<^verbatim>\<open>panweave-aps/src/tables.rs\<close>, and the status codes of
  \<^verbatim>\<open>panweave-types/src/status.rs\<close> they answer with: the binding table, which is a set of links, the group
  table, which is a relation between groups and endpoints kept as bitmaps, and the duplicate rejection
  table, which interprets \<open>evicting_table\<close>. The capacity of a table is an argument.
\<close>

section \<open>Statuses\<close>

datatype aps_status =
    ApsSuccess | AsduTooLong | DefragDeferred | DefragUnsupported | IllegalRequest | InvalidBinding
  | InvalidGroup | InvalidParameter | NoAck | NoBoundDevice | NoShortAddr | NotSupported | SecuredLinkKey
  | SecuredNwkKey | SecurityFail | TableFull | ApsUnsecured | UnsupportedAttribute | PeerCannotFragment
  | UnknownFragmentSupport | ApsUnknown u8

definition aps_status_raw :: "aps_status \<Rightarrow> u8" where
  "aps_status_raw s =
     (case s of ApsSuccess \<Rightarrow> 0x00 | AsduTooLong \<Rightarrow> 0xA0 | DefragDeferred \<Rightarrow> 0xA1 | DefragUnsupported \<Rightarrow> 0xA2
      | IllegalRequest \<Rightarrow> 0xA3 | InvalidBinding \<Rightarrow> 0xA4 | InvalidGroup \<Rightarrow> 0xA5 | InvalidParameter \<Rightarrow> 0xA6
      | NoAck \<Rightarrow> 0xA7 | NoBoundDevice \<Rightarrow> 0xA8 | NoShortAddr \<Rightarrow> 0xA9 | NotSupported \<Rightarrow> 0xAA
      | SecuredLinkKey \<Rightarrow> 0xAB | SecuredNwkKey \<Rightarrow> 0xAC | SecurityFail \<Rightarrow> 0xAD | TableFull \<Rightarrow> 0xAE
      | ApsUnsecured \<Rightarrow> 0xAF | UnsupportedAttribute \<Rightarrow> 0xB0 | PeerCannotFragment \<Rightarrow> 0xB1
      | UnknownFragmentSupport \<Rightarrow> 0xB2 | ApsUnknown v \<Rightarrow> v)"

definition aps_status_from_raw :: "u8 \<Rightarrow> aps_status" where
  "aps_status_from_raw v =
     (if v = 0x00 then ApsSuccess else if v = 0xA0 then AsduTooLong else if v = 0xA1 then DefragDeferred
      else if v = 0xA2 then DefragUnsupported else if v = 0xA3 then IllegalRequest else if v = 0xA4 then InvalidBinding
      else if v = 0xA5 then InvalidGroup else if v = 0xA6 then InvalidParameter else if v = 0xA7 then NoAck
      else if v = 0xA8 then NoBoundDevice else if v = 0xA9 then NoShortAddr else if v = 0xAA then NotSupported
      else if v = 0xAB then SecuredLinkKey else if v = 0xAC then SecuredNwkKey else if v = 0xAD then SecurityFail
      else if v = 0xAE then TableFull else if v = 0xAF then ApsUnsecured else if v = 0xB0 then UnsupportedAttribute
      else if v = 0xB1 then PeerCannotFragment else if v = 0xB2 then UnknownFragmentSupport else ApsUnknown v)"

lemma aps_status_raw_from_raw [simp]: "aps_status_raw (aps_status_from_raw v) = v"
  by (simp add: aps_status_raw_def aps_status_from_raw_def)

section \<open>Binding table\<close>

definition ENDPOINT_BROADCAST :: endpoint where
  "ENDPOINT_BROADCAST = 0xFF"

datatype binding_destination = BindUnicast extended_address endpoint | BindGroup group_address

record binding_entry =
  be_src_endpoint :: endpoint
  be_cluster :: u16
  be_destination :: binding_destination

type_synonym binding_table = "binding_entry list"

definition bind_entry :: "nat \<Rightarrow> binding_entry \<Rightarrow> (binding_table, aps_status, unit) step" where
  "bind_entry cap e t =
     (if be_src_endpoint e = 0 \<or> be_src_endpoint e = ENDPOINT_BROADCAST then (Inl IllegalRequest, t)
      else if (case be_destination e of BindUnicast _ ep \<Rightarrow> ep = 0 \<or> ep = ENDPOINT_BROADCAST | BindGroup _ \<Rightarrow> False)
      then (Inl IllegalRequest, t)
      else if e \<in> set t then (Inr (), t)
      else case vec_push cap t e of Inl _ \<Rightarrow> (Inl TableFull, t) | Inr t' \<Rightarrow> (Inr (), t'))"

definition unbind_entry :: "binding_entry \<Rightarrow> (binding_table, aps_status, unit) step" where
  "unbind_entry e t =
     (case position (\<lambda>x. x = e) t of
        Some i \<Rightarrow> (Inr (), swap_remove i t)
      | None \<Rightarrow> (Inl InvalidBinding, t))"

definition bind_destinations :: "endpoint \<Rightarrow> u16 \<Rightarrow> binding_table \<Rightarrow> binding_destination list" where
  "bind_destinations src_endpoint cluster t =
     map be_destination (filter (\<lambda>e. be_src_endpoint e = src_endpoint \<and> be_cluster e = cluster) t)"

definition bind_remove_device :: "extended_address \<Rightarrow> binding_table \<Rightarrow> nat \<times> binding_table" where
  "bind_remove_device address t =
     (let t' = filter (\<lambda>e. \<not> (case be_destination e of BindUnicast a _ \<Rightarrow> a = address | BindGroup _ \<Rightarrow> False)) t
      in (length t - length t', t'))"

definition bind_clear :: "binding_table \<Rightarrow> binding_table" where
  "bind_clear t = []"

text \<open>The table is a set of links with valid endpoints, and the operations are those of a set.\<close>

definition valid_link :: "binding_entry \<Rightarrow> bool" where
  "valid_link e \<longleftrightarrow>
     be_src_endpoint e \<notin> {0, ENDPOINT_BROADCAST} \<and>
     (\<forall>a ep. be_destination e = BindUnicast a ep \<longrightarrow> ep \<notin> {0, ENDPOINT_BROADCAST})"

definition bind_inv :: "nat \<Rightarrow> binding_table \<Rightarrow> bool" where
  "bind_inv cap t \<longleftrightarrow> distinct t \<and> length t \<le> cap \<and> (\<forall>e \<in> set t. valid_link e)"

lemma distinct_swap_remove:
  assumes "distinct xs" "i < length xs"
  shows "distinct (swap_remove i xs)" "set (swap_remove i xs) = set xs - {xs ! i}"
  using swap_remove_keys [of i xs id] assms by simp_all

lemma bind_entry_eq:
  "bind_entry cap e t =
     (if \<not> valid_link e then (Inl IllegalRequest, t) else if e \<in> set t then (Inr (), t)
      else if length t < cap then (Inr (), t @ [e]) else (Inl TableFull, t))"
  by (auto simp: bind_entry_def valid_link_def vec_push_def split: binding_destination.splits)

lemma bind_entry_spec:
  assumes "bind_inv cap t" "bind_entry cap e t = (r, t')"
  shows "bind_inv cap t'"
    and "r = Inr () \<longleftrightarrow> valid_link e \<and> (e \<in> set t \<or> length t < cap)"
    and "set t' = (if r = Inr () then insert e (set t) else set t)"
  using assms by (auto simp: bind_entry_eq bind_inv_def split: if_splits)

lemma unbind_entry_spec:
  assumes "bind_inv cap t" "unbind_entry e t = (r, t')"
  shows "bind_inv cap t'" "r = Inr () \<longleftrightarrow> e \<in> set t" "set t' = set t - {e}"
proof -
  have "bind_inv cap t' \<and> (r = Inr () \<longleftrightarrow> e \<in> set t) \<and> set t' = set t - {e}"
  proof (cases "position (\<lambda>x. x = e) t")
    case None
    moreover from this have "e \<notin> set t" by (auto simp: position_None)
    ultimately show ?thesis using assms by (auto simp: unbind_entry_def)
  next
    case (Some i)
    from position_Some [OF Some] have i: "i < length t" "t ! i = e" by auto
    have "distinct t" using assms(1) by (simp add: bind_inv_def)
    note sr = distinct_swap_remove [OF this i(1)]
    have "length (swap_remove i t) \<le> length t" using i(1) by (simp add: length_swap_remove)
    with sr Some assms i show ?thesis by (force simp: unbind_entry_def bind_inv_def)
  qed
  then show "bind_inv cap t'" "r = Inr () \<longleftrightarrow> e \<in> set t" "set t' = set t - {e}" by auto
qed

lemma bind_destinations_iff:
  "d \<in> set (bind_destinations ep c t) \<longleftrightarrow>
     \<lparr>be_src_endpoint = ep, be_cluster = c, be_destination = d\<rparr> \<in> set t"
proof
  assume "d \<in> set (bind_destinations ep c t)"
  then obtain e where "e \<in> set t" "be_src_endpoint e = ep" "be_cluster e = c" "be_destination e = d"
    by (auto simp: bind_destinations_def)
  then show "\<lparr>be_src_endpoint = ep, be_cluster = c, be_destination = d\<rparr> \<in> set t" by - (cases e, simp)
qed (force simp: bind_destinations_def)

lemma bind_remove_device_inv: "bind_inv cap t \<Longrightarrow> bind_inv cap (snd (bind_remove_device a t))"
  by (auto simp: bind_remove_device_def bind_inv_def Let_def intro: le_trans [OF length_filter_le])

section \<open>Endpoint sets\<close>

type_synonym endpoint_set = "u32 list"

definition ES_EMPTY :: endpoint_set where
  "ES_EMPTY = replicate 8 0"

definition es_slot :: "endpoint \<Rightarrow> nat \<times> u32" where
  "es_slot ep = (unat (ep div 32), push_bit (unat (ep mod 32)) 1)"

definition es_contains :: "endpoint_set \<Rightarrow> endpoint \<Rightarrow> bool" where
  "es_contains s ep =
     (let (i, b) = es_slot ep in if i < length s then s ! i AND b \<noteq> 0 else False)"

definition es_insert :: "endpoint \<Rightarrow> endpoint_set \<Rightarrow> endpoint_set" where
  "es_insert ep s = (let (i, b) = es_slot ep in if i < length s then s[i := s ! i OR b] else s)"

definition es_remove :: "endpoint \<Rightarrow> endpoint_set \<Rightarrow> endpoint_set" where
  "es_remove ep s = (let (i, b) = es_slot ep in if i < length s then s[i := s ! i AND NOT b] else s)"

definition es_is_empty :: "endpoint_set \<Rightarrow> bool" where
  "es_is_empty s \<longleftrightarrow> list_all (\<lambda>w. w = 0) s"

definition es_iter :: "endpoint_set \<Rightarrow> endpoint list" where
  "es_iter s = filter (es_contains s) (map of_nat [0..<256])"

text \<open>The bitmap refines a set of endpoints.\<close>

definition es_set :: "endpoint_set \<Rightarrow> endpoint set" where
  "es_set s = {ep. es_contains s ep}"

lemma es_index: "unat (ep div 32 :: u8) = unat ep div 32" "unat (ep mod 32 :: u8) = unat ep mod 32"
  by (simp_all add: unat_div unat_mod)

lemma es_slot_bound: "unat (ep :: u8) div 32 < 8"
proof -
  have "unat ep < 256" using unsigned_less [of ep] by simp
  then show ?thesis by simp
qed

lemma es_contains_bit:
  "length s = 8 \<Longrightarrow> es_contains s ep = bit (s ! (unat ep div 32)) (unat ep mod 32)"
  by (simp add: es_contains_def es_slot_def es_index es_slot_bound bit_iff_and_push_bit_not_eq_0)

lemma es_same_slot: "unat a div 32 = unat b div 32 \<Longrightarrow> unat a mod 32 = unat b mod 32 \<Longrightarrow> a = (b :: u8)"
  by (metis div_mult_mod_eq word_unat_eq_iff)

lemma es_ops:
  assumes "length s = 8"
  shows "length (es_insert ep s) = 8" "length (es_remove ep s) = 8"
    and "es_set (es_insert ep s) = insert ep (es_set s)"
    and "es_set (es_remove ep s) = es_set s - {ep}"
    and "es_set ES_EMPTY = {}" "length ES_EMPTY = 8"
proof -
  show l: "length (es_insert ep s) = 8" "length (es_remove ep s) = 8" "length ES_EMPTY = 8"
    using assms by (simp_all add: es_insert_def es_remove_def es_slot_def ES_EMPTY_def)
  note b = es_slot_bound [of ep]
  have "es_contains (es_insert ep s) q = (q = ep \<or> es_contains s q)" for q
    using b assms l(1) es_same_slot [of q ep]
    by (cases "unat q div 32 = unat ep div 32")
       (auto simp: es_contains_bit es_insert_def es_slot_def es_index bit_simps)
  then show "es_set (es_insert ep s) = insert ep (es_set s)" by (auto simp: es_set_def)
  have "es_contains (es_remove ep s) q = (q \<noteq> ep \<and> es_contains s q)" for q
    using b assms l(2) es_same_slot [of q ep]
    by (cases "unat q div 32 = unat ep div 32")
       (auto simp: es_contains_bit es_remove_def es_slot_def es_index bit_simps)
  then show "es_set (es_remove ep s) = es_set s - {ep}" by (auto simp: es_set_def)
  show "es_set ES_EMPTY = {}"
    using l(3) es_slot_bound by (auto simp: es_set_def es_contains_bit) (simp add: ES_EMPTY_def)
qed

lemma es_is_empty_iff:
  assumes "length s = 8"
  shows "es_is_empty s \<longleftrightarrow> es_set s = {}"
proof
  assume "es_is_empty s"
  then show "es_set s = {}" using assms es_slot_bound by (auto simp: es_is_empty_def list_all_length es_set_def es_contains_bit)
next
  assume e: "es_set s = {}"
  have "s ! i = 0" if i: "i < length s" for i
  proof (rule bit_word_eqI)
    fix k assume k: "k < LENGTH(32)"
    define ep where "ep = (of_nat (32 * i + k) :: u8)"
    have "32 * i + k < 256" using i k assms by simp
    then have u: "unat ep = 32 * i + k" unfolding ep_def by (subst unat_of_nat) simp
    have "\<not> es_contains s ep" using e by (auto simp: es_set_def)
    then show "bit (s ! i) k = bit 0 k" using k assms by (simp add: es_contains_bit u)
  qed
  then show "es_is_empty s" by (simp add: es_is_empty_def list_all_length)
qed

lemma es_iter_set: "set (es_iter s) = es_set s" "sorted (map unat (es_iter s))"
proof -
  have "ep \<in> of_nat ` {0..<256}" for ep :: u8
    using unsigned_less [of ep] by (intro image_eqI [of _ _ "unat ep"]) auto
  then show "set (es_iter s) = es_set s" by (auto simp: es_iter_def es_set_def)
  have "map unat (map of_nat [0..<256] :: u8 list) = [0..<256]"
    by (rule nth_equalityI) (simp_all add: unat_of_nat)
  then have "sorted (map unat (map of_nat [0..<256] :: u8 list))" by simp
  then show "sorted (map unat (es_iter s))" unfolding es_iter_def by (rule sorted_filter)
qed

section \<open>Group table\<close>

record group_entry =
  ge_group :: group_address
  ge_endpoints :: endpoint_set

type_synonym group_table = "group_entry list"

definition group_add :: "nat \<Rightarrow> group_address \<Rightarrow> endpoint \<Rightarrow> (group_table, aps_status, unit) step" where
  "group_add cap g ep t =
     (if ep = 0 \<or> ep = ENDPOINT_BROADCAST then (Inl InvalidParameter, t)
      else if List.find (\<lambda>e. ge_group e = g) t \<noteq> None
      then (Inr (), update_first (\<lambda>e. ge_group e = g) (\<lambda>e. e\<lparr>ge_endpoints := es_insert ep (ge_endpoints e)\<rparr>) t)
      else case vec_push cap t \<lparr>ge_group = g, ge_endpoints = es_insert ep ES_EMPTY\<rparr> of
             Inl _ \<Rightarrow> (Inl TableFull, t) | Inr t' \<Rightarrow> (Inr (), t'))"

definition group_remove :: "group_address \<Rightarrow> endpoint \<Rightarrow> (group_table, aps_status, unit) step" where
  "group_remove g ep t =
     (case position (\<lambda>e. ge_group e = g) t of
        None \<Rightarrow> (Inl InvalidGroup, t)
      | Some i \<Rightarrow>
          (let e = t ! i in
           if \<not> es_contains (ge_endpoints e) ep then (Inl InvalidGroup, t)
           else let e' = e\<lparr>ge_endpoints := es_remove ep (ge_endpoints e)\<rparr>;
                    t' = t[i := e']
                in (Inr (), if es_is_empty (ge_endpoints e') then swap_remove i t' else t')))"

definition group_remove_all :: "endpoint \<Rightarrow> group_table \<Rightarrow> group_table" where
  "group_remove_all ep t =
     filter (\<lambda>e. \<not> es_is_empty (ge_endpoints e)) (map (\<lambda>e. e\<lparr>ge_endpoints := es_remove ep (ge_endpoints e)\<rparr>) t)"

definition group_endpoints :: "group_address \<Rightarrow> group_table \<Rightarrow> endpoint_set" where
  "group_endpoints g t =
     (case List.find (\<lambda>e. ge_group e = g) t of None \<Rightarrow> ES_EMPTY | Some e \<Rightarrow> ge_endpoints e)"

definition group_is_member :: "group_address \<Rightarrow> group_table \<Rightarrow> bool" where
  "group_is_member g t \<longleftrightarrow> list_ex (\<lambda>e. ge_group e = g) t"

definition group_contains :: "group_address \<Rightarrow> endpoint \<Rightarrow> group_table \<Rightarrow> bool" where
  "group_contains g ep t \<longleftrightarrow> es_contains (group_endpoints g t) ep"

definition group_clear :: "group_table \<Rightarrow> group_table" where
  "group_clear t = []"

text \<open>
  The table refines a relation between groups and endpoints. Its invariant: one entry per group, none of
  them empty, so that a group is known exactly when it has a member.
\<close>

definition group_inv :: "nat \<Rightarrow> group_table \<Rightarrow> bool" where
  "group_inv cap t \<longleftrightarrow>
     table_ok cap ge_group t \<and> (\<forall>e \<in> set t. length (ge_endpoints e) = 8 \<and> es_set (ge_endpoints e) \<noteq> {})"

definition group_members :: "group_table \<Rightarrow> (group_address \<times> endpoint) set" where
  "group_members t = {(g, ep). \<exists>e \<in> set t. ge_group e = g \<and> ep \<in> es_set (ge_endpoints e)}"

lemma group_endpoints_members:
  assumes "group_inv cap t"
  shows "es_set (group_endpoints g t) = {ep. (g, ep) \<in> group_members t}"
proof (cases "List.find (\<lambda>e. ge_group e = g) t")
  case None
  then have "g \<notin> ge_group ` set t" by (simp add: find_None_keys)
  with None es_ops(5) [of ES_EMPTY] show ?thesis by (auto simp: group_endpoints_def group_members_def ES_EMPTY_def)
next
  case (Some e)
  have "e' = e" if "e' \<in> set t" "ge_group e' = g" for e'
    using that find_distinct_keys [of ge_group t e'] Some assms by (simp add: group_inv_def table_ok_def)
  with Some find_SomeD [OF Some] show ?thesis by (auto simp: group_endpoints_def group_members_def)
qed

lemma group_contains_members: "group_inv cap t \<Longrightarrow> group_contains g ep t \<longleftrightarrow> (g, ep) \<in> group_members t"
  using group_endpoints_members [of cap t g] by (auto simp: group_contains_def es_set_def)

lemma group_is_member_members: "group_inv cap t \<Longrightarrow> group_is_member g t \<longleftrightarrow> (\<exists>ep. (g, ep) \<in> group_members t)"
  by (fastforce simp: group_is_member_def group_members_def list_ex_iff group_inv_def)

lemma update_first_map:
  "distinct (map key xs) \<Longrightarrow> update_first (\<lambda>e. key e = k) f xs = map (\<lambda>e. if key e = k then f e else e) xs"
proof (induction xs)
  case (Cons x xs)
  have "map (\<lambda>e. if key e = k then f e else e) xs = xs" if "key x = k"
    using that Cons.prems by (intro map_idI) (auto simp: image_iff)
  with Cons show ?case by auto
qed simp

lemma group_add_spec:
  assumes "group_inv cap t" "group_add cap g ep t = (r, t')"
  shows "group_inv cap t'"
    and "r = Inr () \<longleftrightarrow> ep \<notin> {0, ENDPOINT_BROADCAST} \<and> (group_is_member g t \<or> length t < cap)"
    and "group_members t' = (if r = Inr () then insert (g, ep) (group_members t) else group_members t)"
proof -
  have len: "\<And>e. e \<in> set t \<Longrightarrow> length (ge_endpoints e) = 8" using assms(1) by (simp add: group_inv_def)
  have d: "distinct (map ge_group t)" using assms(1) by (simp add: group_inv_def table_ok_def)
  have known: "group_is_member g t \<longleftrightarrow> List.find (\<lambda>e. ge_group e = g) t \<noteq> None"
    by (auto simp: group_is_member_def find_None_iff2 list_ex_iff find_None_keys)
  have "group_inv cap t' \<and> (r = Inr () \<longleftrightarrow> ep \<notin> {0, ENDPOINT_BROADCAST} \<and> (group_is_member g t \<or> length t < cap)) \<and>
    group_members t' = (if r = Inr () then insert (g, ep) (group_members t) else group_members t)"
  proof (cases "group_is_member g t \<and> ep \<notin> {0, ENDPOINT_BROADCAST}")
    case True
    define f :: "group_entry \<Rightarrow> group_entry" where "f = (\<lambda>e. e\<lparr>ge_endpoints := es_insert ep (ge_endpoints e)\<rparr>)"
    have t': "r = Inr ()" "t' = map (\<lambda>e. if ge_group e = g then f e else e) t"
      using True assms(2) known update_first_map [OF d, of g f] by (auto simp: group_add_def f_def)
    have "table_ok cap ge_group t'" using assms(1) table_map(1) [of ge_group "\<lambda>e. if ge_group e = g then f e else e"]
      by (simp add: t' group_inv_def f_def)
    moreover have "\<forall>e \<in> set t'. length (ge_endpoints e) = 8 \<and> es_set (ge_endpoints e) \<noteq> {}"
      using assms(1) by (auto simp: t' f_def es_ops group_inv_def)
    moreover have "(\<exists>e \<in> set t'. ge_group e = h \<and> q \<in> es_set (ge_endpoints e)) \<longleftrightarrow>
        (\<exists>e \<in> set t. ge_group e = h \<and> (q \<in> es_set (ge_endpoints e) \<or> h = g \<and> q = ep))" for h q
      unfolding t'(2) set_map bex_simps(7) by (intro bex_cong refl) (auto simp: f_def es_ops len)
    moreover obtain e where "e \<in> set t" "ge_group e = g" using True by (auto simp: group_is_member_def list_ex_iff)
    ultimately show ?thesis using True by (auto simp: t'(1) group_inv_def group_members_def)
  next
    case False
    have "g \<notin> ge_group ` set t" if "\<not> group_is_member g t" using that known by (simp add: find_None_keys)
    with False assms known es_ops(1,3) [of ES_EMPTY ep] es_ops(5) [of ES_EMPTY] show ?thesis
      by (auto simp: group_add_def vec_push_def group_inv_def table_ok_def group_members_def ES_EMPTY_def split: if_splits)
  qed
  then show "group_inv cap t'"
    "r = Inr () \<longleftrightarrow> ep \<notin> {0, ENDPOINT_BROADCAST} \<and> (group_is_member g t \<or> length t < cap)"
    "group_members t' = (if r = Inr () then insert (g, ep) (group_members t) else group_members t)" by auto
qed

lemma group_remove_spec:
  assumes "group_inv cap t" "group_remove g ep t = (r, t')"
  shows "group_inv cap t'" "r = Inr () \<longleftrightarrow> (g, ep) \<in> group_members t" "group_members t' = group_members t - {(g, ep)}"
proof -
  have ok: "table_ok cap ge_group t" and d: "distinct (map ge_group t)" using assms(1) by (simp_all add: group_inv_def table_ok_def)
  have "group_inv cap t' \<and> (r = Inr () \<longleftrightarrow> (g, ep) \<in> group_members t) \<and> group_members t' = group_members t - {(g, ep)}"
  proof (cases "position (\<lambda>e. ge_group e = g) t")
    case None
    moreover from this have "\<forall>e \<in> set t. ge_group e \<noteq> g" by (simp add: position_None)
    ultimately show ?thesis using assms by (auto simp: group_remove_def group_members_def)
  next
    case (Some i)
    from position_Some [OF Some] have i: "i < length t" "ge_group (t ! i) = g" by auto
    define e where "e = t ! i"
    define e' where "e' = e\<lparr>ge_endpoints := es_remove ep (ge_endpoints e)\<rparr>"
    have e: "e \<in> set t" "ge_group e = g" "length (ge_endpoints e) = 8"
      using i assms(1) by (simp_all add: e_def group_inv_def)
    have uniq: "x = e" if "x \<in> set t" "ge_group x = g" for x
      using that e d by (auto simp: distinct_map dest: inj_onD)
    have es: "es_set (ge_endpoints e') = es_set (ge_endpoints e) - {ep}" "length (ge_endpoints e') = 8"
      using es_ops(2,4) [OF e(3), of ep] by (simp_all add: e'_def)
    have u: "table_ok cap ge_group (t[i := e'])" by (rule table_ok_update(1) [OF ok i(1)]) (simp add: e'_def e_def)
    have su: "set (t[i := e']) = insert e' (set t - {e})"
      using set_update_distinct [OF distinct_map [THEN iffD1, OF d, THEN conjunct1] i(1)] by (simp add: e_def)
    show ?thesis
    proof (cases "es_contains (ge_endpoints e) ep")
      case False
      then show ?thesis using assms Some uniq by (auto simp: group_remove_def group_members_def e_def [symmetric] es_set_def)
    next
      case True
      define t2 where "t2 = (if es_set (ge_endpoints e') = {} then swap_remove i (t[i := e']) else t[i := e'])"
      have t': "r = Inr ()" "t' = t2"
        using assms(2) Some True es_is_empty_iff [OF es(2)]
        by (auto simp: group_remove_def Let_def t2_def e'_def e_def split: if_splits)
      have d2: "distinct (map ge_group (t[i := e']))" using u by (simp add: table_ok_def)
      note sr = swap_remove_keys [of i "t[i := e']" ge_group]
      have ge': "ge_group e' = g" using e(2) by (simp add: e'_def)
      have ne: "e' \<noteq> e" using True es(1) by (auto simp: es_set_def)
      have "e' \<notin> set t - {e}" using uniq [of e'] ne e(2) by (auto simp: e'_def)
      then have "set (swap_remove i (t[i := e'])) = set t - {e}" using sr(2) [OF _ d2] i su by auto
      then have st2: "set t2 = (if es_set (ge_endpoints e') = {} then set t - {e} else insert e' (set t - {e}))"
        using su by (simp add: t2_def)
      have "table_ok cap ge_group t2" using table_swap_remove(1) [OF u, of i] i u by (auto simp: t2_def table_ok_def)
      then have "group_inv cap t2" using assms(1) es(2) by (auto simp: group_inv_def st2)
      moreover have "group_members t2 = group_members t - {(g, ep)}"
      proof -
        define M where "M A = (\<Union>e \<in> A. {ge_group e} \<times> es_set (ge_endpoints e))" for A :: "group_entry set"
        have m: "group_members u = M (set u)" for u by (auto simp: group_members_def M_def)
        have "M (insert e (set t - {e})) = {g} \<times> es_set (ge_endpoints e) \<union> M (set t - {e})"
          unfolding M_def UN_insert e(2) ..
        then have "M (set t) = {g} \<times> es_set (ge_endpoints e) \<union> M (set t - {e})"
          unfolding insert_Diff [OF e(1)] .
        moreover have "M (set t2) = {g} \<times> es_set (ge_endpoints e') \<union> M (set t - {e})"
          by (cases "es_set (ge_endpoints e') = {}") (simp_all only: st2 M_def if_True if_False UN_insert ge' Sigma_empty2 Un_empty_left simp_thms)
        moreover have "x \<noteq> g" if "(x, y) \<in> M (set t - {e})" for x y using that uniq by (auto simp: M_def)
        ultimately show ?thesis unfolding m es(1) by auto
      qed
      moreover have "(g, ep) \<in> group_members t" using True e by (auto simp: group_members_def es_set_def)
      ultimately show ?thesis using t' by simp
    qed
  qed
  then show "group_inv cap t'" "r = Inr () \<longleftrightarrow> (g, ep) \<in> group_members t" "group_members t' = group_members t - {(g, ep)}"
    by auto
qed

lemma group_remove_all_spec:
  assumes "group_inv cap t"
  shows "group_inv cap (group_remove_all ep t)"
    and "group_members (group_remove_all ep t) = {m \<in> group_members t. snd m \<noteq> ep}"
proof -
  define f :: "group_entry \<Rightarrow> group_entry" where "f = (\<lambda>e. e\<lparr>ge_endpoints := es_remove ep (ge_endpoints e)\<rparr>)"
  have f: "length (ge_endpoints (f e)) = 8" "es_set (ge_endpoints (f e)) = es_set (ge_endpoints e) - {ep}"
    if "e \<in> set t" for e using that assms es_ops(2,4) [of "ge_endpoints e" ep] by (simp_all add: f_def group_inv_def)
  have eq: "group_remove_all ep t = filter (\<lambda>e. es_set (ge_endpoints e) \<noteq> {}) (map f t)"
    unfolding group_remove_all_def f_def [symmetric] by (rule filter_cong) (auto simp: f es_is_empty_iff)
  have "table_ok cap ge_group (map f t)" using assms table_map(1) [of ge_group f] by (simp add: group_inv_def f_def)
  then show "group_inv cap (group_remove_all ep t)"
    using f by (auto simp: eq group_inv_def intro: table_filter(1))
  show "group_members (group_remove_all ep t) = {m \<in> group_members t. snd m \<noteq> ep}"
    using f by (auto simp: eq group_members_def) (auto simp: f_def)
qed

section \<open>Duplicate rejection\<close>

record duplicate_record =
  dr_src :: short_address
  dr_counter :: u8
  dr_expires :: instant

type_synonym duplicate_table = "duplicate_record list"

definition dr_key :: "duplicate_record \<Rightarrow> short_address \<times> u8" where
  "dr_key r = (dr_src r, dr_counter r)"

definition dr_oldest :: "duplicate_table \<Rightarrow> nat option" where
  "dr_oldest t = map_option fst (arg_min_first dr_expires 0 t)"

definition check_and_record ::
  "nat \<Rightarrow> short_address \<Rightarrow> u8 \<Rightarrow> instant \<Rightarrow> duration \<Rightarrow> duplicate_table \<Rightarrow> bool \<times> duplicate_table" where
  "check_and_record cap src counter now lifetime t =
     (let t1 = filter (\<lambda>e. \<not> has_reached now (dr_expires e)) t;
          expires = instant_add now lifetime
      in if List.find (\<lambda>e. dr_src e = src \<and> dr_counter e = counter) t1 \<noteq> None
         then (True, update_first (\<lambda>e. dr_src e = src \<and> dr_counter e = counter) (\<lambda>e. e\<lparr>dr_expires := expires\<rparr>) t1)
         else let r = \<lparr>dr_src = src, dr_counter = counter, dr_expires = expires\<rparr>
              in (False, case vec_push cap t1 r of
                           Inr t2 \<Rightarrow> t2
                         | Inl _ \<Rightarrow> (let t2 = (case dr_oldest t1 of Some i \<Rightarrow> swap_remove i t1 | None \<Rightarrow> t1)
                                     in case vec_push cap t2 r of Inr t3 \<Rightarrow> t3 | Inl _ \<Rightarrow> t2)))"

definition duplicate_clear :: "duplicate_table \<Rightarrow> duplicate_table" where
  "duplicate_clear t = []"

lemma dr_oldest_valid: "dr_oldest t = Some i \<Longrightarrow> i < length t"
  using arg_min_first_valid [of dr_expires 0 t] by (auto simp: dr_oldest_def)

lemma dr_oldest_None: "dr_oldest t = None \<Longrightarrow> t = []"
  by (cases t) (auto simp: dr_oldest_def split: option.splits prod.splits if_splits)

interpretation dt: evicting_table cap dr_key dr_oldest for cap
  by unfold_locales (rule dr_oldest_valid)

definition dr_live :: "instant \<Rightarrow> short_address \<Rightarrow> u8 \<Rightarrow> duplicate_table \<Rightarrow> bool" where
  "dr_live now src counter t \<longleftrightarrow> (\<exists>e. table_get dr_key (src, counter) t = Some e \<and> \<not> has_reached now (dr_expires e))"

lemma check_and_record_insert:
  fixes lifetime :: duration
  assumes "table_ok cap dr_key t" "0 < cap" "\<not> dr_live now src counter t"
  defines "t1 \<equiv> filter (\<lambda>e. \<not> has_reached now (dr_expires e)) t"
    and "r \<equiv> \<lparr>dr_src = src, dr_counter = counter, dr_expires = instant_add now lifetime\<rparr>"
  shows "\<exists>t2. table_insert cap dr_key dr_oldest r t1 = Some t2 \<and>
     check_and_record cap src counter now lifetime t = (False, t2)"
proof -
  have ok: "table_ok cap dr_key t1" unfolding t1_def by (rule table_filter(1) [OF assms(1)])
  have none: "table_get dr_key (src, counter) t1 = None"
    using assms(3) unfolding t1_def table_filter(2) [OF assms(1)] by (auto simp: dr_live_def split: option.split)
  then have pos: "position (\<lambda>e. dr_key e = dr_key r) t1 = None"
    by (auto simp: position_None table_get_None r_def dr_key_def)
  have find: "List.find (\<lambda>e. dr_src e = src \<and> dr_counter e = counter) t1 = None"
    using none by (simp add: table_get_def dr_key_def)
  have chk: "check_and_record cap src counter now lifetime t =
      (False, case vec_push cap t1 r of
         Inr t2 \<Rightarrow> t2
       | Inl _ \<Rightarrow> (let t2 = (case dr_oldest t1 of Some i \<Rightarrow> swap_remove i t1 | None \<Rightarrow> t1)
                   in case vec_push cap t2 r of Inr t3 \<Rightarrow> t3 | Inl _ \<Rightarrow> t2))"
    unfolding check_and_record_def Let_def t1_def [symmetric] find r_def [symmetric] by simp
  show ?thesis
  proof (cases "length t1 < cap")
    case True
    then show ?thesis using pos by (simp add: chk table_insert_def vec_push_def)
  next
    case False
    then have "t1 \<noteq> []" using assms(2) by auto
    then obtain i where i: "dr_oldest t1 = Some i" using dr_oldest_None [of t1] by (cases "dr_oldest t1") auto
    from dr_oldest_valid [OF i] have "length (swap_remove i t1) < cap"
      using ok False assms(2) by (simp add: length_swap_remove table_ok_def)
    then show ?thesis using pos False i by (simp add: chk table_insert_def vec_push_def)
  qed
qed

text \<open>
  A pair with a live record is a duplicate, and only such a pair. Afterwards the pair has a fresh record;
  no other pair has one that it had not before.
\<close>

lemma check_and_record_spec:
  assumes "table_ok cap dr_key t" "0 < cap" "check_and_record cap src counter now lifetime t = (d, t')"
  shows "d \<longleftrightarrow> dr_live now src counter t" "table_ok cap dr_key t'"
    and "table_get dr_key (src, counter) t' =
      Some \<lparr>dr_src = src, dr_counter = counter, dr_expires = instant_add now lifetime\<rparr>"
    and "k \<noteq> (src, counter) \<Longrightarrow> table_get dr_key k t' = Some e \<Longrightarrow> table_get dr_key k t = Some e"
proof -
  define t1 where "t1 = filter (\<lambda>e. \<not> has_reached now (dr_expires e)) t"
  define r where "r = \<lparr>dr_src = src, dr_counter = counter, dr_expires = instant_add now lifetime\<rparr>"
  have ok1: "table_ok cap dr_key t1" unfolding t1_def by (rule table_filter(1) [OF assms(1)])
  have get1: "table_get dr_key k t1 = Some e \<Longrightarrow> table_get dr_key k t = Some e" for k e
    unfolding t1_def table_filter(2) [OF assms(1)] by (auto split: option.splits if_splits)
  have key: "dr_key r = (src, counter)" by (simp add: r_def dr_key_def)
  have "(d \<longleftrightarrow> dr_live now src counter t) \<and> table_ok cap dr_key t' \<and> table_get dr_key (src, counter) t' = Some r \<and>
    (\<forall>k e. k \<noteq> (src, counter) \<longrightarrow> table_get dr_key k t' = Some e \<longrightarrow> table_get dr_key k t = Some e)"
  proof (cases "dr_live now src counter t")
    case False
    obtain t2 where t2: "table_insert cap dr_key dr_oldest r t1 = Some t2" "t' = t2" "\<not> d"
      using check_and_record_insert [OF assms(1,2) False, of lifetime] assms(3) unfolding t1_def r_def by auto
    show ?thesis
      using dt.ins_ok [OF ok1 t2(1)] dt.ins_get [OF ok1 t2(1)] dt.ins_other_cases [OF ok1 t2(1)] get1 False t2 key
      by (metis option.distinct(1))
  next
    case True
    then obtain e where e: "table_get dr_key (src, counter) t1 = Some e"
      unfolding t1_def table_filter(2) [OF assms(1)] by (auto simp: dr_live_def)
    then have "t' = update_first (\<lambda>e. dr_key e = (src, counter)) (\<lambda>e. e\<lparr>dr_expires := instant_add now lifetime\<rparr>) t1 \<and> d"
      using assms(3) by (auto simp: check_and_record_def Let_def t1_def [symmetric] table_get_def dr_key_def split: if_splits)
    moreover have kept: "dr_key (x\<lparr>dr_expires := y\<rparr>) = dr_key x" for x y by (simp add: dr_key_def)
    moreover have "e\<lparr>dr_expires := instant_add now lifetime\<rparr> = r"
      using e ok1 by (auto simp: r_def table_get_iff table_ok_def dr_key_def)
    ultimately show ?thesis
      using table_update_first [OF ok1, where k = "(src, counter)" and f = "\<lambda>e. e\<lparr>dr_expires := instant_add now lifetime\<rparr>"]
        get1 e True by auto
  qed
  then show "d \<longleftrightarrow> dr_live now src counter t" "table_ok cap dr_key t'"
    "table_get dr_key (src, counter) t' = Some \<lparr>dr_src = src, dr_counter = counter, dr_expires = instant_add now lifetime\<rparr>"
    "k \<noteq> (src, counter) \<Longrightarrow> table_get dr_key k t' = Some e \<Longrightarrow> table_get dr_key k t = Some e"
    unfolding r_def by blast+
qed

section \<open>Tables as sets\<close>

text \<open>
  The contract the binding and the group table share: a bounded set, whose removal reports whether the element was
  there.
\<close>

locale set_table =
  fixes ok :: "'t \<Rightarrow> bool" and elems :: "'t \<Rightarrow> 'x set" and add del :: "'x \<Rightarrow> ('t, 'e, unit) step"
  assumes add_ok: "ok t \<Longrightarrow> ok (snd (add x t))"
    and del_ok: "ok t \<Longrightarrow> ok (snd (del x t))"
    and add_elems: "ok t \<Longrightarrow> elems (snd (add x t)) = (if fst (add x t) = Inr () then insert x (elems t) else elems t)"
    and del_elems: "ok t \<Longrightarrow> elems (snd (del x t)) = elems t - {x}"
    and del_result: "ok t \<Longrightarrow> fst (del x t) = Inr () \<longleftrightarrow> x \<in> elems t"
begin

lemma add_then_del:
  assumes "ok t" "x \<notin> elems t" "fst (add x t) = Inr ()"
  shows "fst (del x (snd (add x t))) = Inr ()" "elems (snd (del x (snd (add x t)))) = elems t"
  using assms add_ok [OF assms(1), of x] by (auto simp: add_elems del_elems del_result)

lemma del_twice:
  assumes "ok t"
  shows "fst (del x (snd (del x t))) \<noteq> Inr ()"
  using assms del_ok [OF assms, of x] by (simp add: del_elems del_result)

end

lemmas bind_results = bind_entry_spec [OF _ prod.collapse [symmetric]] unbind_entry_spec [OF _ prod.collapse [symmetric]]

lemmas group_results = group_add_spec [OF _ prod.collapse [symmetric]] group_remove_spec [OF _ prod.collapse [symmetric]]

interpretation bt: set_table "bind_inv cap" set "bind_entry cap" unbind_entry for cap
  by unfold_locales (blast intro: bind_results | simp only: bind_results)+

interpretation gt: set_table "group_inv cap" group_members "\<lambda>(g, ep). group_add cap g ep" "\<lambda>(g, ep). group_remove g ep" for cap
  by unfold_locales (simp_all add: split_def group_results del: insert_iff)

text \<open>The operations on the group table, and what they do to a relation of groups and endpoints.\<close>

datatype group_op =
    GroupAdd group_address endpoint | GroupRemove group_address endpoint | GroupRemoveAll endpoint | GroupClear

fun group_apply :: "nat \<Rightarrow> group_table \<Rightarrow> group_op \<Rightarrow> group_table" where
  "group_apply cap t (GroupAdd g ep) = snd (group_add cap g ep t)"
| "group_apply cap t (GroupRemove g ep) = snd (group_remove g ep t)"
| "group_apply cap t (GroupRemoveAll ep) = group_remove_all ep t"
| "group_apply cap t GroupClear = group_clear t"

fun relation_apply :: "nat \<Rightarrow> (group_address \<times> endpoint) set \<Rightarrow> group_op \<Rightarrow> (group_address \<times> endpoint) set" where
  "relation_apply cap R (GroupAdd g ep) =
     (if ep \<notin> {0, ENDPOINT_BROADCAST} \<and> (g \<in> Domain R \<or> card (Domain R) < cap) then insert (g, ep) R else R)"
| "relation_apply cap R (GroupRemove g ep) = R - {(g, ep)}"
| "relation_apply cap R (GroupRemoveAll ep) = {m \<in> R. snd m \<noteq> ep}"
| "relation_apply cap R GroupClear = {}"

lemma group_domain:
  assumes "group_inv cap t"
  shows "Domain (group_members t) = ge_group ` set t" "card (Domain (group_members t)) = length t"
proof -
  show d: "Domain (group_members t) = ge_group ` set t"
    using assms by (fastforce simp: group_members_def group_inv_def)
  show "card (Domain (group_members t)) = length t"
    using assms distinct_card [of "map ge_group t"] by (simp add: d group_inv_def table_ok_def)
qed

lemma group_apply_refines:
  assumes "group_inv cap t"
  shows "group_inv cap (group_apply cap t op)"
    and "group_members (group_apply cap t op) = relation_apply cap (group_members t) op"
proof -
  have m: "g \<in> Domain (group_members t) \<longleftrightarrow> group_is_member g t" for g
    using group_is_member_members [OF assms, of g] by auto
  have "group_inv cap (group_apply cap t op) \<and> group_members (group_apply cap t op) = relation_apply cap (group_members t) op"
  proof (cases op)
    case (GroupAdd g ep)
    then show ?thesis
      using group_add_spec [OF assms, of g ep "fst (group_add cap g ep t)" "snd (group_add cap g ep t)"]
      by (auto simp: m group_domain(2) [OF assms] split: if_splits)
  next
    case (GroupRemove g ep)
    then show ?thesis
      using group_remove_spec [OF assms, of g ep "fst (group_remove g ep t)" "snd (group_remove g ep t)"] by simp
  next
    case (GroupRemoveAll ep)
    then show ?thesis using group_remove_all_spec [OF assms, of ep] by simp
  next
    case GroupClear
    then show ?thesis by (simp add: group_clear_def group_inv_def group_members_def table_ok_def)
  qed
  then show "group_inv cap (group_apply cap t op)"
    "group_members (group_apply cap t op) = relation_apply cap (group_members t) op" by auto
qed

lemma group_run_refines:
  "group_inv cap t \<Longrightarrow> group_inv cap (foldl (group_apply cap) t ops) \<and>
     group_members (foldl (group_apply cap) t ops) = foldl (relation_apply cap) (group_members t) ops"
  by (induction ops arbitrary: t) (simp_all add: group_apply_refines)

text \<open>
  C40: The group table is a relation between groups and endpoints. After any sequence of additions, removals,
  removals of an endpoint from all groups and resets, starting from the empty table, an endpoint is reported as a member of a
  group exactly when the same operations on a relation put the pair there, a group is known exactly when it has a
  member, and the table holds one entry per group with a member, never more than its capacity.
\<close>

theorem group_table_is_relation:
  "(group_contains g ep (foldl (group_apply cap) [] ops) \<longleftrightarrow> (g, ep) \<in> foldl (relation_apply cap) {} ops) \<and>
   (group_is_member g (foldl (group_apply cap) [] ops) \<longleftrightarrow> g \<in> Domain (foldl (relation_apply cap) {} ops)) \<and>
   length (foldl (group_apply cap) [] ops) = card (Domain (foldl (relation_apply cap) {} ops)) \<and>
   length (foldl (group_apply cap) [] ops) \<le> cap"
proof -
  define t where "t = foldl (group_apply cap) [] ops"
  have "group_inv cap []" "group_members [] = {}" by (auto simp: group_inv_def group_members_def table_ok_def)
  then have t: "group_inv cap t" "foldl (relation_apply cap) {} ops = group_members t"
    using group_run_refines [of cap "[]" ops] by (simp_all add: t_def)
  then show ?thesis
    unfolding t_def [symmetric] t(2)
    by (auto simp: group_contains_members group_is_member_members group_domain(2))
       (simp add: group_inv_def table_ok_def)
qed

section \<open>How long a duplicate is recognised\<close>

lemma dr_oldest_least:
  assumes "dr_oldest t = Some i" "e \<in> set t"
  shows "dr_expires (t ! i) \<le> dr_expires e"
proof -
  obtain x where "arg_min_first dr_expires 0 t = Some (i, x)" using assms(1) by (auto simp: dr_oldest_def)
  with arg_min_first_valid [OF this] arg_min_first_least [OF this assms(2)] show ?thesis by simp
qed

text \<open>
  A record of \<open>p\<close> that lasts at least until \<open>X\<close> is there, and every other record that lasts as long belongs to
  a pair of \<open>A\<close>.
\<close>

definition remembers :: "nat \<Rightarrow> (short_address \<times> u8) \<Rightarrow> instant \<Rightarrow> (short_address \<times> u8) set \<Rightarrow> duplicate_table \<Rightarrow> bool" where
  "remembers cap p X A t \<longleftrightarrow>
     table_ok cap dr_key t \<and> (\<exists>e. table_get dr_key p t = Some e \<and> X \<le> dr_expires e) \<and>
     (\<forall>e \<in> set t. X \<le> dr_expires e \<longrightarrow> dr_key e \<noteq> p \<longrightarrow> dr_key e \<in> A)"

lemma eviction_spares:
  assumes "remembers cap p X A t" "finite A" "card A < cap" "q \<in> A" "table_get dr_key q t = None"
    and "cap \<le> length t" "dr_oldest t = Some v"
  shows "dr_key (t ! v) \<noteq> p"
proof
  assume v: "dr_key (t ! v) = p"
  have ok: "distinct (map dr_key t)" "length t = cap" using assms(1,6) by (auto simp: remembers_def table_ok_def)
  have "table_get dr_key p t = Some (t ! v)"
    using v dr_oldest_valid [OF assms(7)] by (simp add: table_get_iff [OF ok(1)])
  then have "X \<le> dr_expires (t ! v)" using assms(1) by (auto simp: remembers_def)
  then have "dr_key e \<in> insert p A - {q}" if "e \<in> set t" for e
    using that dr_oldest_least [OF assms(7) that] assms(1,5) by (auto simp: remembers_def table_get_None)
  then have "dr_key ` set t \<subseteq> insert p A - {q}" by blast
  then have "card (dr_key ` set t) \<le> card (insert p A - {q})" using assms(2) by (intro card_mono) auto
  also have "\<dots> \<le> card A"
    using assms(2,4) card_Diff_singleton_if [of "insert p A" q] card_insert_le_m1 [of "Suc (card A)" A p] by auto
  finally have "card (dr_key ` set t) \<le> card A" .
  moreover have "card (dr_key ` set t) = cap" using distinct_card [OF ok(1)] ok(2) by simp
  ultimately show False using assms(3) by simp
qed

lemma remembers_filter:
  assumes "remembers cap p X A t" "\<not> has_reached now X"
  shows "remembers cap p X A (filter (\<lambda>e. \<not> has_reached now (dr_expires e)) t)"
proof -
  have ok: "table_ok cap dr_key t" using assms(1) by (simp add: remembers_def)
  show ?thesis
    using assms table_filter(1) [OF ok] unfolding remembers_def table_filter(2) [OF ok]
    by (fastforce simp: has_reached_def)
qed

lemma check_and_record_other:
  assumes "table_ok cap dr_key t" "0 < cap" "check_and_record cap src counter now lifetime t = (d, t')"
    and "k \<noteq> (src, counter)" "table_get dr_key k t = Some e" "\<not> has_reached now (dr_expires e)"
  defines "t1 \<equiv> filter (\<lambda>e. \<not> has_reached now (dr_expires e)) t"
  shows "table_get dr_key k t' = Some e \<or>
    (table_get dr_key (src, counter) t1 = None \<and> cap \<le> length t1 \<and> (\<exists>v. dr_oldest t1 = Some v \<and> dr_key (t1 ! v) = k))"
proof -
  have ok1: "table_ok cap dr_key t1" unfolding t1_def by (rule table_filter(1) [OF assms(1)])
  have k1: "table_get dr_key k t1 = Some e" using assms(5,6) unfolding t1_def table_filter(2) [OF assms(1)] by simp
  show ?thesis
  proof (cases "dr_live now src counter t")
    case True
    then obtain x where "table_get dr_key (src, counter) t1 = Some x"
      unfolding t1_def table_filter(2) [OF assms(1)] by (auto simp: dr_live_def)
    then have "t' = update_first (\<lambda>e. dr_key e = (src, counter)) (\<lambda>e. e\<lparr>dr_expires := instant_add now lifetime\<rparr>) t1"
      using assms(3) by (auto simp: check_and_record_def Let_def t1_def [symmetric] table_get_def dr_key_def split: if_splits)
    then show ?thesis using k1 assms(4) table_update_first(2) [OF ok1, of "\<lambda>e. e\<lparr>dr_expires := instant_add now lifetime\<rparr>" k "(src, counter)"]
      by (simp add: dr_key_def [abs_def])
  next
    case False
    define r where "r = \<lparr>dr_src = src, dr_counter = counter, dr_expires = instant_add now lifetime\<rparr>"
    have key: "dr_key r = (src, counter)" by (simp add: r_def dr_key_def)
    obtain t2 where "table_insert cap dr_key dr_oldest r t1 = Some t2" "t' = t2"
      using check_and_record_insert [OF assms(1,2) False, of lifetime] assms(3) unfolding t1_def r_def by auto
    then have "table_insert cap dr_key dr_oldest r t1 = Some t'" by simp
    with ok1 show ?thesis
    proof (cases rule: dt.insert_cases)
      case (Replaced pos)
      then show ?thesis using table_ok_update(2) [OF ok1 Replaced(1,2)] k1 assms(4) key by simp
    next
      case Added
      then show ?thesis using k1 by (simp add: table_get_append)
    next
      case (Evicted v)
      then show ?thesis
        using k1 key table_swap_remove(2) [OF ok1 Evicted(4), of k] by (auto simp: table_get_append)
    qed
  qed
qed

lemma remembers_step:
  assumes "remembers cap p X A t" "finite A" "card A < cap" "(src, counter) \<in> insert p A"
    and "\<not> has_reached now X" "X \<le> instant_add now lifetime"
  shows "remembers cap p X A (snd (check_and_record cap src counter now lifetime t))"
proof -
  define q where "q = (src, counter)"
  define t1 where "t1 = filter (\<lambda>e. \<not> has_reached now (dr_expires e)) t"
  obtain d t' where c: "check_and_record cap src counter now lifetime t = (d, t')" by fastforce
  have ok: "table_ok cap dr_key t" "0 < cap" using assms(1,3) by (auto simp: remembers_def)
  note spec = check_and_record_spec [OF ok c]
  obtain e where e: "table_get dr_key p t = Some e" "X \<le> dr_expires e" using assms(1) by (auto simp: remembers_def)
  then have live: "\<not> has_reached now (dr_expires e)" using assms(5) by (auto simp: has_reached_def)
  have old: "dr_key x \<in> A" if "x \<in> set t'" "X \<le> dr_expires x" "dr_key x \<noteq> p" for x
  proof (cases "dr_key x = q")
    case True
    then show ?thesis using assms(4) that(3) by (simp add: q_def)
  next
    case False
    have "table_get dr_key (dr_key x) t' = Some x" using that(1) spec(2) by (simp add: table_get_iff table_ok_def)
    then have "table_get dr_key (dr_key x) t = Some x" using spec(4) False by (simp add: q_def)
    then show ?thesis using that assms(1) by (auto simp: remembers_def table_get_iff table_ok_def)
  qed
  have "\<exists>e. table_get dr_key p t' = Some e \<and> X \<le> dr_expires e"
  proof (cases "p = q")
    case True
    then show ?thesis using spec(3) assms(6) by (simp add: q_def)
  next
    case False
    have r1: "remembers cap p X A t1" unfolding t1_def by (rule remembers_filter [OF assms(1,5)])
    have "q \<in> A" using False assms(4) by (simp add: q_def)
    have "table_get dr_key p t' = Some e"
      using check_and_record_other [OF ok c False [unfolded q_def] e(1) live]
        eviction_spares [OF r1 assms(2,3) \<open>q \<in> A\<close>] unfolding t1_def [symmetric] q_def by blast
    with e(2) show ?thesis by simp
  qed
  with old spec(2) show ?thesis by (simp add: remembers_def c)
qed

lemma remembers_new:
  assumes "table_ok cap dr_key t" "0 < cap"
    and "\<forall>e \<in> set t. instant_add now lifetime \<le> dr_expires e \<longrightarrow> dr_key e \<noteq> (src, counter) \<longrightarrow> dr_key e \<in> A"
  shows "remembers cap (src, counter) (instant_add now lifetime) A (snd (check_and_record cap src counter now lifetime t))"
proof -
  obtain d t' where c: "check_and_record cap src counter now lifetime t = (d, t')" by fastforce
  note spec = check_and_record_spec [OF assms(1,2) c]
  have "dr_key x \<in> A" if "x \<in> set t'" "instant_add now lifetime \<le> dr_expires x" "dr_key x \<noteq> (src, counter)" for x
  proof -
    have "table_get dr_key (dr_key x) t' = Some x" using that(1) spec(2) by (simp add: table_get_iff table_ok_def)
    then have "table_get dr_key (dr_key x) t = Some x" using spec(4) that(3) by simp
    then show ?thesis using that assms(1,3) by (auto simp: table_get_iff table_ok_def)
  qed
  then show ?thesis using spec(2,3) by (simp add: remembers_def c)
qed

lemma remembers_run:
  assumes "finite A" "card A < cap" "\<not> has_reached now (instant_add first lifetime)"
  shows "remembers cap p (instant_add first lifetime) A t \<Longrightarrow>
    (\<And>s c n. (s, c, n) \<in> set as \<Longrightarrow> first \<le> n \<and> n \<le> now \<and> (s, c) \<in> insert p A) \<Longrightarrow>
    remembers cap p (instant_add first lifetime) A
      (foldl (\<lambda>t (s, c, n). snd (check_and_record cap s c n lifetime t)) t as)"
proof (induction as arbitrary: t)
  case (Cons a as)
  obtain s c n where a: "a = (s, c, n)" by (cases a)
  have n: "first \<le> n" "n \<le> now" "(s, c) \<in> insert p A" using Cons.prems(2) by (auto simp: a)
  have "\<not> has_reached n (instant_add first lifetime)" using assms(3) n(2) by (auto simp: has_reached_def)
  moreover have "instant_add first lifetime \<le> instant_add n lifetime"
    using n(1) by (simp add: instant_add_def word_le_nat_alt unat_saturating_add)
  ultimately have "remembers cap p (instant_add first lifetime) A (snd (check_and_record cap s c n lifetime t))"
    using remembers_step [OF Cons.prems(1) assms(1,2)] n(3) by simp
  then show ?case unfolding a foldl_Cons prod.case by (rule Cons.IH) (rule Cons.prems(2), simp)
qed simp

text \<open>
  C39: A duplicate is recognised for as long as its record is due. Once a pair of source and APS counter has been seen,
  it is a duplicate until the lifetime of its record has passed, whatever arrives in between, as long as fewer
  other pairs than the table has entries compete with it: those that arrived after it, and those whose records
  last at least as long.
\<close>

theorem duplicate_recognised_in_lifetime:
  assumes "table_ok cap dr_key t"
    and "\<not> has_reached now (instant_add first lifetime)"
    and "\<forall>(s, c, n) \<in> set arrivals. first \<le> n \<and> n \<le> now"
    and "card (((\<lambda>(s, c, n). (s, c)) ` set arrivals \<union>
                dr_key ` {e \<in> set t. instant_add first lifetime \<le> dr_expires e}) - {(src, counter)}) < cap"
  shows "fst (check_and_record cap src counter now lifetime
     (foldl (\<lambda>t (s, c, n). snd (check_and_record cap s c n lifetime t))
        (snd (check_and_record cap src counter first lifetime t)) arrivals))"
proof -
  define A where "A = ((\<lambda>(s, c, n). (s, c)) ` set arrivals \<union>
    dr_key ` {e \<in> set t. instant_add first lifetime \<le> dr_expires e}) - {(src, counter)}"
  define t' where "t' = foldl (\<lambda>t (s, c, n). snd (check_and_record cap s c n lifetime t))
    (snd (check_and_record cap src counter first lifetime t)) arrivals"
  have A: "finite A" "card A < cap" using assms(4) by (simp_all add: A_def)
  then have cap: "0 < cap" by simp
  have r: "remembers cap (src, counter) (instant_add first lifetime) A t'"
    unfolding t'_def
  proof (rule remembers_run [OF A assms(2) remembers_new [OF assms(1) cap]])
    show "first \<le> n \<and> n \<le> now \<and> (s, c) \<in> insert (src, counter) A" if "(s, c, n) \<in> set arrivals" for s c n
      using that assms(3) by (force simp: A_def)
  qed (auto simp: A_def)
  then have "dr_live now src counter t'" using assms(2) by (auto simp: remembers_def dr_live_def has_reached_def)
  then have "fst (check_and_record cap src counter now lifetime t')"
    using check_and_record_spec(1) [OF _ cap prod.collapse [symmetric]] r unfolding remembers_def by blast
  then show ?thesis by (simp add: t'_def)
qed

theorem duplicate_recognised_in_lifetime_witness:
  "fst (check_and_record 2 0x1A2B 7 1600 6400
     (foldl (\<lambda>t (s, c, n). snd (check_and_record 2 s c n 6400 t)) (snd (check_and_record 2 0x1A2B 7 0 6400 []))
        [(0x3C4D, 9, 100), (0x1A2B, 7, 200)]))"
  by (rule duplicate_recognised_in_lifetime)
     (simp_all add: table_ok_def has_reached_def instant_add_def saturating_add_def insert_Diff_if)

end
