(* ===== verification/ApsCommand.thy ===== *)
theory ApsCommand
  imports ApsTables
begin

text \<open>
  The APS commands, \<^verbatim>\<open>panweave-aps/src/command.rs\<close>: Transport Key with its key descriptors, Update and
  Remove Device, Request, Switch, Verify and Confirm Key, Tunnel and the Relay Message commands. A command
  ends where its frame ends, so the commands interpret \<open>payload_codec\<close>.
\<close>

section \<open>Identifiers\<close>

datatype aps_command_id =
    CiTransportKey | CiUpdateDevice | CiRemoveDevice | CiRequestKey | CiSwitchKey | CiTunnel | CiVerifyKey
  | CiConfirmKey | CiRelayDownstream | CiRelayUpstream | CiUnknown u8

definition aps_command_id_from_raw :: "u8 \<Rightarrow> aps_command_id" where
  "aps_command_id_from_raw v =
     (if v = 0x05 then CiTransportKey else if v = 0x06 then CiUpdateDevice else if v = 0x07 then CiRemoveDevice
      else if v = 0x08 then CiRequestKey else if v = 0x09 then CiSwitchKey else if v = 0x0E then CiTunnel
      else if v = 0x0F then CiVerifyKey else if v = 0x10 then CiConfirmKey else if v = 0x11 then CiRelayDownstream
      else if v = 0x12 then CiRelayUpstream else CiUnknown v)"

definition aps_command_id_raw :: "aps_command_id \<Rightarrow> u8" where
  "aps_command_id_raw i =
     (case i of CiTransportKey \<Rightarrow> 0x05 | CiUpdateDevice \<Rightarrow> 0x06 | CiRemoveDevice \<Rightarrow> 0x07 | CiRequestKey \<Rightarrow> 0x08
      | CiSwitchKey \<Rightarrow> 0x09 | CiTunnel \<Rightarrow> 0x0E | CiVerifyKey \<Rightarrow> 0x0F | CiConfirmKey \<Rightarrow> 0x10
      | CiRelayDownstream \<Rightarrow> 0x11 | CiRelayUpstream \<Rightarrow> 0x12 | CiUnknown v \<Rightarrow> v)"

definition TLV_LINK_KEY_FEATURES :: u8 where
  "TLV_LINK_KEY_FEATURES = 0"

definition TLV_RELAY_MESSAGE :: u8 where
  "TLV_RELAY_MESSAGE = 0"

definition LINK_KEY_FEATURE_FRAME_COUNTER_SYNC :: u8 where
  "LINK_KEY_FEATURE_FRAME_COUNTER_SYNC = 1"

section \<open>The commands\<close>

text \<open>\<^verbatim>\<open>take_rest\<close> followed by the validation of what it took, when there is anything.\<close>

definition r_rest_tlvs :: "bytes decode" where
  "r_rest_tlvs =
     step_try r_rest (\<lambda>tlvs.
     if tlvs \<noteq> [] then (case tlv_validate (\<lambda>_. False) tlvs of Inl e \<Rightarrow> step_err (Tlv_err e) | Inr _ \<Rightarrow> step_ok tlvs)
     else step_ok tlvs)"

datatype key_descriptor =
    KdTrustCenterLinkKey key128 extended_address extended_address bytes
  | KdNetworkKey key128 key_sequence extended_address extended_address
  | KdApplicationLinkKey key128 extended_address bool bytes
  | KdBasicAuthorizationKey key128 key_sequence extended_address extended_address
  | KdEphemeralAuthorization bool

definition kd_key_type :: "key_descriptor \<Rightarrow> key_type" where
  "kd_key_type d =
     (case d of KdTrustCenterLinkKey _ _ _ _ \<Rightarrow> TrustCenterLinkKey | KdNetworkKey _ _ _ _ \<Rightarrow> StandardNetworkKey
      | KdApplicationLinkKey _ _ _ _ \<Rightarrow> ApplicationLinkKey | KdBasicAuthorizationKey _ _ _ _ \<Rightarrow> BasicAuthorization
      | KdEphemeralAuthorization g \<Rightarrow> if g then EphemeralGlobal else EphemeralUnique)"

definition transport_key_decode :: "key_descriptor decode" where
  "transport_key_decode =
     step_try (step_map key_type_from_raw r_u8) (\<lambda>key_type.
     if key_type = EphemeralGlobal \<or> key_type = EphemeralUnique
     then step_ok (KdEphemeralAuthorization (key_type = EphemeralGlobal))
     else
       step_try (r_array 16) (\<lambda>key.
       case key_type of
         TrustCenterLinkKey \<Rightarrow>
           step_try r_u64_le (\<lambda>destination. step_try r_u64_le (\<lambda>source. step_map (\<lambda>tlvs.
             KdTrustCenterLinkKey key destination source tlvs) r_rest_tlvs))
       | StandardNetworkKey \<Rightarrow>
           step_try r_u8 (\<lambda>sequence. step_try r_u64_le (\<lambda>destination. step_map (\<lambda>source.
             KdNetworkKey key sequence destination source) r_u64_le))
       | BasicAuthorization \<Rightarrow>
           step_try r_u8 (\<lambda>sequence. step_try r_u64_le (\<lambda>destination. step_map (\<lambda>source.
             KdBasicAuthorizationKey key sequence destination source) r_u64_le))
       | ApplicationLinkKey \<Rightarrow>
           step_try r_u64_le (\<lambda>partner. step_try r_u8 (\<lambda>initiator. step_map (\<lambda>tlvs.
             KdApplicationLinkKey key partner (initiator AND 1 \<noteq> 0) tlvs) r_rest_tlvs))
       | _ \<Rightarrow> step_err (Unsupported ''transport key type'')))"

definition transport_key_encoded_len :: "key_descriptor \<Rightarrow> nat" where
  "transport_key_encoded_len d =
     1 + (case d of KdTrustCenterLinkKey _ _ _ tlvs \<Rightarrow> 16 + 8 + 8 + length tlvs
          | KdNetworkKey _ _ _ _ \<Rightarrow> 16 + 1 + 8 + 8 | KdBasicAuthorizationKey _ _ _ _ \<Rightarrow> 16 + 1 + 8 + 8
          | KdApplicationLinkKey _ _ _ tlvs \<Rightarrow> 16 + 8 + 1 + length tlvs | KdEphemeralAuthorization _ \<Rightarrow> 0)"

definition transport_key_encode :: "key_descriptor \<Rightarrow> encode" where
  "transport_key_encode d =
     step_try (w_u8 (key_type_raw (kd_key_type d))) (\<lambda>_.
     case d of
       KdTrustCenterLinkKey key destination source tlvs \<Rightarrow>
         step_try (w_bytes key) (\<lambda>_. step_try (w_u64_le destination) (\<lambda>_. step_try (w_u64_le source) (\<lambda>_. w_bytes tlvs)))
     | KdNetworkKey key sequence destination source \<Rightarrow>
         step_try (w_bytes key) (\<lambda>_. step_try (w_u8 sequence) (\<lambda>_. step_try (w_u64_le destination) (\<lambda>_. w_u64_le source)))
     | KdBasicAuthorizationKey key sequence destination source \<Rightarrow>
         step_try (w_bytes key) (\<lambda>_. step_try (w_u8 sequence) (\<lambda>_. step_try (w_u64_le destination) (\<lambda>_. w_u64_le source)))
     | KdApplicationLinkKey key partner initiator tlvs \<Rightarrow>
         step_try (w_bytes key) (\<lambda>_. step_try (w_u64_le partner) (\<lambda>_. step_try (w_u8 (of_bool initiator)) (\<lambda>_. w_bytes tlvs)))
     | KdEphemeralAuthorization _ \<Rightarrow> step_ok ())"

definition write_link_key_features :: "u8 \<Rightarrow> encode" where
  "write_link_key_features features = write_tlv TLV_LINK_KEY_FEATURES [features]"

datatype update_device_status = UdSecuredRejoin | UdUnsecuredJoin | UdDeviceLeft | UdTrustCenterRejoin | UdReserved u8

definition update_device_status_from_raw :: "u8 \<Rightarrow> update_device_status" where
  "update_device_status_from_raw v =
     (if v = 0 then UdSecuredRejoin else if v = 1 then UdUnsecuredJoin else if v = 2 then UdDeviceLeft
      else if v = 3 then UdTrustCenterRejoin else UdReserved v)"

definition update_device_status_raw :: "update_device_status \<Rightarrow> u8" where
  "update_device_status_raw s =
     (case s of UdSecuredRejoin \<Rightarrow> 0 | UdUnsecuredJoin \<Rightarrow> 1 | UdDeviceLeft \<Rightarrow> 2 | UdTrustCenterRejoin \<Rightarrow> 3
      | UdReserved v \<Rightarrow> v)"

record update_device_cmd =
  ud_device :: extended_address
  ud_short :: short_address
  ud_status :: update_device_status
  ud_joiner_tlvs :: bytes

definition update_device_decode :: "update_device_cmd decode" where
  "update_device_decode =
     step_try r_u64_le (\<lambda>device. step_try r_u16_le (\<lambda>short. step_try r_u8 (\<lambda>status. step_map (\<lambda>tlvs.
       \<lparr>ud_device = device, ud_short = short, ud_status = update_device_status_from_raw status,
        ud_joiner_tlvs = tlvs\<rparr>) r_rest_tlvs)))"

definition update_device_encode :: "update_device_cmd \<Rightarrow> encode" where
  "update_device_encode c =
     step_try (w_u64_le (ud_device c)) (\<lambda>_. step_try (w_u16_le (ud_short c)) (\<lambda>_.
     step_try (w_u8 (update_device_status_raw (ud_status c))) (\<lambda>_. w_bytes (ud_joiner_tlvs c))))"

datatype request_key_type = RkApplicationLinkKey | RkTrustCenterLinkKey | RkUnknown u8

definition request_key_type_from_raw :: "u8 \<Rightarrow> request_key_type" where
  "request_key_type_from_raw v =
     (if v = 2 then RkApplicationLinkKey else if v = 4 then RkTrustCenterLinkKey else RkUnknown v)"

definition request_key_type_raw :: "request_key_type \<Rightarrow> u8" where
  "request_key_type_raw t = (case t of RkApplicationLinkKey \<Rightarrow> 2 | RkTrustCenterLinkKey \<Rightarrow> 4 | RkUnknown v \<Rightarrow> v)"

record request_key_cmd =
  rk_key_type :: request_key_type
  rk_partner :: "extended_address option"

definition request_key_decode :: "request_key_cmd decode" where
  "request_key_decode =
     step_try (step_map request_key_type_from_raw r_u8) (\<lambda>key_type.
     step_map (\<lambda>partner. \<lparr>rk_key_type = key_type, rk_partner = partner\<rparr>)
       (if key_type = RkApplicationLinkKey then step_map Some r_u64_le
        else (\<lambda>r. if 8 \<le> r_remaining r then step_map Some r_u64_le r else step_ok None r)))"

definition request_key_encode :: "request_key_cmd \<Rightarrow> encode" where
  "request_key_encode c =
     step_try (w_u8 (request_key_type_raw (rk_key_type c))) (\<lambda>_.
     if rk_key_type c = RkApplicationLinkKey then w_present w_u64_le ''partner'' (rk_partner c) else step_ok ())"

record tunnel_cmd =
  tu_destination :: extended_address
  tu_tunneled :: bytes

definition tunnel_decode :: "tunnel_cmd decode" where
  "tunnel_decode =
     step_try r_u64_le (\<lambda>destination. step_try r_rest (\<lambda>tunneled.
     if length tunneled < 2 + 5 then step_err (Truncated (2 + 5) (length tunneled))
     else step_ok \<lparr>tu_destination = destination, tu_tunneled = tunneled\<rparr>))"

definition tunnel_encode :: "tunnel_cmd \<Rightarrow> encode" where
  "tunnel_encode c = step_try (w_u64_le (tu_destination c)) (\<lambda>_. w_bytes (tu_tunneled c))"

record verify_key_cmd =
  vk_key_type :: key_type
  vk_source :: extended_address
  vk_hash :: bytes

definition verify_key_decode :: "verify_key_cmd decode" where
  "verify_key_decode =
     step_try (step_map key_type_from_raw r_u8) (\<lambda>t. step_try r_u64_le (\<lambda>source. step_map (\<lambda>hash.
       \<lparr>vk_key_type = t, vk_source = source, vk_hash = hash\<rparr>) (r_array 16)))"

definition verify_key_encode :: "verify_key_cmd \<Rightarrow> encode" where
  "verify_key_encode c =
     step_try (w_u8 (key_type_raw (vk_key_type c))) (\<lambda>_. step_try (w_u64_le (vk_source c)) (\<lambda>_. w_bytes (vk_hash c)))"

record confirm_key_cmd =
  ck_status :: aps_status
  ck_key_type :: key_type
  ck_destination :: extended_address

definition confirm_key_decode :: "confirm_key_cmd decode" where
  "confirm_key_decode =
     step_try (step_map aps_status_from_raw r_u8) (\<lambda>s. step_try (step_map key_type_from_raw r_u8) (\<lambda>t.
     step_map (\<lambda>destination. \<lparr>ck_status = s, ck_key_type = t, ck_destination = destination\<rparr>) r_u64_le))"

definition confirm_key_encode :: "confirm_key_cmd \<Rightarrow> encode" where
  "confirm_key_encode c =
     step_try (w_u8 (aps_status_raw (ck_status c))) (\<lambda>_. step_try (w_u8 (key_type_raw (ck_key_type c))) (\<lambda>_.
     w_u64_le (ck_destination c)))"

record relay_message =
  rm_joiner :: extended_address
  rm_message :: bytes

definition relay_message_decode :: "relay_message decode" where
  "relay_message_decode =
     step_try r_rest (\<lambda>bytes.
     case tlv_validate (\<lambda>_. False) bytes of
       Inl e \<Rightarrow> step_err (Tlv_err e)
     | Inr s \<Rightarrow>
         (case set_require s TLV_RELAY_MESSAGE of
            Inl e \<Rightarrow> step_err (Tlv_err e)
          | Inr relay \<Rightarrow>
              (case r_u64_le (r_new (tlv_value relay)) of
                 (Inl e, _) \<Rightarrow> step_err e
               | (Inr joiner, rr) \<Rightarrow>
                   (let message = fst (r_take_rest rr) in
                    if length message < 2 then step_err (Truncated 2 (length message))
                    else step_ok \<lparr>rm_joiner = joiner, rm_message = message\<rparr>))))"

definition relay_message_encode :: "relay_message \<Rightarrow> encode" where
  "relay_message_encode c =
     (let len = 8 + length (rm_message c) in
      if len = 0 \<or> 256 < len then step_err (Unrepresentable ''relay message'')
      else step_try (w_u8 TLV_RELAY_MESSAGE) (\<lambda>_. step_try (w_u8 (of_nat (len - 1))) (\<lambda>_.
           step_try (w_u64_le (rm_joiner c)) (\<lambda>_. w_bytes (rm_message c)))))"

section \<open>The command frame\<close>

datatype aps_command =
    CmdTransportKey key_descriptor
  | CmdUpdateDevice update_device_cmd
  | CmdRemoveDevice extended_address
  | CmdRequestKey request_key_cmd
  | CmdSwitchKey key_sequence
  | CmdTunnel tunnel_cmd
  | CmdVerifyKey verify_key_cmd
  | CmdConfirmKey confirm_key_cmd
  | CmdRelayDownstream relay_message
  | CmdRelayUpstream relay_message

definition aps_command_ident :: "aps_command \<Rightarrow> aps_command_id" where
  "aps_command_ident c =
     (case c of CmdTransportKey _ \<Rightarrow> CiTransportKey | CmdUpdateDevice _ \<Rightarrow> CiUpdateDevice
      | CmdRemoveDevice _ \<Rightarrow> CiRemoveDevice | CmdRequestKey _ \<Rightarrow> CiRequestKey | CmdSwitchKey _ \<Rightarrow> CiSwitchKey
      | CmdTunnel _ \<Rightarrow> CiTunnel | CmdVerifyKey _ \<Rightarrow> CiVerifyKey | CmdConfirmKey _ \<Rightarrow> CiConfirmKey
      | CmdRelayDownstream _ \<Rightarrow> CiRelayDownstream | CmdRelayUpstream _ \<Rightarrow> CiRelayUpstream)"

definition aps_command_decode_body :: "aps_command_id \<Rightarrow> aps_command decode" where
  "aps_command_decode_body i =
     (case i of
        CiTransportKey \<Rightarrow> step_map CmdTransportKey transport_key_decode
      | CiUpdateDevice \<Rightarrow> step_map CmdUpdateDevice update_device_decode
      | CiRemoveDevice \<Rightarrow> step_map CmdRemoveDevice r_u64_le
      | CiRequestKey \<Rightarrow> step_map CmdRequestKey request_key_decode
      | CiSwitchKey \<Rightarrow> step_map CmdSwitchKey r_u8
      | CiTunnel \<Rightarrow> step_map CmdTunnel tunnel_decode
      | CiVerifyKey \<Rightarrow> step_map CmdVerifyKey verify_key_decode
      | CiConfirmKey \<Rightarrow> step_map CmdConfirmKey confirm_key_decode
      | CiRelayDownstream \<Rightarrow> step_map CmdRelayDownstream relay_message_decode
      | CiRelayUpstream \<Rightarrow> step_map CmdRelayUpstream relay_message_decode
      | CiUnknown _ \<Rightarrow> step_err (Unsupported ''APS command''))"

definition aps_command_decode :: "aps_command decode" where
  "aps_command_decode = step_try r_u8 (\<lambda>v. aps_command_decode_body (aps_command_id_from_raw v))"

definition aps_command_encoded_len :: "aps_command \<Rightarrow> nat" where
  "aps_command_encoded_len c =
     1 + (case c of
        CmdTransportKey d \<Rightarrow> transport_key_encoded_len d
      | CmdUpdateDevice x \<Rightarrow> 8 + 2 + 1 + length (ud_joiner_tlvs x)
      | CmdRemoveDevice _ \<Rightarrow> 8
      | CmdRequestKey x \<Rightarrow> 1 + (if rk_key_type x = RkApplicationLinkKey then 8 else 0)
      | CmdSwitchKey _ \<Rightarrow> 1
      | CmdTunnel x \<Rightarrow> 8 + length (tu_tunneled x)
      | CmdVerifyKey _ \<Rightarrow> 1 + 8 + 16
      | CmdConfirmKey _ \<Rightarrow> 1 + 1 + 8
      | CmdRelayDownstream x \<Rightarrow> 2 + 8 + length (rm_message x)
      | CmdRelayUpstream x \<Rightarrow> 2 + 8 + length (rm_message x))"

definition aps_command_encode_body :: "aps_command \<Rightarrow> encode" where
  "aps_command_encode_body c =
     (case c of
        CmdTransportKey d \<Rightarrow> transport_key_encode d
      | CmdUpdateDevice x \<Rightarrow> update_device_encode x
      | CmdRemoveDevice a \<Rightarrow> w_u64_le a
      | CmdRequestKey x \<Rightarrow> request_key_encode x
      | CmdSwitchKey q \<Rightarrow> w_u8 q
      | CmdTunnel x \<Rightarrow> tunnel_encode x
      | CmdVerifyKey x \<Rightarrow> verify_key_encode x
      | CmdConfirmKey x \<Rightarrow> confirm_key_encode x
      | CmdRelayDownstream x \<Rightarrow> relay_message_encode x
      | CmdRelayUpstream x \<Rightarrow> relay_message_encode x)"

definition aps_command_encode :: "aps_command \<Rightarrow> encode" where
  "aps_command_encode c =
     step_try (w_u8 (aps_command_id_raw (aps_command_ident c))) (\<lambda>_. aps_command_encode_body c)"

section \<open>The octets of a command\<close>

definition relay_octets :: "relay_message \<Rightarrow> bytes" where
  "relay_octets x = tlv_octets \<lparr>tlv_tag = TLV_RELAY_MESSAGE, tlv_value = le_bytes 8 (rm_joiner x) @ rm_message x\<rparr>"

definition aps_command_body_octets :: "aps_command \<Rightarrow> bytes" where
  "aps_command_body_octets c =
     (case c of
        CmdTransportKey d \<Rightarrow>
          key_type_raw (kd_key_type d) #
          (case d of
             KdTrustCenterLinkKey key destination source tlvs \<Rightarrow> key @ le_bytes 8 destination @ le_bytes 8 source @ tlvs
           | KdNetworkKey key sequence destination source \<Rightarrow> key @ sequence # le_bytes 8 destination @ le_bytes 8 source
           | KdBasicAuthorizationKey key sequence destination source \<Rightarrow>
               key @ sequence # le_bytes 8 destination @ le_bytes 8 source
           | KdApplicationLinkKey key partner initiator tlvs \<Rightarrow> key @ le_bytes 8 partner @ of_bool initiator # tlvs
           | KdEphemeralAuthorization _ \<Rightarrow> [])
      | CmdUpdateDevice x \<Rightarrow>
          le_bytes 8 (ud_device x) @ le_bytes 2 (ud_short x) @ update_device_status_raw (ud_status x) # ud_joiner_tlvs x
      | CmdRemoveDevice a \<Rightarrow> le_bytes 8 a
      | CmdRequestKey x \<Rightarrow>
          request_key_type_raw (rk_key_type x) #
          (if rk_key_type x = RkApplicationLinkKey then le_bytes 8 (the (rk_partner x)) else [])
      | CmdSwitchKey q \<Rightarrow> [q]
      | CmdTunnel x \<Rightarrow> le_bytes 8 (tu_destination x) @ tu_tunneled x
      | CmdVerifyKey x \<Rightarrow> key_type_raw (vk_key_type x) # le_bytes 8 (vk_source x) @ vk_hash x
      | CmdConfirmKey x \<Rightarrow> [aps_status_raw (ck_status x), key_type_raw (ck_key_type x)] @ le_bytes 8 (ck_destination x)
      | CmdRelayDownstream x \<Rightarrow> relay_octets x
      | CmdRelayUpstream x \<Rightarrow> relay_octets x)"

definition aps_command_octets :: "aps_command \<Rightarrow> bytes" where
  "aps_command_octets c = aps_command_id_raw (aps_command_ident c) # aps_command_body_octets c"

text \<open>
  The commands that survive the air: keys and hashes of sixteen octets, valid TLVs, codes spelled by their
  own constructor, and embedded frames of a length the receiver accepts.
\<close>

definition tlvs_ok :: "bytes \<Rightarrow> bool" where
  "tlvs_ok b \<longleftrightarrow> (\<exists>b'. tlv_validate (\<lambda>_. False) b = Inr b')"

definition aps_command_wf :: "aps_command \<Rightarrow> bool" where
  "aps_command_wf c \<longleftrightarrow>
     (case c of
        CmdTransportKey d \<Rightarrow>
          (case d of
             KdTrustCenterLinkKey key _ _ tlvs \<Rightarrow> length key = 16 \<and> tlvs_ok tlvs
           | KdNetworkKey key _ _ _ \<Rightarrow> length key = 16
           | KdBasicAuthorizationKey key _ _ _ \<Rightarrow> length key = 16
           | KdApplicationLinkKey key _ _ tlvs \<Rightarrow> length key = 16 \<and> tlvs_ok tlvs
           | KdEphemeralAuthorization _ \<Rightarrow> True)
      | CmdUpdateDevice x \<Rightarrow>
          update_device_status_from_raw (update_device_status_raw (ud_status x)) = ud_status x \<and> tlvs_ok (ud_joiner_tlvs x)
      | CmdRequestKey x \<Rightarrow>
          request_key_type_from_raw (request_key_type_raw (rk_key_type x)) = rk_key_type x \<and>
          (rk_partner x \<noteq> None) = (rk_key_type x = RkApplicationLinkKey)
      | CmdTunnel x \<Rightarrow> 7 \<le> length (tu_tunneled x)
      | CmdVerifyKey x \<Rightarrow> key_type_from_raw (key_type_raw (vk_key_type x)) = vk_key_type x \<and> length (vk_hash x) = 16
      | CmdConfirmKey x \<Rightarrow>
          aps_status_from_raw (aps_status_raw (ck_status x)) = ck_status x \<and>
          key_type_from_raw (key_type_raw (ck_key_type x)) = ck_key_type x
      | CmdRelayDownstream x \<Rightarrow> 2 \<le> length (rm_message x) \<and> length (rm_message x) \<le> 248
      | CmdRelayUpstream x \<Rightarrow> 2 \<le> length (rm_message x) \<and> length (rm_message x) \<le> 248
      | _ \<Rightarrow> True)"

lemma aps_command_ident_known: "aps_command_id_from_raw (aps_command_id_raw (aps_command_ident c)) = aps_command_ident c"
  by (cases c) (simp_all add: aps_command_ident_def aps_command_id_raw_def aps_command_id_from_raw_def)

lemma length_aps_command_octets:
  "aps_command_wf c \<Longrightarrow> aps_command_encoded_len c = length (aps_command_octets c)"
  by (cases c)
     (auto simp: aps_command_octets_def aps_command_body_octets_def aps_command_encoded_len_def aps_command_wf_def
       transport_key_encoded_len_def relay_octets_def tlv_octets_def split: key_descriptor.splits)

lemma emits_relay: "length (rm_message x) \<le> 248 \<Longrightarrow> emits (relay_message_encode x) (relay_octets x)"
  by (auto simp: relay_message_encode_def relay_octets_def tlv_octets_def Let_def simp del: of_nat_diff intro!: emits_then)

lemma emits_aps_body: "aps_command_wf c \<Longrightarrow> emits (aps_command_encode_body c) (aps_command_body_octets c)"
  by (cases c)
    (auto simp: aps_command_encode_body_def aps_command_body_octets_def aps_command_wf_def transport_key_encode_def
      update_device_encode_def request_key_encode_def w_present_def tunnel_encode_def verify_key_encode_def
      confirm_key_encode_def intro!: emits_then emits_relay split: key_descriptor.splits)

lemma emits_aps_command: "aps_command_wf c \<Longrightarrow> emits (aps_command_encode c) (aps_command_octets c)"
  unfolding aps_command_encode_def aps_command_octets_def by (intro emits_field(1) emits_aps_body)

lemma reads_rest_tlvs [reads_then]: "tlvs_ok bs \<Longrightarrow> f bs = v \<Longrightarrow> reads_all (step_map f r_rest_tlvs) bs v"
  by (auto simp: reads_all_def r_rest_tlvs_def tlvs_ok_def r_rest_all step_map_def step_try_def)

lemma reads_try_rest: "reads_all (f bs) [] v \<Longrightarrow> reads_all (step_try r_rest f) bs v"
  unfolding reads_all_def
proof (intro allI impI)
  fix r assume f: "\<forall>r. r_ok r \<longrightarrow> r_peek_rest r = [] \<longrightarrow> f bs r = (Inr v, r\<lparr>r_pos := r_pos r + length []\<rparr>)"
    and r: "r_ok r" "r_peek_rest r = bs"
  have "r_ok (r\<lparr>r_pos := r_pos r + length bs\<rparr>)" "r_peek_rest (r\<lparr>r_pos := r_pos r + length bs\<rparr>) = []"
    using r_advance [of r bs "[]"] r by simp_all
  with f have "f bs (r\<lparr>r_pos := r_pos r + length bs\<rparr>) = (Inr v, r\<lparr>r_pos := r_pos r + length bs\<rparr>)" by simp
  with r show "step_try r_rest f r = (Inr v, r\<lparr>r_pos := r_pos r + length bs\<rparr>)" by (simp add: step_try_def r_rest_all)
qed

lemma relay_tlv:
  assumes "2 \<le> length (rm_message x)" "length (rm_message x) \<le> 248"
  shows "tlv_validate (\<lambda>_. False) (relay_octets x) = Inr (relay_octets x)"
    and "set_require (relay_octets x) TLV_RELAY_MESSAGE =
      Inr \<lparr>tlv_tag = TLV_RELAY_MESSAGE, tlv_value = le_bytes 8 (rm_joiner x) @ rm_message x\<rparr>"
proof -
  define t where "t = \<lparr>tlv_tag = TLV_RELAY_MESSAGE, tlv_value = le_bytes 8 (rm_joiner x) @ rm_message x\<rparr>"
  have "tlv_wf t" using assms by (simp add: t_def tlv_wf_def)
  then have i: "tlv_items (relay_octets x) = [Inr t]"
    using tlv_items_octets [of "[t]"] by (simp add: relay_octets_def t_def)
  show "tlv_validate (\<lambda>_. False) (relay_octets x) = Inr (relay_octets x)"
    unfolding tlv_validate_def i
    by (simp add: t_def TLV_RELAY_MESSAGE_def MANUFACTURER_SPECIFIC_TAG_def mark_seen_def is_global_encapsulation_def)
  show "set_require (relay_octets x) TLV_RELAY_MESSAGE = Inr t"
    by (simp add: set_require_def set_find_def set_iter_def i List.map_filter_def t_def)
qed

lemma r_u64_in_front: "r_u64_le (r_new (le_bytes 8 a @ m)) = (Inr a, \<lparr>r_buf = le_bytes 8 a @ m, r_pos = 8\<rparr>)"
proof -
  have "r_u64_le (r_new (le_bytes 8 a @ m)) =
      (Inr a, (r_new (le_bytes 8 a @ m))\<lparr>r_pos := r_pos (r_new (le_bytes 8 a @ m)) + length (le_bytes 8 a)\<rparr>)"
    using parses_u64 [of a] unfolding parses_def by simp
  then show ?thesis by (simp add: r_new_def)
qed

lemma reads_relay:
  assumes "2 \<le> length (rm_message x)" "length (rm_message x) \<le> 248"
  shows "reads_all relay_message_decode (relay_octets x) x"
  unfolding relay_message_decode_def
proof (rule reads_try_rest)
  have m: "fst (r_take_rest \<lparr>r_buf = le_bytes 8 (rm_joiner x) @ rm_message x, r_pos = 8\<rparr>) = rm_message x"
    by (simp add: r_take_rest_def r_peek_rest_ok r_ok_def)
  show "reads_all (case tlv_validate (\<lambda>_. False) (relay_octets x) of
       Inl e \<Rightarrow> step_err (Tlv_err e)
     | Inr s \<Rightarrow>
         (case set_require s TLV_RELAY_MESSAGE of
            Inl e \<Rightarrow> step_err (Tlv_err e)
          | Inr relay \<Rightarrow>
              (case r_u64_le (r_new (tlv_value relay)) of
                 (Inl e, _) \<Rightarrow> step_err e
               | (Inr joiner, rr) \<Rightarrow>
                   (let message = fst (r_take_rest rr) in
                    if length message < 2 then step_err (Truncated 2 (length message))
                    else step_ok \<lparr>rm_joiner = joiner, rm_message = message\<rparr>)))) [] x"
    using assms by (simp add: relay_tlv r_u64_in_front m Let_def reads_all_def)
qed

lemma reads_transport_key:
  "aps_command_wf (CmdTransportKey d) \<Longrightarrow>
     reads_all transport_key_decode (aps_command_body_octets (CmdTransportKey d)) d"
  unfolding transport_key_decode_def aps_command_body_octets_def
  by (cases d)
     (auto simp: aps_command_wf_def kd_key_type_def key_type_raw_def key_type_from_raw_def step_norm r_array_def
       intro!: reads_field reads_rest_tlvs reads_done reads_done_pair reads_map [OF reads_parses [OF parses_u64]])

lemma reads_request_key:
  assumes "aps_command_wf (CmdRequestKey x)"
  shows "reads_all request_key_decode (aps_command_body_octets (CmdRequestKey x)) x"
proof (cases "rk_key_type x = RkApplicationLinkKey")
  case True
  then obtain a where "x = \<lparr>rk_key_type = RkApplicationLinkKey, rk_partner = Some a\<rparr>"
    using assms by (cases x) (auto simp: aps_command_wf_def)
  then show ?thesis
    by (auto simp: request_key_decode_def aps_command_body_octets_def request_key_type_raw_def request_key_type_from_raw_def
        step_norm step_map_def step_try_assoc intro!: reads_field(1) reads_parses parses_then)
next
  case False
  then have x: "x = \<lparr>rk_key_type = rk_key_type x, rk_partner = None\<rparr>"
    "request_key_type_from_raw (request_key_type_raw (rk_key_type x)) = rk_key_type x"
    using assms by (cases x; simp add: aps_command_wf_def)+
  have "reads_all (step_map (\<lambda>partner. \<lparr>rk_key_type = rk_key_type x, rk_partner = partner\<rparr>)
      (\<lambda>r. if 8 \<le> r_remaining r then step_map Some r_u64_le r else step_ok None r)) [] x"
    using x(1) by (auto simp: reads_all_def step_map_def step_try_def r_remaining_def r_peek_rest_ok)
  with False show ?thesis
    by (auto simp: request_key_decode_def aps_command_body_octets_def step_norm x(2) intro!: reads_field(1))
qed

lemma reads_aps_plain:
  "aps_command_wf (CmdUpdateDevice a) \<Longrightarrow> reads_all update_device_decode (aps_command_body_octets (CmdUpdateDevice a)) a"
  "aps_command_wf (CmdTunnel b) \<Longrightarrow> reads_all tunnel_decode (aps_command_body_octets (CmdTunnel b)) b"
  "aps_command_wf (CmdVerifyKey c) \<Longrightarrow> reads_all verify_key_decode (aps_command_body_octets (CmdVerifyKey c)) c"
  "aps_command_wf (CmdConfirmKey d) \<Longrightarrow> reads_all confirm_key_decode (aps_command_body_octets (CmdConfirmKey d)) d"
  by (auto simp: aps_command_body_octets_def aps_command_wf_def update_device_decode_def tunnel_decode_def
      verify_key_decode_def confirm_key_decode_def step_norm
      intro!: reads_then reads_try_rest reads_map [OF reads_parses [OF parses_u64]] reads_map [OF reads_parses [OF parses_array]])

lemma reads_aps_words:
  "reads_all (step_map CmdRemoveDevice r_u64_le) (aps_command_body_octets (CmdRemoveDevice a)) (CmdRemoveDevice a)"
  "reads_all (step_map CmdSwitchKey r_u8) (aps_command_body_octets (CmdSwitchKey q)) (CmdSwitchKey q)"
  by (auto simp: aps_command_body_octets_def
      intro!: reads_map [OF reads_parses [OF parses_u64]] reads_map [OF reads_parses [OF parses_u8]])

lemma reads_aps_body:
  assumes "aps_command_wf c"
  shows "reads_all (aps_command_decode_body (aps_command_ident c)) (aps_command_body_octets c) c"
proof (cases c)
  case (CmdRelayDownstream x)
  with assms show ?thesis
    by (auto simp: aps_command_ident_def aps_command_decode_body_def aps_command_body_octets_def aps_command_wf_def
        intro!: reads_map [OF reads_relay])
next
  case (CmdRelayUpstream x)
  with assms show ?thesis
    by (auto simp: aps_command_ident_def aps_command_decode_body_def aps_command_body_octets_def aps_command_wf_def
        intro!: reads_map [OF reads_relay])
qed (use assms in \<open>auto simp: aps_command_ident_def aps_command_decode_body_def
       intro!: reads_map [OF reads_transport_key] reads_map [OF reads_request_key] reads_map [OF reads_aps_plain(1)]
         reads_map [OF reads_aps_plain(2)] reads_map [OF reads_aps_plain(3)] reads_map [OF reads_aps_plain(4)]
         reads_aps_words\<close>)

lemma reads_aps_command: "aps_command_wf c \<Longrightarrow> reads_all aps_command_decode (aps_command_octets c) c"
  unfolding aps_command_decode_def aps_command_octets_def
  by (intro reads_field(1)) (simp add: aps_command_ident_known reads_aps_body)

lemma cursor_safe_rest_tlvs [safe_intros]: "cursor_safe r_rest_tlvs"
  unfolding r_rest_tlvs_def by (auto intro!: safe_intros split: sum.split)

lemma cursor_safe_transport_key [safe_intros]: "cursor_safe transport_key_decode"
  unfolding transport_key_decode_def by (auto intro!: safe_intros split: key_type.split)

lemma cursor_safe_request_key [safe_intros]: "cursor_safe request_key_decode"
proof -
  have "cursor_safe (\<lambda>r. if 8 \<le> r_remaining r then step_map Some r_u64_le r else step_ok None r)"
    using cursor_safe_map [OF cursor_safe_ints(5), of Some] by (simp add: cursor_safe_def)
  then show ?thesis unfolding request_key_decode_def by (intro safe_intros)
qed

lemma cursor_safe_relay [safe_intros]: "cursor_safe relay_message_decode"
  unfolding relay_message_decode_def Let_def by (auto intro!: safe_intros split: sum.split prod.split)

lemma cursor_safe_aps_body [safe_intros]: "cursor_safe (aps_command_decode_body i)"
  by (cases i; simp only: aps_command_decode_body_def aps_command_id.case update_device_decode_def tunnel_decode_def
      verify_key_decode_def confirm_key_decode_def) (intro safe_intros)+

lemma cursor_safe_aps_command [safe_intros]: "cursor_safe aps_command_decode"
  unfolding aps_command_decode_def by (intro safe_intros)

interpretation acmd: payload_codec aps_command_decode aps_command_encode aps_command_encoded_len aps_command_wf
    aps_command_octets
  by unfold_locales
     (simp_all add: cursor_safe_aps_command emits_aps_command reads_aps_command length_aps_command_octets)

text \<open>
  C28: APS commands survive the air. A representable command is encoded behind its APS header into exactly the
  announced number of octets; a receiver finds the header and its length, and decoding the octets behind it
  returns the command.
\<close>

theorem aps_command_roundtrip:
  assumes "ah_wf h" "aps_command_wf c" "ah_encoded_len h \<le> length out" "aps_command_encoded_len c \<le> length p"
  shows "\<exists>hs cs. encode_to_slice ah_encode h out = (Inr (ah_encoded_len h), hs) \<and>
     encode_to_slice aps_command_encode c p = (Inr (aps_command_encoded_len c), cs) \<and>
     (let apdu = take (ah_encoded_len h) hs @ take (aps_command_encoded_len c) cs in
      ah_decode_prefix apdu = Inr (h, ah_encoded_len h) \<and>
      decode_exact aps_command_decode (drop (ah_encoded_len h) apdu) = Inr c)"
  using ahc.encode_fits [OF assms(1,3)] acmd.encode_fits [OF assms(2,4)] ah_decode_prefix_octets [OF assms(1)]
    acmd.decode_octets [OF assms(2)]
  by (auto simp: Let_def length_ah_octets length_aps_command_octets assms)

theorem aps_command_roundtrip_witness:
  "\<exists>hs cs. encode_to_slice ah_encode (hd_command 9 False) (replicate 4 0) = (Inr 2, hs) \<and>
     encode_to_slice aps_command_encode (CmdTransportKey (KdNetworkKey (replicate 16 7) 3 1 2)) (replicate 40 0) =
       (Inr 35, cs) \<and>
     decode_exact aps_command_decode (drop 2 (take 2 hs @ take 35 cs)) =
       Inr (CmdTransportKey (KdNetworkKey (replicate 16 7) 3 1 2))"
proof -
  define c where "c = CmdTransportKey (KdNetworkKey (replicate 16 7) 3 1 2)"
  have c: "aps_command_wf c" "aps_command_encoded_len c = 35"
    by (simp_all add: c_def aps_command_wf_def aps_command_encoded_len_def transport_key_encoded_len_def)
  have h: "ah_encoded_len (hd_command 9 False) = 2"
    by (simp add: hd_command_def ah_encoded_len_def has_addressing_def)
  show ?thesis
    using aps_command_roundtrip [OF hd_wf(2) c(1), of 9 False "replicate 4 0" "replicate 40 0"]
    unfolding h c(2) Let_def c_def [symmetric] by auto
qed

end
