(* ===== verification/Spec2Isabelle.thy ===== *)
theory Spec2Isabelle
  imports Tlv NorFlashProperties NwkProperties ApsCommand
begin

text \<open>
  A verification of the lower half of \<^verbatim>\<open>panweave\<close>, a Zigbee stack in Rust: the types and the wire codec, frame
  security, the storage that keeps it across power loss, the network layer, and the frames, commands and tables of the
  application support layer.

  \<^bold>\<open>The program.\<close> A \<^verbatim>\<open>panweave\<close> device is a set of crates that call each other downwards and report upwards through queues of
  actions and events. \<^verbatim>\<open>panweave-types\<close> and \<^verbatim>\<open>panweave-codec\<close> hold addresses, channels, time, keys and the bounded readers
  and writers every frame goes through. \<^verbatim>\<open>panweave-security\<close> protects frames (CCM*, auxiliary headers, frame counters, key
  material, the MMO hash). \<^verbatim>\<open>panweave-nwk\<close> is the network layer: neighbor, routing, discovery, broadcast and address tables,
  the transmission and reception paths, joining and leaving, and a timer loop. \<^verbatim>\<open>panweave-aps\<close> adds link keys, bindings,
  groups and end-to-end acknowledgement above it.
  \<^verbatim>\<open>panweave-storage\<close> is a log-structured store on NOR flash, and \<^verbatim>\<open>panweave-runtime\<close> persists the frame counter in it.

  \<^bold>\<open>Conventions.\<close> Fixed-width integers are words and keep their width; \<^verbatim>\<open>usize\<close> is \<^verbatim>\<open>nat\<close>, \<^verbatim>\<open>i8\<close> an \<^verbatim>\<open>int\<close>. A fallible
  routine with state is \<open>s \<Rightarrow> (e + a) \<times> s\<close> (\<^verbatim>\<open>step\<close> in \<^verbatim>\<open>Prelude\<close>): the state an error leaves behind is part of the model. A
  \<^verbatim>\<open>heapless\<close> vector is a list with its capacity checked on every push. A panic or a loop without end is \<^verbatim>\<open>None\<close>. What is not
  in the repository is a parameter: the block cipher (\<^verbatim>\<open>cipher_fn\<close>), the flash driver (locale \<^verbatim>\<open>nor_flash\<close>, interpreted by
  the RAM flash of the tests) and the random source (fields of \<^verbatim>\<open>nwk_env\<close>, as are the table capacities, which are type
  parameters in the code).

  \<^bold>\<open>Theories.\<close>
  \<^item> \<^verbatim>\<open>Prelude\<close>: results, state steps, saturating words, bounded vectors, slices; \<^verbatim>\<open>Types\<close>: \<^verbatim>\<open>panweave-types\<close>.
  \<^item> \<^verbatim>\<open>Codec\<close>, \<^verbatim>\<open>Tlv\<close>: \<^verbatim>\<open>panweave-codec\<close>. The locales \<^verbatim>\<open>decoder\<close>, \<^verbatim>\<open>payload_codec\<close> and \<^verbatim>\<open>wire_codec\<close> state what a codec promises;
    every header and command codec below interprets one of them, and round trips and cursor safety come from there.
  \<^item> \<^verbatim>\<open>FrameCounter\<close>, \<^verbatim>\<open>AuxHeader\<close>, \<^verbatim>\<open>Ccm\<close>, \<^verbatim>\<open>FrameSecurity\<close>, \<^verbatim>\<open>Mmo\<close>, \<^verbatim>\<open>Material\<close>: \<^verbatim>\<open>panweave-security\<close>; \<^verbatim>\<open>NwkSecurity\<close> and
    \<^verbatim>\<open>ApsSecurity\<close>: the security components of the two layers. Shown: CCM* accepts exactly what it encrypts, a protected
    frame is accepted once and restored, whatever is accepted was protected under the key, counters accepted from one
    sender increase, cached ciphers stay those of the keys.
  \<^item> \<^verbatim>\<open>Storage\<close>, \<^verbatim>\<open>NorFlash\<close>, \<^verbatim>\<open>NorFlashWriter\<close>, \<^verbatim>\<open>NorFlashLog\<close>, \<^verbatim>\<open>NorFlashCompaction\<close>, \<^verbatim>\<open>NorFlashStorage\<close>,
    \<^verbatim>\<open>NorFlashProperties\<close>: \<^verbatim>\<open>panweave-storage\<close>. The store refines a map from keys to octets, and a compaction cut anywhere
    loses nothing. \<^verbatim>\<open>CounterPersistence\<close> composes the counter, the runtime's handler of reservations and a store into a
    transition system with power loss: no counter is used twice under one key, and the case in which that fails.
  \<^item> \<^verbatim>\<open>Tables\<close>: the keyed and evicting tables of the network layer as locales; \<^verbatim>\<open>Neighbor\<close>, \<^verbatim>\<open>Routing\<close>, \<^verbatim>\<open>NwkMaps\<close>: the tables
    themselves; \<^verbatim>\<open>NwkFrame\<close>, \<^verbatim>\<open>NwkCommand\<close>: frames and the fifteen commands; \<^verbatim>\<open>NwkScan\<close>: interfaces, beacons, candidates.
  \<^item> \<^verbatim>\<open>NwkState\<close>, \<^verbatim>\<open>NwkTx\<close>, \<^verbatim>\<open>NwkBroadcast\<close>, \<^verbatim>\<open>NwkRoute\<close>, \<^verbatim>\<open>NwkPower\<close>, \<^verbatim>\<open>NwkJoin\<close>, \<^verbatim>\<open>NwkAttach\<close>, \<^verbatim>\<open>NwkRx\<close>: \<^verbatim>\<open>panweave-nwk/src/layer\<close>,
    one operation per method, over the record \<^verbatim>\<open>nwk\<close> with the fields of \<^verbatim>\<open>NwkLayer\<close>.
  \<^item> \<^verbatim>\<open>NwkInvariant\<close>, \<^verbatim>\<open>NwkPreservation\<close>: the invariant \<^verbatim>\<open>nwk_ok\<close> and that every operation keeps it; \<^verbatim>\<open>NwkRuns\<close>: the 41 public
    calls and the states they reach; \<^verbatim>\<open>NwkLoops\<close>: which loops end; \<^verbatim>\<open>NwkDelivery\<close>: what is delivered and relayed;
    \<^verbatim>\<open>NwkProperties\<close>: the properties of the layer.
  \<^item> \<^verbatim>\<open>ApsFrame\<close>, \<^verbatim>\<open>ApsTables\<close>, \<^verbatim>\<open>ApsCommand\<close>: \<^verbatim>\<open>frame.rs\<close>, \<^verbatim>\<open>tables.rs\<close> and \<^verbatim>\<open>command.rs\<close> of \<^verbatim>\<open>panweave-aps\<close>. Header and
    command codecs interpret the codec locales; the binding and group tables interpret \<^verbatim>\<open>set_table\<close>, the duplicate rejection
    table \<^verbatim>\<open>evicting_table\<close>. Shown: commands survive the air, the group table is a bounded relation, and a duplicate is
    recognised for the lifetime of its record.

  \<^bold>\<open>Bounds.\<close> The loops of the flash store carry fuel: the length of a half, which every iteration shortens. The loops over
  the queue of pending unicasts are partial functions; \<^verbatim>\<open>NwkLoops\<close> proves that two of them return and that one may not.

  \<^bold>\<open>Not modelled.\<close> The MAC service and radio drivers, the APS layer's transmission and reception paths, ZDO, ZCL, BDB, Green Power, Smart Energy,
  Zigbee Direct, the runtime apart from counter persistence, the hub, bridges, command line tools, simulator and tests:
  they sit above or below the verified part and exchange only the actions, events and calls modelled here.
\<close>

end
